(* ===== verification/Prelude.thy ===== *)
theory Prelude
  imports Main "HOL-Library.AList" "HOL-Library.Product_Lexorder" "HOL-Library.Word"
begin

text \<open>
  What every theory of the development shares: the exceptions of the Python code, results
  with exceptions (\<open>NameError\<close> stands for \<^verbatim>\<open>UnboundLocalError\<close> too; \<open>Blocked\<close> is not one: it is the result of a call that never returns,
  because it waits for a lock that is never given back), Python's list operations, decimal printing of integers, and the
  collections of simplification rules.

  Python objects that are mutated are passed and returned explicitly. An operation that can
  raise returns a pair of a sum (\<open>Inl\<close> the exception, \<open>Inr\<close> the value) and the state it
  leaves behind, because a Python exception does not undo what was done before it.
  A Python \<open>dict\<close> whose size or iteration the code looks at is an association list,
  in the order in which the interpreter iterates over it.
\<close>

section \<open>Collections of rules\<close>

named_theorems py_simps \<open>equations of the Python list and string operations\<close>
named_theorems frame_simps \<open>components of the state an operation leaves alone\<close>
named_theorems inv_intros \<open>operations keep the invariant of their component\<close>

section \<open>Exceptions and results\<close>

datatype exn =
    ValueError | TypeError | IndexError | KeyError | AttributeError | SocketError | AddrFormatError
  | NameError
  | Blocked

type_synonym ('a, 's) outcome = "(exn + 'a) \<times> 's"

text \<open>\<open>and_then\<close> is Python's sequencing: a raised exception skips what follows.\<close>

definition and_then :: "('a, 's) outcome \<Rightarrow> ('a \<Rightarrow> 's \<Rightarrow> ('b, 's) outcome) \<Rightarrow> ('b, 's) outcome" where
  "and_then m f = (case m of (Inl e, s) \<Rightarrow> (Inl e, s) | (Inr a, s) \<Rightarrow> f a s)"

lemma and_then_simps [simp]:
  "and_then (Inl e, s) f = (Inl e, s)"
  "and_then (Inr a, s) f = f a s"
  by (simp_all add: and_then_def)

lemma and_then_split:
  "P (and_then m f) \<longleftrightarrow>
     (\<forall>e s. m = (Inl e, s) \<longrightarrow> P (Inl e, s)) \<and> (\<forall>a s. m = (Inr a, s) \<longrightarrow> P (f a s))"
  by (cases m; cases "fst m") auto

text \<open>
  \<^verbatim>\<open>except Exception\<close> turns an exception into a result; nothing can turn waiting for a lock
  into one.
\<close>

definition catch :: "'a \<Rightarrow> ('a, 's) outcome \<Rightarrow> ('a, 's) outcome" where
  "catch a m = (case m of (Inl e, s) \<Rightarrow> (if e = Blocked then (Inl e, s) else (Inr a, s)) | (Inr x, s) \<Rightarrow> (Inr x, s))"

lemma catch_state: "catch a m = (x, s) \<Longrightarrow> snd m = s"
  by (auto simp: catch_def split: prod.splits sum.splits if_splits)

lemma catch_run:
  assumes "catch a m = (Inr x, s)"
  obtains (ok) "m = (Inr x, s)" | (caught) e where "m = (Inl e, s)" "x = a"
  using assms by (auto simp: catch_def split: prod.splits sum.splits if_splits)

lemma catch_not_blocked: "catch a m = (x, s) \<Longrightarrow> fst m \<noteq> Inl Blocked \<Longrightarrow> x \<noteq> Inl Blocked"
  by (cases m) (auto simp: catch_def split: sum.splits if_splits)

lemma catch_outcome: "catch a m = (Inr x, s) \<Longrightarrow> \<exists>y. m = (y, s)"
  by (erule catch_run) auto

text \<open>The same for code that leaves no state behind, and an optional value as a result.\<close>

definition try_bind :: "exn + 'a \<Rightarrow> ('a \<Rightarrow> exn + 'b) \<Rightarrow> exn + 'b" where
  "try_bind m f = (case m of Inl e \<Rightarrow> Inl e | Inr a \<Rightarrow> f a)"

definition or_raise :: "exn \<Rightarrow> 'a option \<Rightarrow> exn + 'a" where
  "or_raise e x = (case x of None \<Rightarrow> Inl e | Some a \<Rightarrow> Inr a)"

lemma try_bind_simps [simp]:
  "try_bind (Inl e) f = Inl e"
  "try_bind (Inr a) f = f a"
  "or_raise e None = Inl e"
  "or_raise e (Some a) = Inr a"
  by (simp_all add: try_bind_def or_raise_def)

lemma try_bind_Inr: "try_bind m f = Inr b \<longleftrightarrow> (\<exists>a. m = Inr a \<and> f a = Inr b)"
  by (cases m) auto

lemma try_bind_Inl: "try_bind m f = Inl e \<longleftrightarrow> m = Inl e \<or> (\<exists>a. m = Inr a \<and> f a = Inl e)"
  by (cases m) auto

lemma or_raise_Inr: "or_raise e x = Inr a \<longleftrightarrow> x = Some a"
  by (cases x) auto

section \<open>Python lists\<close>

text \<open>\<open>list.index(x)\<close>: the first position whose element equals \<open>x\<close>; the element is on the
  left of \<open>==\<close>. The \<open>ValueError\<close> of a missing element is \<open>None\<close>.\<close>

fun list_index :: "('a \<Rightarrow> bool) \<Rightarrow> 'a list \<Rightarrow> nat option" where
  "list_index p [] = None"
| "list_index p (x # xs) = (if p x then Some 0 else map_option Suc (list_index p xs))"

lemma list_index_None [py_simps]: "list_index p xs = None \<longleftrightarrow> (\<forall>x\<in>set xs. \<not> p x)"
  by (induction xs) auto

lemma list_index_Some:
  "list_index p xs = Some i \<longleftrightarrow> i < length xs \<and> p (xs ! i) \<and> (\<forall>j<i. \<not> p (xs ! j))"
proof (induction xs arbitrary: i)
  case Nil
  then show ?case by simp
next
  case (Cons x xs)
  show ?case
    by (cases i) (use Cons in \<open>auto simp: less_Suc_eq_0_disj split: if_splits\<close>)
qed

text \<open>\<open>list.insert(i, x)\<close> and \<open>del list[i]\<close>; the deletion is only reached with
  \<open>i < len\<close>.\<close>

definition list_insert :: "nat \<Rightarrow> 'a \<Rightarrow> 'a list \<Rightarrow> 'a list" where
  "list_insert i x xs = take i xs @ x # drop i xs"

definition list_del :: "nat \<Rightarrow> 'a list \<Rightarrow> 'a list" where
  "list_del i xs = take i xs @ drop (Suc i) xs"

lemma list_insert_simps [simp, py_simps]:
  "length (list_insert i x xs) = Suc (length xs)"
  "set (list_insert i x xs) = insert x (set xs)"
  "map f (list_insert i x xs) = list_insert i (f x) (map f xs)"
  "list_insert 0 x xs = x # xs"
proof -
  have "set (take i xs) \<union> set (drop i xs) = set xs"
    by (metis append_take_drop_id set_append)
  then show "set (list_insert i x xs) = insert x (set xs)"
    by (auto simp: list_insert_def)
qed (auto simp: list_insert_def take_map drop_map)

lemma list_del_simps [simp, py_simps]:
  "i < length xs \<Longrightarrow> length (list_del i xs) = length xs - 1"
  "map f (list_del i xs) = list_del i (map f xs)"
  by (auto simp: list_del_def take_map drop_map)

lemma set_list_del_subset: "set (list_del i xs) \<subseteq> set xs"
  by (auto simp: list_del_def dest: in_set_takeD in_set_dropD)

lemma list_del_insert [simp]: "i \<le> length xs \<Longrightarrow> list_del i (list_insert i x xs) = xs"
  by (simp add: list_del_def list_insert_def)

lemma list_insert_del: "i < length xs \<Longrightarrow> list_insert i (xs ! i) (list_del i xs) = xs"
  by (simp add: list_del_def list_insert_def id_take_nth_drop [symmetric])

lemma list_insert_nth [simp]: "i \<le> length xs \<Longrightarrow> list_insert i x xs ! i = x"
  by (simp add: list_insert_def nth_append)

lemma distinct_list_insert:
  "distinct (list_insert i x xs) \<longleftrightarrow> distinct xs \<and> x \<notin> set xs"
proof -
  have "distinct (list_insert i x xs) \<longleftrightarrow> distinct (take i xs @ drop i xs) \<and> x \<notin> set (take i xs @ drop i xs)"
    unfolding list_insert_def distinct_append set_append by auto
  then show ?thesis by (simp only: append_take_drop_id)
qed

lemma set_list_del_distinct:
  assumes "distinct xs" "i < length xs"
  shows "set (list_del i xs) = set xs - {xs ! i}"
proof -
  have xs: "xs = take i xs @ xs ! i # drop (Suc i) xs"
    by (rule id_take_nth_drop [OF assms(2)])
  then have "distinct (take i xs @ xs ! i # drop (Suc i) xs)" using assms(1) by simp
  then have "set (list_del i xs) = set (take i xs @ xs ! i # drop (Suc i) xs) - {xs ! i}"
    by (auto simp: list_del_def)
  then show ?thesis using xs by simp
qed

lemma distinct_list_del: "distinct xs \<Longrightarrow> distinct (list_del i xs)"
  unfolding list_del_def
  by (auto simp: distinct_append set_take_disj_set_drop_if_distinct
      dest: set_take_disj_set_drop_if_distinct [where i = i and j = "Suc i"])

lemma sorted_list_del: "sorted xs \<Longrightarrow> sorted (list_del i xs)"
proof -
  assume s: "sorted xs"
  have "sorted (take i xs @ drop i xs)" using s by simp
  then have "\<forall>x\<in>set (take i xs). \<forall>y\<in>set (drop i xs). x \<le> y"
    unfolding sorted_append by blast
  moreover have "set (drop (Suc i) xs) \<subseteq> set (drop i xs)"
    by (rule set_drop_subset_set_drop) simp
  ultimately show ?thesis
    using s by (auto simp: list_del_def sorted_append)
qed

section \<open>\<open>bisect.bisect_right\<close>\<close>

text \<open>The binary search of the standard library, as CPython writes it.\<close>

function bisect_loop :: "'a::linorder list \<Rightarrow> 'a \<Rightarrow> nat \<Rightarrow> nat \<Rightarrow> nat" where
  "bisect_loop a x lo hi =
     (if lo < hi then
        (let mid = (lo + hi) div 2
         in if x < a ! mid then bisect_loop a x lo mid else bisect_loop a x (Suc mid) hi)
      else lo)"
  by pat_completeness auto
termination
  by (relation "measure (\<lambda>(a, x, lo, hi). hi - lo)") auto

declare bisect_loop.simps [simp del]

definition bisect_right :: "'a::linorder list \<Rightarrow> 'a \<Rightarrow> nat" where
  "bisect_right a x = bisect_loop a x 0 (length a)"

lemma bisect_loop_spec:
  assumes "sorted a" "lo \<le> hi" "hi \<le> length a"
    and "\<forall>i<lo. a ! i \<le> x" "\<forall>i. hi \<le> i \<longrightarrow> i < length a \<longrightarrow> x < a ! i"
  shows "bisect_loop a x lo hi \<le> length a \<and> (\<forall>i < bisect_loop a x lo hi. a ! i \<le> x)
    \<and> (\<forall>i. bisect_loop a x lo hi \<le> i \<longrightarrow> i < length a \<longrightarrow> x < a ! i)"
  using assms
proof (induction a x lo hi rule: bisect_loop.induct)
  case (1 a x lo hi)
  show ?case
  proof (cases "lo < hi")
    case False
    with "1.prems" show ?thesis by (subst (1 2 3) bisect_loop.simps) auto
  next
    case True
    define mid where "mid = (lo + hi) div 2"
    have mid: "lo \<le> mid" "mid < hi" "mid < length a"
      using True "1.prems"(3) by (auto simp: mid_def)
    have nth_mono: "a ! i \<le> a ! j" if "i \<le> j" "j < length a" for i j
      using "1.prems"(1) that by (rule sorted_nth_mono)
    show ?thesis
    proof (cases "x < a ! mid")
      case lt: True
      have "x < a ! i" if "mid \<le> i" "i < length a" for i
        using lt nth_mono [OF that] by order
      then have "\<forall>i. mid \<le> i \<longrightarrow> i < length a \<longrightarrow> x < a ! i" by simp
      with "1.IH"(1) [OF True mid_def lt "1.prems"(1) mid(1)] mid "1.prems"
      show ?thesis
        using True lt by (simp add: bisect_loop.simps [of a x lo hi] Let_def flip: mid_def)
    next
      case ge: False
      have "a ! i \<le> x" if "i < Suc mid" for i
        using ge nth_mono [of i mid] that mid by force
      then have "\<forall>i<Suc mid. a ! i \<le> x" by simp
      with "1.IH"(2) [OF True mid_def ge "1.prems"(1)] mid "1.prems"
      show ?thesis
        using True ge by (simp add: bisect_loop.simps [of a x lo hi] Let_def flip: mid_def)
    qed
  qed
qed

lemma bisect_right_spec:
  assumes "sorted a"
  shows "bisect_right a x \<le> length a"
    and "\<And>i. i < bisect_right a x \<Longrightarrow> a ! i \<le> x"
    and "\<And>i. bisect_right a x \<le> i \<Longrightarrow> i < length a \<Longrightarrow> x < a ! i"
  using bisect_loop_spec [of a 0 "length a" x] assms by (auto simp: bisect_right_def)

lemma sorted_bisect_insert:
  assumes "sorted a"
  shows "sorted (list_insert (bisect_right a x) x a)"
proof -
  note spec = bisect_right_spec(1) [OF assms, of x] bisect_right_spec(2) [OF assms, of _ x]
    bisect_right_spec(3) [OF assms, of x]
  have le: "\<forall>y\<in>set (take (bisect_right a x) a). y \<le> x"
    using spec(1,2) by (auto simp: in_set_conv_nth)
  have gt: "\<forall>y\<in>set (drop (bisect_right a x) a). x \<le> y"
    using spec(3) by (auto simp: in_set_conv_nth less_imp_le)
  from le gt have "\<forall>y\<in>set (take (bisect_right a x) a). \<forall>z\<in>set (drop (bisect_right a x) a). y \<le> z"
    by force
  with le gt assms show ?thesis
    by (auto simp: list_insert_def sorted_append)
qed

section \<open>Strings\<close>

text \<open>\<open>str(n)\<close> of an integer.\<close>

fun nat_dec :: "nat \<Rightarrow> string" where
  "nat_dec n = (if n < 10 then [''0123456789'' ! n] else nat_dec (n div 10) @ [''0123456789'' ! (n mod 10)])"

declare nat_dec.simps [simp del]

definition dec :: "int \<Rightarrow> string" where
  "dec n = (if n < 0 then ''-'' @ nat_dec (nat (- n)) else nat_dec (nat n))"

text \<open>The digits of a large number without counting to it, for the evaluation of examples.\<close>

function int_dec :: "int \<Rightarrow> string" where
  "int_dec n = (case n < 10 of True \<Rightarrow> [''0123456789'' ! nat n]
     | False \<Rightarrow> int_dec (n div 10) @ [''0123456789'' ! nat (n mod 10)])"
  by auto
termination by (relation "measure nat") auto

declare int_dec.simps [simp del]

lemma int_dec_nat_dec: "0 \<le> n \<Longrightarrow> int_dec n = nat_dec (nat n)"
proof (induction n rule: int_dec.induct)
  case (1 n)
  have "nat n < 10 \<longleftrightarrow> n < 10" by linarith
  with 1 show ?case
    by (cases "n < 10") (simp_all add: int_dec.simps [of n] nat_dec.simps [of "nat n"] nat_div_distrib nat_mod_distrib)
qed

lemma dec_code [code]: "dec n = (case n < 0 of True \<Rightarrow> ''-'' @ int_dec (- n) | False \<Rightarrow> int_dec n)"
  by (simp add: dec_def int_dec_nat_dec)

text \<open>\<open>sep.join(parts)\<close> and \<open>s.split(sep)\<close> for a separator of one character.\<close>

fun join :: "string \<Rightarrow> string list \<Rightarrow> string" where
  "join sep [] = ''''"
| "join sep [x] = x"
| "join sep (x # xs) = x @ sep @ join sep xs"

fun split_on :: "char \<Rightarrow> string \<Rightarrow> string list" where
  "split_on c [] = [[]]"
| "split_on c (x # xs) =
     (if x = c then [] # split_on c xs
      else (case split_on c xs of [] \<Rightarrow> [[x]] | p # ps \<Rightarrow> (x # p) # ps))"

text \<open>\<open>s.split()\<close>: the words between white space.\<close>

definition is_space :: "char \<Rightarrow> bool" where
  "is_space c \<longleftrightarrow> c \<in> {CHR '' '', CHR 0x09, CHR 0x0A, CHR 0x0B, CHR 0x0C, CHR 0x0D}"

fun split_ws_acc :: "string \<Rightarrow> string \<Rightarrow> string list" where
  "split_ws_acc word [] = (if word = [] then [] else [word])"
| "split_ws_acc word (c # cs) =
     (if is_space c then (if word = [] then [] else [word]) @ split_ws_acc [] cs
      else split_ws_acc (word @ [c]) cs)"

definition split_ws :: "string \<Rightarrow> string list" where
  "split_ws s = split_ws_acc [] s"

text \<open>\<open>pat in s\<close>: a substring test.\<close>

fun str_in :: "string \<Rightarrow> string \<Rightarrow> bool" where
  "str_in pat [] = (pat = [])"
| "str_in pat (x # xs) = (take (length pat) (x # xs) = pat \<or> str_in pat xs)"

lemma split_on_nonempty [simp]: "split_on c s \<noteq> []"
  by (induction s) (auto split: list.splits)

lemma split_on_no_sep: "c \<notin> set s \<Longrightarrow> split_on c s = [s]"
  by (induction s) auto

lemma split_on_append: "c \<notin> set s \<Longrightarrow> split_on c (s @ c # t) = s # split_on c t"
  by (induction s) auto

text \<open>Stripping white space.\<close>

definition lstrip :: "string \<Rightarrow> string" where
  "lstrip s = dropWhile is_space s"

definition rstrip :: "string \<Rightarrow> string" where
  "rstrip s = rev (dropWhile is_space (rev s))"

definition strip :: "string \<Rightarrow> string" where
  "strip s = rstrip (lstrip s)"

definition is_digit :: "char \<Rightarrow> bool" where
  "is_digit c \<longleftrightarrow> c \<in> set ''0123456789''"

text \<open>\<open>s.lower()\<close>.\<close>

definition lower :: "string \<Rightarrow> string" where
  "lower s = map (\<lambda>c. if 65 \<le> (of_char c :: nat) \<and> (of_char c :: nat) \<le> 90
                       then char_of ((of_char c :: nat) + 32) else c) s"

section \<open>Services\<close>

text \<open>
  A service is started in an initial state and answers calls; its states are those some sequence
  of answered calls reaches. \<open>service\<close> is the contract of its invariant.
\<close>

inductive reach :: "('s \<Rightarrow> bool) \<Rightarrow> ('s \<Rightarrow> 's \<Rightarrow> bool) \<Rightarrow> 's \<Rightarrow> bool" for start step where
  reach_start: "start s \<Longrightarrow> reach start step s"
| reach_step: "reach start step s \<Longrightarrow> step s s' \<Longrightarrow> reach start step s'"

locale service =
  fixes start :: "'s \<Rightarrow> bool" and step :: "'s \<Rightarrow> 's \<Rightarrow> bool" and inv :: "'s \<Rightarrow> bool"
  assumes inv_start: "start s \<Longrightarrow> inv s"
    and inv_step: "inv s \<Longrightarrow> step s s' \<Longrightarrow> inv s'"
begin

lemma reach_inv: "reach start step s \<Longrightarrow> inv s"
  by (induction rule: reach.induct) (auto intro: inv_start inv_step)

end

end
