(* ===== verification/IdTool.thy ===== *)
theory IdTool
  imports Prelude "HOL-Library.FSet"
begin

text \<open>
  \<^verbatim>\<open>scripts/lib/python/dn_base_id_tool.py\<close>: the class \<open>IdGenerator\<close>, which hands out and
  takes back the identifiers of the firewall rules. The object is a record, its set of
  reserved identifiers a finite set, so both loops of the class terminate on every object.
  The lock of the class is taken and given back around straight-line code and is left out.

  The locale \<open>id_allocator\<close> is the contract the rule caches rely on; it is interpreted on the
  class at the end.
\<close>

section \<open>The class\<close>

record id_gen =
  resved_ids :: "int fset"
  min_id :: int
  max_id :: "int option"
  avail_id :: "int option"
  max_resved_id :: "int option"

definition IdGenerator_init :: "int option \<Rightarrow> int option \<Rightarrow> exn + id_gen" where
  "IdGenerator_init mn mx =
     (if (case (mn, mx) of (Some a, Some b) \<Rightarrow> a \<ge> b | _ \<Rightarrow> False) then Inl ValueError
      else (let lo = (case mn of None \<Rightarrow> 1 | Some a \<Rightarrow> a)
            in Inr \<lparr>resved_ids = {||}, min_id = lo, max_id = mx, avail_id = Some lo,
                    max_resved_id = None\<rparr>))"

text \<open>The \<open>while\<close> loop of \<open>get_next_avail_id\<close>, from the incremented \<open>avail_id\<close>.\<close>

function next_avail_loop :: "int fset \<Rightarrow> int option \<Rightarrow> int \<Rightarrow> int" where
  "next_avail_loop R mx a =
     (if (case mx of None \<Rightarrow> True | Some m \<Rightarrow> a \<le> m)
      then (if a |\<notin>| R then a else next_avail_loop R mx (a + 1))
      else a)"
  by pat_completeness auto
termination
proof (relation "measure (\<lambda>(R, mx, a). card {i. i |\<in>| R \<and> a \<le> i})")
  fix R :: "int fset" and mx :: "int option" and a :: int
  assume "\<not> a |\<notin>| R"
  then have "{i. i |\<in>| R \<and> a + 1 \<le> i} \<subset> {i. i |\<in>| R \<and> a \<le> i}"
    by (intro psubsetI) (force, metis (mono_tags, lifting) mem_Collect_eq order_refl zle_add1_eq_le
        less_irrefl)
  moreover have "finite {i. i |\<in>| R \<and> a \<le> i}" by (rule finite_subset [of _ "fset R"]) auto
  ultimately have "card {i. i |\<in>| R \<and> a + 1 \<le> i} < card {i. i |\<in>| R \<and> a \<le> i}"
    by (rule psubset_card_mono [rotated])
  then show "((R, mx, a + 1), (R, mx, a)) \<in> measure (\<lambda>(R, mx, a). card {i. i |\<in>| R \<and> a \<le> i})"
    by simp
qed simp

declare next_avail_loop.simps [simp del]

text \<open>\<open>get_next_avail_id\<close>; its callers make sure that \<open>avail_id\<close> is an identifier.\<close>

definition get_next_avail_id :: "int \<Rightarrow> id_gen \<Rightarrow> id_gen" where
  "get_next_avail_id a g =
     (let a' = next_avail_loop (resved_ids g) (max_resved_id g) (a + 1)
      in (case max_id g of
            None \<Rightarrow> g\<lparr>avail_id := Some a'\<rparr>
          | Some m \<Rightarrow> (if a' > m then g\<lparr>avail_id := None\<rparr> else g\<lparr>avail_id := Some a'\<rparr>)))"

definition raise_max :: "int \<Rightarrow> id_gen \<Rightarrow> id_gen" where
  "raise_max i g =
     (if (case max_resved_id g of None \<Rightarrow> True | Some m \<Rightarrow> i > m)
      then g\<lparr>max_resved_id := Some i\<rparr> else g)"

definition get_new_id :: "id_gen \<Rightarrow> int option \<times> id_gen" where
  "get_new_id g =
     (case avail_id g of
        None \<Rightarrow> (None, g)
      | Some a \<Rightarrow>
          (let g1 = g\<lparr>resved_ids := finsert a (resved_ids g)\<rparr>;
               g2 = get_next_avail_id a g1
           in (Some a, raise_max a g2)))"

text \<open>The \<open>while\<close> loop of \<open>release_id\<close>, which looks for the next lower reserved identifier.\<close>

function release_loop :: "int fset \<Rightarrow> int \<Rightarrow> int \<Rightarrow> int" where
  "release_loop R mn i =
     (if i \<ge> mn then (if i |\<in>| R then i else release_loop R mn (i - 1)) else i)"
  by pat_completeness auto
termination
  by (relation "measure (\<lambda>(R, mn, i). nat (i - mn + 1))") auto

declare release_loop.simps [simp del]

text \<open>\<open>release_id\<close>. In Python 2 no integer is less than \<open>None\<close>, so an \<open>avail_id\<close> of
  \<open>None\<close> is left as it is.\<close>

definition release_id :: "int \<Rightarrow> id_gen \<Rightarrow> bool \<times> id_gen" where
  "release_id i g =
     (if i |\<notin>| resved_ids g then (False, g)
      else
        (let R = resved_ids g |-| {|i|};
             g1 = g\<lparr>resved_ids := R\<rparr>;
             g2 = (if (case avail_id g of None \<Rightarrow> False | Some a \<Rightarrow> i < a)
                   then g1\<lparr>avail_id := Some i\<rparr> else g1)
         in (if max_resved_id g = Some i
             then (let j = release_loop R (min_id g) i
                   in (True, if j < min_id g then g2\<lparr>max_resved_id := None\<rparr>
                             else g2\<lparr>max_resved_id := Some j\<rparr>))
             else (True, g2))))"

definition is_id_used :: "int \<Rightarrow> id_gen \<Rightarrow> bool" where
  "is_id_used i g \<longleftrightarrow> i |\<in>| resved_ids g"

definition reserve_id :: "int \<Rightarrow> id_gen \<Rightarrow> bool \<times> id_gen" where
  "reserve_id i g =
     (if i < min_id g \<or> (case max_id g of None \<Rightarrow> False | Some m \<Rightarrow> i > m) then (False, g)
      else if i |\<in>| resved_ids g then (False, g)
      else
        (let g1 = g\<lparr>resved_ids := finsert i (resved_ids g)\<rparr>;
             g2 = (if avail_id g = Some i then get_next_avail_id i g1 else g1)
         in (True, raise_max i g2)))"

text \<open>The part of \<open>__str__\<close> that compresses the reserved identifiers to ranges.\<close>

fun range_loop :: "int \<Rightarrow> int \<Rightarrow> int list \<Rightarrow> (int \<times> int) list" where
  "range_loop start prev [] = [(start, prev)]"
| "range_loop start prev (x # xs) =
     (if x > prev + 1 then (start, prev) # range_loop x x xs else range_loop start x xs)"

definition id_ranges :: "int fset \<Rightarrow> (int \<times> int) list" where
  "id_ranges R = (case sorted_list_of_fset R of [] \<Rightarrow> [] | x # xs \<Rightarrow> range_loop x x xs)"

definition add_range :: "int \<times> int \<Rightarrow> string" where
  "add_range r = (if snd r > fst r then dec (fst r) @ ''-'' @ dec (snd r) else dec (fst r))"

definition reserved_str :: "int fset \<Rightarrow> string" where
  "reserved_str R = (if id_ranges R = [] then ''-'' else join '','' (map add_range (id_ranges R)))"

section \<open>The invariant\<close>

text \<open>
  The reserved identifiers lie in the range, \<open>max_resved_id\<close> is the largest of them, and
  \<open>avail_id\<close>, when it is an identifier, is the smallest one that is free.
\<close>

definition id_inv :: "id_gen \<Rightarrow> bool" where
  "id_inv g \<longleftrightarrow>
     (\<forall>i. i |\<in>| resved_ids g \<longrightarrow> min_id g \<le> i \<and> (\<forall>m. max_id g = Some m \<longrightarrow> i \<le> m)) \<and>
     (case max_resved_id g of
        None \<Rightarrow> resved_ids g = {||}
      | Some m \<Rightarrow> m |\<in>| resved_ids g \<and> (\<forall>i. i |\<in>| resved_ids g \<longrightarrow> i \<le> m)) \<and>
     (case avail_id g of
        None \<Rightarrow> max_id g \<noteq> None
      | Some a \<Rightarrow> min_id g \<le> a \<and> a |\<notin>| resved_ids g \<and>
          (\<forall>i. min_id g \<le> i \<and> i < a \<longrightarrow> i |\<in>| resved_ids g) \<and>
          (\<forall>m. max_id g = Some m \<longrightarrow> a \<le> m))"

lemma next_avail_loop_spec:
  assumes "\<forall>m. mx = Some m \<longrightarrow> (\<forall>i. i |\<in>| R \<longrightarrow> i \<le> m \<or> i < a)"
  shows "a \<le> next_avail_loop R mx a \<and> next_avail_loop R mx a |\<notin>| R \<and>
    (\<forall>i. a \<le> i \<and> i < next_avail_loop R mx a \<longrightarrow> i |\<in>| R)"
  using assms
proof (induction R mx a rule: next_avail_loop.induct)
  case (1 R mx a)
  show ?case
  proof (cases "(case mx of None \<Rightarrow> True | Some m \<Rightarrow> a \<le> m) \<and> a |\<in>| R")
    case False
    then have "next_avail_loop R mx a = a" by (subst next_avail_loop.simps) auto
    moreover have "a |\<notin>| R"
      using False "1.prems" by (auto split: option.splits)
    ultimately show ?thesis by auto
  next
    case True
    then have eq: "next_avail_loop R mx a = next_avail_loop R mx (a + 1)"
      by (subst next_avail_loop.simps) auto
    have "\<forall>m. mx = Some m \<longrightarrow> (\<forall>i. i |\<in>| R \<longrightarrow> i \<le> m \<or> i < a + 1)"
      using "1.prems" by force
    moreover have "case mx of None \<Rightarrow> True | Some m \<Rightarrow> a \<le> m" "\<not> a |\<notin>| R"
      using True by simp_all
    ultimately have IH: "a + 1 \<le> next_avail_loop R mx (a + 1) \<and> next_avail_loop R mx (a + 1) |\<notin>| R \<and>
      (\<forall>i. a + 1 \<le> i \<and> i < next_avail_loop R mx (a + 1) \<longrightarrow> i |\<in>| R)"
      using "1.IH" by blast
    have "i |\<in>| R" if "a \<le> i" "i < next_avail_loop R mx (a + 1)" for i
      using that IH True by (cases "i = a") auto
    with IH show ?thesis unfolding eq by auto
  qed
qed

lemma release_loop_spec:
  "release_loop R mn i \<le> i \<and> (release_loop R mn i \<ge> mn \<longrightarrow> release_loop R mn i |\<in>| R) \<and>
   (\<forall>j. j \<ge> mn \<and> j \<le> i \<and> j > release_loop R mn i \<longrightarrow> j |\<notin>| R)"
proof (induction R mn i rule: release_loop.induct)
  case (1 R mn i)
  show ?case
  proof (cases "i \<ge> mn \<and> i |\<notin>| R")
    case False
    then have "release_loop R mn i = i" by (subst release_loop.simps) auto
    with False show ?thesis by auto
  next
    case True
    then have eq: "release_loop R mn i = release_loop R mn (i - 1)"
      by (subst release_loop.simps) auto
    have IH: "release_loop R mn (i - 1) \<le> i - 1 \<and>
      (release_loop R mn (i - 1) \<ge> mn \<longrightarrow> release_loop R mn (i - 1) |\<in>| R) \<and>
      (\<forall>j. j \<ge> mn \<and> j \<le> i - 1 \<and> j > release_loop R mn (i - 1) \<longrightarrow> j |\<notin>| R)"
      by (rule "1.IH") (use True in simp_all)
    have "j |\<notin>| R" if "j \<ge> mn" "j \<le> i" "j > release_loop R mn (i - 1)" for j
      using that IH True by (cases "j = i") auto
    with IH show ?thesis unfolding eq by auto
  qed
qed

lemma get_next_avail_id_frame [frame_simps]:
  "resved_ids (get_next_avail_id a g) = resved_ids g"
  "min_id (get_next_avail_id a g) = min_id g"
  "max_id (get_next_avail_id a g) = max_id g"
  "max_resved_id (get_next_avail_id a g) = max_resved_id g"
  by (simp_all add: get_next_avail_id_def Let_def split: option.split)

lemma raise_max_frame [frame_simps]:
  "resved_ids (raise_max i g) = resved_ids g"
  "min_id (raise_max i g) = min_id g"
  "max_id (raise_max i g) = max_id g"
  "avail_id (raise_max i g) = avail_id g"
  by (simp_all add: raise_max_def)

text \<open>The effect of reserving the free identifier that \<open>avail_id\<close> names, or another one.\<close>

lemma reserve_inv:
  assumes inv: "id_inv g" and i: "min_id g \<le> i" "\<forall>m. max_id g = Some m \<longrightarrow> i \<le> m"
    and free: "i |\<notin>| resved_ids g"
  defines "g1 \<equiv> g\<lparr>resved_ids := finsert i (resved_ids g)\<rparr>"
  shows "id_inv (raise_max i (if avail_id g = Some i then get_next_avail_id i g1 else g1))"
proof -
  let ?g2 = "if avail_id g = Some i then get_next_avail_id i g1 else g1"
  have range: "\<forall>j. j |\<in>| resved_ids g1 \<longrightarrow> min_id g \<le> j \<and> (\<forall>m. max_id g = Some m \<longrightarrow> j \<le> m)"
    using inv i by (auto simp: id_inv_def g1_def)
  have mx: "case max_resved_id (raise_max i ?g2) of
        None \<Rightarrow> resved_ids g1 = {||}
      | Some m \<Rightarrow> m |\<in>| resved_ids g1 \<and> (\<forall>j. j |\<in>| resved_ids g1 \<longrightarrow> j \<le> m)"
    using inv
    by (auto simp: id_inv_def raise_max_def frame_simps g1_def split: option.splits if_splits)
  have av: "case avail_id ?g2 of
        None \<Rightarrow> max_id g \<noteq> None
      | Some a \<Rightarrow> min_id g \<le> a \<and> a |\<notin>| resved_ids g1 \<and>
          (\<forall>j. min_id g \<le> j \<and> j < a \<longrightarrow> j |\<in>| resved_ids g1) \<and> (\<forall>m. max_id g = Some m \<longrightarrow> a \<le> m)"
  proof (cases "avail_id g = Some i")
    case False
    with inv show ?thesis by (auto simp: id_inv_def g1_def split: option.splits)
  next
    case True
    define a where "a = next_avail_loop (resved_ids g1) (max_resved_id g) (i + 1)"
    have below: "\<forall>j. min_id g \<le> j \<and> j < i \<longrightarrow> j |\<in>| resved_ids g"
      using inv True by (simp add: id_inv_def)
    have "\<forall>m. max_resved_id g = Some m \<longrightarrow> (\<forall>j. j |\<in>| resved_ids g1 \<longrightarrow> j \<le> m \<or> j < i + 1)"
      using inv by (auto simp: id_inv_def g1_def)
    from next_avail_loop_spec [OF this]
    have a: "i + 1 \<le> a" "a |\<notin>| resved_ids g1" "\<forall>j. i + 1 \<le> j \<and> j < a \<longrightarrow> j |\<in>| resved_ids g1"
      by (simp_all add: a_def)
    have all: "j |\<in>| resved_ids g1" if "min_id g \<le> j" "j < a" for j
      using that a(3) below by (cases j i rule: linorder_cases) (auto simp: g1_def)
    have "avail_id (get_next_avail_id i g1) =
        (case max_id g of None \<Rightarrow> Some a | Some m \<Rightarrow> if a > m then None else Some a)"
      by (simp add: get_next_avail_id_def a_def g1_def Let_def split: option.split)
    then show ?thesis
      using True i(1) a(1,2) all by (auto split: option.splits)
  qed
  have fr: "resved_ids (raise_max i ?g2) = resved_ids g1" "min_id (raise_max i ?g2) = min_id g"
    "max_id (raise_max i ?g2) = max_id g" "avail_id (raise_max i ?g2) = avail_id ?g2"
    by (simp_all add: frame_simps g1_def)
  show ?thesis
    unfolding id_inv_def fr using range mx av by blast
qed

lemma get_new_id_inv [inv_intros]: "id_inv g \<Longrightarrow> id_inv (snd (get_new_id g))"
proof (cases "avail_id g")
  case (Some a)
  assume inv: "id_inv g"
  then have "min_id g \<le> a" "\<forall>m. max_id g = Some m \<longrightarrow> a \<le> m" "a |\<notin>| resved_ids g"
    using Some by (auto simp: id_inv_def)
  from reserve_inv [OF inv this] show ?thesis
    using Some by (simp add: get_new_id_def Let_def)
qed (simp add: get_new_id_def)

lemma reserve_id_inv [inv_intros]: "id_inv g \<Longrightarrow> id_inv (snd (reserve_id i g))"
proof (cases "i < min_id g \<or> (\<exists>m. max_id g = Some m \<and> i > m) \<or> i |\<in>| resved_ids g")
  case False
  assume inv: "id_inv g"
  from False have "min_id g \<le> i" "\<forall>m. max_id g = Some m \<longrightarrow> i \<le> m" "i |\<notin>| resved_ids g"
    by auto
  have "snd (reserve_id i g) = raise_max i (if avail_id g = Some i
      then get_next_avail_id i (g\<lparr>resved_ids := finsert i (resved_ids g)\<rparr>)
      else g\<lparr>resved_ids := finsert i (resved_ids g)\<rparr>)"
    using False by (auto simp: reserve_id_def Let_def split: option.splits)
  then show ?thesis
    using reserve_inv [OF inv \<open>min_id g \<le> i\<close> \<open>\<forall>m. max_id g = Some m \<longrightarrow> i \<le> m\<close> \<open>i |\<notin>| resved_ids g\<close>]
    by simp
qed (auto simp: reserve_id_def split: option.splits)

lemma release_id_inv [inv_intros]: "id_inv g \<Longrightarrow> id_inv (snd (release_id i g))"
proof -
  assume inv: "id_inv g"
  show ?thesis
  proof (cases "i |\<in>| resved_ids g")
    case False
    with inv show ?thesis by (simp add: release_id_def)
  next
    case True
    define R where "R = resved_ids g |-| {|i|}"
    define g' where "g' = snd (release_id i g)"
    have fr: "resved_ids g' = R" "min_id g' = min_id g" "max_id g' = max_id g"
      "avail_id g' = (case avail_id g of None \<Rightarrow> None | Some a \<Rightarrow> Some (if i < a then i else a))"
      using True by (auto simp: g'_def release_id_def R_def Let_def split: option.splits)
    have mx_eq: "max_resved_id g' =
        (if max_resved_id g = Some i
         then (if release_loop R (min_id g) i < min_id g then None
               else Some (release_loop R (min_id g) i))
         else max_resved_id g)"
      using True by (simp add: g'_def release_id_def R_def Let_def)
    have range: "\<forall>j. j |\<in>| R \<longrightarrow> min_id g \<le> j \<and> (\<forall>m. max_id g = Some m \<longrightarrow> j \<le> m)"
      using inv by (auto simp: id_inv_def R_def)
    have iR: "min_id g \<le> i" "\<forall>m. max_id g = Some m \<longrightarrow> i \<le> m"
      using inv True by (auto simp: id_inv_def)
    have mx: "case max_resved_id g' of
        None \<Rightarrow> R = {||} | Some m \<Rightarrow> m |\<in>| R \<and> (\<forall>j. j |\<in>| R \<longrightarrow> j \<le> m)"
    proof (cases "max_resved_id g = Some i")
      case False
      then show ?thesis
        using inv True by (auto simp: mx_eq id_inv_def R_def split: option.splits)
    next
      case top: True
      then have le: "\<forall>j. j |\<in>| R \<longrightarrow> j \<le> i" using inv by (auto simp: id_inv_def R_def)
      note spec = release_loop_spec [of R "min_id g" i]
      have "j \<le> release_loop R (min_id g) i" if "j |\<in>| R" for j
        using spec le range that by (meson not_le)
      moreover have "R = {||}" if "release_loop R (min_id g) i < min_id g"
      proof -
        have "j |\<notin>| R" for j using calculation [of j] range that by force
        then show ?thesis by auto
      qed
      ultimately show ?thesis using top spec by (auto simp: mx_eq)
    qed
    have av: "case avail_id g' of
        None \<Rightarrow> max_id g \<noteq> None
      | Some a \<Rightarrow> min_id g \<le> a \<and> a |\<notin>| R \<and> (\<forall>j. min_id g \<le> j \<and> j < a \<longrightarrow> j |\<in>| R) \<and>
          (\<forall>m. max_id g = Some m \<longrightarrow> a \<le> m)"
    proof (cases "avail_id g")
      case None
      then show ?thesis using inv fr by (simp add: id_inv_def)
    next
      case (Some a)
      then have "a \<noteq> i" using inv True by (auto simp: id_inv_def)
      then show ?thesis
        using inv Some fr(4) iR by (auto simp: id_inv_def R_def)
    qed
    show ?thesis
      unfolding g'_def [symmetric] id_inv_def fr(1-3) using range mx av by blast
  qed
qed

section \<open>What the operations do\<close>

lemma get_new_id_used:
  "get_new_id g = (Some i, g') \<Longrightarrow> avail_id g = Some i \<and> resved_ids g' = finsert i (resved_ids g)"
  by (auto simp: get_new_id_def Let_def frame_simps split: option.splits)

lemma get_new_id_none: "get_new_id g = (None, g') \<longleftrightarrow> avail_id g = None \<and> g' = g"
  by (auto simp: get_new_id_def Let_def split: option.splits)

lemma release_id_used:
  "fst (release_id i g) \<longleftrightarrow> i |\<in>| resved_ids g"
  "resved_ids (snd (release_id i g)) = resved_ids g |-| {|i|}"
  by (auto simp: release_id_def Let_def split: option.splits)

lemma reserve_id_used:
  "fst (reserve_id i g) \<longleftrightarrow>
     min_id g \<le> i \<and> (\<forall>m. max_id g = Some m \<longrightarrow> i \<le> m) \<and> i |\<notin>| resved_ids g"
  "resved_ids (snd (reserve_id i g)) =
     (if fst (reserve_id i g) then finsert i (resved_ids g) else resved_ids g)"
  by (auto simp: reserve_id_def Let_def frame_simps split: option.splits)

lemma ops_frame [frame_simps]:
  "min_id (snd (get_new_id g)) = min_id g"
  "max_id (snd (get_new_id g)) = max_id g"
  "min_id (snd (release_id i g)) = min_id g"
  "max_id (snd (release_id i g)) = max_id g"
  "min_id (snd (reserve_id i g)) = min_id g"
  "max_id (snd (reserve_id i g)) = max_id g"
  by (auto simp: get_new_id_def release_id_def reserve_id_def Let_def frame_simps split: option.splits)

text \<open>Sequences of operations: what the caches do to the generator they share.\<close>

datatype id_op = NewId | ReleaseId int | ReserveId int

fun id_op_step :: "id_op \<Rightarrow> id_gen \<Rightarrow> id_gen" where
  "id_op_step NewId g = snd (get_new_id g)"
| "id_op_step (ReleaseId i) g = snd (release_id i g)"
| "id_op_step (ReserveId i) g = snd (reserve_id i g)"

lemma id_op_step_inv [inv_intros]: "id_inv g \<Longrightarrow> id_inv (id_op_step x g)"
  by (cases x) (auto intro: inv_intros)

lemma fold_id_op_inv: "id_inv g \<Longrightarrow> id_inv (fold id_op_step xs g)"
  by (induction xs arbitrary: g) (auto intro: inv_intros)

lemma init_inv:
  "IdGenerator_init mn mx = Inr g \<Longrightarrow> (\<forall>m. mx = Some m \<longrightarrow> mn = None \<longrightarrow> 1 \<le> m) \<Longrightarrow> id_inv g"
  by (auto simp: IdGenerator_init_def id_inv_def Let_def split: if_splits option.splits)

lemma exhausted_step: "avail_id g = None \<Longrightarrow> avail_id (id_op_step x g) = None"
  by (cases x) (auto simp: get_new_id_def release_id_def reserve_id_def Let_def frame_simps)

lemma exhausted_fold: "avail_id g = None \<Longrightarrow> avail_id (fold id_op_step xs g) = None"
  by (induction xs arbitrary: g) (auto simp: exhausted_step)

section \<open>The contract of an identifier allocator\<close>

locale id_allocator =
  fixes inv :: "'g \<Rightarrow> bool"
    and used :: "int \<Rightarrow> 'g \<Rightarrow> bool"
    and get_new :: "'g \<Rightarrow> int option \<times> 'g"
    and release :: "int \<Rightarrow> 'g \<Rightarrow> bool \<times> 'g"
    and reserve :: "int \<Rightarrow> 'g \<Rightarrow> bool \<times> 'g"
  assumes get_new_some: "inv g \<Longrightarrow> get_new g = (Some i, g') \<Longrightarrow>
      inv g' \<and> \<not> used i g \<and> (\<forall>j. used j g' \<longleftrightarrow> j = i \<or> used j g)"
    and get_new_none: "get_new g = (None, g') \<Longrightarrow> g' = g"
    and release_law: "inv g \<Longrightarrow> release i g = (b, g') \<Longrightarrow>
      inv g' \<and> (b \<longleftrightarrow> used i g) \<and> (\<forall>j. used j g' \<longleftrightarrow> used j g \<and> j \<noteq> i)"
    and reserve_law: "inv g \<Longrightarrow> reserve i g = (b, g') \<Longrightarrow>
      inv g' \<and> (b \<longrightarrow> \<not> used i g) \<and> (\<forall>j. used j g' \<longleftrightarrow> used j g \<or> (b \<and> j = i))"
begin

lemma get_release:
  assumes "inv g" "get_new g = (Some i, g')"
  shows "fst (release i g')" and "used j (snd (release i g')) \<longleftrightarrow> used j g"
proof -
  obtain b g'' where r: "release i g' = (b, g'')" by force
  note new = get_new_some [OF assms]
  note rel = release_law [OF new [THEN conjunct1] r]
  show "fst (release i g')" using new rel r by simp
  show "used j (snd (release i g')) \<longleftrightarrow> used j g" using new rel r by auto
qed

lemma reserve_release:
  assumes "inv g" "reserve i g = (True, g')"
  shows "fst (release i g')" and "used j (snd (release i g')) \<longleftrightarrow> used j g"
proof -
  obtain b g'' where r: "release i g' = (b, g'')" by force
  note res = reserve_law [OF assms]
  note rel = release_law [OF res [THEN conjunct1] r]
  show "fst (release i g')" using res rel r by simp
  show "used j (snd (release i g')) \<longleftrightarrow> used j g" using res rel r by auto
qed

primrec alloc_many :: "nat \<Rightarrow> 'g \<Rightarrow> int list \<times> 'g" where
  "alloc_many 0 g = ([], g)"
| "alloc_many (Suc n) g = (case get_new g of
      (None, g1) \<Rightarrow> ([], g1)
    | (Some i, g1) \<Rightarrow> (case alloc_many n g1 of (is, g2) \<Rightarrow> (i # is, g2)))"

lemma alloc_many_used:
  "inv g \<Longrightarrow> alloc_many n g = (is, g') \<Longrightarrow>
     inv g' \<and> distinct is \<and> (\<forall>i\<in>set is. \<not> used i g) \<and> (\<forall>j. used j g' \<longleftrightarrow> j \<in> set is \<or> used j g)"
proof (induction n arbitrary: g "is" g')
  case 0
  then show ?case by simp
next
  case (Suc n)
  show ?case
  proof (cases "fst (get_new g)")
    case None
    then obtain g1 where g1: "get_new g = (None, g1)" by (metis prod.collapse)
    with get_new_none have "g1 = g" by blast
    with g1 Suc.prems show ?thesis by auto
  next
    case (Some i)
    then obtain g1 where g1: "get_new g = (Some i, g1)" by (metis prod.collapse)
    obtain is1 where is1: "alloc_many n g1 = (is1, g')" "is = i # is1"
      using Suc.prems(2) g1 by (auto split: prod.splits)
    note new = get_new_some [OF Suc.prems(1) g1]
    from Suc.IH [OF new [THEN conjunct1] is1(1)] new is1(2) show ?thesis by auto
  qed
qed

end

interpretation ids: id_allocator id_inv is_id_used get_new_id release_id reserve_id
proof
  fix g g' i b
  show "id_inv g \<Longrightarrow> get_new_id g = (Some i, g') \<Longrightarrow>
      id_inv g' \<and> \<not> is_id_used i g \<and> (\<forall>j. is_id_used j g' \<longleftrightarrow> j = i \<or> is_id_used j g)"
    using get_new_id_inv [of g] get_new_id_used [of g i g'] by (auto simp: is_id_used_def id_inv_def)
  show "get_new_id g = (None, g') \<Longrightarrow> g' = g"
    by (simp add: get_new_id_none)
  show "id_inv g \<Longrightarrow> release_id i g = (b, g') \<Longrightarrow>
      id_inv g' \<and> (b \<longleftrightarrow> is_id_used i g) \<and> (\<forall>j. is_id_used j g' \<longleftrightarrow> is_id_used j g \<and> j \<noteq> i)"
    using release_id_inv [of g i] release_id_used [of i g] by (auto simp: is_id_used_def)
  show "id_inv g \<Longrightarrow> reserve_id i g = (b, g') \<Longrightarrow>
      id_inv g' \<and> (b \<longrightarrow> \<not> is_id_used i g) \<and> (\<forall>j. is_id_used j g' \<longleftrightarrow> is_id_used j g \<or> (b \<and> j = i))"
    using reserve_id_inv [of g i] reserve_id_used [of i g] by (auto simp: is_id_used_def)
qed

section \<open>The printed ranges\<close>

lemma range_loop_covers:
  "sorted (prev # xs) \<Longrightarrow> start \<le> prev \<Longrightarrow>
     (\<exists>r\<in>set (range_loop start prev xs). fst r \<le> i \<and> i \<le> snd r) \<longleftrightarrow>
     (start \<le> i \<and> i \<le> prev) \<or> i \<in> set xs"
  by (induction start prev xs rule: range_loop.induct) (auto split: if_splits)

lemma range_loop_gaps:
  "sorted (prev # xs) \<Longrightarrow> start \<le> prev \<Longrightarrow>
     sorted_wrt (\<lambda>r r'. snd r + 1 < fst r') (range_loop start prev xs) \<and>
     (\<forall>r\<in>set (range_loop start prev xs). start \<le> fst r \<and> fst r \<le> snd r)"
  by (induction start prev xs rule: range_loop.induct) (fastforce split: if_splits)+

lemma sorted_list_of_fset_simps: "sorted (sorted_list_of_fset R)" "set (sorted_list_of_fset R) = fset R"
  by (simp_all add: sorted_list_of_fset.rep_eq)

text \<open>
  The ranges the generator prints for its reserved identifiers contain exactly the
  reserved identifiers, are not empty, increase, and two neighbours never touch, so no
  shorter list of ranges would do.
\<close>

theorem id_ranges_exact:
  "((\<exists>r\<in>set (id_ranges R). fst r \<le> i \<and> i \<le> snd r) \<longleftrightarrow> i |\<in>| R) \<and>
   sorted_wrt (\<lambda>r r'. snd r + 1 < fst r') (id_ranges R) \<and> list_all (\<lambda>r. fst r \<le> snd r) (id_ranges R)"
proof (cases "sorted_list_of_fset R")
  case Nil
  with sorted_list_of_fset_simps [of R] show ?thesis by (auto simp: id_ranges_def)
next
  case (Cons x xs)
  with sorted_list_of_fset_simps [of R] have s: "sorted (x # xs)" "fset R = set (x # xs)" by auto
  then have "i |\<in>| R \<longleftrightarrow> (x \<le> i \<and> i \<le> x) \<or> i \<in> set xs" by auto
  with range_loop_covers [OF s(1) order_refl, of i] range_loop_gaps [OF s(1) order_refl] Cons
  show ?thesis by (simp add: id_ranges_def list_all_iff)
qed

section \<open>The properties of the class\<close>

text \<open>Running out: \<open>avail_id\<close> becomes \<open>None\<close> only when the whole range is reserved.\<close>

lemma get_next_avail_None:
  assumes "avail_id (get_next_avail_id a g) = None"
    and "\<forall>m. max_resved_id g = Some m \<longrightarrow> (\<forall>i. i |\<in>| resved_ids g \<longrightarrow> i \<le> m \<or> i \<le> a)"
    and "\<forall>i. min_id g \<le> i \<and> i \<le> a \<longrightarrow> i |\<in>| resved_ids g"
  shows "\<exists>m. max_id g = Some m \<and> (\<forall>i. min_id g \<le> i \<and> i \<le> m \<longrightarrow> i |\<in>| resved_ids g)"
proof -
  define b where "b = next_avail_loop (resved_ids g) (max_resved_id g) (a + 1)"
  have "\<forall>m. max_resved_id g = Some m \<longrightarrow> (\<forall>i. i |\<in>| resved_ids g \<longrightarrow> i \<le> m \<or> i < a + 1)"
    using assms(2) by force
  from next_avail_loop_spec [OF this] have b: "\<forall>i. a + 1 \<le> i \<and> i < b \<longrightarrow> i |\<in>| resved_ids g" by (simp add: b_def)
  from assms(1) obtain m where m: "max_id g = Some m" "m < b"
    by (auto simp: get_next_avail_id_def b_def Let_def split: option.splits if_splits)
  have "i |\<in>| resved_ids g" if "min_id g \<le> i" "i \<le> m" for i
    using that m(2) b assms(3) by (cases "i \<le> a") auto
  with m(1) show ?thesis by blast
qed

definition range_reserved :: "id_gen \<Rightarrow> bool" where
  "range_reserved g \<longleftrightarrow> (\<exists>m. max_id g = Some m \<and> (\<forall>i. min_id g \<le> i \<and> i \<le> m \<longrightarrow> i |\<in>| resved_ids g))"

lemma step_runs_out:
  assumes inv: "id_inv g" and a: "avail_id g = Some a" and out: "avail_id (id_op_step x g) = None"
  shows "range_reserved (id_op_step x g)"
proof -
  define g1 where "g1 = g\<lparr>resved_ids := finsert a (resved_ids g)\<rparr>"
  have "x = NewId \<or> x = ReserveId a \<and> min_id g \<le> a"
    using a out by (cases x) (auto simp: release_id_def reserve_id_def Let_def frame_simps split: if_splits option.splits)
  moreover have "min_id g \<le> a" "a |\<notin>| resved_ids g" "\<forall>m. max_id g = Some m \<longrightarrow> a \<le> m"
    using inv a by (auto simp: id_inv_def)
  ultimately have step: "id_op_step x g = raise_max a (get_next_avail_id a g1)"
    using a by (auto simp: g1_def get_new_id_def reserve_id_def Let_def split: option.splits)
  have "\<forall>m. max_resved_id g1 = Some m \<longrightarrow> (\<forall>i. i |\<in>| resved_ids g1 \<longrightarrow> i \<le> m \<or> i \<le> a)"
    "\<forall>i. min_id g1 \<le> i \<and> i \<le> a \<longrightarrow> i |\<in>| resved_ids g1"
    using inv a by (auto simp: id_inv_def g1_def)
  moreover have "avail_id (get_next_avail_id a g1) = None" using out by (simp add: step frame_simps)
  ultimately show ?thesis
    using get_next_avail_None by (simp add: range_reserved_def step frame_simps)
qed

lemma runs_out_before:
  assumes "id_inv g" "avail_id g \<noteq> None" "avail_id (fold id_op_step xs g) = None"
  shows "\<exists>ys zs. xs = ys @ zs \<and> range_reserved (fold id_op_step ys g)"
  using assms(3)
proof (induction xs rule: rev_induct)
  case (snoc x xs)
  show ?case
  proof (cases "avail_id (fold id_op_step xs g)")
    case None
    with snoc.IH show ?thesis by (metis append_assoc)
  next
    case (Some a)
    from step_runs_out [OF fold_id_op_inv [OF assms(1)] Some] snoc.prems
    have "range_reserved (fold id_op_step (xs @ [x]) g)" by simp
    then show ?thesis by blast
  qed
qed (use assms(2) in simp)

text \<open>
  C28: take a generator made by the constructor, for a range that is not empty (the constructor does
  not check this when only a maximum is given), and any sequence of allocations, releases and
  reservations. The reserved identifiers are in the range and \<open>max_resved_id\<close> is the largest of them.
  \<open>avail_id\<close> is the smallest free identifier of the range, unless every identifier of the range has
  been reserved at once before: then it may be \<open>None\<close>, also when identifiers have been released since.
\<close>

theorem id_runs_inv:
  assumes "IdGenerator_init mn mx = Inr g0" "mn = None \<Longrightarrow> \<forall>m. mx = Some m \<longrightarrow> 1 \<le> m"
    and "g = fold id_op_step xs g0" "lo = (case mn of None \<Rightarrow> 1 | Some a \<Rightarrow> a)"
  shows "(\<forall>i. is_id_used i g \<longrightarrow> lo \<le> i \<and> (\<forall>m. mx = Some m \<longrightarrow> i \<le> m)) \<and>
    (case max_resved_id g of None \<Rightarrow> \<forall>i. \<not> is_id_used i g
      | Some m \<Rightarrow> is_id_used m g \<and> (\<forall>i. is_id_used i g \<longrightarrow> i \<le> m)) \<and>
    (case avail_id g of
       Some a \<Rightarrow> lo \<le> a \<and> (\<forall>m. mx = Some m \<longrightarrow> a \<le> m) \<and> \<not> is_id_used a g \<and>
         (\<forall>i. lo \<le> i \<and> i < a \<longrightarrow> is_id_used i g)
     | None \<Rightarrow> \<exists>ys zs m. xs = ys @ zs \<and> mx = Some m \<and>
         (\<forall>i. lo \<le> i \<and> i \<le> m \<longrightarrow> is_id_used i (fold id_op_step ys g0)))"
proof -
  have inv0: "id_inv g0" by (rule init_inv [OF assms(1)]) (use assms(2) in auto)
  have "min_id (fold id_op_step ys h) = min_id h \<and> max_id (fold id_op_step ys h) = max_id h" for ys h
  proof (induction ys arbitrary: h)
    case (Cons y ys)
    then show ?case by (cases y) (simp_all add: frame_simps)
  qed simp
  moreover have "min_id g0 = lo" "max_id g0 = mx" "avail_id g0 \<noteq> None"
    using assms(1,4) by (auto simp: IdGenerator_init_def Let_def split: if_splits)
  ultimately have fr: "min_id (fold id_op_step ys g0) = lo" "max_id (fold id_op_step ys g0) = mx" "avail_id g0 \<noteq> None" for ys
    by simp_all
  have inv: "id_inv g" unfolding assms(3) by (rule fold_id_op_inv [OF inv0])
  have "avail_id g = None \<Longrightarrow> \<exists>ys zs m. xs = ys @ zs \<and> mx = Some m \<and>
      (\<forall>i. lo \<le> i \<and> i \<le> m \<longrightarrow> is_id_used i (fold id_op_step ys g0))"
    using runs_out_before [OF inv0 fr(3), of xs] unfolding assms(3) range_reserved_def fr(1,2) is_id_used_def by blast
  with inv fr(1,2) [of xs, folded assms(3)] show ?thesis
    by (auto simp: id_inv_def is_id_used_def split: option.splits)
qed

theorem id_runs_inv_witness:
  "(let g = fold id_op_step [NewId, ReserveId 3, NewId, ReleaseId 3, ReleaseId 1, NewId]
     \<lparr>resved_ids = {||}, min_id = 1, max_id = Some 4, avail_id = Some 1, max_resved_id = None\<rparr>
    in avail_id g = Some 3 \<and> is_id_used 1 g \<and> is_id_used 2 g \<and> \<not> is_id_used 3 g)"
proof -
  define g where "g = fold id_op_step [NewId, ReserveId 3, NewId, ReleaseId 3, ReleaseId 1, NewId]
     \<lparr>resved_ids = {||}, min_id = 1, max_id = Some 4, avail_id = Some 1, max_resved_id = None\<rparr>"
  have a: "avail_id g = Some 3" unfolding g_def by code_simp
  from id_runs_inv [OF _ _ g_def refl, of None "Some 4"] a show ?thesis
    unfolding g_def [symmetric] by (simp add: IdGenerator_init_def)
qed

text \<open>
  An identifier handed out is in the range, was not reserved before, is the smallest such
  one and is the only change to the reserved set.
\<close>

theorem get_new_id_least:
  assumes "id_inv g" "get_new_id g = (Some i, g')"
  shows "min_id g \<le> i \<and> (\<forall>m. max_id g = Some m \<longrightarrow> i \<le> m) \<and> i |\<notin>| resved_ids g \<and>
    (\<forall>j. min_id g \<le> j \<and> j < i \<longrightarrow> j |\<in>| resved_ids g) \<and>
    resved_ids g' = finsert i (resved_ids g) \<and> id_inv g'"
  using assms get_new_id_used [OF assms(2)] get_new_id_inv [OF assms(1)] by (auto simp: id_inv_def)

theorem get_new_id_least_witness:
  "resved_ids (snd (get_new_id \<lparr>resved_ids = {|1, 2, 5|}, min_id = 1, max_id = None,
      avail_id = Some 3, max_resved_id = Some 5\<rparr>)) = {|3, 1, 2, 5|}"
proof -
  let ?g = "\<lparr>resved_ids = {|1, 2, 5|}, min_id = 1, max_id = None, avail_id = Some 3,
      max_resved_id = Some 5\<rparr>"
  have inv: "id_inv ?g" by (auto simp: id_inv_def)
  have "get_new_id ?g = (Some 3, snd (get_new_id ?g))" by (simp add: get_new_id_def Let_def)
  from get_new_id_least [OF inv this] show ?thesis by simp
qed

text \<open>
  A bounded generator that has run out once never hands out an identifier again, whatever
  is released or reserved afterwards: \<open>release_id\<close> compares the released identifier with
  \<open>avail_id\<close>, and in Python 2 no number is below \<open>None\<close>.
\<close>

theorem exhausted_forever:
  assumes "fst (get_new_id g) = None"
  shows "fst (get_new_id (fold id_op_step xs g)) = None"
proof -
  from assms have "avail_id g = None" using get_new_id_none by (metis prod.collapse)
  then have "avail_id (fold id_op_step xs g) = None" by (rule exhausted_fold)
  then show ?thesis by (simp add: get_new_id_def)
qed

theorem exhausted_forever_witness:
  "(let g = fold id_op_step [NewId, NewId]
        \<lparr>resved_ids = {||}, min_id = 1, max_id = Some 2, avail_id = Some 1, max_resved_id = None\<rparr>
    in resved_ids (fold id_op_step [ReleaseId 1, ReleaseId 2] g) = {||} \<and>
       fst (get_new_id (fold id_op_step [ReleaseId 1, ReleaseId 2] g)) = None)"
proof -
  let ?g = "fold id_op_step [NewId, NewId]
        \<lparr>resved_ids = {||}, min_id = 1, max_id = Some 2, avail_id = Some 1, max_resved_id = None\<rparr>"
  have g: "fst (get_new_id ?g) = None" by code_simp
  have "resved_ids (fold id_op_step [ReleaseId 1, ReleaseId 2] ?g) = {||}" by code_simp
  moreover have "fst (get_new_id (fold id_op_step [ReleaseId 1, ReleaseId 2] ?g)) = None"
    by (rule exhausted_forever [OF g])
  ultimately show ?thesis unfolding Let_def by (rule conjI)
qed

end
