(* ===== verification/Inet.thy ===== *)
theory Inet
  imports Prelude
begin

text \<open>
  The address functions of Python's \<open>socket\<close> and \<open>binascii\<close> modules the scripts call, as
  glibc implements them: packed addresses are lists of bytes, the text forms are strings.
\<close>

datatype address_family = AF_INET | AF_INET6

type_synonym packed = "8 word list"

definition af_of_int :: "int \<Rightarrow> address_family option" where
  "af_of_int n = (if n = 2 then Some AF_INET else if n = 10 then Some AF_INET6 else None)"

definition int_of_af :: "address_family \<Rightarrow> int" where
  "int_of_af a = (case a of AF_INET \<Rightarrow> 2 | AF_INET6 \<Rightarrow> 10)"

definition addr_len :: "address_family \<Rightarrow> nat" where
  "addr_len a = (case a of AF_INET \<Rightarrow> 4 | AF_INET6 \<Rightarrow> 16)"

lemma af_of_int_inverse [simp]: "af_of_int (int_of_af a) = Some a"
  by (cases a) (simp_all add: af_of_int_def int_of_af_def)

section \<open>Digits\<close>

definition hex_digits :: string where
  "hex_digits = ''0123456789abcdef''"

fun nat_hex :: "nat \<Rightarrow> string" where
  "nat_hex n = (if n < 16 then [hex_digits ! n] else nat_hex (n div 16) @ [hex_digits ! (n mod 16)])"

declare nat_hex.simps [simp del]

definition digit_val :: "char \<Rightarrow> nat option" where
  "digit_val c = (if is_digit c then Some (of_char c - 48) else None)"

definition hex_val :: "char \<Rightarrow> nat option" where
  "hex_val c =
     (if is_digit c then Some (of_char c - 48)
      else if c \<in> set ''abcdef'' then Some (of_char c - 87)
      else if c \<in> set ''ABCDEF'' then Some (of_char c - 55)
      else None)"

fun num_val :: "nat \<Rightarrow> (char \<Rightarrow> nat option) \<Rightarrow> nat \<Rightarrow> string \<Rightarrow> nat option" where
  "num_val b f acc [] = Some acc"
| "num_val b f acc (c # cs) = (case f c of None \<Rightarrow> None | Some d \<Rightarrow> num_val b f (b * acc + d) cs)"

lemma num_val_append:
  "num_val b f acc (s @ t) = (case num_val b f acc s of None \<Rightarrow> None | Some a \<Rightarrow> num_val b f a t)"
  by (induction s arbitrary: acc) (auto split: option.splits)

text \<open>\<open>int(s)\<close>: white space around it and a sign are allowed.\<close>

definition py_int :: "string \<Rightarrow> exn + int" where
  "py_int s =
     (let t = strip s;
          (neg, ds) = (case t of c # cs \<Rightarrow> if c = CHR ''-'' then (True, cs)
                                            else if c = CHR ''+'' then (False, cs) else (False, t)
                       | [] \<Rightarrow> (False, t))
      in if ds = [] then Inl ValueError
         else (case num_val 10 digit_val 0 ds of
                 None \<Rightarrow> Inl ValueError
               | Some n \<Rightarrow> Inr (if neg then - int n else int n)))"

section \<open>IPv4\<close>

definition octet :: "string \<Rightarrow> nat option" where
  "octet s =
     (if s = '''' \<or> (length s > 1 \<and> hd s = CHR ''0'') then None
      else (case num_val 10 digit_val 0 s of
              None \<Rightarrow> None
            | Some n \<Rightarrow> if n \<le> 255 then Some n else None))"

fun all_some :: "'a option list \<Rightarrow> 'a list option" where
  "all_some [] = Some []"
| "all_some (x # xs) = (case x of None \<Rightarrow> None | Some y \<Rightarrow> map_option (Cons y) (all_some xs))"

definition inet_pton4 :: "string \<Rightarrow> packed option" where
  "inet_pton4 s =
     (let ps = split_on CHR ''.'' s
      in if length ps = 4 then map_option (map of_nat) (all_some (map octet ps)) else None)"

definition inet_ntop4 :: "packed \<Rightarrow> string" where
  "inet_ntop4 bs = join ''.'' (map (\<lambda>b. nat_dec (unat b)) bs)"

section \<open>IPv6\<close>

definition hex_group :: "string \<Rightarrow> packed option" where
  "hex_group s =
     (if s = '''' \<or> length s > 4 then None
      else (case num_val 16 hex_val 0 s of
              None \<Rightarrow> None
            | Some n \<Rightarrow> Some [of_nat (n div 256), of_nat (n mod 256)]))"

text \<open>The groups of a part without \<open>::\<close>; only the last one of an address may be dotted.\<close>

fun hex_groups :: "bool \<Rightarrow> string list \<Rightarrow> packed option" where
  "hex_groups dotted [] = Some []"
| "hex_groups dotted (g # gs) =
     (case (if dotted \<and> gs = [] \<and> CHR ''.'' \<in> set g then inet_pton4 g else hex_group g) of
        None \<Rightarrow> None
      | Some bs \<Rightarrow> map_option (append bs) (hex_groups dotted gs))"

fun cut_double_colon :: "string \<Rightarrow> (string \<times> string) option" where
  "cut_double_colon (a # b # cs) =
     (if a = CHR '':'' \<and> b = CHR '':'' then Some ([], cs)
      else map_option (\<lambda>(p, q). (a # p, q)) (cut_double_colon (b # cs)))"
| "cut_double_colon _ = None"

definition part_groups :: "bool \<Rightarrow> string \<Rightarrow> packed option" where
  "part_groups dotted s = (if s = '''' then Some [] else hex_groups dotted (split_on CHR '':'' s))"

definition inet_pton6 :: "string \<Rightarrow> packed option" where
  "inet_pton6 s =
     (case cut_double_colon s of
        None \<Rightarrow>
          (case part_groups True s of
             None \<Rightarrow> None
           | Some bs \<Rightarrow> if length bs = 16 then Some bs else None)
      | Some (p, q) \<Rightarrow>
          (case (part_groups False p, part_groups True q) of
             (Some bs, Some cs) \<Rightarrow>
               if length bs + length cs < 16
               then Some (bs @ replicate (16 - length bs - length cs) 0 @ cs) else None
           | _ \<Rightarrow> None))"

fun words16 :: "packed \<Rightarrow> nat list" where
  "words16 (a # b # bs) = (256 * unat a + unat b) # words16 bs"
| "words16 _ = []"

text \<open>The first longest run of zero words, of at least two: its start and its length.\<close>

definition zero_run :: "nat list \<Rightarrow> nat \<Rightarrow> nat" where
  "zero_run ws i = length (takeWhile (\<lambda>w. w = 0) (drop i ws))"

definition best_run :: "nat list \<Rightarrow> (nat \<times> nat) option" where
  "best_run ws =
     fold (\<lambda>i best. (case best of
                        None \<Rightarrow> if zero_run ws i \<ge> 2 then Some (i, zero_run ws i) else None
                      | Some (j, n) \<Rightarrow> if zero_run ws i > n then Some (i, zero_run ws i) else best))
       [0..<length ws] None"

definition inet_ntop6 :: "packed \<Rightarrow> string" where
  "inet_ntop6 bs =
     (let ws = words16 bs
      in (case best_run ws of
            None \<Rightarrow> join '':'' (map nat_hex ws)
          | Some (i, n) \<Rightarrow>
              if i = 0 \<and> (n = 6 \<or> (n = 5 \<and> ws ! 5 = 0xffff))
              then (if n = 6 then ''::'' else ''::ffff:'') @ inet_ntop4 (drop 12 bs)
              else join '':'' (map nat_hex (take i ws)) @ ''::'' @
                   join '':'' (map nat_hex (drop (i + n) ws))))"

section \<open>The functions of \<open>socket\<close> and \<open>binascii\<close>\<close>

definition inet_pton :: "address_family \<Rightarrow> string \<Rightarrow> exn + packed" where
  "inet_pton a s =
     (case (case a of AF_INET \<Rightarrow> inet_pton4 s | AF_INET6 \<Rightarrow> inet_pton6 s) of
        None \<Rightarrow> Inl SocketError
      | Some bs \<Rightarrow> Inr bs)"

definition inet_ntop :: "address_family \<Rightarrow> packed \<Rightarrow> exn + string" where
  "inet_ntop a bs =
     (if length bs \<noteq> addr_len a then Inl ValueError
      else Inr (case a of AF_INET \<Rightarrow> inet_ntop4 bs | AF_INET6 \<Rightarrow> inet_ntop6 bs))"

definition hexlify :: "packed \<Rightarrow> string" where
  "hexlify bs = concat (map (\<lambda>b. [hex_digits ! (unat b div 16), hex_digits ! (unat b mod 16)]) bs)"

fun unhexlify :: "string \<Rightarrow> exn + packed" where
  "unhexlify [] = Inr []"
| "unhexlify [c] = Inl TypeError"
| "unhexlify (c # d # cs) =
     (case (hex_val c, hex_val d) of
        (Some m, Some n) \<Rightarrow> (case unhexlify cs of Inl e \<Rightarrow> Inl e | Inr bs \<Rightarrow> Inr (of_nat (16 * m + n) # bs))
      | _ \<Rightarrow> Inl TypeError)"

section \<open>Round trips\<close>

lemma all_some_map_Some: "all_some (map (\<lambda>x. Some (f x)) xs) = Some (map f xs)"
  by (induction xs) auto

lemma all_some_length: "all_some xs = Some ys \<Longrightarrow> length ys = length xs"
  by (induction xs arbitrary: ys) (auto split: option.splits)

lemma inet_pton_length: "inet_pton a s = Inr bs \<Longrightarrow> length bs = addr_len a"
  by (auto simp: inet_pton_def inet_pton4_def inet_pton6_def addr_len_def Let_def dest!: all_some_length
      split: option.splits address_family.splits if_splits)

lemma digit_nth:
  assumes "k < 10"
  shows "digit_val (''0123456789'' ! k) = Some k" "is_digit (''0123456789'' ! k)"
    "(''0123456789'' ! k = CHR ''0'') = (k = 0)"
proof -
  have "\<forall>k\<in>set [0..<10]. digit_val (''0123456789'' ! k) = Some k \<and> is_digit (''0123456789'' ! k) \<and>
      (''0123456789'' ! k = CHR ''0'') = (k = 0)"
    by code_simp
  with assms show "digit_val (''0123456789'' ! k) = Some k" "is_digit (''0123456789'' ! k)"
    "(''0123456789'' ! k = CHR ''0'') = (k = 0)" by auto
qed

lemma nat_dec_not_Nil [simp]: "nat_dec n \<noteq> []"
  by (subst nat_dec.simps) simp

lemma nat_dec_val: "num_val 10 digit_val 0 (nat_dec n) = Some n"
  by (induction n rule: nat_dec.induct) (subst nat_dec.simps, auto simp: digit_nth num_val_append)

lemma nat_dec_digits: "c \<in> set (nat_dec n) \<Longrightarrow> is_digit c"
proof (induction n rule: nat_dec.induct)
  case (1 n)
  then show ?case
    by (cases "n < 10") (auto simp: nat_dec.simps [of n] digit_nth)
qed

lemma nat_dec_hd: "hd (nat_dec n) = CHR ''0'' \<longleftrightarrow> n = 0"
proof (induction n rule: nat_dec.induct)
  case (1 n)
  then show ?case
    by (cases "n < 10") (auto simp: nat_dec.simps [of n] digit_nth)
qed

lemma nat_dec_octet:
  assumes "n < 256"
  shows "octet (nat_dec n) = Some n \<and> CHR ''.'' \<notin> set (nat_dec n)"
proof -
  have "nat_dec 0 = [CHR ''0'']" by (simp add: nat_dec.simps)
  then have "\<not> (length (nat_dec n) > 1 \<and> hd (nat_dec n) = CHR ''0'')"
    by (cases "n = 0") (auto simp: nat_dec_hd)
  moreover have "\<not> is_digit CHR ''.''" by (simp add: is_digit_def)
  ultimately show ?thesis
    using assms nat_dec_digits [of "CHR ''.''" n] by (auto simp: octet_def nat_dec_val)
qed

lemma split_on_join:
  "xs \<noteq> [] \<Longrightarrow> (\<And>x. x \<in> set xs \<Longrightarrow> c \<notin> set x) \<Longrightarrow> split_on c (join [c] xs) = xs"
  by (induction "[c]" xs rule: join.induct) (simp_all add: split_on_no_sep split_on_append)

lemma pton_ntop4:
  assumes "length bs = 4"
  shows "inet_pton4 (inet_ntop4 bs) = Some bs"
proof -
  have o: "octet (nat_dec (unat b)) = Some (unat b) \<and> CHR ''.'' \<notin> set (nat_dec (unat b))" for b :: "8 word"
    by (rule nat_dec_octet) (use unsigned_less [of b] in simp)
  have "split_on CHR ''.'' (inet_ntop4 bs) = map (\<lambda>b. nat_dec (unat b)) bs"
    unfolding inet_ntop4_def by (rule split_on_join) (use assms o in auto)
  then show ?thesis
    using assms o by (simp add: inet_pton4_def all_some_map_Some o_def comp_def)
qed

lemma hex_pair:
  "hex_val (hex_digits ! (unat b div 16)) = Some (unat b div 16) \<and>
   hex_val (hex_digits ! (unat b mod 16)) = Some (unat (b :: 8 word) mod 16)"
proof -
  have "\<forall>n\<in>set [0..<16]. hex_val (hex_digits ! n) = Some n" by code_simp
  moreover have "unat b < 256" by (rule order_less_le_trans [OF unsigned_less]) simp
  then have "unat b div 16 < 16" "unat b mod 16 < 16" by auto
  ultimately show ?thesis by simp
qed

lemma unhexlify_hexlify: "unhexlify (hexlify bs) = Inr bs"
  by (induction bs) (simp_all add: hexlify_def hex_pair)

end
