(* ===== verification/SvcsRule.thy ===== *)
theory SvcsRule
  imports Inet
begin

text \<open>
  \<^verbatim>\<open>scripts/lib/python/dn_base_vrf_svcs_config.py\<close>, first part: the enumerations and the two
  rule classes, \<open>VrfIncomingSvcsRule\<close> and \<open>VrfOutgoingSvcsRule\<close>.

  The attributes the two classes share are the record \<open>svcs_rule\<close>, which each class extends
  with its own. Numbers that come from outside are checked and become enumeration values where
  \<open>__setattr__\<close> checks them. The dictionary \<open>vars(self)\<close>, over which the code loops, is an
  association list from attribute names to values.
\<close>

section \<open>Enumerations\<close>

datatype VrfSvcsRuleType = RULE_TYPE_IP | RULE_TYPE_ACL | RULE_TYPE_OUT_IP | RULE_TYPE_SNAT

datatype VrfSvcsRuleAction =
  RULE_ACTION_ALLOW | RULE_ACTION_DENY | RULE_ACTION_DNAT | RULE_ACTION_REJECT | RULE_ACTION_SNAT

datatype VrfSvcsRuleProto =
  RULE_PROTO_TCP | RULE_PROTO_UDP | RULE_PROTO_ICMP | RULE_PROTO_ALL | RULE_PROTO_ICMPV6

datatype VrfSvcsRuleGroupPrio = HIGH_GRP_PRIO | DEFAULT_GRP_PRIO

fun int_of_rule_type :: "VrfSvcsRuleType \<Rightarrow> int" where
  "int_of_rule_type RULE_TYPE_IP = 1"
| "int_of_rule_type RULE_TYPE_ACL = 2"
| "int_of_rule_type RULE_TYPE_OUT_IP = 3"
| "int_of_rule_type RULE_TYPE_SNAT = 4"

fun int_of_action :: "VrfSvcsRuleAction \<Rightarrow> int" where
  "int_of_action RULE_ACTION_ALLOW = 1"
| "int_of_action RULE_ACTION_DENY = 2"
| "int_of_action RULE_ACTION_DNAT = 3"
| "int_of_action RULE_ACTION_REJECT = 4"
| "int_of_action RULE_ACTION_SNAT = 5"

fun int_of_proto :: "VrfSvcsRuleProto \<Rightarrow> int" where
  "int_of_proto RULE_PROTO_TCP = 1"
| "int_of_proto RULE_PROTO_UDP = 2"
| "int_of_proto RULE_PROTO_ICMP = 3"
| "int_of_proto RULE_PROTO_ALL = 4"
| "int_of_proto RULE_PROTO_ICMPV6 = 5"

fun int_of_prio :: "VrfSvcsRuleGroupPrio \<Rightarrow> int" where
  "int_of_prio HIGH_GRP_PRIO = 1"
| "int_of_prio DEFAULT_GRP_PRIO = 10"

text \<open>\<open>IntEnum\<close> members compare as their numbers.\<close>

instantiation VrfSvcsRuleGroupPrio :: linorder
begin

definition less_eq_VrfSvcsRuleGroupPrio :: "VrfSvcsRuleGroupPrio \<Rightarrow> VrfSvcsRuleGroupPrio \<Rightarrow> bool" where
  "p \<le> q \<longleftrightarrow> int_of_prio p \<le> int_of_prio q"

definition less_VrfSvcsRuleGroupPrio :: "VrfSvcsRuleGroupPrio \<Rightarrow> VrfSvcsRuleGroupPrio \<Rightarrow> bool" where
  "p < q \<longleftrightarrow> int_of_prio p < int_of_prio q"

instance
proof
  fix p q :: VrfSvcsRuleGroupPrio
  show "p \<le> q \<Longrightarrow> q \<le> p \<Longrightarrow> p = q"
    by (cases p; cases q) (simp_all add: less_eq_VrfSvcsRuleGroupPrio_def)
qed (auto simp: less_eq_VrfSvcsRuleGroupPrio_def less_VrfSvcsRuleGroupPrio_def)

end

definition rule_type_of_int :: "int \<Rightarrow> VrfSvcsRuleType option" where
  "rule_type_of_int n =
     find (\<lambda>t. int_of_rule_type t = n) [RULE_TYPE_IP, RULE_TYPE_ACL, RULE_TYPE_OUT_IP, RULE_TYPE_SNAT]"

definition action_of_int :: "int \<Rightarrow> VrfSvcsRuleAction option" where
  "action_of_int n =
     find (\<lambda>t. int_of_action t = n)
       [RULE_ACTION_ALLOW, RULE_ACTION_DENY, RULE_ACTION_DNAT, RULE_ACTION_REJECT, RULE_ACTION_SNAT]"

definition proto_of_int :: "int \<Rightarrow> VrfSvcsRuleProto option" where
  "proto_of_int n =
     find (\<lambda>t. int_of_proto t = n)
       [RULE_PROTO_TCP, RULE_PROTO_UDP, RULE_PROTO_ICMP, RULE_PROTO_ALL, RULE_PROTO_ICMPV6]"

lemma rule_type_of_int_inverse [simp]: "rule_type_of_int (int_of_rule_type t) = Some t"
  by (cases t) (simp_all add: rule_type_of_int_def)

lemma action_of_int_inverse [simp]: "action_of_int (int_of_action a) = Some a"
  by (cases a) (simp_all add: action_of_int_def)

lemma proto_of_int_inverse [simp]: "proto_of_int (int_of_proto p) = Some p"
  by (cases p) (simp_all add: proto_of_int_def)

section \<open>The attributes\<close>

record svcs_rule =
  rule_type :: VrfSvcsRuleType
  vrf_name :: string
  af :: address_family
  src_ip :: "packed option"
  protocol :: "VrfSvcsRuleProto option"
  dst_port :: "int option"
  dst_ip :: "packed option"
  dst_prefix_len :: "int option"
  seq_num :: int
  action :: VrfSvcsRuleAction
  grp_priority :: VrfSvcsRuleGroupPrio
  packet_count :: "string option"
  byte_count :: "string option"
  rule_id :: "int option"

record in_rule = svcs_rule +
  src_prefix_len :: "int option"
  low_dst_port :: "int option"
  high_dst_port :: "int option"
  in_intf :: "string option"
  negative :: "bool option"

record out_rule = svcs_rule +
  out_src_ip :: "packed option"
  private_ip :: "packed option"
  private_port :: "int option"

text \<open>\<open>negative\<close> is \<open>None\<close> while the attribute does not exist.\<close>

datatype attr =
    A_rule_type | A_vrf_name | A_af | A_src_ip | A_src_prefix_len | A_protocol | A_dst_port
  | A_low_dst_port | A_high_dst_port | A_dst_ip | A_dst_prefix_len | A_seq_num | A_action
  | A_grp_priority | A_packet_count | A_byte_count | A_rule_id | A_in_intf | A_negative
  | A_out_src_ip | A_private_ip | A_private_port

datatype attr_val = VNone | VInt int | VStr string | VBytes packed | VBool bool

definition opt_val :: "('a \<Rightarrow> attr_val) \<Rightarrow> 'a option \<Rightarrow> attr_val" where
  "opt_val f x = (case x of None \<Rightarrow> VNone | Some a \<Rightarrow> f a)"

lemma opt_val_inject [simp]:
  "opt_val VInt x = opt_val VInt y \<longleftrightarrow> x = y"
  "opt_val VStr u = opt_val VStr v \<longleftrightarrow> u = v"
  "opt_val VBytes b = opt_val VBytes c \<longleftrightarrow> b = c"
  by (auto simp: opt_val_def split: option.splits)

abbreviation proto_val :: "VrfSvcsRuleProto option \<Rightarrow> attr_val" where
  "proto_val p \<equiv> opt_val (\<lambda>q. VInt (int_of_proto q)) p"

lemma enum_val_inject [simp]:
  "int_of_rule_type t = int_of_rule_type t' \<longleftrightarrow> t = t'"
  "int_of_action a = int_of_action a' \<longleftrightarrow> a = a'"
  "int_of_af f = int_of_af f' \<longleftrightarrow> f = f'"
  "int_of_proto q = int_of_proto q' \<longleftrightarrow> q = q'"
  using rule_type_of_int_inverse action_of_int_inverse af_of_int_inverse proto_of_int_inverse
  by (metis option.inject)+

lemma proto_val_inject [simp]: "proto_val p = proto_val p' \<longleftrightarrow> p = p'"
  by (auto simp: opt_val_def split: option.splits)

text \<open>\<open>vars(self)\<close>.\<close>

definition common_vars :: "'a svcs_rule_scheme \<Rightarrow> (attr \<times> attr_val) list" where
  "common_vars r =
     [(A_rule_type, VInt (int_of_rule_type (rule_type r))),
      (A_vrf_name, VStr (vrf_name r)),
      (A_af, VInt (int_of_af (af r))),
      (A_src_ip, opt_val VBytes (src_ip r)),
      (A_protocol, proto_val (protocol r)),
      (A_dst_port, opt_val VInt (dst_port r)),
      (A_dst_ip, opt_val VBytes (dst_ip r)),
      (A_dst_prefix_len, opt_val VInt (dst_prefix_len r)),
      (A_seq_num, VInt (seq_num r)),
      (A_action, VInt (int_of_action (action r))),
      (A_grp_priority, VInt (int_of_prio (grp_priority r))),
      (A_packet_count, opt_val VStr (packet_count r)),
      (A_byte_count, opt_val VStr (byte_count r)),
      (A_rule_id, opt_val VInt (rule_id r))]"

definition in_vars :: "in_rule \<Rightarrow> (attr \<times> attr_val) list" where
  "in_vars r = common_vars r @
     [(A_src_prefix_len, opt_val VInt (src_prefix_len r)),
      (A_low_dst_port, opt_val VInt (low_dst_port r)),
      (A_high_dst_port, opt_val VInt (high_dst_port r)),
      (A_in_intf, opt_val VStr (in_intf r))] @
     (case negative r of None \<Rightarrow> [] | Some b \<Rightarrow> [(A_negative, VBool b)])"

definition out_vars :: "out_rule \<Rightarrow> (attr \<times> attr_val) list" where
  "out_vars r = common_vars r @
     [(A_out_src_ip, opt_val VBytes (out_src_ip r)),
      (A_private_ip, opt_val VBytes (private_ip r)),
      (A_private_port, opt_val VInt (private_port r))]"

text \<open>An attribute that must have a known name when it is set, or \<open>ValueError\<close>.\<close>

definition checked :: "(int \<Rightarrow> 'e option) \<Rightarrow> ('e \<Rightarrow> string option) \<Rightarrow> int \<Rightarrow> exn + 'e" where
  "checked conv name n =
     (case conv n of
        None \<Rightarrow> Inl ValueError
      | Some x \<Rightarrow> if name x = None then Inl ValueError else Inr x)"

lemma checked_Inr: "checked conv name n = Inr x \<longleftrightarrow> conv n = Some x \<and> name x \<noteq> None"
  by (auto simp: checked_def split: option.splits)

definition checked_opt ::
  "(int \<Rightarrow> 'e option) \<Rightarrow> ('e \<Rightarrow> string option) \<Rightarrow> int option \<Rightarrow> exn + 'e option" where
  "checked_opt conv name n =
     (case n of None \<Rightarrow> Inr None | Some k \<Rightarrow> try_bind (checked conv name k) (\<lambda>x. Inr (Some x)))"

lemma checked_opt_Inr:
  "checked_opt conv name n = Inr x \<longleftrightarrow>
     (n = None \<and> x = None) \<or> (\<exists>k y. n = Some k \<and> x = Some y \<and> conv k = Some y \<and> name y \<noteq> None)"
  by (auto simp: checked_opt_def try_bind_Inr checked_Inr split: option.splits)

fun af_name :: "address_family \<Rightarrow> string option" where
  "af_name AF_INET = Some ''IPv4''"
| "af_name AF_INET6 = Some ''IPv6''"

text \<open>The loop over the attributes in \<open>match(**params)\<close>, the same in both classes.\<close>

definition attrs_match :: "(attr \<times> attr_val) list \<Rightarrow> (attr \<times> attr_val) list \<Rightarrow> bool" where
  "attrs_match attrs params =
     list_all (\<lambda>(k, v). case map_of attrs k of
                          None \<Rightarrow> False
                        | Some w \<Rightarrow> v = VNone \<or> v = w) params"

text \<open>The loop of \<open>__hash__\<close>; the hash of a value is Python's.\<close>

definition attrs_hash :: "(attr_val \<Rightarrow> 64 word) \<Rightarrow> attr list \<Rightarrow> (attr \<times> attr_val) list \<Rightarrow> 64 word" where
  "attrs_hash hash keys attrs =
     fold (\<lambda>k h. case map_of attrs k of
                   None \<Rightarrow> h
                 | Some v \<Rightarrow> if v = VNone then h else xor h (hash v)) keys 0"

definition hex_attr :: "attr_val \<Rightarrow> attr_val" where
  "hex_attr v = (case v of VBytes b \<Rightarrow> VStr (hexlify b) | _ \<Rightarrow> v)"

section \<open>\<open>VrfIncomingSvcsRule\<close>\<close>

fun in_rule_type_name :: "VrfSvcsRuleType \<Rightarrow> string option" where
  "in_rule_type_name RULE_TYPE_IP = Some ''IP''"
| "in_rule_type_name RULE_TYPE_ACL = Some ''ACL''"
| "in_rule_type_name _ = None"

fun in_action_name :: "bool \<Rightarrow> VrfSvcsRuleAction \<Rightarrow> string option" where
  "in_action_name tgt RULE_ACTION_ALLOW = Some (if tgt then ''accept'' else ''allow'')"
| "in_action_name tgt RULE_ACTION_DENY = Some (if tgt then ''drop'' else ''deny'')"
| "in_action_name tgt RULE_ACTION_DNAT = Some ''dnat''"
| "in_action_name tgt RULE_ACTION_REJECT = Some (if tgt then ''mark'' else ''reject'')"
| "in_action_name tgt RULE_ACTION_SNAT = None"

fun in_proto_name :: "VrfSvcsRuleProto \<Rightarrow> string option" where
  "in_proto_name RULE_PROTO_TCP = Some ''tcp''"
| "in_proto_name RULE_PROTO_UDP = Some ''udp''"
| "in_proto_name RULE_PROTO_ICMP = Some ''icmp''"
| "in_proto_name RULE_PROTO_ICMPV6 = Some ''icmpv6''"
| "in_proto_name RULE_PROTO_ALL = Some ''ip''"

definition in_KEY_ATTRS :: "attr list" where
  "in_KEY_ATTRS =
     [A_rule_type, A_vrf_name, A_af, A_src_ip, A_src_prefix_len, A_protocol, A_dst_port,
      A_low_dst_port, A_high_dst_port, A_action, A_in_intf, A_dst_ip, A_dst_prefix_len]"

definition in_is_rule_equal :: "in_rule option \<Rightarrow> in_rule option \<Rightarrow> bool" where
  "in_is_rule_equal r1 r2 =
     (case (r1, r2) of
        (None, None) \<Rightarrow> True
      | (Some a, Some b) \<Rightarrow>
          list_all (\<lambda>k. case (map_of (in_vars a) k, map_of (in_vars b) k) of
                          (Some u, Some v) \<Rightarrow> u = v
                        | (None, None) \<Rightarrow> True
                        | _ \<Rightarrow> False) in_KEY_ATTRS
      | _ \<Rightarrow> False)"

text \<open>\<open>__eq__\<close>.\<close>

definition in_eq :: "in_rule \<Rightarrow> in_rule \<Rightarrow> bool" where
  "in_eq a b = in_is_rule_equal (Some a) (Some b)"

definition in_hash :: "(attr_val \<Rightarrow> 64 word) \<Rightarrow> in_rule \<Rightarrow> 64 word" where
  "in_hash hash r = attrs_hash hash in_KEY_ATTRS (in_vars r)"

definition in_match :: "in_rule \<Rightarrow> (attr \<times> attr_val) list \<Rightarrow> bool" where
  "in_match r params = attrs_match (in_vars r) params"

text \<open>
  \<open>normalize_ip_prefix\<close>: the network address of a subnet, and the any-address for a missing
  address. \<open>cidr_packed text\<close> stands for \<open>netaddr.IPNetwork(text).cidr.ip.packed\<close>.
\<close>

definition any_ip :: "address_family \<Rightarrow> packed" where
  "any_ip f = replicate (addr_len f) 0"

definition normalize_ip_prefix ::
  "(string \<Rightarrow> exn + packed) \<Rightarrow> address_family \<Rightarrow> packed option \<Rightarrow> int option \<Rightarrow>
   exn + (packed option \<times> int option)" where
  "normalize_ip_prefix cidr_packed f ip plen =
     (case (ip, plen) of
        (Some b, Some n) \<Rightarrow>
          try_bind (inet_ntop f b) (\<lambda>s.
          try_bind (cidr_packed (s @ ''/'' @ dec n)) (\<lambda>c. Inr (Some c, Some n)))
      | (None, _) \<Rightarrow> Inr (Some (any_ip f), Some 0)
      | (Some b, None) \<Rightarrow> if b = replicate (length b) 0 then Inr (Some b, Some 0) else Inr (ip, plen))"

text \<open>\<open>__setattr__\<close> for \<open>in_intf\<close> and for \<open>grp_priority\<close>.\<close>

definition in_set_intf :: "string option \<Rightarrow> in_rule \<Rightarrow> in_rule" where
  "in_set_intf v r =
     (case v of
        None \<Rightarrow> r\<lparr>in_intf := None\<rparr>
      | Some s \<Rightarrow> if length s > 0 \<and> hd s = CHR ''!''
                  then r\<lparr>negative := Some True, in_intf := Some (tl s)\<rparr>
                  else r\<lparr>negative := Some False, in_intf := Some s\<rparr>)"

definition prio_of_bool :: "bool \<Rightarrow> VrfSvcsRuleGroupPrio" where
  "prio_of_bool b = (if b then HIGH_GRP_PRIO else DEFAULT_GRP_PRIO)"

text \<open>The optional arguments of the constructor.\<close>

record in_args =
  a_src_ip :: "packed option"
  a_src_prefix_len :: "int option"
  a_protocol :: "int option"
  a_dst_port :: "int option"
  a_dst_ip :: "packed option"
  a_dst_prefix_len :: "int option"
  a_low_dst_port :: "int option"
  a_high_dst_port :: "int option"
  a_seq_num :: int
  a_rule_id :: "int option"
  a_high_prio :: bool
  a_in_intf :: "string option"

definition in_defaults :: in_args where
  "in_defaults = \<lparr>a_src_ip = None, a_src_prefix_len = None, a_protocol = None, a_dst_port = None,
     a_dst_ip = None, a_dst_prefix_len = None, a_low_dst_port = None, a_high_dst_port = None,
     a_seq_num = 0, a_rule_id = None, a_high_prio = False, a_in_intf = None\<rparr>"

text \<open>The assignments of the constructor, once the arguments have been checked.\<close>

definition in_new ::
  "VrfSvcsRuleType \<Rightarrow> string \<Rightarrow> address_family \<Rightarrow> VrfSvcsRuleProto option \<Rightarrow> VrfSvcsRuleAction \<Rightarrow>
   in_args \<Rightarrow> packed option \<times> int option \<Rightarrow> packed option \<times> int option \<Rightarrow> in_rule" where
  "in_new t vrf f p ac args src dst =
     in_set_intf (a_in_intf args)
       \<lparr>rule_type = t, vrf_name = vrf, af = f, src_ip = fst src, protocol = p,
        dst_port = a_dst_port args, dst_ip = fst dst, dst_prefix_len = snd dst,
        seq_num = a_seq_num args,
        action = (if ac = RULE_ACTION_DENY \<and> t = RULE_TYPE_ACL then RULE_ACTION_REJECT else ac),
        grp_priority = prio_of_bool (a_high_prio args), packet_count = None,
        byte_count = None, rule_id = a_rule_id args, src_prefix_len = snd src,
        low_dst_port = a_low_dst_port args, high_dst_port = a_high_dst_port args,
        in_intf = None, negative = None\<rparr>"

definition VrfIncomingSvcsRule_init ::
  "(string \<Rightarrow> exn + packed) \<Rightarrow> int \<Rightarrow> string \<Rightarrow> int \<Rightarrow> int \<Rightarrow> in_args \<Rightarrow> exn + in_rule" where
  "VrfIncomingSvcsRule_init cidr_packed rt vrf act fam args =
     try_bind (checked rule_type_of_int in_rule_type_name rt) (\<lambda>t.
     try_bind (checked af_of_int af_name fam) (\<lambda>f.
     try_bind (checked_opt proto_of_int in_proto_name (a_protocol args)) (\<lambda>p.
     try_bind (checked action_of_int (in_action_name False) act) (\<lambda>ac.
       if ac = RULE_ACTION_DNAT \<and> a_dst_ip args = None then Inl ValueError
       else
         try_bind (normalize_ip_prefix cidr_packed f (a_src_ip args) (a_src_prefix_len args)) (\<lambda>src.
         try_bind (normalize_ip_prefix cidr_packed f (a_dst_ip args) (a_dst_prefix_len args)) (\<lambda>dst.
           Inr (in_new t vrf f p ac args src dst)))))))"

text \<open>\<open>to_cps_obj\<close>: the attributes of the object that is returned to the northbound side.\<close>

fun in_cps_attr_map :: "attr \<Rightarrow> string option" where
  "in_cps_attr_map A_vrf_name = Some ''ni-name''"
| "in_cps_attr_map A_af = Some ''af''"
| "in_cps_attr_map A_src_ip = Some ''src-ip''"
| "in_cps_attr_map A_src_prefix_len = Some ''src-prefix-len''"
| "in_cps_attr_map A_dst_ip = Some ''dst-ip''"
| "in_cps_attr_map A_dst_prefix_len = Some ''dst-prefix-len''"
| "in_cps_attr_map A_protocol = Some ''protocol''"
| "in_cps_attr_map A_dst_port = Some ''dst-port''"
| "in_cps_attr_map A_low_dst_port = Some ''lower-dst-port''"
| "in_cps_attr_map A_high_dst_port = Some ''upper-dst-port''"
| "in_cps_attr_map A_action = Some ''action''"
| "in_cps_attr_map A_seq_num = Some ''seq-num''"
| "in_cps_attr_map A_in_intf = Some ''ifname''"
| "in_cps_attr_map A_rule_id = Some ''id''"
| "in_cps_attr_map A_packet_count = Some ''matched-packets''"
| "in_cps_attr_map A_byte_count = Some ''matched-bytes''"
| "in_cps_attr_map _ = None"

definition in_cps_attr :: "in_rule \<Rightarrow> attr \<times> attr_val \<Rightarrow> (string \<times> attr_val) option" where
  "in_cps_attr r kv =
     (case kv of (k, v) \<Rightarrow>
        (case in_cps_attr_map k of
           None \<Rightarrow> None
         | Some name \<Rightarrow>
             if v = VNone then None
             else if (k = A_dst_ip \<or> k = A_dst_prefix_len) \<and> rule_type r = RULE_TYPE_IP then None
             else Some (name,
               (if k = A_action then
                  (if v = VInt (int_of_action RULE_ACTION_DNAT) then VInt (int_of_action RULE_ACTION_ALLOW)
                   else if v = VInt (int_of_action RULE_ACTION_REJECT) then VInt (int_of_action RULE_ACTION_DENY)
                   else v)
                else if k = A_src_ip \<or> k = A_dst_ip then hex_attr v
                else if k = A_in_intf \<and> negative r = Some True
                then (case v of VStr s \<Rightarrow> VStr (''!'' @ s) | _ \<Rightarrow> v)
                else v))))"

definition in_to_cps_obj :: "in_rule \<Rightarrow> (string \<times> attr_val) list" where
  "in_to_cps_obj r = List.map_filter (in_cps_attr r) (in_vars r)"

lemma in_eq_iff:
  "in_eq a b \<longleftrightarrow>
     rule_type a = rule_type b \<and> vrf_name a = vrf_name b \<and> af a = af b \<and> src_ip a = src_ip b \<and>
     src_prefix_len a = src_prefix_len b \<and> protocol a = protocol b \<and> dst_port a = dst_port b \<and>
     low_dst_port a = low_dst_port b \<and> high_dst_port a = high_dst_port b \<and> action a = action b \<and>
     in_intf a = in_intf b \<and> dst_ip a = dst_ip b \<and> dst_prefix_len a = dst_prefix_len b"
  by (simp add: in_eq_def in_is_rule_equal_def in_KEY_ATTRS_def in_vars_def common_vars_def)

lemma in_set_intf_frame [frame_simps]:
  "rule_type (in_set_intf v r) = rule_type r" "vrf_name (in_set_intf v r) = vrf_name r"
  "af (in_set_intf v r) = af r" "src_ip (in_set_intf v r) = src_ip r"
  "protocol (in_set_intf v r) = protocol r" "dst_port (in_set_intf v r) = dst_port r"
  "dst_ip (in_set_intf v r) = dst_ip r" "dst_prefix_len (in_set_intf v r) = dst_prefix_len r"
  "seq_num (in_set_intf v r) = seq_num r" "action (in_set_intf v r) = action r"
  "grp_priority (in_set_intf v r) = grp_priority r" "rule_id (in_set_intf v r) = rule_id r"
  "packet_count (in_set_intf v r) = packet_count r" "byte_count (in_set_intf v r) = byte_count r"
  "src_prefix_len (in_set_intf v r) = src_prefix_len r"
  "low_dst_port (in_set_intf v r) = low_dst_port r" "high_dst_port (in_set_intf v r) = high_dst_port r"
  by (auto simp: in_set_intf_def split: option.splits)

lemma normalize_ip_prefix_some:
  "normalize_ip_prefix c f ip n = Inr (ip', n') \<Longrightarrow> ip' \<noteq> None \<and> (n' = None \<longrightarrow> n = None \<and> ip' = ip)"
  by (auto simp: normalize_ip_prefix_def try_bind_Inr split: option.splits if_splits)

section \<open>\<open>VrfOutgoingSvcsRule\<close>\<close>

fun out_rule_type_name :: "VrfSvcsRuleType \<Rightarrow> string option" where
  "out_rule_type_name RULE_TYPE_OUT_IP = Some ''IP''"
| "out_rule_type_name RULE_TYPE_SNAT = Some ''SNAT''"
| "out_rule_type_name _ = None"

fun out_action_name :: "bool \<Rightarrow> VrfSvcsRuleAction \<Rightarrow> string option" where
  "out_action_name tgt RULE_ACTION_DNAT = Some ''dnat''"
| "out_action_name tgt RULE_ACTION_SNAT = Some ''snat''"
| "out_action_name tgt _ = None"

fun out_proto_name :: "VrfSvcsRuleProto \<Rightarrow> string option" where
  "out_proto_name RULE_PROTO_TCP = Some ''tcp''"
| "out_proto_name RULE_PROTO_UDP = Some ''udp''"
| "out_proto_name RULE_PROTO_ICMP = Some ''icmp''"
| "out_proto_name RULE_PROTO_ICMPV6 = Some ''icmpv6''"
| "out_proto_name RULE_PROTO_ALL = None"

definition out_KEY_ATTRS :: "attr list" where
  "out_KEY_ATTRS = [A_rule_type, A_vrf_name, A_af, A_dst_ip, A_protocol, A_dst_port, A_out_src_ip]"

definition out_is_rule_equal :: "out_rule \<Rightarrow> out_rule \<Rightarrow> bool" where
  "out_is_rule_equal a b \<longleftrightarrow>
     list_all (\<lambda>k. case (map_of (out_vars a) k, map_of (out_vars b) k) of
                     (Some u, Some v) \<Rightarrow> u = v
                   | _ \<Rightarrow> False) out_KEY_ATTRS"

definition out_hash :: "(attr_val \<Rightarrow> 64 word) \<Rightarrow> out_rule \<Rightarrow> 64 word" where
  "out_hash hash r = attrs_hash hash out_KEY_ATTRS (out_vars r)"

definition out_match :: "out_rule \<Rightarrow> (attr \<times> attr_val) list \<Rightarrow> bool" where
  "out_match r params = attrs_match (out_vars r) params"

record out_args =
  o_dst_ip :: "packed option"
  o_protocol :: "int option"
  o_dst_port :: "int option"
  o_out_src_ip :: "packed option"
  o_private_ip :: "packed option"
  o_private_port :: "int option"
  o_seq_num :: int
  o_rule_id :: "int option"
  o_high_prio :: bool

definition out_defaults :: out_args where
  "out_defaults = \<lparr>o_dst_ip = None, o_protocol = None, o_dst_port = None, o_out_src_ip = None,
     o_private_ip = None, o_private_port = None, o_seq_num = 0, o_rule_id = None, o_high_prio = False\<rparr>"

definition VrfOutgoingSvcsRule_init :: "int \<Rightarrow> string \<Rightarrow> int \<Rightarrow> int \<Rightarrow> out_args \<Rightarrow> exn + out_rule" where
  "VrfOutgoingSvcsRule_init rt vrf act fam args =
     try_bind (checked rule_type_of_int out_rule_type_name rt) (\<lambda>t.
     try_bind (checked af_of_int af_name fam) (\<lambda>f.
     try_bind (checked_opt proto_of_int out_proto_name (o_protocol args)) (\<lambda>p.
     try_bind (checked action_of_int (out_action_name False) act) (\<lambda>ac.
       if t = RULE_TYPE_SNAT \<and> ac \<noteq> RULE_ACTION_SNAT then Inl ValueError
       else if t = RULE_TYPE_SNAT \<and> o_out_src_ip args = None then Inl ValueError
       else
         Inr \<lparr>rule_type = t, vrf_name = vrf, af = f, src_ip = None, protocol = p,
              dst_port = o_dst_port args, dst_ip = o_dst_ip args, dst_prefix_len = None,
              seq_num = o_seq_num args, action = ac,
              grp_priority = prio_of_bool (o_high_prio args), packet_count = None,
              byte_count = None, rule_id = o_rule_id args, out_src_ip = o_out_src_ip args,
              private_ip = o_private_ip args, private_port = o_private_port args\<rparr>))))"

fun out_cps_attr_map :: "attr \<Rightarrow> string option" where
  "out_cps_attr_map A_vrf_name = Some ''ni-name''"
| "out_cps_attr_map A_af = Some ''af''"
| "out_cps_attr_map A_dst_ip = Some ''public-ip''"
| "out_cps_attr_map A_protocol = Some ''protocol''"
| "out_cps_attr_map A_dst_port = Some ''public-port''"
| "out_cps_attr_map A_out_src_ip = Some ''outgoing-source-ip''"
| "out_cps_attr_map A_private_ip = Some ''private-ip''"
| "out_cps_attr_map A_private_port = Some ''private-port''"
| "out_cps_attr_map A_rule_id = Some ''id''"
| "out_cps_attr_map _ = None"

definition out_cps_attr :: "attr \<times> attr_val \<Rightarrow> (string \<times> attr_val) option" where
  "out_cps_attr kv =
     (case kv of (k, v) \<Rightarrow>
        (case out_cps_attr_map k of
           None \<Rightarrow> None
         | Some name \<Rightarrow>
             if v = VNone then None
             else Some (name,
               if k = A_dst_ip \<or> k = A_out_src_ip \<or> k = A_private_ip then hex_attr v else v)))"

definition out_to_cps_obj :: "out_rule \<Rightarrow> (string \<times> attr_val) list" where
  "out_to_cps_obj r = List.map_filter out_cps_attr (out_vars r)"

lemma out_eq_iff:
  "out_is_rule_equal a b \<longleftrightarrow>
     rule_type a = rule_type b \<and> vrf_name a = vrf_name b \<and> af a = af b \<and> dst_ip a = dst_ip b \<and>
     protocol a = protocol b \<and> dst_port a = dst_port b \<and> out_src_ip a = out_src_ip b"
  by (simp add: out_is_rule_equal_def out_KEY_ATTRS_def out_vars_def common_vars_def)

section \<open>What the constructors guarantee\<close>

text \<open>
  The attributes the rest of the code relies on: the type belongs to the class, an ACL rule
  never has the internal action \<open>drop\<close>, both subnets are present, and \<open>negative\<close> exists
  exactly when there is an interface.
\<close>

definition in_rule_ok :: "in_rule \<Rightarrow> bool" where
  "in_rule_ok r \<longleftrightarrow>
     in_rule_type_name (rule_type r) \<noteq> None \<and> in_action_name False (action r) \<noteq> None \<and>
     \<not> (rule_type r = RULE_TYPE_ACL \<and> action r = RULE_ACTION_DENY) \<and>
     src_ip r \<noteq> None \<and> dst_ip r \<noteq> None \<and> (in_intf r = None \<longleftrightarrow> negative r = None) \<and>
     packet_count r = None \<and> byte_count r = None"

definition out_rule_ok :: "out_rule \<Rightarrow> bool" where
  "out_rule_ok r \<longleftrightarrow>
     out_rule_type_name (rule_type r) \<noteq> None \<and> out_action_name False (action r) \<noteq> None \<and>
     src_ip r = None \<and> dst_prefix_len r = None \<and> protocol r \<noteq> Some RULE_PROTO_ALL \<and>
     (rule_type r = RULE_TYPE_SNAT \<longrightarrow> action r = RULE_ACTION_SNAT \<and> out_src_ip r \<noteq> None)"

lemma in_init_cases:
  assumes "VrfIncomingSvcsRule_init c rt vrf act fam args = Inr r"
  obtains t f p ac src dst where
    "rule_type_of_int rt = Some t" "in_rule_type_name t \<noteq> None" "af_of_int fam = Some f"
    "checked_opt proto_of_int in_proto_name (a_protocol args) = Inr p"
    "action_of_int act = Some ac" "in_action_name False ac \<noteq> None"
    "ac = RULE_ACTION_DNAT \<Longrightarrow> a_dst_ip args \<noteq> None"
    "normalize_ip_prefix c f (a_src_ip args) (a_src_prefix_len args) = Inr src"
    "normalize_ip_prefix c f (a_dst_ip args) (a_dst_prefix_len args) = Inr dst"
    "r = in_new t vrf f p ac args src dst"
proof -
  from assms show thesis
    unfolding VrfIncomingSvcsRule_init_def try_bind_Inr checked_Inr if_distribR
    by (elim exE conjE) (auto simp: try_bind_Inr split: if_splits intro: that)
qed

lemma in_new_frame [frame_simps]:
  "rule_type (in_new t vrf f p ac args src dst) = t"
  "vrf_name (in_new t vrf f p ac args src dst) = vrf"
  "af (in_new t vrf f p ac args src dst) = f"
  "action (in_new t vrf f p ac args src dst) =
     (if ac = RULE_ACTION_DENY \<and> t = RULE_TYPE_ACL then RULE_ACTION_REJECT else ac)"
  "src_ip (in_new t vrf f p ac args src dst) = fst src"
  "dst_ip (in_new t vrf f p ac args src dst) = fst dst"
  "src_prefix_len (in_new t vrf f p ac args src dst) = snd src"
  "dst_prefix_len (in_new t vrf f p ac args src dst) = snd dst"
  "packet_count (in_new t vrf f p ac args src dst) = None"
  "byte_count (in_new t vrf f p ac args src dst) = None"
  "rule_id (in_new t vrf f p ac args src dst) = a_rule_id args"
  by (simp_all add: in_new_def frame_simps)

lemma in_new_intf: "in_intf (in_new t vrf f p ac args src dst) = None \<longleftrightarrow>
    negative (in_new t vrf f p ac args src dst) = None"
  by (auto simp: in_new_def in_set_intf_def split: option.splits)

lemma in_init_ok:
  assumes "VrfIncomingSvcsRule_init c rt vrf act fam args = Inr r"
  shows "in_rule_ok r"
  using assms
proof (rule in_init_cases)
  fix t f p ac src dst
  assume h: "in_rule_type_name t \<noteq> None" "in_action_name False ac \<noteq> None"
    "normalize_ip_prefix c f (a_src_ip args) (a_src_prefix_len args) = Inr src"
    "normalize_ip_prefix c f (a_dst_ip args) (a_dst_prefix_len args) = Inr dst"
    and r: "r = in_new t vrf f p ac args src dst"
  have "fst src \<noteq> None" "fst dst \<noteq> None"
    using normalize_ip_prefix_some [of c f _ _ "fst src" "snd src"]
      normalize_ip_prefix_some [of c f _ _ "fst dst" "snd dst"] h(3,4) by auto
  with h(1,2) show ?thesis
    unfolding r by (auto simp: in_rule_ok_def frame_simps in_new_intf)
qed

lemma out_init_ok:
  "VrfOutgoingSvcsRule_init rt vrf act fam args = Inr r \<Longrightarrow> out_rule_ok r"
  by (auto simp: VrfOutgoingSvcsRule_init_def out_rule_ok_def try_bind_Inr checked_Inr checked_opt_Inr
      split: if_splits)

text \<open>Looking an attribute up in the reported object.\<close>

lemma cps_skip:
  "in_cps_attr_map k \<noteq> Some n \<Longrightarrow> map_of (List.map_filter (in_cps_attr r) ((k, v) # xs)) n =
     map_of (List.map_filter (in_cps_attr r) xs) n"
proof (cases "in_cps_attr r (k, v)")
  case (Some nw)
  assume "in_cps_attr_map k \<noteq> Some n"
  moreover have "in_cps_attr_map k = Some (fst nw)"
    using Some by (cases "in_cps_attr_map k"; cases nw) (simp_all add: in_cps_attr_def split: if_split_asm)
  ultimately show ?thesis using Some by (cases nw) (simp add: map_filter_simps(1))
qed (simp add: map_filter_simps(1))

lemma cps_hit:
  "in_cps_attr r (k, v) = Some (n, w) \<Longrightarrow>
     map_of (List.map_filter (in_cps_attr r) ((k, v) # xs)) n = Some w"
  by (simp add: map_filter_simps(1))

section \<open>Properties\<close>

text \<open>Which numbers the setters of a rule accept.\<close>

lemma checked_numbers:
  "checked rule_type_of_int in_rule_type_name rt =
     (if rt = 1 then Inr RULE_TYPE_IP else if rt = 2 then Inr RULE_TYPE_ACL else Inl ValueError)"
  "checked af_of_int af_name fam =
     (if fam = 2 then Inr AF_INET else if fam = 10 then Inr AF_INET6 else Inl ValueError)"
  "checked action_of_int (in_action_name False) act =
     (if act = 1 then Inr RULE_ACTION_ALLOW else if act = 2 then Inr RULE_ACTION_DENY
      else if act = 3 then Inr RULE_ACTION_DNAT else if act = 4 then Inr RULE_ACTION_REJECT
      else Inl ValueError)"
  by (simp_all add: checked_def rule_type_of_int_def af_of_int_def action_of_int_def)

lemma checked_protocol:
  "if (case proto of None \<Rightarrow> True | Some p \<Rightarrow> p \<in> {1, 2, 3, 4, 5})
   then \<exists>x. checked_opt proto_of_int in_proto_name proto = Inr x
   else checked_opt proto_of_int in_proto_name proto = Inl ValueError"
  by (auto simp: checked_opt_def checked_def proto_of_int_def split: option.splits)

text \<open>
  Which constructor calls of the incoming class succeed, when the addresses have the
  length of their family and netaddr accepts the subnets: exactly those with a known type of
  the class, family, protocol and action (\<open>snat\<close> is not one), and an address for DNAT. The
  others raise \<open>ValueError\<close>.
\<close>

theorem in_init_succeeds_iff:
  assumes cidr: "\<And>s. \<exists>b. c s = Inr b"
    and len: "\<And>f b. af_of_int fam = Some f \<Longrightarrow> a_src_ip args = Some b \<or> a_dst_ip args = Some b \<Longrightarrow>
      length b = addr_len f"
  shows "(if rt \<in> {1, 2} \<and> fam \<in> {2, 10} \<and> act \<in> {1, 2, 3, 4} \<and>
            (case a_protocol args of None \<Rightarrow> True | Some p \<Rightarrow> p \<in> {1, 2, 3, 4, 5}) \<and>
            (act = 3 \<longrightarrow> a_dst_ip args \<noteq> None)
          then \<exists>r. VrfIncomingSvcsRule_init c rt vrf act fam args = Inr r
          else VrfIncomingSvcsRule_init c rt vrf act fam args = Inl ValueError)"
proof -
  have norm: "\<exists>x. normalize_ip_prefix c f ip n = Inr x"
    if "af_of_int fam = Some f" "ip = a_src_ip args \<or> ip = a_dst_ip args" for f ip n
    using that len [OF that(1)] cidr
    by (auto simp: normalize_ip_prefix_def inet_ntop_def try_bind_Inr split: option.splits)
  note t = checked_numbers(1) and f = checked_numbers(2) and a = checked_numbers(3)
  note p = checked_protocol [of "a_protocol args"]
  have n: "\<exists>x. normalize_ip_prefix c f (a_src_ip args) m = Inr x"
      "\<exists>x. normalize_ip_prefix c f (a_dst_ip args) m = Inr x"
    if "(fam = 2 \<and> f = AF_INET) \<or> (fam = 10 \<and> f = AF_INET6)" for f m
    using norm [of f] that by (auto simp: af_of_int_def)
  have d: "RULE_ACTION_DNAT \<noteq> RULE_ACTION_ALLOW" "RULE_ACTION_DNAT \<noteq> RULE_ACTION_REJECT" by simp_all
  show ?thesis
  proof (cases "case a_protocol args of None \<Rightarrow> True | Some p \<Rightarrow> p \<in> {1, 2, 3, 4, 5}")
    case False
    then show ?thesis
      using p unfolding VrfIncomingSvcsRule_init_def t f by auto
  next
    case True
    then obtain x where x: "checked_opt proto_of_int in_proto_name (a_protocol args) = Inr x"
      using p by auto
    consider "fam = 2" | "fam = 10" | "fam \<noteq> 2" "fam \<noteq> 10" by blast
    then show ?thesis
    proof cases
      case 1
      then obtain s d where "normalize_ip_prefix c AF_INET (a_src_ip args) (a_src_prefix_len args) = Inr s"
        "normalize_ip_prefix c AF_INET (a_dst_ip args) (a_dst_prefix_len args) = Inr d"
        using n(1) [of AF_INET "a_src_prefix_len args"] n(2) [of AF_INET "a_dst_prefix_len args"] by auto
      with 1 True show ?thesis unfolding VrfIncomingSvcsRule_init_def t f a x by auto
    next
      case 2
      then obtain s d where "normalize_ip_prefix c AF_INET6 (a_src_ip args) (a_src_prefix_len args) = Inr s"
        "normalize_ip_prefix c AF_INET6 (a_dst_ip args) (a_dst_prefix_len args) = Inr d"
        using n(1) [of AF_INET6 "a_src_prefix_len args"] n(2) [of AF_INET6 "a_dst_prefix_len args"] by auto
      with 2 True show ?thesis unfolding VrfIncomingSvcsRule_init_def t f a x by auto
    next
      case 3
      then show ?thesis unfolding VrfIncomingSvcsRule_init_def t f by auto
    qed
  qed
qed

theorem in_init_succeeds_iff_witness:
  "\<exists>r. VrfIncomingSvcsRule_init (\<lambda>s. Inr (any_ip AF_INET)) 2 ''default'' 2 2
     (in_defaults\<lparr>a_src_ip := Some [10, 0, 0, 0], a_src_prefix_len := Some 8, a_protocol := Some 1\<rparr>) = Inr r"
proof -
  let ?args = "in_defaults\<lparr>a_src_ip := Some [10, 0, 0, 0], a_src_prefix_len := Some 8,
      a_protocol := Some 1\<rparr>"
  have "length b = addr_len f"
    if "af_of_int 2 = Some f" "a_src_ip ?args = Some b \<or> a_dst_ip ?args = Some b" for f b
    using that by (auto simp: in_defaults_def af_of_int_def addr_len_def)
  then have "if (2::int) \<in> {1, 2} \<and> (2::int) \<in> {2, 10} \<and> (2::int) \<in> {1, 2, 3, 4} \<and>
        (case a_protocol ?args of None \<Rightarrow> True | Some p \<Rightarrow> p \<in> {1, 2, 3, 4, 5}) \<and>
        ((2::int) = 3 \<longrightarrow> a_dst_ip ?args \<noteq> None)
      then \<exists>r. VrfIncomingSvcsRule_init (\<lambda>s. Inr (any_ip AF_INET)) 2 ''default'' 2 2 ?args = Inr r
      else VrfIncomingSvcsRule_init (\<lambda>s. Inr (any_ip AF_INET)) 2 ''default'' 2 2 ?args = Inl ValueError"
    by (intro in_init_succeeds_iff) blast+
  then show ?thesis by (simp add: in_defaults_def)
qed

text \<open>
  Equality of incoming rules is an equivalence, and equal rules have equal hashes, whatever
  Python's hash of the attribute values is.
\<close>

theorem in_eq_equivalence:
  "in_eq a a \<and> in_eq a b = in_eq b a \<and>
   (if in_eq a b then in_eq b d = in_eq a d \<and> in_hash h a = in_hash h b else True)"
  by (simp add: in_eq_iff in_hash_def attrs_hash_def in_KEY_ATTRS_def in_vars_def common_vars_def) auto

text \<open>
  The interface an administrator configures comes back unchanged, with its negation, in the
  object the rule is reported with.
\<close>

theorem in_intf_reported:
  assumes "VrfIncomingSvcsRule_init c rt vrf act fam args = Inr r" "a_in_intf args = Some s"
  shows "map_of (in_to_cps_obj r) ''ifname'' = Some (VStr s)"
proof (rule in_init_cases [OF assms(1)])
  fix t f p ac src dst
  assume r: "r = in_new t vrf f p ac args src dst"
  have "(in_intf r = Some (tl s) \<and> negative r = Some True \<and> s = CHR ''!'' # tl s) \<or>
      (in_intf r = Some s \<and> negative r = Some False)"
    using assms(2) by (cases s) (auto simp: r in_new_def in_set_intf_def)
  then obtain u where u: "in_intf r = Some u"
    "in_cps_attr r (A_in_intf, VStr u) = Some (''ifname'', VStr s)"
    by (auto simp: in_cps_attr_def)
  then show ?thesis
    by (simp add: in_to_cps_obj_def in_vars_def common_vars_def cps_skip cps_hit opt_val_def
        del: map_filter_simps)
qed

theorem in_intf_reported_witness:
  "map_of (in_to_cps_obj (in_new RULE_TYPE_ACL ''default'' AF_INET None RULE_ACTION_ALLOW
     (in_defaults\<lparr>a_in_intf := Some ''!eth0''\<rparr>) (Some (any_ip AF_INET), Some 0)
     (Some (any_ip AF_INET), Some 0))) ''ifname'' = Some (VStr ''!eth0'')"
  by (rule in_intf_reported [of "\<lambda>s. Inl AddrFormatError" 2 _ 1 2 "in_defaults\<lparr>a_in_intf := Some ''!eth0''\<rparr>"])
    (simp_all add: VrfIncomingSvcsRule_init_def checked_def checked_opt_def rule_type_of_int_def
      action_of_int_def af_of_int_def in_defaults_def normalize_ip_prefix_def)

text \<open>
  An ACL rule that is configured with the action \<open>deny\<close> is reported with it, but a get
  request that asks for the rules with the action \<open>deny\<close> never returns it: the constructor
  stores \<open>reject\<close>, and \<open>match\<close> compares with the stored action.
\<close>

theorem deny_filter_misses:
  assumes "VrfIncomingSvcsRule_init c (int_of_rule_type RULE_TYPE_ACL) vrf
    (int_of_action RULE_ACTION_DENY) fam args = Inr r"
  shows "map_of (in_to_cps_obj r) ''action'' = Some (VInt (int_of_action RULE_ACTION_DENY)) \<and>
    \<not> in_match r [(A_action, VInt (int_of_action RULE_ACTION_DENY))]"
proof -
  from assms have a: "action r = RULE_ACTION_REJECT"
    by (rule in_init_cases) (auto simp: in_new_def frame_simps action_of_int_def rule_type_of_int_def)
  then have "in_cps_attr r (A_action, VInt (int_of_action (action r))) =
      Some (''action'', VInt (int_of_action RULE_ACTION_DENY))"
    by (simp add: in_cps_attr_def)
  then have "map_of (in_to_cps_obj r) ''action'' = Some (VInt (int_of_action RULE_ACTION_DENY))"
    unfolding in_to_cps_obj_def in_vars_def common_vars_def
    by (simp add: cps_skip cps_hit del: enum_val_inject map_filter_simps)
  moreover have "\<not> in_match r [(A_action, VInt (int_of_action RULE_ACTION_DENY))]"
    using a by (simp add: in_match_def attrs_match_def in_vars_def common_vars_def)
  ultimately show ?thesis by (rule conjI)
qed

theorem deny_filter_misses_witness:
  "\<not> in_match (in_new RULE_TYPE_ACL ''default'' AF_INET None RULE_ACTION_DENY in_defaults
       (Some (any_ip AF_INET), Some 0) (Some (any_ip AF_INET), Some 0)) [(A_action, VInt 2)]"
  using deny_filter_misses [of "\<lambda>s. Inl AddrFormatError" "''default''" 2 in_defaults
      "in_new RULE_TYPE_ACL ''default'' AF_INET None RULE_ACTION_DENY in_defaults
       (Some (any_ip AF_INET), Some 0) (Some (any_ip AF_INET), Some 0)"]
  by (simp add: VrfIncomingSvcsRule_init_def checked_def checked_opt_def rule_type_of_int_def
      action_of_int_def af_of_int_def in_defaults_def normalize_ip_prefix_def)

text \<open>
  The negation of the interface is not one of the attributes equality compares: the rule
  for every interface but \<open>s\<close> and the rule for \<open>s\<close> are equal, though only one of them is
  negated.
\<close>

theorem negation_not_compared:
  assumes "s = [] \<or> hd s \<noteq> CHR ''!''"
  shows "in_eq (in_set_intf (Some (''!'' @ s)) r) (in_set_intf (Some s) r) \<and>
    negative (in_set_intf (Some (''!'' @ s)) r) = Some True \<and> negative (in_set_intf (Some s) r) = Some False"
  using assms by (simp add: in_eq_iff frame_simps) (simp add: in_set_intf_def)

theorem negation_not_compared_witness:
  "\<forall>r. in_eq (in_set_intf (Some ''!eth0'') r) (in_set_intf (Some ''eth0'') r)"
  using negation_not_compared [of "''eth0''"] by simp

end
