(* ===== verification/RuleList.thy ===== *)
theory RuleList
  imports SvcsRule
begin

text \<open>
  \<^verbatim>\<open>scripts/lib/python/dn_base_vrf_svcs_config.py\<close>, the list classes
  \<open>VrfIncomingSvcsRuleList\<close> and \<open>VrfOutgoingSvcsRuleList\<close>. The two classes have the same
  fields and, up to a test in \<open>remove\<close>, the same methods, so the methods are written once over
  the attributes all rules have, with the equality of the rule class as an argument; the
  methods of each class are the instances at the end of the section.

  The locale \<open>rule_class\<close> is what the lists need of a rule class; the lemmas about the lists
  are proved in it and reach the two classes through its interpretations.
\<close>

section \<open>The list classes\<close>

record 'r rule_list =
  rules :: "'r list"
  seq_num_list :: "(VrfSvcsRuleGroupPrio \<times> int) list"
  rule_id_map :: "int option \<Rightarrow> nat option"

definition empty_rule_list :: "'r rule_list" where
  "empty_rule_list = \<lparr>rules = [], seq_num_list = [], rule_id_map = (\<lambda>_. None)\<rparr>"

definition prio_key :: "'a svcs_rule_scheme \<Rightarrow> VrfSvcsRuleGroupPrio \<times> int" where
  "prio_key r = (grp_priority r, seq_num r)"

definition id_map_loop ::
  "'a svcs_rule_scheme list \<Rightarrow> nat list \<Rightarrow> (int option \<Rightarrow> nat option) \<Rightarrow> (int option \<Rightarrow> nat option)" where
  "id_map_loop rs idxs m = fold (\<lambda>idx m. m(rule_id (rs ! idx) \<mapsto> idx)) idxs m"

definition update_rule_id_map ::
  "nat \<Rightarrow> 'a svcs_rule_scheme rule_list \<Rightarrow> 'a svcs_rule_scheme rule_list" where
  "update_rule_id_map start l =
     l\<lparr>rule_id_map := id_map_loop (rules l) [start..<length (rules l)] (rule_id_map l)\<rparr>"

definition list_find ::
  "('a svcs_rule_scheme \<Rightarrow> 'a svcs_rule_scheme \<Rightarrow> bool) \<Rightarrow> 'a svcs_rule_scheme \<Rightarrow>
   'a svcs_rule_scheme rule_list \<Rightarrow> nat option" where
  "list_find same r l = list_index (\<lambda>x. same x r) (rules l)"

definition rl_insert ::
  "('a svcs_rule_scheme \<Rightarrow> 'a svcs_rule_scheme \<Rightarrow> bool) \<Rightarrow> 'a svcs_rule_scheme \<Rightarrow>
   'a svcs_rule_scheme rule_list \<Rightarrow> nat option \<times> 'a svcs_rule_scheme rule_list" where
  "rl_insert same r l =
     (if rule_id r = None \<or> rule_id_map l (rule_id r) \<noteq> None then (None, l)
      else if list_find same r l \<noteq> None then (None, l)
      else
        (let idx = bisect_right (seq_num_list l) (prio_key r)
         in (Some idx, update_rule_id_map idx
              (l\<lparr>rules := list_insert idx r (rules l),
                 seq_num_list := list_insert idx (prio_key r) (seq_num_list l)\<rparr>))))"

text \<open>
  The common end of \<open>remove\<close> and \<open>remove_by_id\<close>: read the rule at the position, delete it from
  both lists and from the map, and renumber what follows.
\<close>

definition rl_del_at ::
  "nat \<Rightarrow> int option \<Rightarrow> 'a svcs_rule_scheme rule_list \<Rightarrow>
   ('a svcs_rule_scheme, 'a svcs_rule_scheme rule_list) outcome" where
  "rl_del_at idx k l =
     (if \<not> idx < length (rules l) then (Inl IndexError, l)
      else
        (let l1 = l\<lparr>rules := list_del idx (rules l)\<rparr>
         in if \<not> idx < length (seq_num_list l) then (Inl IndexError, l1)
         else
           (let l2 = l1\<lparr>seq_num_list := list_del idx (seq_num_list l)\<rparr>
            in if rule_id_map l k = None then (Inl KeyError, l2)
            else (Inr (rules l ! idx),
                  update_rule_id_map idx (l2\<lparr>rule_id_map := (rule_id_map l)(k := None)\<rparr>)))))"

text \<open>\<open>accept r found\<close> is the test of the outgoing class on the rule that was found.\<close>

definition rl_remove ::
  "('a svcs_rule_scheme \<Rightarrow> 'a svcs_rule_scheme \<Rightarrow> bool) \<Rightarrow>
   ('a svcs_rule_scheme \<Rightarrow> 'a svcs_rule_scheme \<Rightarrow> bool) \<Rightarrow>
   'a svcs_rule_scheme \<Rightarrow> 'a svcs_rule_scheme rule_list \<Rightarrow>
   (('a svcs_rule_scheme \<times> nat) option, 'a svcs_rule_scheme rule_list) outcome" where
  "rl_remove same accept r l =
     (case (if rule_id r = None then None else rule_id_map l (rule_id r)) of
        Some idx \<Rightarrow>
          and_then (rl_del_at idx (rule_id r) l) (\<lambda>orig l'. (Inr (Some (orig, idx)), l'))
      | None \<Rightarrow>
          (case list_find same r l of
             None \<Rightarrow> (Inr None, l)
           | Some idx \<Rightarrow>
               if \<not> accept r (rules l ! idx) then (Inr None, l)
               else and_then (rl_del_at idx (rule_id (rules l ! idx)) l)
                      (\<lambda>orig l'. (Inr (Some (orig, idx)), l'))))"

definition rl_remove_by_id ::
  "int \<Rightarrow> 'a svcs_rule_scheme rule_list \<Rightarrow>
   ('a svcs_rule_scheme option, 'a svcs_rule_scheme rule_list) outcome" where
  "rl_remove_by_id k l =
     (case rule_id_map l (Some k) of
        None \<Rightarrow> (Inr None, l)
      | Some idx \<Rightarrow> and_then (rl_del_at idx (Some k) l) (\<lambda>orig l'. (Inr (Some orig), l')))"

definition rl_clear :: "'r rule_list \<Rightarrow> 'r rule_list" where
  "rl_clear l = l\<lparr>rules := [], seq_num_list := [], rule_id_map := (\<lambda>_. None)\<rparr>"

text \<open>The item assignment of \<open>replace_rule\<close>, which does not touch the two indexes.\<close>

definition rl_set :: "nat \<Rightarrow> 'r \<Rightarrow> 'r rule_list \<Rightarrow> 'r rule_list" where
  "rl_set idx r l = l\<lparr>rules := (rules l)[idx := r]\<rparr>"

text \<open>The methods of the two classes.\<close>

definition in_list_insert :: "in_rule \<Rightarrow> in_rule rule_list \<Rightarrow> nat option \<times> in_rule rule_list" where
  "in_list_insert r l = rl_insert in_eq r l"

definition in_list_remove ::
  "in_rule \<Rightarrow> in_rule rule_list \<Rightarrow> ((in_rule \<times> nat) option, in_rule rule_list) outcome" where
  "in_list_remove r l = rl_remove in_eq (\<lambda>_ _. True) r l"

definition in_list_remove_by_id ::
  "int \<Rightarrow> in_rule rule_list \<Rightarrow> (in_rule option, in_rule rule_list) outcome" where
  "in_list_remove_by_id k l = rl_remove_by_id k l"

definition out_list_insert :: "out_rule \<Rightarrow> out_rule rule_list \<Rightarrow> nat option \<times> out_rule rule_list" where
  "out_list_insert r l = rl_insert out_is_rule_equal r l"

definition out_accept :: "out_rule \<Rightarrow> out_rule \<Rightarrow> bool" where
  "out_accept r found \<longleftrightarrow>
     (rule_type r = RULE_TYPE_OUT_IP \<longrightarrow>
        \<not> (private_ip r \<noteq> None \<and> (private_ip found = None \<or> private_ip r \<noteq> private_ip found)) \<and>
        \<not> (private_port r \<noteq> None \<and> (private_port found = None \<or> private_port r \<noteq> private_port found)))"

definition out_list_remove ::
  "out_rule \<Rightarrow> out_rule rule_list \<Rightarrow> ((out_rule \<times> nat) option, out_rule rule_list) outcome" where
  "out_list_remove r l = rl_remove out_is_rule_equal out_accept r l"

definition out_list_remove_by_id ::
  "int \<Rightarrow> out_rule rule_list \<Rightarrow> (out_rule option, out_rule rule_list) outcome" where
  "out_list_remove_by_id k l = rl_remove_by_id k l"

section \<open>Well-formed lists\<close>

text \<open>
  The lists of a class are sorted by group priority and sequence number, the list of keys and
  the map of identifiers mirror the list of rules, no identifier occurs twice and no two rules
  are equal.
\<close>

definition id_map_ok :: "'a svcs_rule_scheme list \<Rightarrow> (int option \<Rightarrow> nat option) \<Rightarrow> bool" where
  "id_map_ok rs m \<longleftrightarrow> (\<forall>k i. m k = Some i \<longleftrightarrow> i < length rs \<and> rule_id (rs ! i) = k)"

definition no_equal ::
  "('a svcs_rule_scheme \<Rightarrow> 'a svcs_rule_scheme \<Rightarrow> bool) \<Rightarrow> 'a svcs_rule_scheme list \<Rightarrow> bool" where
  "no_equal same rs \<longleftrightarrow> sorted_wrt (\<lambda>a b. \<not> same a b) rs"

definition rl_wf ::
  "('a svcs_rule_scheme \<Rightarrow> 'a svcs_rule_scheme \<Rightarrow> bool) \<Rightarrow> 'a svcs_rule_scheme rule_list \<Rightarrow> bool" where
  "rl_wf same l \<longleftrightarrow>
     seq_num_list l = map prio_key (rules l) \<and> sorted (seq_num_list l) \<and>
     distinct (map rule_id (rules l)) \<and> None \<notin> set (map rule_id (rules l)) \<and>
     id_map_ok (rules l) (rule_id_map l) \<and> no_equal same (rules l)"

lemma id_map_loop_spec:
  assumes "distinct (map rule_id rs)" "n \<le> length rs"
  shows "id_map_loop rs [s..<n] m k = Some j \<longleftrightarrow>
    (s \<le> j \<and> j < n \<and> rule_id (rs ! j) = k) \<or>
    (\<not> (\<exists>i. s \<le> i \<and> i < n \<and> rule_id (rs ! i) = k) \<and> m k = Some j)"
  using assms(2)
proof (induction n)
  case 0
  then show ?case by (simp add: id_map_loop_def)
next
  case (Suc n)
  have IH: "id_map_loop rs [s..<n] m k = Some j \<longleftrightarrow>
      (s \<le> j \<and> j < n \<and> rule_id (rs ! j) = k) \<or>
      (\<not> (\<exists>i. s \<le> i \<and> i < n \<and> rule_id (rs ! i) = k) \<and> m k = Some j)"
    by (rule Suc.IH) (use Suc.prems in simp)
  show ?case
  proof (cases "s \<le> n")
    case False
    then show ?thesis by (auto simp: id_map_loop_def)
  next
    case True
    then have step: "id_map_loop rs [s..<Suc n] m = (id_map_loop rs [s..<n] m)(rule_id (rs ! n) \<mapsto> n)"
      by (simp add: id_map_loop_def)
    have uniq: "rule_id (rs ! i) = rule_id (rs ! n) \<Longrightarrow> i < Suc n \<Longrightarrow> i = n" for i
      using assms(1) Suc.prems nth_eq_iff_index_eq [of "map rule_id rs" i n] by auto
    show ?thesis
      unfolding step using True IH uniq by (auto simp: less_Suc_eq)
  qed
qed

lemma update_map_ok:
  assumes "distinct (map rule_id rs)" "n \<le> length rs"
    and "\<And>k i. rule_id_map l k = Some i \<Longrightarrow> i < n \<Longrightarrow> rule_id (rs ! i) = k"
    and "\<And>i. i < n \<Longrightarrow> rule_id_map l (rule_id (rs ! i)) = Some i"
    and "\<And>k i. rule_id_map l k = Some i \<Longrightarrow> n \<le> i \<Longrightarrow> \<exists>j\<ge>n. j < length rs \<and> rule_id (rs ! j) = k"
    and "rules l = rs"
  shows "id_map_ok rs (rule_id_map (update_rule_id_map n l))"
proof -
  have "id_map_loop rs [n..<length rs] (rule_id_map l) k = Some i \<longleftrightarrow>
      i < length rs \<and> rule_id (rs ! i) = k" for k i
  proof -
    have uniq: "rule_id (rs ! i) = rule_id (rs ! j) \<Longrightarrow> i < length rs \<Longrightarrow> j < length rs \<Longrightarrow> i = j" for i j
      using assms(1) nth_eq_iff_index_eq [of "map rule_id rs" i j] by auto
    show ?thesis
      unfolding id_map_loop_spec [OF assms(1) order_refl]
      using assms(2-5) uniq by (metis leI order_less_le_trans)
  qed
  then show ?thesis
    by (simp add: id_map_ok_def update_rule_id_map_def assms(6))
qed

lemma update_rule_id_map_frame [frame_simps]:
  "rules (update_rule_id_map n l) = rules l"
  "seq_num_list (update_rule_id_map n l) = seq_num_list l"
  by (simp_all add: update_rule_id_map_def)

lemma list_insert_nth_lt: "j < i \<Longrightarrow> i \<le> length xs \<Longrightarrow> list_insert i x xs ! j = xs ! j"
  by (simp add: list_insert_def nth_append)

lemma list_insert_nth_ge: "i \<le> j \<Longrightarrow> j < length xs \<Longrightarrow> list_insert i x xs ! Suc j = xs ! j"
  by (simp add: list_insert_def nth_append min_def)

lemma list_del_nth_lt: "j < i \<Longrightarrow> i < length xs \<Longrightarrow> list_del i xs ! j = xs ! j"
  by (simp add: list_del_def nth_append)

lemma list_del_nth_ge: "i \<le> j \<Longrightarrow> Suc j < length xs \<Longrightarrow> list_del i xs ! j = xs ! Suc j"
  by (simp add: list_del_def nth_append min_def)

lemma insert_map_ok:
  assumes "id_map_ok (rules l) (rule_id_map l)" "distinct (map rule_id (rules l))"
    and "rule_id r \<notin> set (map rule_id (rules l))" "n \<le> length (rules l)"
  shows "id_map_ok (list_insert n r (rules l))
    (rule_id_map (update_rule_id_map n (l\<lparr>rules := list_insert n r (rules l), seq_num_list := ks\<rparr>)))"
proof (rule update_map_ok)
  show "distinct (map rule_id (list_insert n r (rules l)))"
    using assms(2,3) by (simp add: distinct_list_insert)
  show "n \<le> length (list_insert n r (rules l))" using assms(4) by simp
qed (use assms(1,4) in \<open>auto simp: id_map_ok_def list_insert_nth_lt list_insert_nth_ge
      intro!: exI [of _ "Suc _"]\<close>)

lemma del_map_ok:
  assumes "id_map_ok (rules l) (rule_id_map l)" "distinct (map rule_id (rules l))"
    and "n < length (rules l)"
  shows "id_map_ok (list_del n (rules l))
    (rule_id_map (update_rule_id_map n (l\<lparr>rules := list_del n (rules l), seq_num_list := ks,
       rule_id_map := (rule_id_map l)(rule_id (rules l ! n) := None)\<rparr>)))"
proof (rule update_map_ok)
  show "distinct (map rule_id (list_del n (rules l)))"
    using assms(2) by (simp add: distinct_list_del)
  show "n \<le> length (list_del n (rules l))" using assms(3) by simp
  have uniq: "rule_id (rules l ! i) = rule_id (rules l ! j) \<Longrightarrow> i < length (rules l) \<Longrightarrow>
      j < length (rules l) \<Longrightarrow> i = j" for i j
    using assms(2) nth_eq_iff_index_eq [of "map rule_id (rules l)" i j] by auto
  fix k i
  let ?l = "l\<lparr>rules := list_del n (rules l), seq_num_list := ks,
       rule_id_map := (rule_id_map l)(rule_id (rules l ! n) := None)\<rparr>"
  show "rule_id_map ?l k = Some i \<Longrightarrow> i < n \<Longrightarrow> rule_id (list_del n (rules l) ! i) = k"
    using assms(1,3) by (auto simp: id_map_ok_def list_del_nth_lt split: if_splits)
  show "i < n \<Longrightarrow> rule_id_map ?l (rule_id (list_del n (rules l) ! i)) = Some i"
    using assms(1,3) uniq [of i n] by (auto simp: id_map_ok_def list_del_nth_lt)
  assume k: "rule_id_map ?l k = Some i" "n \<le> i"
  with assms(1,3) have "i \<noteq> n" "i < length (rules l)" "rule_id (rules l ! i) = k"
    by (auto simp: id_map_ok_def split: if_splits)
  with k(2) assms(3) show "\<exists>j\<ge>n. j < length (list_del n (rules l)) \<and> rule_id (list_del n (rules l) ! j) = k"
    by (intro exI [of _ "i - 1"]) (auto simp: list_del_nth_ge)
qed simp

lemma sorted_wrt_list_insert:
  assumes "sorted_wrt P xs" "\<And>x. x \<in> set xs \<Longrightarrow> P x y \<and> P y x"
  shows "sorted_wrt P (list_insert n y xs)"
proof -
  have "sorted_wrt P (take n xs @ drop n xs)" using assms(1) by simp
  then show ?thesis
    using assms(2) unfolding list_insert_def sorted_wrt_append
    by (auto dest: in_set_takeD in_set_dropD)
qed

lemma sorted_wrt_list_del:
  assumes "sorted_wrt P xs"
  shows "sorted_wrt P (list_del n xs)"
proof -
  have "sorted_wrt P (take n xs @ drop n xs)" using assms by simp
  moreover have "set (drop (Suc n) xs) \<subseteq> set (drop n xs)"
    by (rule set_drop_subset_set_drop) simp
  moreover have "sorted_wrt P (drop (Suc n) xs)" using assms by (rule sorted_wrt_drop)
  ultimately show ?thesis
    unfolding list_del_def sorted_wrt_append by auto
qed

section \<open>The interface of a rule class\<close>

locale rule_class =
  fixes same :: "'a svcs_rule_scheme \<Rightarrow> 'a svcs_rule_scheme \<Rightarrow> bool"
  assumes same_refl: "same r r"
    and same_sym: "same r s \<Longrightarrow> same s r"
    and same_trans: "same r s \<Longrightarrow> same s t \<Longrightarrow> same r t"
begin

lemma wf_empty: "rl_wf same empty_rule_list"
  by (simp add: rl_wf_def empty_rule_list_def id_map_ok_def no_equal_def)

lemma wf_clear: "rl_wf same (rl_clear l)"
  by (simp add: rl_wf_def rl_clear_def id_map_ok_def no_equal_def)

lemma wf_id: "rl_wf same l \<Longrightarrow> rule_id_map l k = Some i \<longleftrightarrow> i < length (rules l) \<and> rule_id (rules l ! i) = k"
  by (simp add: rl_wf_def id_map_ok_def)

lemma wf_id_None: "rl_wf same l \<Longrightarrow> rule_id_map l k = None \<longleftrightarrow> k \<notin> rule_id ` set (rules l)"
proof -
  assume wf: "rl_wf same l"
  have "rule_id_map l k = None \<longleftrightarrow> (\<forall>i. \<not> (i < length (rules l) \<and> rule_id (rules l ! i) = k))"
    using wf_id [OF wf, of k] by (metis not_None_eq)
  then show ?thesis by (simp add: image_iff) (metis in_set_conv_nth)
qed

text \<open>\<open>insert\<close>: what it refuses and where it puts a rule.\<close>

lemma insert_None: "rl_wf same l \<Longrightarrow> fst (rl_insert same r l) = None \<longleftrightarrow>
    rule_id r = None \<or> rule_id r \<in> rule_id ` set (rules l) \<or> (\<exists>x\<in>set (rules l). same x r)"
  by (auto simp: rl_insert_def Let_def list_find_def wf_id_None py_simps)

lemma insert_None_unchanged: "fst (rl_insert same r l) = None \<Longrightarrow> snd (rl_insert same r l) = l"
  by (auto simp: rl_insert_def Let_def split: if_splits)

lemma insert_Some:
  assumes "rl_wf same l" "rl_insert same r l = (Some i, l')"
  shows "rules l' = list_insert i r (rules l)" and "i \<le> length (rules l)"
    and "\<forall>j<i. prio_key (rules l ! j) \<le> prio_key r"
    and "\<forall>j. i \<le> j \<and> j < length (rules l) \<longrightarrow> prio_key r < prio_key (rules l ! j)"
    and "rl_wf same l'"
proof -
  from assms have ok: "rule_id r \<noteq> None" "rule_id r \<notin> rule_id ` set (rules l)"
    "\<forall>x\<in>set (rules l). \<not> same x r"
    using insert_None [of l r] by auto
  have seqs: "seq_num_list l = map prio_key (rules l)" "sorted (seq_num_list l)"
    using assms(1) by (auto simp: rl_wf_def)
  have i: "i = bisect_right (seq_num_list l) (prio_key r)"
    and l': "l' = update_rule_id_map i (l\<lparr>rules := list_insert i r (rules l),
                 seq_num_list := list_insert i (prio_key r) (seq_num_list l)\<rparr>)"
    using assms(2) by (auto simp: rl_insert_def Let_def split: if_splits)
  note spec = bisect_right_spec(1) [OF seqs(2), of "prio_key r"]
    bisect_right_spec(2) [OF seqs(2), of _ "prio_key r"] bisect_right_spec(3) [OF seqs(2), of "prio_key r"]
  show il: "i \<le> length (rules l)" using spec(1) by (simp add: i seqs(1))
  show r: "rules l' = list_insert i r (rules l)" by (simp add: l' frame_simps)
  show "\<forall>j<i. prio_key (rules l ! j) \<le> prio_key r"
  proof (intro allI impI)
    fix j assume "j < i"
    then have "seq_num_list l ! j \<le> prio_key r" using spec(2) by (simp add: i)
    with \<open>j < i\<close> il show "prio_key (rules l ! j) \<le> prio_key r" by (simp add: seqs(1))
  qed
  show "\<forall>j. i \<le> j \<and> j < length (rules l) \<longrightarrow> prio_key r < prio_key (rules l ! j)"
  proof (intro allI impI)
    fix j assume j: "i \<le> j \<and> j < length (rules l)"
    then have "prio_key r < seq_num_list l ! j" using spec(3) [of j] by (simp add: i seqs(1))
    with j show "prio_key r < prio_key (rules l ! j)" by (simp add: seqs(1))
  qed
  have "id_map_ok (rules l') (rule_id_map l')"
    unfolding r unfolding l'
    by (rule insert_map_ok) (use assms(1) ok il in \<open>auto simp: rl_wf_def\<close>)
  moreover have "sorted (seq_num_list l')"
    using sorted_bisect_insert [OF seqs(2), of "prio_key r"] by (simp add: l' frame_simps i)
  moreover have "no_equal same (rules l')"
    unfolding r no_equal_def
    by (rule sorted_wrt_list_insert)
      (use assms(1) ok same_sym in \<open>auto simp: rl_wf_def no_equal_def\<close>)
  ultimately show "rl_wf same l'"
    using assms(1) ok by (auto simp: rl_wf_def l' frame_simps seqs(1) distinct_list_insert)
qed

lemma insert_wf: "rl_wf same l \<Longrightarrow> rl_wf same (snd (rl_insert same r l))"
  using insert_Some(5) [of l r "the (fst (rl_insert same r l))" "snd (rl_insert same r l)"]
    insert_None_unchanged [of r l]
  by (cases "fst (rl_insert same r l)") (auto simp: prod_eq_iff)

text \<open>Deleting at a position of a well-formed list never raises.\<close>

lemma del_at:
  assumes "rl_wf same l" "n < length (rules l)"
  obtains l' where "rl_del_at n (rule_id (rules l ! n)) l = (Inr (rules l ! n), l')"
    "rules l' = list_del n (rules l)" "rl_wf same l'"
proof -
  let ?l2 = "l\<lparr>rules := list_del n (rules l), seq_num_list := list_del n (seq_num_list l),
     rule_id_map := (rule_id_map l)(rule_id (rules l ! n) := None)\<rparr>"
  have m: "rule_id_map l (rule_id (rules l ! n)) = Some n"
    using wf_id [OF assms(1)] assms(2) by simp
  have len: "length (seq_num_list l) = length (rules l)"
    using assms(1) by (simp add: rl_wf_def)
  have "id_map_ok (list_del n (rules l)) (rule_id_map (update_rule_id_map n ?l2))"
    by (rule del_map_ok) (use assms in \<open>auto simp: rl_wf_def\<close>)
  moreover have "None \<notin> set (list_del n (map rule_id (rules l)))"
    using assms(1) set_list_del_subset [of n "map rule_id (rules l)"] by (auto simp: rl_wf_def)
  ultimately have "rl_wf same (update_rule_id_map n ?l2)"
    using assms(1) sorted_wrt_list_del [of "\<lambda>a b. \<not> same a b" "rules l" n]
    by (auto simp: rl_wf_def frame_simps no_equal_def sorted_list_del distinct_list_del)
  moreover have "rl_del_at n (rule_id (rules l ! n)) l = (Inr (rules l ! n), update_rule_id_map n ?l2)"
    using assms(2) by (simp add: rl_del_at_def Let_def m len)
  ultimately show thesis
    by (intro that [of "update_rule_id_map n ?l2"]) (simp_all add: frame_simps)
qed

lemma remove_by_id:
  assumes "rl_wf same l"
  shows "rule_id_map l (Some k) = None \<Longrightarrow> rl_remove_by_id k l = (Inr None, l)"
    and "rule_id_map l (Some k) = Some n \<Longrightarrow>
      \<exists>l'. rl_remove_by_id k l = (Inr (Some (rules l ! n)), l') \<and> n < length (rules l) \<and>
        rules l' = list_del n (rules l) \<and> rl_wf same l'"
proof -
  show "rule_id_map l (Some k) = None \<Longrightarrow> rl_remove_by_id k l = (Inr None, l)"
    by (simp add: rl_remove_by_id_def)
  assume k: "rule_id_map l (Some k) = Some n"
  then have n: "n < length (rules l)" "rule_id (rules l ! n) = Some k"
    using wf_id [OF assms] by auto
  from del_at [OF assms n(1)] obtain l' where
    "rl_del_at n (rule_id (rules l ! n)) l = (Inr (rules l ! n), l')"
    "rules l' = list_del n (rules l)" "rl_wf same l'" .
  with k n show "\<exists>l'. rl_remove_by_id k l = (Inr (Some (rules l ! n)), l') \<and> n < length (rules l) \<and>
        rules l' = list_del n (rules l) \<and> rl_wf same l'"
    by (simp add: rl_remove_by_id_def)
qed

text \<open>The position \<open>remove\<close> chooses: by identifier when it is known, else by equality.\<close>

definition remove_pos where
  "remove_pos accept r l =
     (case (if rule_id r = None then None else rule_id_map l (rule_id r)) of
        Some n \<Rightarrow> Some n
      | None \<Rightarrow> (case list_find same r l of
                   None \<Rightarrow> None
                 | Some n \<Rightarrow> if accept r (rules l ! n) then Some n else None))"

lemma remove_pos_less: "rl_wf same l \<Longrightarrow> remove_pos accept r l = Some n \<Longrightarrow> n < length (rules l)"
  by (auto simp: remove_pos_def list_find_def list_index_Some wf_id split: option.splits if_splits)

lemma remove:
  assumes "rl_wf same l"
  shows "remove_pos accept r l = None \<Longrightarrow> rl_remove same accept r l = (Inr None, l)"
    and "remove_pos accept r l = Some n \<Longrightarrow>
      \<exists>l'. rl_remove same accept r l = (Inr (Some (rules l ! n, n)), l') \<and>
        rules l' = list_del n (rules l) \<and> rl_wf same l'"
proof -
  show "remove_pos accept r l = None \<Longrightarrow> rl_remove same accept r l = (Inr None, l)"
    by (auto simp: rl_remove_def remove_pos_def split: option.splits if_splits)
  assume pos: "remove_pos accept r l = Some n"
  then have n: "n < length (rules l)" by (rule remove_pos_less [OF assms])
  from del_at [OF assms n] obtain l' where
    d: "rl_del_at n (rule_id (rules l ! n)) l = (Inr (rules l ! n), l')"
    "rules l' = list_del n (rules l)" "rl_wf same l'" .
  moreover have "rl_remove same accept r l = (Inr (Some (rules l ! n, n)), l')"
  proof (cases "if rule_id r = None then None else rule_id_map l (rule_id r)")
    case None
    with pos have "list_find same r l = Some n" "accept r (rules l ! n)"
      by (simp_all add: remove_pos_def split: option.splits if_splits)
    with None d(1) show ?thesis by (simp add: rl_remove_def)
  next
    case (Some m)
    with pos have "m = n" "rule_id_map l (rule_id r) = Some n"
      by (simp_all add: remove_pos_def split: if_splits)
    with Some d(1) wf_id [OF assms, of "rule_id r" n] show ?thesis by (simp add: rl_remove_def)
  qed
  ultimately show "\<exists>l'. rl_remove same accept r l = (Inr (Some (rules l ! n, n)), l') \<and>
        rules l' = list_del n (rules l) \<and> rl_wf same l'" by simp
qed

lemma remove_wf: "rl_wf same l \<Longrightarrow> rl_wf same (snd (rl_remove same accept r l))"
  using remove [of l accept r] by (cases "remove_pos accept r l") force+

lemma remove_by_id_wf: "rl_wf same l \<Longrightarrow> rl_wf same (snd (rl_remove_by_id k l))"
  using remove_by_id [of l k] by (cases "rule_id_map l (Some k)") force+

end

interpretation inl: rule_class in_eq
  by unfold_locales (auto simp: in_eq_iff)

interpretation outl: rule_class out_is_rule_equal
  by unfold_locales (auto simp: out_eq_iff)

section \<open>Runs of the methods\<close>

text \<open>
  A call of a method on a list; the result is the list, or the exception. A run stops at the
  first exception.
\<close>

datatype 'r list_call = L_insert 'r | L_remove 'r | L_remove_by_id int | L_clear

fun in_list_call :: "in_rule list_call \<Rightarrow> in_rule rule_list \<Rightarrow> exn + in_rule rule_list" where
  "in_list_call (L_insert r) l = Inr (snd (in_list_insert r l))"
| "in_list_call (L_remove r) l = (case in_list_remove r l of (Inl e, l') \<Rightarrow> Inl e | (Inr _, l') \<Rightarrow> Inr l')"
| "in_list_call (L_remove_by_id k) l =
     (case in_list_remove_by_id k l of (Inl e, l') \<Rightarrow> Inl e | (Inr _, l') \<Rightarrow> Inr l')"
| "in_list_call L_clear l = Inr (rl_clear l)"

fun out_list_call :: "out_rule list_call \<Rightarrow> out_rule rule_list \<Rightarrow> exn + out_rule rule_list" where
  "out_list_call (L_insert r) l = Inr (snd (out_list_insert r l))"
| "out_list_call (L_remove r) l = (case out_list_remove r l of (Inl e, l') \<Rightarrow> Inl e | (Inr _, l') \<Rightarrow> Inr l')"
| "out_list_call (L_remove_by_id k) l =
     (case out_list_remove_by_id k l of (Inl e, l') \<Rightarrow> Inl e | (Inr _, l') \<Rightarrow> Inr l')"
| "out_list_call L_clear l = Inr (rl_clear l)"

fun run_calls :: "('c \<Rightarrow> 's \<Rightarrow> exn + 's) \<Rightarrow> 'c list \<Rightarrow> 's \<Rightarrow> exn + 's" where
  "run_calls step [] l = Inr l"
| "run_calls step (c # cs) l = try_bind (step c l) (run_calls step cs)"

lemma run_calls_inv:
  assumes "\<And>c l. P l \<Longrightarrow> \<exists>l'. step c l = Inr l' \<and> P l'" "P l"
  shows "\<exists>l'. run_calls step cs l = Inr l' \<and> P l'"
  using assms(2)
proof (induction cs arbitrary: l)
  case (Cons c cs)
  with assms(1) show ?case by (metis run_calls.simps(2) try_bind_simps(2))
qed simp

context rule_class begin

lemma remove_total:
  "rl_wf same l \<Longrightarrow> \<exists>x l'. rl_remove same accept r l = (Inr x, l') \<and> rl_wf same l'"
  using remove [of l accept r] by (cases "remove_pos accept r l") force+

lemma remove_by_id_total:
  "rl_wf same l \<Longrightarrow> \<exists>x l'. rl_remove_by_id k l = (Inr x, l') \<and> rl_wf same l'"
  using remove_by_id [of l k] by (cases "rule_id_map l (Some k)") force+

text \<open>Inserting a rule and removing it by its identifier gives the same rules back.\<close>

lemma insert_remove_by_id:
  assumes "rl_wf same l" "rl_insert same r l = (Some i, l1)" "rule_id r = Some k"
  shows "\<exists>l2. rl_remove_by_id k l1 = (Inr (Some r), l2) \<and> rules l2 = rules l \<and> rl_wf same l2"
proof -
  note ins = insert_Some [OF assms(1,2)]
  have "rule_id_map l1 (Some k) = Some i"
    using wf_id [OF ins(5)] ins(1,2) assms(3) by simp
  from remove_by_id(2) [OF ins(5) this] show ?thesis using ins(1,2) by auto
qed

end

section \<open>Properties\<close>

text \<open>
  C27: whatever methods are called on an incoming rule list, none raises, and the list stays
  sorted by priority and sequence number, its index of identifiers exact and its rules pairwise
  different.
\<close>

theorem in_list_runs_wf:
  "\<exists>l. run_calls in_list_call cs empty_rule_list = Inr l \<and> rl_wf in_eq l"
proof (rule run_calls_inv [where P = "rl_wf in_eq"])
  show "rl_wf in_eq empty_rule_list" by (rule inl.wf_empty)
next
  fix c and l :: "in_rule rule_list"
  assume wf: "rl_wf in_eq l"
  show "\<exists>l'. in_list_call c l = Inr l' \<and> rl_wf in_eq l'"
  proof (cases c)
    case (L_insert r)
    then show ?thesis using inl.insert_wf [OF wf] by (simp add: in_list_insert_def)
  next
    case (L_remove r)
    obtain y l' where "rl_remove in_eq (\<lambda>_ _. True) r l = (Inr y, l')" "rl_wf in_eq l'"
      using inl.remove_total [OF wf] by blast
    with L_remove show ?thesis by (simp add: in_list_remove_def)
  next
    case (L_remove_by_id k)
    obtain y l' where "rl_remove_by_id k l = (Inr y, l')" "rl_wf in_eq l'"
      using inl.remove_by_id_total [OF wf] by blast
    with L_remove_by_id show ?thesis by (simp add: in_list_remove_by_id_def)
  next
    case L_clear
    then show ?thesis using inl.wf_clear by simp
  qed
qed

text \<open>
  The same for an outgoing rule list.\<close>

theorem out_list_runs_wf:
  "\<exists>l. run_calls out_list_call cs empty_rule_list = Inr l \<and> rl_wf out_is_rule_equal l"
proof (rule run_calls_inv [where P = "rl_wf out_is_rule_equal"])
  show "rl_wf out_is_rule_equal empty_rule_list" by (rule outl.wf_empty)
next
  fix c and l :: "out_rule rule_list"
  assume wf: "rl_wf out_is_rule_equal l"
  show "\<exists>l'. out_list_call c l = Inr l' \<and> rl_wf out_is_rule_equal l'"
  proof (cases c)
    case (L_insert r)
    then show ?thesis using outl.insert_wf [OF wf] by (simp add: out_list_insert_def)
  next
    case (L_remove r)
    obtain y l' where "rl_remove out_is_rule_equal out_accept r l = (Inr y, l')" "rl_wf out_is_rule_equal l'"
      using outl.remove_total [OF wf] by blast
    with L_remove show ?thesis by (simp add: out_list_remove_def)
  next
    case (L_remove_by_id k)
    obtain y l' where "rl_remove_by_id k l = (Inr y, l')" "rl_wf out_is_rule_equal l'"
      using outl.remove_by_id_total [OF wf] by blast
    with L_remove_by_id show ?thesis by (simp add: out_list_remove_by_id_def)
  next
    case L_clear
    then show ?thesis using outl.wf_clear by simp
  qed
qed

text \<open>
  An inserted rule goes behind the rules that come before it or have the same priority and
  sequence number, and in front of those that come after it; the others keep their order.
\<close>

theorem in_list_insert_position:
  assumes "rl_wf in_eq l" "in_list_insert r l = (Some i, l')"
  shows "rules l' = list_insert i r (rules l) \<and> i \<le> length (rules l) \<and>
    (\<forall>x\<in>set (take i (rules l)). prio_key x \<le> prio_key r) \<and>
    (\<forall>x\<in>set (drop i (rules l)). prio_key r < prio_key x)"
  using inl.insert_Some [OF assms(1) assms(2) [unfolded in_list_insert_def]]
  by (auto simp: in_set_conv_nth)

text \<open>
  A rule is refused exactly when it has no identifier, its identifier is in the list, or an
  equal rule is; a refused rule leaves the list alone.
\<close>

theorem in_list_insert_refused:
  assumes "rl_wf in_eq l"
  shows "(fst (in_list_insert r l) = None \<longleftrightarrow>
      rule_id r = None \<or> rule_id r \<in> rule_id ` set (rules l) \<or> \<not> list_all (\<lambda>x. \<not> in_eq x r) (rules l)) \<and>
    (if fst (in_list_insert r l) = None then snd (in_list_insert r l) = l else True)"
  using inl.insert_None [OF assms, of r] inl.insert_None_unchanged [of r l]
  by (auto simp: in_list_insert_def list_all_iff)

text \<open>Inserting a rule and removing it by its identifier restores the list of rules.\<close>

theorem in_list_insert_remove:
  assumes "rl_wf in_eq l" "rule_id r = Some k" "in_list_insert r l = (Some i, l1)"
  shows "\<exists>l2. in_list_remove_by_id k l1 = (Inr (Some r), l2) \<and> rules l2 = rules l \<and> rl_wf in_eq l2"
  using inl.insert_remove_by_id [OF assms(1) assms(3) [unfolded in_list_insert_def] assms(2)]
  by (simp add: in_list_remove_by_id_def)

definition sample_rule :: "int \<Rightarrow> int \<Rightarrow> in_rule" where
  "sample_rule k port =
     (in_new RULE_TYPE_ACL ''default'' AF_INET (Some RULE_PROTO_TCP) RULE_ACTION_ALLOW in_defaults
       (Some (any_ip AF_INET), Some 0) (Some (any_ip AF_INET), Some 0))
     \<lparr>rule_id := Some k, dst_port := Some port\<rparr>"

lemma sample_rule_insert:
  "in_list_insert (sample_rule k port) empty_rule_list =
     (Some 0, snd (in_list_insert (sample_rule k port) empty_rule_list))"
  by (simp add: in_list_insert_def rl_insert_def sample_rule_def empty_rule_list_def list_find_def
      Let_def bisect_right_def bisect_loop.simps)

theorem in_list_insert_position_witness:
  "rules (snd (in_list_insert (sample_rule 7 22) empty_rule_list)) = [sample_rule 7 22]"
  using in_list_insert_position [OF inl.wf_empty sample_rule_insert, of 7 22]
  by (simp add: empty_rule_list_def)

theorem in_list_insert_refused_witness:
  "fst (in_list_insert ((sample_rule 7 22)\<lparr>rule_id := None\<rparr>) empty_rule_list) = None"
  using in_list_insert_refused [OF inl.wf_empty, of "(sample_rule 7 22)\<lparr>rule_id := None\<rparr>"] by simp

theorem in_list_insert_remove_witness:
  "\<exists>l2. in_list_remove_by_id 7 (snd (in_list_insert (sample_rule 7 22) empty_rule_list)) =
      (Inr (Some (sample_rule 7 22)), l2) \<and> rules l2 = [] \<and> rl_wf in_eq l2"
  using in_list_insert_remove [OF inl.wf_empty _ sample_rule_insert, of 7 22 7]
  by (simp add: sample_rule_def empty_rule_list_def)

end
