(* ===== verification/Env.thy ===== *)
theory Env
  imports Inet
begin

text \<open>
  What lies outside the repository: the shell commands the scripts start, the file system,
  \<^verbatim>\<open>netaddr\<close> and \<^verbatim>\<open>nas_mac_addr_utils\<close>. It is a record of functions, an argument of every
  definition that calls out; the state \<open>'w\<close> it works on is abstract. A started command gives its
  return code and the lines of its output, and may change the state.

  \<open>run_command\<close> and its clients are here because every script has the same copy of it
  (\<^verbatim>\<open>dn_base_ip_tool.py\<close>, \<^verbatim>\<open>dn_base_vrf_tool.py\<close>).
\<close>

record 'w ext =
  popen :: "string list \<Rightarrow> 'w \<Rightarrow> (int \<times> string list) \<times> 'w"
  read_file :: "string \<Rightarrow> 'w \<Rightarrow> string list option"
  os_unlink :: "string \<Rightarrow> 'w \<Rightarrow> bool \<times> 'w"
  os_symlink :: "string \<Rightarrow> string \<Rightarrow> 'w \<Rightarrow> bool \<times> 'w"
  os_makedirs :: "string \<Rightarrow> 'w \<Rightarrow> bool \<times> 'w"
  rmtree :: "string \<Rightarrow> 'w \<Rightarrow> bool \<times> 'w"
  cidr_packed :: "string \<Rightarrow> exn + packed"
  broadcast :: "string \<Rightarrow> exn + string option"
  getservbyname :: "string \<Rightarrow> int option"
  mgmt_mac :: "'w \<Rightarrow> string"
  virtual_network_mac :: "'w \<Rightarrow> string"
  vrf_mac :: "'w \<Rightarrow> string"

text \<open>
  \<open>run_command(cmd, response)\<close>: the return code and the response. \<open>log_fail\<close> only decides
  what is logged.
\<close>

definition run_command :: "'w ext \<Rightarrow> string list \<Rightarrow> 'w \<Rightarrow> (int \<times> string list) \<times> 'w" where
  "run_command E cmd w =
     (case popen E cmd w of
        ((rc, out), w') \<Rightarrow>
          ((rc, map rstrip (filter
              (\<lambda>l. \<not> str_in ''Dump was interrupted and may be inconsistent.'' l) out)), w'))"

text \<open>Only whether the command succeeded.\<close>

definition run_ok :: "'w ext \<Rightarrow> string list \<Rightarrow> 'w \<Rightarrow> bool \<times> 'w" where
  "run_ok E cmd w = (case run_command E cmd w of ((rc, out), w') \<Rightarrow> (rc = 0, w'))"

text \<open>
  The usual sequence of commands, \<^verbatim>\<open>if run_command(cmd, res) != 0: return False\<close> after each: it
  stops at the first one that fails.
\<close>

fun run_all :: "'w ext \<Rightarrow> string list list \<Rightarrow> 'w \<Rightarrow> bool \<times> 'w" where
  "run_all E [] w = (True, w)"
| "run_all E (c # cs) w = (case run_ok E c w of (ok, w') \<Rightarrow> if ok then run_all E cs w' else (False, w'))"

text \<open>The sequence without the tests: every command runs.\<close>

definition run_each :: "'w ext \<Rightarrow> string list list \<Rightarrow> 'w \<Rightarrow> 'w" where
  "run_each E cs w = fold (\<lambda>c w. snd (run_ok E c w)) cs w"

definition iplink_cmd :: string where
  "iplink_cmd = ''/sbin/ip''"

text \<open>\<open>cmd\<close> in the default namespace, or through \<open>ip netns exec\<close> in another one.\<close>

definition netns_exec :: "string \<Rightarrow> string list \<Rightarrow> string list" where
  "netns_exec vrf cmd = [iplink_cmd, ''netns'', ''exec'', vrf] @ cmd"

lemma run_all_append:
  "run_all E (cs @ ds) w = (case run_all E cs w of (ok, w') \<Rightarrow> if ok then run_all E ds w' else (False, w'))"
  by (induction cs arbitrary: w) (auto split: prod.splits)

lemma run_all_True_each: "run_all E cs w = (True, w') \<Longrightarrow> run_each E cs w = w'"
  by (induction cs arbitrary: w) (auto simp: run_each_def split: prod.splits if_splits)

text \<open>A recorder of commands, used by the examples: every command succeeds and is remembered.\<close>

definition recorder :: "string list list ext" where
  "recorder = \<lparr>popen = (\<lambda>c w. ((0, []), w @ [c])), read_file = (\<lambda>_ _. None),
     os_unlink = (\<lambda>_ w. (True, w)), os_symlink = (\<lambda>_ _ w. (True, w)),
     os_makedirs = (\<lambda>_ w. (True, w)), rmtree = (\<lambda>_ w. (True, w)),
     cidr_packed = (\<lambda>_. Inl AddrFormatError), broadcast = (\<lambda>_. Inr None),
     getservbyname = (\<lambda>_. None), mgmt_mac = (\<lambda>_. ''00:00:00:00:00:00''),
     virtual_network_mac = (\<lambda>_. ''00:00:00:00:00:01''), vrf_mac = (\<lambda>_. ''00:00:00:00:00:02'')\<rparr>"

lemma recorder_run [simp]:
  "run_command recorder c w = ((0, []), w @ [c])"
  "run_ok recorder c w = (True, w @ [c])"
  by (simp_all add: run_command_def run_ok_def recorder_def)

lemma recorder_run_all [simp]: "run_all recorder cs w = (True, w @ cs)"
  by (induction cs arbitrary: w) auto

end
