(* ===== verification/PyRegex.thy ===== *)
theory PyRegex
  imports Prelude
begin

text \<open>
  The part of Python's \<open>re\<close> the scripts use: character classes, greedy repetition of a class,
  sequences, alternatives, optional parts and groups. \<open>re_ways\<close> lists the matches at the start
  of a string in the order in which the backtracking matcher tries them, each with the rest of
  the string and the texts of the groups, so its head is the match \<open>re.match\<close> finds.
\<close>

datatype re_class = Lit char | Space | NonSpace | Digit | AnyChar | WordChar | NoneOf string | OneOf string

fun in_class :: "re_class \<Rightarrow> char \<Rightarrow> bool" where
  "in_class (Lit d) c = (c = d)"
| "in_class Space c = is_space c"
| "in_class NonSpace c = (\<not> is_space c)"
| "in_class Digit c = is_digit c"
| "in_class AnyChar c = (c \<noteq> CHR 0x0A)"
| "in_class WordChar c = (is_digit c \<or> c = CHR ''_'' \<or> c \<in> set ''abcdefghijklmnopqrstuvwxyz'' \<or>
     c \<in> set ''ABCDEFGHIJKLMNOPQRSTUVWXYZ'')"
| "in_class (NoneOf cs) c = (c \<notin> set cs)"
| "in_class (OneOf cs) c = (c \<in> set cs)"

datatype re =
    Eps
  | One re_class
  | Star re_class
  | Plus re_class
  | Seq re re
  | Alt re re
  | Opt re
  | Grp re
  | AtEnd

fun re_ways :: "re \<Rightarrow> string \<Rightarrow> (string \<times> string list) list" where
  "re_ways Eps s = [(s, [])]"
| "re_ways (One c) s = (case s of [] \<Rightarrow> [] | x # xs \<Rightarrow> if in_class c x then [(xs, [])] else [])"
| "re_ways (Star c) s = map (\<lambda>n. (drop n s, [])) (rev [0..<Suc (length (takeWhile (in_class c) s))])"
| "re_ways (Plus c) s = map (\<lambda>n. (drop n s, [])) (rev [1..<Suc (length (takeWhile (in_class c) s))])"
| "re_ways (Seq a b) s =
     concat (map (\<lambda>(r, gs). map (\<lambda>(r', gs'). (r', gs @ gs')) (re_ways b r)) (re_ways a s))"
| "re_ways (Alt a b) s = re_ways a s @ re_ways b s"
| "re_ways (Opt a) s = re_ways a s @ [(s, [])]"
| "re_ways (Grp a) s = map (\<lambda>(r, gs). (r, take (length s - length r) s # gs)) (re_ways a s)"
| "re_ways AtEnd s = (if s = '''' \<or> s = [CHR 0x0A] then [(s, [])] else [])"

text \<open>\<open>re.match(r, s)\<close>: the text of the match (\<open>group()\<close>) and of its groups.\<close>

definition re_match :: "re \<Rightarrow> string \<Rightarrow> (string \<times> string list) option" where
  "re_match r s =
     (case re_ways r s of [] \<Rightarrow> None | (rest, gs) # _ \<Rightarrow> Some (take (length s - length rest) s, gs))"

text \<open>\<open>re.search(r, s)\<close>: the leftmost match.\<close>

fun re_search :: "re \<Rightarrow> string \<Rightarrow> (string \<times> string list) option" where
  "re_search r [] = re_match r []"
| "re_search r (x # xs) = (case re_match r (x # xs) of Some m \<Rightarrow> Some m | None \<Rightarrow> re_search r xs)"

text \<open>A literal text, and a sequence of parts.\<close>

fun lits :: "string \<Rightarrow> re" where
  "lits [] = Eps"
| "lits (c # cs) = Seq (One (Lit c)) (lits cs)"

fun seqs :: "re list \<Rightarrow> re" where
  "seqs [] = Eps"
| "seqs (r # rs) = Seq r (seqs rs)"

text \<open>\<open>re.findall('\d+', s)\<close>.\<close>

function find_digits :: "string \<Rightarrow> string list" where
  "find_digits s =
     (case dropWhile (\<lambda>c. \<not> is_digit c) s of
        [] \<Rightarrow> []
      | x # xs \<Rightarrow> takeWhile is_digit (x # xs) # find_digits (dropWhile is_digit xs))"
  by pat_completeness auto
termination
proof (relation "measure length", simp)
  fix s :: string and x xs
  assume "dropWhile (\<lambda>c. \<not> is_digit c) s = x # xs"
  then have "length (x # xs) \<le> length s" by (metis length_dropWhile_le)
  moreover have "length (dropWhile is_digit xs) \<le> length xs" by (rule length_dropWhile_le)
  ultimately show "(dropWhile is_digit xs, s) \<in> measure length" by simp
qed

declare find_digits.simps [simp del]

text \<open>What the matcher returns is a match: the rest is a suffix.\<close>

lemma re_ways_suffix: "(r, gs) \<in> set (re_ways p s) \<Longrightarrow> \<exists>t. s = t @ r"
proof (induction p arbitrary: s r gs)
  case (Star c)
  then show ?case by (auto intro: append_take_drop_id [symmetric])
next
  case (Plus c)
  then show ?case by (auto intro: append_take_drop_id [symmetric])
next
  case (Seq a b)
  from Seq.prems obtain r1 g1 g2 where "(r1, g1) \<in> set (re_ways a s)" "(r, g2) \<in> set (re_ways b r1)"
    by auto
  with Seq.IH show ?case by (metis append.assoc)
qed (auto split: list.splits if_splits)

lemma lits_ways: "re_ways (lits t) s = (if take (length t) s = t then [(drop (length t) s, [])] else [])"
  by (induction t arbitrary: s) (auto split: list.splits)

text \<open>
  The way the matcher tries first, which is the one it takes when the whole pattern is the last
  thing to match.
\<close>

definition first_way :: "re \<Rightarrow> string \<Rightarrow> string \<Rightarrow> string list \<Rightarrow> bool" where
  "first_way p s r gs \<longleftrightarrow> (\<exists>ws. re_ways p s = (r, gs) # ws)"

lemma first_way_match: "first_way p s r gs \<Longrightarrow> re_match p s = Some (take (length s - length r) s, gs)"
  by (auto simp: first_way_def re_match_def)

lemma first_way_search: "first_way p s r gs \<Longrightarrow> re_search p s = Some (take (length s - length r) s, gs)"
  by (cases s) (simp_all add: first_way_match)

lemma first_way_Eps: "first_way Eps s s []"
  by (simp add: first_way_def)

lemma first_way_lits: "first_way (lits t) (t @ s) s []"
  by (simp add: first_way_def lits_ways)

lemma first_way_One: "in_class c x \<Longrightarrow> first_way (One c) (x # s) s []"
  by (simp add: first_way_def)

lemma first_way_Seq: "first_way a s r gs \<Longrightarrow> first_way b r r' gs' \<Longrightarrow> first_way (Seq a b) s r' (gs @ gs')"
  by (auto simp: first_way_def)

lemma first_way_word:
  assumes "t \<noteq> []" "list_all (in_class c) t" "s = [] \<or> \<not> in_class c (hd s)"
  shows "first_way (Grp (Plus c)) (t @ s) s [t]"
proof -
  have "takeWhile (in_class c) (t @ s) = t"
    using assms(2,3) by (cases s) (auto simp: list_all_iff takeWhile_append)
  moreover have "rev [1..<Suc (length t)] = length t # rev [1..<length t]" using assms(1) by (cases t) auto
  ultimately show ?thesis by (simp add: first_way_def)
qed

end
