(* ===== verification/IpTool.thy ===== *)
theory IpTool
  imports Env PyRegex
begin

text \<open>
  \<^verbatim>\<open>scripts/lib/python/dn_base_ip_tool.py\<close>: what the scripts read from and tell to the
  \<^verbatim>\<open>ip\<close> utility. First the parser of the output of \<^verbatim>\<open>ip addr show\<close>, then the commands.
\<close>

section \<open>Grouping the lines of an output\<close>

definition find_first_non_ws :: "string \<Rightarrow> nat" where
  "find_first_non_ws s = length s - length (lstrip s)"

text \<open>The loop of \<open>_group_lines_based_on_position\<close>; \<open>data\<close> is the group being collected.\<close>

fun group_loop :: "nat \<Rightarrow> string list \<Rightarrow> string list \<Rightarrow> string list list" where
  "group_loop scope data [] = (if data \<noteq> [] then [data] else [])"
| "group_loop scope data (l # ls) =
     (if find_first_non_ws l = scope
      then (if data \<noteq> [] then [data] else []) @ group_loop scope [l] ls
      else group_loop scope (data @ [l]) ls)"

definition group_lines_based_on_position :: "nat \<Rightarrow> string list \<Rightarrow> string list list" where
  "group_lines_based_on_position scope lines = group_loop scope [] lines"

definition get_ip_addr :: "'w ext \<Rightarrow> string \<Rightarrow> string option \<Rightarrow> 'w \<Rightarrow> string list \<times> 'w" where
  "get_ip_addr E vrf dev w =
     (let cmd = (if vrf = ''default'' then [iplink_cmd, ''addr'', ''show'']
                 else netns_exec vrf [''ip'', ''addr'', ''show'']) @
                (case dev of None \<Rightarrow> [] | Some d \<Rightarrow> [''dev'', d])
      in case run_command E cmd w of ((rc, out), w') \<Rightarrow> (if rc \<noteq> 0 then [] else out, w'))"

definition get_ip_addr_details :: "'w ext \<Rightarrow> string \<Rightarrow> string option \<Rightarrow> 'w \<Rightarrow> string list \<times> 'w" where
  "get_ip_addr_details E vrf dev w =
     (let cmd = netns_exec vrf [''ip'', ''-d'', ''addr'', ''show''] @
                (case dev of None \<Rightarrow> [] | Some d \<Rightarrow> [''dev'', d])
      in case run_command E cmd w of ((rc, out), w') \<Rightarrow> (if rc \<noteq> 0 then [] else out, w'))"

section \<open>\<open>InterfaceObject\<close>\<close>

definition ip_line_re :: re where
  "ip_line_re = seqs [Plus Space, Grp (Plus NonSpace), Plus Space, Grp (Plus NonSpace),
     lits ''/'', Grp (Plus NonSpace)]"

definition ether_re :: re where
  "ether_re = seqs [Plus Space, lits ''link/ether'', Plus Space, Grp (Plus NonSpace), Plus Space]"

definition header_re :: re where
  "header_re = seqs [Grp (Plus Digit), lits '':'', Plus Space, Grp (Plus NonSpace), lits '':'',
     Plus Space, lits ''<'', Grp (Plus NonSpace), lits ''>'']"

definition mtu_re :: re where
  "mtu_re = seqs [Plus Space, lits ''mtu '', Grp (Plus NonSpace)]"

definition state_re :: re where
  "state_re = seqs [Plus Space, lits ''state '', Grp (Plus NonSpace)]"

text \<open>\<open>_find_field\<close>, the group by its position instead of its name.\<close>

definition find_field :: "re \<Rightarrow> nat \<Rightarrow> string \<Rightarrow> string option" where
  "find_field r n line = (case re_search r line of None \<Rightarrow> None | Some (_, gs) \<Rightarrow> Some (gs ! n))"

definition process_ip_line :: "string \<Rightarrow> string option \<times> string option \<times> string option" where
  "process_ip_line line = (find_field ip_line_re 0 line, find_field ip_line_re 1 line, find_field ip_line_re 2 line)"

definition process_ether_line :: "string \<Rightarrow> string option" where
  "process_ether_line line = map_option (filter (\<lambda>c. c \<noteq> CHR '':'')) (find_field ether_re 0 line)"

text \<open>
  The object. The attribute \<open>type\<close> that \<open>_create_type\<close> computes is overwritten with \<open>0\<close>
  before anybody reads it, so only the later value is modelled: \<open>1\<close> for a MAC-VLAN interface.
\<close>

record interface =
  if_vrf_name :: string
  ifix :: nat
  ifname :: string
  if_flags :: string
  if_state :: nat
  if_mtu :: "string option"
  oper_state :: nat
  if_mac :: "string option"
  if_type :: nat
  if_ip :: "(string \<times> string \<times> string) list"

text \<open>The loop over the groups of lines after the header.\<close>

fun interface_line :: "string list \<Rightarrow> interface \<Rightarrow> interface" where
  "interface_line [] obj = obj"
| "interface_line (l # _) obj =
     (if str_in ''link/ether'' l then obj\<lparr>if_mac := process_ether_line l\<rparr>
      else if str_in ''macvlan'' l then obj\<lparr>if_type := 1\<rparr>
      else (case process_ip_line l of
              (Some f, Some a, Some p) \<Rightarrow>
                if f = ''inet'' \<or> f = ''inet6'' then obj\<lparr>if_ip := if_ip obj @ [(f, a, p)]\<rparr> else obj
            | _ \<Rightarrow> obj))"

definition InterfaceObject_init :: "string list \<Rightarrow> string \<Rightarrow> exn + interface" where
  "InterfaceObject_init lines vrf =
     (case lines of
        [] \<Rightarrow> Inl IndexError
      | header # rest \<Rightarrow>
          (case re_search header_re header of
             Some (_, [ix, name, flags]) \<Rightarrow>
               (case find_field state_re 0 header of
                  None \<Rightarrow> Inl AttributeError
                | Some oper \<Rightarrow>
                    if rest = [] then Inl IndexError
                    else
                      Inr (fold interface_line
                        (group_lines_based_on_position (find_first_non_ws (hd rest)) rest)
                        \<lparr>if_vrf_name = vrf, ifix = the (num_val 10 digit_val 0 ix),
                         ifname = hd (split_on CHR ''@'' name), if_flags = flags,
                         if_state = (if ''up'' \<in> set (map lower (split_on CHR '','' flags)) then 1 else 2),
                         if_mtu = find_field mtu_re 0 header,
                         oper_state = (if lower oper = ''up'' then 1 else 2),
                         if_mac = None, if_type = 0, if_ip = []\<rparr>))
           | _ \<Rightarrow> Inl TypeError))"

fun interfaces_of :: "string \<Rightarrow> string list list \<Rightarrow> exn + interface list" where
  "interfaces_of vrf [] = Inr []"
| "interfaces_of vrf (g # gs) =
     try_bind (InterfaceObject_init g vrf) (\<lambda>i. try_bind (interfaces_of vrf gs) (\<lambda>is. Inr (i # is)))"

definition get_if_details_per_vrf ::
  "'w ext \<Rightarrow> string \<Rightarrow> string option \<Rightarrow> 'w \<Rightarrow> (interface list, 'w) outcome" where
  "get_if_details_per_vrf E vrf dev w =
     (case get_ip_addr E vrf dev w of
        (out, w') \<Rightarrow> (interfaces_of vrf (group_lines_based_on_position 0 out), w'))"

text \<open>\<open>get_if_details\<close>: of one namespace, or of every one that \<^verbatim>\<open>ip netns list\<close> names.\<close>

fun if_details_loop ::
  "'w ext \<Rightarrow> string list \<Rightarrow> string option \<Rightarrow> 'w \<Rightarrow> (interface list, 'w) outcome" where
  "if_details_loop E [] dev w = (Inr [], w)"
| "if_details_loop E (v # vs) dev w =
     and_then (get_if_details_per_vrf E (hd (split_on CHR '' '' v)) dev w) (\<lambda>is w.
     and_then (if_details_loop E vs dev w) (\<lambda>js w. (Inr (is @ js), w)))"

definition get_if_details ::
  "'w ext \<Rightarrow> string option \<Rightarrow> string option \<Rightarrow> 'w \<Rightarrow> (interface list, 'w) outcome" where
  "get_if_details E vrf dev w =
     (case vrf of
        Some v \<Rightarrow> get_if_details_per_vrf E v dev w
      | None \<Rightarrow>
          (case run_command E [''/sbin/ip'', ''netns'', ''list''] w of
             ((rc, out), w') \<Rightarrow>
               if rc \<noteq> 0 then (Inr [], w')
               else if out = [] then get_if_details_per_vrf E ''default'' dev w'
               else if_details_loop E out dev w'))"

section \<open>Commands\<close>

definition add_ip_addr :: "'w ext \<Rightarrow> string \<Rightarrow> string \<Rightarrow> string \<Rightarrow> string \<Rightarrow> 'w \<Rightarrow> bool \<times> 'w" where
  "add_ip_addr E addr_and_prefix dev fam vrf w =
     (case (if fam = ''ipv4'' then broadcast E addr_and_prefix else Inr None) of
        Inl _ \<Rightarrow> (False, w)
      | Inr bcast \<Rightarrow>
          run_ok E
            ((if vrf = ''default'' then [iplink_cmd] else netns_exec vrf [''ip'']) @
             [''addr'', ''add'', addr_and_prefix] @
             (case bcast of None \<Rightarrow> [] | Some b \<Rightarrow> [''broadcast'', b]) @ [''dev'', dev]) w)"

definition del_ip_addr :: "'w ext \<Rightarrow> string \<Rightarrow> string \<Rightarrow> string \<Rightarrow> 'w \<Rightarrow> bool \<times> 'w" where
  "del_ip_addr E addr_and_prefix dev vrf w =
     run_ok E
       ((if vrf = ''default'' then [iplink_cmd] else netns_exec vrf [''ip'']) @
        [''addr'', ''del'', addr_and_prefix, ''dev'', dev]) w"

definition create_vxlan_if :: "'w ext \<Rightarrow> string \<Rightarrow> string \<Rightarrow> string \<Rightarrow> 'w \<Rightarrow> bool \<times> 'w" where
  "create_vxlan_if E name vn_id tunnel_source_ip w =
     run_ok E [iplink_cmd, ''link'', ''add'', ''name'', name, ''type'', ''vxlan'', ''id'', vn_id,
       ''local'', tunnel_source_ip, ''dstport'', ''4789''] w"

definition create_loopback_if :: "'w ext \<Rightarrow> string \<Rightarrow> string option \<Rightarrow> string option \<Rightarrow> 'w \<Rightarrow> bool \<times> 'w" where
  "create_loopback_if E name mtu mac w =
     run_ok E ([iplink_cmd, ''link'', ''add'', ''name'', name] @
       (case mtu of None \<Rightarrow> [] | Some m \<Rightarrow> [''mtu'', m]) @
       (case mac of None \<Rightarrow> [] | Some m \<Rightarrow> [''address'', m]) @ [''type'', ''dummy'']) w"

definition create_macvlan_if :: "'w ext \<Rightarrow> string \<Rightarrow> string \<Rightarrow> string \<Rightarrow> string \<Rightarrow> 'w \<Rightarrow> bool \<times> 'w" where
  "create_macvlan_if E name parent_if mac vrf w =
     run_ok E ((if vrf = ''default'' then [iplink_cmd] else netns_exec vrf [''ip'']) @
       [''link'', ''add'', ''link'', parent_if, name, ''address'', mac, ''type'', ''macvlan'']) w"

definition delete_if :: "'w ext \<Rightarrow> string \<Rightarrow> string \<Rightarrow> 'w \<Rightarrow> bool \<times> 'w" where
  "delete_if E name vrf w =
     run_ok E ((if vrf = ''default'' then [iplink_cmd] else netns_exec vrf [''ip'']) @
       [''link'', ''delete'', ''dev'', name]) w"

definition configure_vlan_tag :: "'w ext \<Rightarrow> string \<Rightarrow> int \<Rightarrow> 'w \<Rightarrow> bool \<times> 'w" where
  "configure_vlan_tag E name vlan_id w =
     run_ok E [iplink_cmd, ''link'', ''add'', ''link'', name, ''name'', name @ ''.'' @ dec vlan_id,
       ''type'', ''vlan'', ''id'', dec vlan_id] w"

definition set_if_mtu :: "'w ext \<Rightarrow> string \<Rightarrow> int \<Rightarrow> 'w \<Rightarrow> bool \<times> 'w" where
  "set_if_mtu E name mtu w = run_ok E [iplink_cmd, ''link'', ''set'', name, ''mtu'', dec mtu] w"

definition set_if_mac :: "'w ext \<Rightarrow> string \<Rightarrow> string \<Rightarrow> string \<Rightarrow> 'w \<Rightarrow> bool \<times> 'w" where
  "set_if_mac E name mac vrf w =
     run_ok E ((if vrf = ''default'' then [iplink_cmd] else netns_exec vrf [''ip'']) @
       [''link'', ''set'', ''dev'', name, ''address'', mac]) w"

definition set_if_state :: "'w ext \<Rightarrow> string \<Rightarrow> int \<Rightarrow> string \<Rightarrow> 'w \<Rightarrow> bool \<times> 'w" where
  "set_if_state E name st vrf w =
     run_ok E ((if vrf = ''default'' then [iplink_cmd] else netns_exec vrf [''ip'']) @
       [''link'', ''set'', ''dev'', name, if st = 1 then ''up'' else ''down'']) w"

definition sysctl_w :: "string \<Rightarrow> string list" where
  "sysctl_w s = [''sysctl'', ''-w'', s]"

definition ip_forwarding_config :: "'w ext \<Rightarrow> string \<Rightarrow> string \<Rightarrow> string \<Rightarrow> string \<Rightarrow> 'w \<Rightarrow> bool \<times> 'w" where
  "ip_forwarding_config E ip_type if_name fwd vrf w =
     run_ok E (netns_exec vrf (sysctl_w (''net.'' @ ip_type @ ''.conf.'' @ if_name @ ''.forwarding='' @ fwd))) w"

definition disable_ipv6_config :: "'w ext \<Rightarrow> string \<Rightarrow> string \<Rightarrow> string \<Rightarrow> 'w \<Rightarrow> bool \<times> 'w" where
  "disable_ipv6_config E if_name v vrf w =
     run_ok E (netns_exec vrf (sysctl_w (''net.ipv6.conf.'' @ if_name @ ''.disable_ipv6='' @ v))) w"

text \<open>\<open>ipv6_autoconf_config\<close>; \<open>autoconf\<close> is a number, false when it is zero.\<close>

definition ipv6_autoconf_config :: "'w ext \<Rightarrow> string \<Rightarrow> int \<Rightarrow> string \<Rightarrow> 'w \<Rightarrow> bool \<times> 'w" where
  "ipv6_autoconf_config E if_name autoconf vrf w =
     run_all E
       ((if vrf = ''management''
         then [netns_exec vrf (sysctl_w (''net.ipv6.conf.'' @ if_name @ ''.accept_ra='' @
                 dec (if autoconf \<noteq> 0 then 2 else 1)))]
         else []) @
        [netns_exec vrf (sysctl_w (''net.ipv6.conf.'' @ if_name @ ''.autoconf='' @ dec autoconf))]) w"

definition ipv6_accept_dad_config :: "'w ext \<Rightarrow> string \<Rightarrow> string \<Rightarrow> string \<Rightarrow> 'w \<Rightarrow> bool \<times> 'w" where
  "ipv6_accept_dad_config E if_name v vrf w =
     run_ok E (netns_exec vrf (sysctl_w (''net.ipv6.conf.'' @ if_name @ ''.accept_dad='' @ v))) w"

definition ipv4_arp_accept_config :: "'w ext \<Rightarrow> string \<Rightarrow> string \<Rightarrow> string \<Rightarrow> 'w \<Rightarrow> bool \<times> 'w" where
  "ipv4_arp_accept_config E if_name v vrf w =
     run_ok E (netns_exec vrf (sysctl_w (''net.ipv4.conf.'' @ if_name @ ''.arp_accept='' @ v))) w"

definition is_intf_exist_in_vrf :: "'w ext \<Rightarrow> string \<Rightarrow> string \<Rightarrow> 'w \<Rightarrow> bool \<times> 'w" where
  "is_intf_exist_in_vrf E vrf name w =
     run_ok E ((if vrf = ''default'' then [iplink_cmd] else netns_exec vrf [''ip'']) @
       [''link'', ''show'', ''dev'', name]) w"

definition flush_ip_neigh ::
  "'w ext \<Rightarrow> string \<Rightarrow> string option \<Rightarrow> string option \<Rightarrow> string \<Rightarrow> 'w \<Rightarrow> bool \<times> 'w" where
  "flush_ip_neigh E fam dev addr vrf w =
     (let neigh_af = (if fam = ''ipv6'' then ''-6'' else ''-4'');
          pre = (if vrf = ''default'' then [iplink_cmd] else netns_exec vrf [''ip'']) @
                [neigh_af, ''neigh'', ''flush'']
      in (case (addr, dev) of
            (Some a, Some d) \<Rightarrow> run_ok E (pre @ [''to'', a, ''dev'', d]) w
          | (None, Some d) \<Rightarrow> run_ok E (pre @ [''dev'', d]) w
          | (Some a, None) \<Rightarrow> run_ok E (pre @ [''to'', a]) w
          | (None, None) \<Rightarrow> run_ok E (pre @ [''all'']) w))"

definition proxy_arp_config :: "'w ext \<Rightarrow> string \<Rightarrow> int \<Rightarrow> string \<Rightarrow> 'w \<Rightarrow> bool \<times> 'w" where
  "proxy_arp_config E if_name v vrf w =
     (let pre = (if vrf = ''default'' then id else netns_exec vrf);
          ignore = (if v \<noteq> 0 then 0 else 1)
      in run_all E
           [pre (sysctl_w (''net.ipv4.conf.'' @ if_name @ ''.proxy_arp='' @ dec v)),
            pre (sysctl_w (''net.ipv4.conf.'' @ if_name @ ''.arp_ignore='' @ dec ignore))] w)"

end
