(* ===== verification/VrfTool.thy ===== *)
theory VrfTool
  imports IpTool SvcsRule
begin

text \<open>
  \<^verbatim>\<open>scripts/lib/python/dn_base_vrf_tool.py\<close>: network namespaces, the veth pairs between them,
  and the private addresses and ports of the outgoing services.

  The module's dictionaries are association lists in the record \<open>tool\<close>, next to the state of
  the world outside; their keys are the strings the code builds, e.g. \<^verbatim>\<open>*src*dst*\<close>. The lock
  \<open>_vrf_ipsvcs_mutex\<close> is a flag: to acquire it twice is to wait for ever. Where the code loops
  over a set of two strings, the model loops over a list.
\<close>

section \<open>The state of the module\<close>

type_synonym svc_alias = "string \<times> address_family \<times> packed option \<times> VrfSvcsRuleProto option \<times> int option"

record 'w tool =
  world :: 'w
  vrf_name_to_id :: "(string \<times> int) list"
  vrf_sub_net_map :: "(string \<times> int) list"
  vrf_src_ip_map :: "(string \<times> int) list"
  outgoing_ip_svcs_map :: "(svc_alias \<times> int) list"
  vrf_ip_service_ip_addr :: "(string \<times> int) list"
  ipsvcs_mutex :: bool

definition veth_intf_ip_prefix :: string where "veth_intf_ip_prefix = ''127.''"
definition veth_intf_src_ip_suffix :: string where "veth_intf_src_ip_suffix = ''.100.1''"
definition veth_intf_dst_ip_suffix :: string where "veth_intf_dst_ip_suffix = ''.100.2''"
definition veth_intf_ip_pref_len :: string where "veth_intf_ip_pref_len = ''24''"
definition veth_intf_ip6_prefix :: string where "veth_intf_ip6_prefix = ''fda5:74c8:b79e:4:''"
definition veth_intf_src_ip6_suffix :: string where "veth_intf_src_ip6_suffix = ''::1''"
definition veth_intf_dst_ip6_suffix :: string where "veth_intf_dst_ip6_suffix = ''::2''"
definition veth_intf_ip6_pref_len :: string where "veth_intf_ip6_pref_len = ''80''"
definition rej_rule_mark_value :: int where "rej_rule_mark_value = 255"
definition vrf_chain_name :: string where "vrf_chain_name = ''VRF''"
definition link_local_ip6_prefix :: string where "link_local_ip6_prefix = ''fe80:''"

text \<open>\<^verbatim>\<open>range(_start_private_port, _end_private_port)\<close> and the one of the subnet values.\<close>

definition private_port_range :: "int list" where "private_port_range = [62000..64999]"
definition sub_net_range :: "int list" where "sub_net_range = [100..199]"

definition ip_tables :: "string list" where "ip_tables = [''iptables'', ''ip6tables'']"
definition ip_proto :: "string list" where "ip_proto = [''tcp'', ''udp'']"

definition pair_key :: "string \<Rightarrow> string \<Rightarrow> string" where
  "pair_key src dst = ''*'' @ src @ ''*'' @ dst @ ''*''"

definition names_vrf :: "string \<Rightarrow> string \<Rightarrow> bool" where
  "names_vrf vrf key = str_in (''*'' @ vrf @ ''*'') key"

definition key_part :: "string \<Rightarrow> nat \<Rightarrow> string" where
  "key_part key n = split_on CHR ''*'' key ! n"

definition vdst :: "int \<Rightarrow> string" where
  "vdst nsid = ''vdst-nsid'' @ dec nsid"

text \<open>Running commands, and calling an operation on the world outside.\<close>

definition in_world :: "('w \<Rightarrow> 'a \<times> 'w) \<Rightarrow> 'w tool \<Rightarrow> 'a \<times> 'w tool" where
  "in_world f t = (case f (world t) of (a, w) \<Rightarrow> (a, t\<lparr>world := w\<rparr>))"

abbreviation tool_run :: "'w ext \<Rightarrow> string list \<Rightarrow> 'w tool \<Rightarrow> bool \<times> 'w tool" where
  "tool_run E cmd \<equiv> in_world (run_ok E cmd)"

abbreviation tool_run_all :: "'w ext \<Rightarrow> string list list \<Rightarrow> 'w tool \<Rightarrow> bool \<times> 'w tool" where
  "tool_run_all E cmds \<equiv> in_world (run_all E cmds)"

definition run_ignored :: "'w ext \<Rightarrow> string list list \<Rightarrow> 'w tool \<Rightarrow> 'w tool" where
  "run_ignored E cmds t = t\<lparr>world := run_each E cmds (world t)\<rparr>"

section \<open>Addresses\<close>

definition get_ip_str :: "address_family option \<Rightarrow> packed \<Rightarrow> string" where
  "get_ip_str f ip =
     (let fs = (case f of None \<Rightarrow> [AF_INET, AF_INET6] | Some g \<Rightarrow> [g])
      in (case filter (\<lambda>g. length ip = addr_len g) fs of
            [] \<Rightarrow> ''-''
          | g # _ \<Rightarrow> (case inet_ntop g ip of Inl _ \<Rightarrow> ''-'' | Inr s \<Rightarrow> s)))"

definition get_veth_ip_prefix :: "address_family \<Rightarrow> string" where
  "get_veth_ip_prefix f = (case f of AF_INET \<Rightarrow> ''127.0.0.0/8'' | AF_INET6 \<Rightarrow> ''fda5:74c8:b79e:4::/64'')"

definition veth_ip4 :: "int \<Rightarrow> bool \<Rightarrow> string" where
  "veth_ip4 val src = veth_intf_ip_prefix @ dec val @
     (if src then veth_intf_src_ip_suffix else veth_intf_dst_ip_suffix)"

definition veth_ip6 :: "int \<Rightarrow> bool \<Rightarrow> string" where
  "veth_ip6 val src = veth_intf_ip6_prefix @ dec val @
     (if src then veth_intf_src_ip6_suffix else veth_intf_dst_ip6_suffix)"

section \<open>The veth pair\<close>

definition process_veth_config ::
  "'w ext \<Rightarrow> bool \<Rightarrow> string \<Rightarrow> string \<Rightarrow> string \<Rightarrow> string \<Rightarrow> string \<Rightarrow> string \<Rightarrow> string \<Rightarrow> string \<Rightarrow>
   'w tool \<Rightarrow> bool \<times> 'w tool" where
  "process_veth_config E is_add src dst sip dip plen sip6 dip6 plen6 t =
     (case (map_of (vrf_name_to_id t) src, map_of (vrf_name_to_id t) dst) of
        (Some sid, Some did) \<Rightarrow>
          if \<not> is_add then
            (case tool_run E (netns_exec src [''ip'', ''link'', ''delete'', ''dev'', vdst did]) t of
               (True, t1) \<Rightarrow> (True, t1)
             | (False, t1) \<Rightarrow>
                 tool_run E (netns_exec src [''ip'', ''link'', ''delete'', ''dev'', vdst sid]) t1)
          else
            tool_run_all E
              [netns_exec src [''ip'', ''link'', ''add'', ''name'', vdst did, ''type'', ''veth'',
                 ''peer'', ''name'', vdst sid],
               netns_exec src [''ip'', ''link'', ''set'', vdst did, ''up''],
               netns_exec src [''ip'', ''link'', ''set'', ''dev'', vdst sid, ''netns'', dst],
               netns_exec dst [''ip'', ''link'', ''set'', vdst sid, ''up''],
               netns_exec src [''ip'', ''address'', ''add'', sip @ ''/'' @ plen, ''dev'', vdst did],
               netns_exec dst [''ip'', ''address'', ''add'', dip @ ''/'' @ plen, ''dev'', vdst sid],
               netns_exec src [''ip'', ''address'', ''add'', sip6 @ ''/'' @ plen6, ''dev'', vdst did],
               netns_exec dst [''ip'', ''address'', ''add'', dip6 @ ''/'' @ plen6, ''dev'', vdst sid],
               netns_exec src (sysctl_w (''net.ipv4.conf.'' @ vdst did @ ''.route_localnet=1'')),
               netns_exec dst (sysctl_w (''net.ipv4.conf.'' @ vdst sid @ ''.route_localnet=1''))] t
      | _ \<Rightarrow> (False, t))"

definition process_vrf_ip_nat_config ::
  "'w ext \<Rightarrow> bool \<Rightarrow> string \<Rightarrow> string \<Rightarrow> string \<Rightarrow> 'w tool \<Rightarrow> bool \<times> 'w tool" where
  "process_vrf_ip_nat_config E is_add vrf if_name iptables t =
     (case map_of (vrf_name_to_id t) vrf of
        None \<Rightarrow> (False, t)
      | Some _ \<Rightarrow>
          tool_run E (netns_exec vrf [iptables, ''-t'', ''nat'', if is_add then ''-A'' else ''-D'',
            ''POSTROUTING'', ''-s'',
            get_veth_ip_prefix (if iptables = ''iptables'' then AF_INET else AF_INET6),
            ''-o'', if_name, ''-j'', ''MASQUERADE'']) t)"

section \<open>Source specific rules of the services\<close>

definition ip_service_key :: "string \<Rightarrow> bool \<Rightarrow> string \<Rightarrow> string" where
  "ip_service_key vrf v6 addr =
     ''*'' @ vrf @ ''*'' @ (if v6 then ''ipv6'' else ''ipv4'') @ ''*'' @ addr @ ''*''"

definition prerouting_cmd :: "string \<Rightarrow> bool \<Rightarrow> bool \<Rightarrow> string \<Rightarrow> string list" where
  "prerouting_cmd vrf v6 is_add addr =
     netns_exec vrf [if v6 then ''ip6tables'' else ''iptables'', ''-t'', ''nat'',
       if is_add then ''-A'' else ''-D'', ''PREROUTING'', ''-d'', addr, ''-j'', ''VRF'']"

text \<open>
  The inner loop of \<open>ip_svcs_iptable_rule_setup\<close>, over the addresses of an interface. The
  family the code keeps in \<open>af\<close> becomes IPv6 at the first IPv6 address and stays so.
\<close>

fun addr_rules ::
  "'w ext \<Rightarrow> string \<Rightarrow> bool \<Rightarrow> bool \<Rightarrow> (string \<times> string \<times> string) list \<Rightarrow> 'w tool \<Rightarrow> bool \<times> 'w tool" where
  "addr_rules E vrf is_add v6 [] t = (True, t)"
| "addr_rules E vrf is_add v6 ((fam, addr, plen) # rest) t =
     (let v6' = (v6 \<or> fam = ''inet6'')
      in if fam = ''inet6'' \<and> (str_in veth_intf_ip6_prefix addr \<or> str_in link_local_ip6_prefix addr)
         then addr_rules E vrf is_add v6' rest t
         else
           (let key = ip_service_key vrf v6' addr;
                known = (map_of (vrf_ip_service_ip_addr t) key \<noteq> None)
            in if (\<not> is_add \<and> \<not> known) \<or> (is_add \<and> known) then addr_rules E vrf is_add v6' rest t
               else
                 (let m = (if is_add then AList.update key 1 (vrf_ip_service_ip_addr t)
                           else AList.delete key (vrf_ip_service_ip_addr t))
                  in (case tool_run E (prerouting_cmd vrf v6' is_add addr)
                             (t\<lparr>vrf_ip_service_ip_addr := m\<rparr>) of
                        (False, t1) \<Rightarrow> (False, t1)
                      | (True, t1) \<Rightarrow> addr_rules E vrf is_add v6' rest t1))))"

text \<open>The outer loop, over the interfaces; an output that cannot be parsed raises.\<close>

fun intf_rules ::
  "'w ext \<Rightarrow> string \<Rightarrow> bool \<Rightarrow> string list list \<Rightarrow> 'w tool \<Rightarrow> (bool, 'w tool) outcome" where
  "intf_rules E vrf is_add [] t = (Inr True, t)"
| "intf_rules E vrf is_add (g # gs) t =
     (case InterfaceObject_init g vrf of
        Inl e \<Rightarrow> (Inl e, t)
      | Inr i \<Rightarrow>
          if if_type i = 1 then
            (case addr_rules E vrf is_add False (if_ip i) t of
               (False, t1) \<Rightarrow> (Inr False, t1)
             | (True, t1) \<Rightarrow> intf_rules E vrf is_add gs t1)
          else intf_rules E vrf is_add gs t)"

definition ip_svcs_iptable_rule_setup ::
  "'w ext \<Rightarrow> string \<Rightarrow> bool \<Rightarrow> 'w tool \<Rightarrow> (bool, 'w tool) outcome" where
  "ip_svcs_iptable_rule_setup E vrf is_add t =
     (case in_world (get_ip_addr_details E vrf None) t of
        (out, t1) \<Rightarrow>
          if ipsvcs_mutex t1 then (Inl Blocked, t1)
          else
            and_then (intf_rules E vrf is_add (group_lines_based_on_position 0 out)
                        (t1\<lparr>ipsvcs_mutex := True\<rparr>)) (\<lambda>ok t2.
              if \<not> ok then (Inr False, t2\<lparr>ipsvcs_mutex := False\<rparr>)
              else
                (case tool_run E (prerouting_cmd vrf True is_add ''fe80::/10'') t2 of
                   (_, t3) \<Rightarrow> (Inr True, t3\<lparr>ipsvcs_mutex := False\<rparr>))))"

section \<open>Subnets between namespaces\<close>

text \<open>The SNAT rules of the veth interface towards the default namespace.\<close>

definition snat_cmds :: "string \<Rightarrow> string \<Rightarrow> int \<Rightarrow> string \<Rightarrow> string list list" where
  "snat_cmds src op val iptable =
     (let sip = (if iptable = ''ip6tables'' then ''['' @ veth_ip6 val True @ '']'' else veth_ip4 val True);
          dip = (if iptable = ''ip6tables'' then veth_ip6 val False else veth_ip4 val False);
          rule = [iptable, ''-t'', ''nat'', op, ''POSTROUTING'', ''-o'', ''vdst-nsid0'', ''-d'', dip]
      in map (\<lambda>proto. netns_exec src (rule @ [''-p'', proto, ''-j'', ''SNAT'', ''--to-source'',
                  sip @ '':62000-65000''])) ip_proto @
         [netns_exec src (rule @ [''-j'', ''SNAT'', ''--to-source'', sip])])"

text \<open>Removal: the rules, then the flush and the chain, whose failures are only logged.\<close>

fun snat_removal :: "'w ext \<Rightarrow> string \<Rightarrow> int \<Rightarrow> string list \<Rightarrow> 'w tool \<Rightarrow> bool \<times> 'w tool" where
  "snat_removal E src val [] t = (True, t)"
| "snat_removal E src val (iptable # its) t =
     (case tool_run_all E (snat_cmds src ''-D'' val iptable) t of
        (False, t1) \<Rightarrow> (False, t1)
      | (True, t1) \<Rightarrow>
          snat_removal E src val its
            (run_ignored E [netns_exec src [iptable, ''-t'', ''nat'', ''-F''],
                            netns_exec src [iptable, ''-t'', ''nat'', ''-X'', ''VRF'']] t1))"

definition free_sub_net :: "(string \<times> int) list \<Rightarrow> int option" where
  "free_sub_net m = find (\<lambda>v. v \<notin> set (map snd m)) sub_net_range"

text \<open>
  One of the two loops over \<open>_vrf_src_ip_map\<close>: the source addresses of \<open>vrf\<close> go to its end of
  the veth pair, which is named after the namespace at the other end.
\<close>

definition add_src_ips :: "'w ext \<Rightarrow> string \<Rightarrow> string \<Rightarrow> 'w tool \<Rightarrow> 'w tool" where
  "add_src_ips E vrf other t =
     fold (\<lambda>key t. if \<not> names_vrf vrf key then t
                    else (case map_of (vrf_name_to_id t) other of
                            None \<Rightarrow> t
                          | Some nsid \<Rightarrow>
                              snd (in_world (add_ip_addr E (key_part key 3) (vdst nsid)
                                     (key_part key 2) (key_part key 1)) t)))
       (map fst (vrf_src_ip_map t)) t"

text \<open>The part of \<open>ip_svcs_subnet_setup\<close> that removes a subnet.\<close>

definition subnet_removal ::
  "'w ext \<Rightarrow> string \<Rightarrow> string \<Rightarrow> 'w tool \<Rightarrow> (bool \<times> int option, 'w tool) outcome" where
  "subnet_removal E src dst t =
     (let key = pair_key src dst
      in (case map_of (vrf_sub_net_map t) key of
            None \<Rightarrow> (Inr (False, None), t)
          | Some val \<Rightarrow>
              (case process_veth_config E False src dst ''0'' ''0'' ''0'' ''0'' ''0'' ''0'' t of
                 (False, t1) \<Rightarrow> (Inr (False, Some val), t1)
               | (True, t1) \<Rightarrow>
                   (let t2 = t1\<lparr>vrf_sub_net_map := AList.delete key (vrf_sub_net_map t1)\<rparr>
                    in if src \<noteq> ''default'' \<and> dst \<noteq> ''default'' then (Inr (True, Some val), t2)
                       else if src = ''default'' then (Inr (True, Some val), t2)
                       else (case snat_removal E src val ip_tables t2 of
                               (ok, t3) \<Rightarrow> (Inr (ok, Some val), t3))))))"

text \<open>
  The part that makes one: a free value, the veth pair with its addresses, the source
  addresses of the leaked namespaces, and the SNAT rules. The value is entered in the map
  before the pair is made, and stays there when that fails.
\<close>

definition subnet_creation ::
  "'w ext \<Rightarrow> string \<Rightarrow> string \<Rightarrow> 'w tool \<Rightarrow> (bool \<times> int option, 'w tool) outcome" where
  "subnet_creation E src dst t =
     (let key = pair_key src dst
      in (case map_of (vrf_sub_net_map t) key of
            Some val \<Rightarrow> (Inr (True, Some val), t)
          | None \<Rightarrow>
              (case free_sub_net (vrf_sub_net_map t) of
                 None \<Rightarrow> (Inr (False, None), t)
               | Some val \<Rightarrow>
                   (case process_veth_config E True src dst
                           (veth_ip4 val True) (veth_ip4 val False) veth_intf_ip_pref_len
                           (veth_ip6 val True) (veth_ip6 val False) veth_intf_ip6_pref_len
                           (t\<lparr>vrf_sub_net_map := AList.update key val (vrf_sub_net_map t)\<rparr>) of
                      (False, t1) \<Rightarrow> (Inr (False, Some val), t1)
                    | (True, t1) \<Rightarrow>
                        (let t2 = add_src_ips E dst src (add_src_ips E src dst t1)
                         in if src \<noteq> ''default'' \<and> dst \<noteq> ''default'' then (Inr (True, Some val), t2)
                            else if src = ''default'' then (Inr (True, Some val), t2)
                            else (case tool_run_all E (concat (map (snat_cmds src ''-A'' val) ip_tables)) t2 of
                                    (ok, t3) \<Rightarrow> (Inr (ok, Some val), t3)))))))"

definition ip_svcs_subnet_setup ::
  "'w ext \<Rightarrow> bool \<Rightarrow> string \<Rightarrow> string \<Rightarrow> 'w tool \<Rightarrow> (bool \<times> int option, 'w tool) outcome" where
  "ip_svcs_subnet_setup E is_add src dst t =
     (case map_of (vrf_name_to_id t) src of
        None \<Rightarrow> (Inr (False, None), t)
      | Some _ \<Rightarrow>
          and_then (if src \<noteq> ''default'' \<and> dst = ''default''
                    then ip_svcs_iptable_rule_setup E src is_add t else (Inr True, t)) (\<lambda>_ t1.
          and_then (if dst \<noteq> ''default'' \<and> src = ''default''
                    then ip_svcs_iptable_rule_setup E dst is_add t1 else (Inr True, t1)) (\<lambda>_ t2.
            if is_add then subnet_creation E src dst t2 else subnet_removal E src dst t2)))"

section \<open>Private addresses\<close>

text \<open>\<open>_veth_ip_get\<close>: the two addresses, or \<open>None\<close> for a failure.\<close>

definition veth_ip_get ::
  "'w ext \<Rightarrow> string \<Rightarrow> string \<Rightarrow> bool \<Rightarrow> 'w tool \<Rightarrow> ((string \<times> string) option, 'w tool) outcome" where
  "veth_ip_get E src dst is_peer t =
     (if src = ''default'' \<and> dst = ''default'' then (Inr None, t)
      else
        (case map_of (vrf_sub_net_map t) (pair_key src dst) of
           Some val \<Rightarrow> (Inr (Some (veth_ip4 val (\<not> is_peer), veth_ip6 val (\<not> is_peer))), t)
         | None \<Rightarrow>
             (case map_of (vrf_sub_net_map t) (pair_key dst src) of
                Some val \<Rightarrow> (Inr (Some (veth_ip4 val is_peer, veth_ip6 val is_peer)), t)
              | None \<Rightarrow>
                  and_then (ip_svcs_subnet_setup E True src dst t) (\<lambda>r t1.
                    (case r of
                       (True, Some val) \<Rightarrow>
                         (Inr (Some (veth_ip4 val (\<not> is_peer), veth_ip6 val (\<not> is_peer))), t1)
                     | _ \<Rightarrow> (Inr None, t1))))))"

definition get_veth_ip_subnet :: "string \<Rightarrow> string \<Rightarrow> 'w tool \<Rightarrow> int option" where
  "get_veth_ip_subnet src dst t =
     (case map_of (vrf_sub_net_map t) (pair_key src dst) of
        Some val \<Rightarrow> Some val
      | None \<Rightarrow> map_of (vrf_sub_net_map t) (pair_key dst src))"

definition get_veth_ip_str ::
  "'w ext \<Rightarrow> address_family \<Rightarrow> string \<Rightarrow> bool \<Rightarrow> 'w tool \<Rightarrow> (string option, 'w tool) outcome" where
  "get_veth_ip_str E f vrf is_peer t =
     and_then (veth_ip_get E vrf ''default'' is_peer t) (\<lambda>r t1.
       (case r of
          None \<Rightarrow> (Inr None, t1)
        | Some (ip4, ip6) \<Rightarrow> (Inr (Some (case f of AF_INET \<Rightarrow> ip4 | AF_INET6 \<Rightarrow> ip6)), t1)))"

definition get_veth_ip ::
  "'w ext \<Rightarrow> address_family \<Rightarrow> string \<Rightarrow> bool \<Rightarrow> 'w tool \<Rightarrow> (packed option, 'w tool) outcome" where
  "get_veth_ip E f vrf is_peer t =
     and_then (veth_ip_get E vrf ''default'' is_peer t) (\<lambda>r t1.
       (case r of
          None \<Rightarrow> (Inr None, t1)
        | Some (ip4, ip6) \<Rightarrow>
            (case inet_pton f (case f of AF_INET \<Rightarrow> ip4 | AF_INET6 \<Rightarrow> ip6) of
               Inl e \<Rightarrow> (Inl e, t1)
             | Inr bs \<Rightarrow> (Inr (Some bs), t1))))"

definition free_private_port :: "(svc_alias \<times> int) list \<Rightarrow> int option" where
  "free_private_port m = find (\<lambda>p. p \<notin> set (map snd m)) private_port_range"

text \<open>The result is the private address and port, or \<open>None\<close> for \<^verbatim>\<open>(False, None, 0)\<close>.\<close>

definition process_outgoing_ip_svcs_sub_net_config ::
  "'w ext \<Rightarrow> bool \<Rightarrow> svc_alias \<Rightarrow> 'w tool \<Rightarrow> ((packed \<times> int) option, 'w tool) outcome" where
  "process_outgoing_ip_svcs_sub_net_config E is_add key t =
     (case key of (vrf, f, public_ip, proto, public_port) \<Rightarrow>
        and_then (veth_ip_get E vrf ''default'' False t) (\<lambda>r t1.
          (case r of
             None \<Rightarrow> (Inr None, t1)
           | Some (ip4, ip6) \<Rightarrow>
               (let (port, t2) =
                  (if \<not> is_add then
                     (map_of (outgoing_ip_svcs_map t1) key,
                      t1\<lparr>outgoing_ip_svcs_map := AList.delete key (outgoing_ip_svcs_map t1)\<rparr>)
                   else if map_of (outgoing_ip_svcs_map t1) key \<noteq> None then (None, t1)
                   else (case free_private_port (outgoing_ip_svcs_map t1) of
                           None \<Rightarrow> (None, t1)
                         | Some p \<Rightarrow>
                             (Some p, t1\<lparr>outgoing_ip_svcs_map :=
                                        AList.update key p (outgoing_ip_svcs_map t1)\<rparr>)))
                in (case port of
                      None \<Rightarrow> (Inr None, t2)
                    | Some p \<Rightarrow>
                        (case inet_pton f (case f of AF_INET \<Rightarrow> ip4 | AF_INET6 \<Rightarrow> ip6) of
                           Inl e \<Rightarrow> (Inl e, t2)
                         | Inr bs \<Rightarrow> (Inr (Some (bs, p)), t2)))))))"

definition get_vrf_intf_to_dst_vrf :: "string \<Rightarrow> string \<Rightarrow> 'w tool \<Rightarrow> string option" where
  "get_vrf_intf_to_dst_vrf src dst t =
     (case get_veth_ip_subnet src dst t of
        None \<Rightarrow> None
      | Some _ \<Rightarrow> map_option vdst (map_of (vrf_name_to_id t) dst))"

text \<open>The loop of \<open>process_src_ip_config\<close>; \<open>dst\<close> is the variable that survives an iteration.\<close>

fun src_ip_loop ::
  "'w ext \<Rightarrow> bool \<Rightarrow> string \<Rightarrow> string \<Rightarrow> string \<Rightarrow> string option \<Rightarrow> string list \<Rightarrow> 'w tool \<Rightarrow> 'w tool" where
  "src_ip_loop E is_add vrf fam ip_addr dst [] t = t"
| "src_ip_loop E is_add vrf fam ip_addr dst (key # keys) t =
     (if \<not> names_vrf vrf key then src_ip_loop E is_add vrf fam ip_addr dst keys t
      else
        (let d1 = (if key_part key 1 = vrf then Some (key_part key 2) else dst);
             d2 = (if key_part key 2 = vrf then Some (key_part key 1) else d1)
         in (case (case d2 of None \<Rightarrow> None | Some d \<Rightarrow> map_of (vrf_name_to_id t) d) of
               None \<Rightarrow> src_ip_loop E is_add vrf fam ip_addr d2 keys t
             | Some nsid \<Rightarrow>
                 src_ip_loop E is_add vrf fam ip_addr d2 keys
                   (snd (in_world (if is_add then add_ip_addr E ip_addr (vdst nsid) fam vrf
                                   else del_ip_addr E ip_addr (vdst nsid) vrf) t)))))"

definition process_src_ip_config ::
  "'w ext \<Rightarrow> string \<Rightarrow> bool \<Rightarrow> string \<Rightarrow> string \<Rightarrow> 'w tool \<Rightarrow> bool \<times> 'w tool" where
  "process_src_ip_config E vrf is_add fam ip t =
     (let ip_addr = ip @ ''/'' @ (if fam = ''ipv6'' then ''128'' else ''32'');
          key = ''*'' @ vrf @ ''*'' @ fam @ ''*'' @ ip_addr @ ''*'';
          known = (map_of (vrf_src_ip_map t) key \<noteq> None)
      in if (\<not> is_add \<and> \<not> known) \<or> (is_add \<and> known) then (True, t)
         else
           (let m = (if is_add then AList.update key 1 (vrf_src_ip_map t)
                     else AList.delete key (vrf_src_ip_map t))
            in (True, src_ip_loop E is_add vrf fam ip_addr None (map fst (vrf_sub_net_map t))
                        (t\<lparr>vrf_src_ip_map := m\<rparr>))))"

definition process_leaked_rt_config ::
  "'w ext \<Rightarrow> string \<Rightarrow> address_family \<Rightarrow> string \<Rightarrow> string \<Rightarrow> int \<Rightarrow> string \<Rightarrow> 'w tool \<Rightarrow> bool \<times> 'w tool" where
  "process_leaked_rt_config E op f dst prefix prefix_len nexthop t =
     (let tbl_op = (if op = ''del'' then ''-D'' else ''-A'');
          net = prefix @ ''/'' @ dec prefix_len
      in tool_run_all E
           [netns_exec dst [''ip'', ''route'', op, net, ''via'', nexthop],
            (case f of
               AF_INET \<Rightarrow> netns_exec dst [''iptables'', ''-t'', ''mangle'', tbl_op, ''POSTROUTING'',
                             ''-d'', net, ''-j'', ''TTL'', ''--ttl-inc'', ''1'']
             | AF_INET6 \<Rightarrow> netns_exec dst [''ip6tables'', ''-t'', ''mangle'', tbl_op, ''POSTROUTING'',
                             ''-d'', net, ''-j'', ''HL'', ''--hl-inc'', ''1''])] t)"

section \<open>Creation and deletion of a namespace\<close>

definition default_vrf_chain_cmds :: "bool \<Rightarrow> string list list" where
  "default_vrf_chain_cmds is_add =
     map (\<lambda>iptable. [iptable, ''-t'', ''raw'', if is_add then ''-N'' else ''-X'', vrf_chain_name]) ip_tables"

definition process_default_vrf_chain :: "'w ext \<Rightarrow> bool \<Rightarrow> 'w tool \<Rightarrow> bool \<times> 'w tool" where
  "process_default_vrf_chain E is_add t = tool_run_all E (default_vrf_chain_cmds is_add) t"

definition top_chain_cmds :: "bool \<Rightarrow> string \<Rightarrow> string list list" where
  "top_chain_cmds is_add vrf =
     (let op = (if is_add then ''-A'' else ''-D'');
          prefix = (if vrf = ''default'' then [] else [iplink_cmd, ''netns'', ''exec'', vrf]);
          chains = (if vrf = ''default'' then [''INPUT''] else [''INPUT'', ''FORWARD''])
      in concat (map (\<lambda>iptable.
           (prefix @ [iptable, ''-t'', ''raw'', op, ''PREROUTING'', ''!'', ''-i'', ''lo'', ''-j'', vrf_chain_name]) #
           map (\<lambda>chain. prefix @ [iptable, op, chain, ''-m'', ''mark'', ''--mark'', dec rej_rule_mark_value,
                  ''-j'', ''REJECT'']) chains) ip_tables))"

definition process_vrf_top_chain_rule :: "'w ext \<Rightarrow> bool \<Rightarrow> string \<Rightarrow> 'w tool \<Rightarrow> bool \<times> 'w tool" where
  "process_vrf_top_chain_rule E is_add vrf t =
     (case (if is_add \<and> vrf = ''default'' then process_default_vrf_chain E True t else (True, t)) of
        (False, t1) \<Rightarrow> (False, t1)
      | (True, t1) \<Rightarrow>
          (case tool_run_all E (top_chain_cmds is_add vrf) t1 of
             (False, t2) \<Rightarrow> (False, t2)
           | (True, t2) \<Rightarrow>
               (True, if \<not> is_add \<and> vrf = ''default''
                      then snd (process_default_vrf_chain E False t2) else t2)))"

text \<open>The subnets of a namespace that is deleted; the keys are those of the map at the start.\<close>

fun delete_subnets ::
  "'w ext \<Rightarrow> string \<Rightarrow> string list \<Rightarrow> 'w tool \<Rightarrow> (bool, 'w tool) outcome" where
  "delete_subnets E vrf [] t = (Inr True, t)"
| "delete_subnets E vrf (key # keys) t =
     (if \<not> names_vrf vrf key then delete_subnets E vrf keys t
      else
        and_then (ip_svcs_subnet_setup E False (key_part key 1) (key_part key 2) t) (\<lambda>r t1.
          if \<not> fst r then (Inr False, t1) else delete_subnets E vrf keys t1))"

definition vrf_chain_cmds :: "string \<Rightarrow> string list \<Rightarrow> string list list" where
  "vrf_chain_cmds vrf ops =
     concat (map (\<lambda>iptable. concat (map (\<lambda>table.
       map (\<lambda>op. netns_exec vrf [iptable, ''-t'', table, op, vrf_chain_name]) ops) [''nat'', ''raw'']))
       ip_tables)"

definition netns_folder :: "string \<Rightarrow> string" where
  "netns_folder vrf = ''/etc/netns/'' @ vrf"

text \<open>
  The \<open>try\<close> block of the deletion: the link to the default namespace goes with the last other
  one. \<open>None\<close> is its \<^verbatim>\<open>return False\<close>; a failing file operation only skips the rest.
\<close>

definition cleanup_folder :: "'w ext \<Rightarrow> string \<Rightarrow> 'w tool \<Rightarrow> bool \<times> 'w tool" where
  "cleanup_folder E vrf t =
     (if length (vrf_name_to_id t) = 1 then
        (case in_world (os_unlink E ''/var/run/netns/default'') t of
           (False, t1) \<Rightarrow> (True, t1)
         | (True, t1) \<Rightarrow>
             (case map_of (vrf_name_to_id t1) ''default'' of
                None \<Rightarrow> (False, t1)
              | Some _ \<Rightarrow>
                  (True, snd (in_world (rmtree E (netns_folder vrf))
                    (t1\<lparr>vrf_name_to_id := AList.delete ''default'' (vrf_name_to_id t1)\<rparr>)))))
      else (True, snd (in_world (rmtree E (netns_folder vrf)) t)))"

definition delete_vrf :: "'w ext \<Rightarrow> string \<Rightarrow> 'w tool \<Rightarrow> (bool, 'w tool) outcome" where
  "delete_vrf E vrf t0 =
     (let t = snd (process_vrf_top_chain_rule E False vrf t0)
      in and_then (delete_subnets E vrf (map fst (vrf_sub_net_map t)) t) (\<lambda>ok t1.
           if \<not> ok then (Inr False, t1)
           else
             (case map_of (vrf_name_to_id t1) vrf of
                None \<Rightarrow> (Inr False, t1)
              | Some _ \<Rightarrow>
                  (case cleanup_folder E vrf
                          (t1\<lparr>vrf_name_to_id := AList.delete vrf (vrf_name_to_id t1)\<rparr>) of
                     (False, t2) \<Rightarrow> (Inr False, t2)
                   | (True, t2) \<Rightarrow>
                       (case tool_run E [iplink_cmd, ''netns'', ''delete'', vrf]
                               (run_ignored E (vrf_chain_cmds vrf [''-F'', ''-X'']) t2) of
                          (ok2, t3) \<Rightarrow> (Inr ok2, t3))))))"

text \<open>
  The multicast limits of \<^verbatim>\<open>dn-igmp.conf\<close>: the third word of the last line that names each; a
  line without one stops the reading, and then nothing is set.
\<close>

fun igmp_loop :: "string \<Rightarrow> string list \<Rightarrow> string option \<Rightarrow> exn + string option" where
  "igmp_loop name [] v = Inr v"
| "igmp_loop name (l # ls) v =
     (if str_in name l then
        (if length (split_ws l) > 2 then igmp_loop name ls (Some (split_ws l ! 2)) else Inl IndexError)
      else igmp_loop name ls v)"

definition igmp_cmds :: "string \<Rightarrow> string list option \<Rightarrow> string list list" where
  "igmp_cmds vrf conf =
     (case conf of
        None \<Rightarrow> []
      | Some ls \<Rightarrow>
          (case (igmp_loop ''net.ipv4.igmp_max_memberships'' ls None, igmp_loop ''net.ipv4.igmp_max_msf'' ls None) of
             (Inr a, Inr b) \<Rightarrow>
               (case a of None \<Rightarrow> [] | Some v \<Rightarrow> [netns_exec vrf (sysctl_w (''net.ipv4.igmp_max_memberships='' @ v))]) @
               (case b of None \<Rightarrow> [] | Some v \<Rightarrow> [netns_exec vrf (sysctl_w (''net.ipv4.igmp_max_msf='' @ v))])
           | _ \<Rightarrow> []))"

text \<open>The \<open>try\<close> block of the creation: the link and the folder, failures ignored.\<close>

definition make_folder :: "'w ext \<Rightarrow> string \<Rightarrow> 'w tool \<Rightarrow> 'w tool" where
  "make_folder E vrf t =
     (if length (vrf_name_to_id t) = 1 then
        (case in_world (os_symlink E ''/proc/1/ns/net'' ''/var/run/netns/default'') t of
           (False, t1) \<Rightarrow> t1
         | (True, t1) \<Rightarrow>
             snd (in_world (os_makedirs E (netns_folder vrf))
               (t1\<lparr>vrf_name_to_id := AList.update ''default'' 0 (vrf_name_to_id t1)\<rparr>)))
      else snd (in_world (os_makedirs E (netns_folder vrf)) t))"

definition add_vrf :: "'w ext \<Rightarrow> string \<Rightarrow> int \<Rightarrow> 'w tool \<Rightarrow> bool \<times> 'w tool" where
  "add_vrf E vrf vrf_id t =
     (case tool_run_all E [[iplink_cmd, ''netns'', ''add'', vrf], [iplink_cmd, ''netns'', ''set'', vrf, dec vrf_id]] t of
        (False, t1) \<Rightarrow> (False, t1)
      | (True, t1) \<Rightarrow>
          (let t2 = make_folder E vrf (t1\<lparr>vrf_name_to_id := AList.update vrf vrf_id (vrf_name_to_id t1)\<rparr>)
           in (case tool_run E (netns_exec vrf (sysctl_w ''net.ipv6.conf.all.forwarding=1'')) t2 of
                 (False, t3) \<Rightarrow> (False, t3)
               | (True, t3) \<Rightarrow>
                   (case tool_run_all E (igmp_cmds vrf (read_file E ''/etc/sysctl.d/dn-igmp.conf'' (world t3)) @
                            [netns_exec vrf [''ip'', ''link'', ''set'', ''lo'', ''up'']]) t3 of
                      (False, t4) \<Rightarrow> (False, t4)
                    | (True, t4) \<Rightarrow>
                        (case tool_run_all E (vrf_chain_cmds vrf [''-N''])
                                (run_ignored E [[''ifconfig'', ''lo'', ''127.0.0.1/16''],
                                                netns_exec vrf [''ifconfig'', ''lo'', ''127.0.0.1/16'']] t4) of
                           (False, t5) \<Rightarrow> (False, t5)
                         | (True, t5) \<Rightarrow> process_vrf_top_chain_rule E True vrf t5)))))"

definition process_vrf_config ::
  "'w ext \<Rightarrow> bool \<Rightarrow> string \<Rightarrow> int \<Rightarrow> 'w tool \<Rightarrow> (bool, 'w tool) outcome" where
  "process_vrf_config E is_add vrf vrf_id t =
     (if is_add then (case add_vrf E vrf vrf_id t of (ok, t1) \<Rightarrow> (Inr ok, t1))
      else delete_vrf E vrf t)"

section \<open>Binding an interface to a namespace\<close>

type_synonym intf_result = "bool \<times> string \<times> int \<times> string option"

text \<open>\<^verbatim>\<open>int(res[0].split(':')[0])\<close>.\<close>

definition first_field_int :: "string list \<Rightarrow> exn + int" where
  "first_field_int out =
     (case out of [] \<Rightarrow> Inl IndexError | l # _ \<Rightarrow> py_int (hd (split_on CHR '':'' l)))"

text \<open>
  The part of \<open>process_vrf_intf_config\<close> that unbinds. For the management namespace the
  interface itself moves back, otherwise its MAC-VLAN interface is deleted.
\<close>

definition unbind_intf :: "'w ext \<Rightarrow> string \<Rightarrow> string \<Rightarrow> 'w tool \<Rightarrow> intf_result \<times> 'w tool" where
  "unbind_intf E name vrf t =
     (if vrf = ''default'' then ((True, name, 0, None), t)
      else if vrf \<noteq> ''management'' then
        (case tool_run E (sysctl_w (''net.ipv6.conf.'' @ name @ ''.disable_ipv6=0'')) t of
           (False, t1) \<Rightarrow> ((False, name, 0, None), t1)
         | (True, t1) \<Rightarrow>
             (let v = ''v-'' @ name
              in (case tool_run E (netns_exec vrf [''ip'', ''link'', ''delete'', v]) t1 of
                    (False, t2) \<Rightarrow> ((False, v, 0, None), t2)
                  | (True, t2) \<Rightarrow>
                      ((True, v, 0, None),
                       snd (process_vrf_ip_nat_config E False vrf v ''ip6tables''
                         (snd (process_vrf_ip_nat_config E False vrf v ''iptables'' t2)))))))
      else
        (case tool_run_all E [netns_exec vrf [''ip'', ''link'', ''set'', name, ''netns'', ''1''],
                              sysctl_w (''net.ipv4.conf.'' @ name @ ''.route_localnet=0'')] t of
           (False, t1) \<Rightarrow> ((False, name, 0, None), t1)
         | (True, t1) \<Rightarrow>
             ((True, name, 0, None),
              snd (process_vrf_ip_nat_config E False vrf name ''ip6tables''
                (snd (process_vrf_ip_nat_config E False vrf name ''iptables'' t1))))))"

text \<open>The end of the binding, the same for every namespace but the default one.\<close>

definition bind_finish ::
  "'w ext \<Rightarrow> string \<Rightarrow> string \<Rightarrow> int \<Rightarrow> string option \<Rightarrow> 'w tool \<Rightarrow> intf_result \<times> 'w tool" where
  "bind_finish E name vrf if_index mac t =
     (case tool_run_all E
             [netns_exec vrf (sysctl_w (''net.ipv4.conf.'' @ name @ ''.route_localnet=1'')),
              netns_exec vrf [''iptables'', ''-I'', ''OUTPUT'', ''-o'', name, ''-d'', ''loopback/8'', ''-j'', ''DROP'']] t of
        (False, t1) \<Rightarrow> ((False, name, if_index, mac), t1)
      | (True, t1) \<Rightarrow>
          ((True, name, if_index, mac),
           snd (process_vrf_ip_nat_config E True vrf name ''ip6tables''
             (snd (process_vrf_ip_nat_config E True vrf name ''iptables'' t1)))))"

definition bind_default :: "'w ext \<Rightarrow> string \<Rightarrow> 'w tool \<Rightarrow> (intf_result, 'w tool) outcome" where
  "bind_default E name t =
     (case in_world (run_command E [iplink_cmd, ''link'', ''show'', ''dev'', name]) t of
        ((rc, out), t1) \<Rightarrow>
          if rc \<noteq> 0 then (Inr (False, name, 0, None), t1)
          else
            (case first_field_int out of
               Inl e \<Rightarrow> (Inl e, t1)
             | Inr ix \<Rightarrow>
                 if length out < 2 \<or> length (split_on CHR '' '' (out ! 1)) < 6 then (Inl IndexError, t1)
                 else (Inr (True, name, ix, Some (split_on CHR '' '' (out ! 1) ! 5)), t1)))"

definition bind_management ::
  "'w ext \<Rightarrow> string \<Rightarrow> string \<Rightarrow> string option \<Rightarrow> 'w tool \<Rightarrow> (intf_result, 'w tool) outcome" where
  "bind_management E name vrf mac t =
     (case tool_run E [iplink_cmd, ''link'', ''set'', ''dev'', name, ''netns'', vrf] t of
        (False, t1) \<Rightarrow> (Inr (False, name, 0, mac), t1)
      | (True, t1) \<Rightarrow>
          (case in_world (run_command E [iplink_cmd, ''-n'', vrf, ''link'', ''show'', ''dev'', name]) t1 of
             ((rc, out), t2) \<Rightarrow>
               if rc \<noteq> 0 then (Inr (False, name, 0, mac), t2)
               else
                 (case first_field_int out of
                    Inl e \<Rightarrow> (Inl e, t2)
                  | Inr ix \<Rightarrow> (case bind_finish E name vrf ix mac t2 of (r, t3) \<Rightarrow> (Inr r, t3)))))"

text \<open>Whether the flags of the interface, the third field of the first line, contain \<open>UP\<close>.\<close>

definition shows_up :: "string list \<Rightarrow> bool" where
  "shows_up out =
     (case out of
        [] \<Rightarrow> False
      | l # _ \<Rightarrow> length (split_on CHR '' '' l) > 2 \<and> str_in ''UP'' (split_on CHR '' '' l ! 2))"

definition bind_macvlan ::
  "'w ext \<Rightarrow> string \<Rightarrow> string \<Rightarrow> string option \<Rightarrow> 'w tool \<Rightarrow> (intf_result, 'w tool) outcome" where
  "bind_macvlan E name vrf mac t =
     (case in_world (run_command E [iplink_cmd, ''link'', ''show'', ''dev'', name]) t of
        ((rc, out), t1) \<Rightarrow>
          if rc \<noteq> 0 then (Inr (False, name, 0, mac), t1)
          else
            (let v = ''v-'' @ name;
                 addr = (if take 2 name = ''lo'' then [] else (case mac of None \<Rightarrow> [] | Some m \<Rightarrow> [''address'', m]))
             in (case tool_run_all E
                        [[iplink_cmd, ''link'', ''add'', ''link'', name, v] @ addr @
                           [''type'', ''macvlan'', ''mode'', ''bridge''],
                         [iplink_cmd, ''link'', ''set'', ''dev'', v, ''netns'', vrf],
                         sysctl_w (''net.ipv6.conf.'' @ name @ ''.disable_ipv6=1'')] t1 of
                   (False, t2) \<Rightarrow> (Inr (False, name, 0, mac), t2)
                 | (True, t2) \<Rightarrow>
                     (case tool_run_all E
                             (if shows_up out then [[iplink_cmd, ''-n'', vrf, ''link'', ''set'', ''dev'', v, ''up'']] else []) t2 of
                        (False, t3) \<Rightarrow> (Inr (False, v, 0, mac), t3)
                      | (True, t3) \<Rightarrow>
                          (case in_world (run_command E [iplink_cmd, ''-n'', vrf, ''link'', ''show'', ''dev'', v]) t3 of
                             ((rc2, out2), t4) \<Rightarrow>
                               if rc2 \<noteq> 0 then (Inr (False, v, 0, mac), t4)
                               else
                                 (case first_field_int out2 of
                                    Inl e \<Rightarrow> (Inl e, t4)
                                  | Inr ix \<Rightarrow> (case bind_finish E v vrf ix mac t4 of (r, t5) \<Rightarrow> (Inr r, t5))))))))"

definition process_vrf_intf_config ::
  "'w ext \<Rightarrow> bool \<Rightarrow> string \<Rightarrow> string \<Rightarrow> string option \<Rightarrow> 'w tool \<Rightarrow> (intf_result, 'w tool) outcome" where
  "process_vrf_intf_config E is_add name vrf if_ty t =
     (if \<not> is_add then (case unbind_intf E name vrf t of (r, t1) \<Rightarrow> (Inr r, t1))
      else if vrf = ''default'' then bind_default E name t
      else if vrf = ''management'' then bind_management E name vrf (Some (mgmt_mac E (world t))) t
      else bind_macvlan E name vrf
             (Some (if if_ty = Some ''base-if:virtualNetwork'' then virtual_network_mac E (world t)
                    else vrf_mac E (world t))) t)"

section \<open>Address events\<close>

text \<open>
  \<open>ipv4_rule_programming\<close> and \<open>ipv6_rule_programming\<close>: an interface of a namespace with IP
  services got or lost an address. A missing attribute of the event, or a packed address of the
  wrong length, is a \<open>ValueError\<close>, which the functions turn into \<open>True\<close>.
\<close>

record addr_event =
  ev_vrf :: "string option"
  ev_intf :: "string option"
  ev_addr :: "string option"

text \<open>The loop that looks for an interface that is not a MAC-VLAN.\<close>

fun all_macvlan :: "string \<Rightarrow> string list list \<Rightarrow> exn + bool" where
  "all_macvlan vrf [] = Inr True"
| "all_macvlan vrf (g # gs) =
     try_bind (InterfaceObject_init g vrf) (\<lambda>i. if if_type i \<noteq> 1 then Inr False else all_macvlan vrf gs)"

definition program_address ::
  "'w ext \<Rightarrow> bool \<Rightarrow> string \<Rightarrow> string \<Rightarrow> bool \<Rightarrow> 'w tool \<Rightarrow> bool \<times> 'w tool" where
  "program_address E v6 vrf addr is_add t =
     (if v6 \<and> (str_in veth_intf_ip6_prefix addr \<or> str_in link_local_ip6_prefix addr) then (True, t)
      else
        (let key = ip_service_key vrf v6 addr;
             known = (map_of (vrf_ip_service_ip_addr t) key \<noteq> None)
         in if (\<not> is_add \<and> \<not> known) \<or> (is_add \<and> known) then (True, t)
            else
              tool_run E (prerouting_cmd vrf v6 is_add addr)
                (t\<lparr>vrf_ip_service_ip_addr :=
                     (if is_add then AList.update key 1 (vrf_ip_service_ip_addr t)
                      else AList.delete key (vrf_ip_service_ip_addr t))\<rparr>)))"

definition rule_programming ::
  "'w ext \<Rightarrow> bool \<Rightarrow> addr_event \<Rightarrow> bool \<Rightarrow> 'w tool \<Rightarrow> (bool, 'w tool) outcome" where
  "rule_programming E v6 ev is_add t =
     (case (ev_vrf ev, ev_intf ev, ev_addr ev) of
        (Some vrf, Some intf, Some hex) \<Rightarrow>
          (case unhexlify hex of
             Inl e \<Rightarrow> (Inl e, t)
           | Inr bs \<Rightarrow>
               (case inet_ntop (if v6 then AF_INET6 else AF_INET) bs of
                  Inl _ \<Rightarrow> (Inr True, t)
                | Inr addr \<Rightarrow>
                    if get_veth_ip_subnet vrf ''default'' t = None then (Inr True, t)
                    else if vrf \<noteq> ''management'' then
                      (case in_world (get_ip_addr_details E vrf (Some intf)) t of
                         (out, t1) \<Rightarrow>
                           (case all_macvlan vrf (group_lines_based_on_position 0 out) of
                              Inl e \<Rightarrow> (if e = ValueError then Inr True else Inl e, t1)
                            | Inr False \<Rightarrow> (Inr True, t1)
                            | Inr True \<Rightarrow>
                                (case program_address E v6 vrf addr is_add t1 of (ok, t2) \<Rightarrow> (Inr ok, t2))))
                    else (case program_address E v6 vrf addr is_add t of (ok, t1) \<Rightarrow> (Inr ok, t1))))
      | _ \<Rightarrow> (Inr True, t))"

text \<open>One round of the loop in \<open>handle_ip_address_event\<close>.\<close>

definition handle_ip_address_event ::
  "'w ext \<Rightarrow> bool \<Rightarrow> string \<Rightarrow> addr_event \<Rightarrow> 'w tool \<Rightarrow> (unit, 'w tool) outcome" where
  "handle_ip_address_event E v6 op ev t =
     (if ev_vrf ev = None \<or> ev_vrf ev = Some ''default'' then (Inr (), t)
      else if ipsvcs_mutex t then (Inl Blocked, t)
      else
        and_then (rule_programming E v6 ev (op = ''create'' \<or> op = ''set'') (t\<lparr>ipsvcs_mutex := True\<rparr>))
          (\<lambda>_ t1. (Inr (), t1\<lparr>ipsvcs_mutex := False\<rparr>)))"

section \<open>Unique values\<close>

text \<open>
  The subnet values, and the private ports, are handed out from a range and never twice. The
  invariant says so of both dictionaries.
\<close>

definition uniq_vals :: "int list \<Rightarrow> ('k \<times> int) list \<Rightarrow> bool" where
  "uniq_vals rng m \<longleftrightarrow> distinct (map fst m) \<and> distinct (map snd m) \<and> snd ` set m \<subseteq> set rng"

definition tool_inv :: "'w tool \<Rightarrow> bool" where
  "tool_inv t \<longleftrightarrow> uniq_vals sub_net_range (vrf_sub_net_map t) \<and>
     uniq_vals private_port_range (outgoing_ip_svcs_map t)"

lemma update_new: "k \<notin> fst ` set m \<Longrightarrow> AList.update k v m = m @ [(k, v)]"
  by (induction m) auto

lemma uniq_update:
  assumes "uniq_vals rng m" "map_of m k = None" "v \<in> set rng" "v \<notin> set (map snd m)"
  shows "uniq_vals rng (AList.update k v m)"
  using assms by (simp add: uniq_vals_def update_new map_of_eq_None_iff)

lemma uniq_delete: "uniq_vals rng m \<Longrightarrow> uniq_vals rng (AList.delete k m)"
  by (auto simp: uniq_vals_def AList.delete_eq distinct_map_filter)

lemma find_range: "find (\<lambda>v. v \<notin> set (map snd m)) rng = Some v \<Longrightarrow> v \<in> set rng \<and> v \<notin> set (map snd m)"
  by (auto simp: find_Some_iff)

text \<open>What does not touch the two dictionaries and the identifiers of the namespaces.\<close>

definition same_maps :: "'w tool \<Rightarrow> 'w tool \<Rightarrow> bool" where
  "same_maps t t' \<longleftrightarrow> vrf_sub_net_map t' = vrf_sub_net_map t \<and>
     outgoing_ip_svcs_map t' = outgoing_ip_svcs_map t \<and> vrf_name_to_id t' = vrf_name_to_id t"

named_theorems same_maps \<open>operations that leave the dictionaries alone\<close>

lemma same_maps_refl [simp]: "same_maps t t"
  by (simp add: same_maps_def)

lemma same_maps_trans: "same_maps t t1 \<Longrightarrow> same_maps t1 t2 \<Longrightarrow> same_maps t t2"
  by (simp add: same_maps_def)

lemma same_maps_update [simp]:
  "same_maps t (t1\<lparr>vrf_ip_service_ip_addr := m\<rparr>) = same_maps t t1"
  "same_maps t (t1\<lparr>ipsvcs_mutex := b\<rparr>) = same_maps t t1"
  "same_maps t (t1\<lparr>world := w\<rparr>) = same_maps t t1"
  "same_maps t (t1\<lparr>vrf_src_ip_map := sm\<rparr>) = same_maps t t1"
  "same_maps (t\<lparr>vrf_ip_service_ip_addr := m\<rparr>) t1 = same_maps t t1"
  "same_maps (t\<lparr>ipsvcs_mutex := b\<rparr>) t1 = same_maps t t1"
  "same_maps (t\<lparr>world := w\<rparr>) t1 = same_maps t t1"
  "same_maps (t\<lparr>vrf_src_ip_map := sm\<rparr>) t1 = same_maps t t1"
  by (simp_all add: same_maps_def)

lemma same_maps_inv: "same_maps t t' \<Longrightarrow> tool_inv t \<Longrightarrow> tool_inv t'"
  by (simp add: same_maps_def tool_inv_def)

lemma in_world_maps [same_maps]: "in_world f t = (a, t') \<Longrightarrow> same_maps t t'"
  by (auto simp: in_world_def split: prod.splits)

lemma in_world_snd_maps [same_maps]: "same_maps t (snd (in_world f t))"
  using in_world_maps [of f t] by (metis prod.collapse)

lemma run_ignored_maps [same_maps]: "same_maps t (run_ignored E cmds t)"
  by (simp add: run_ignored_def)

lemma process_veth_config_maps [same_maps]:
  "process_veth_config E is_add src dst a b c d e f t = (r, t') \<Longrightarrow> same_maps t t'"
  by (auto simp: process_veth_config_def split: option.splits if_splits prod.splits bool.splits
      dest!: in_world_maps intro: same_maps_trans)

lemma process_vrf_ip_nat_config_maps [same_maps]:
  "same_maps t (snd (process_vrf_ip_nat_config E is_add vrf name ipt t))"
  by (simp add: process_vrf_ip_nat_config_def in_world_snd_maps split: option.split)

lemma addr_rules_maps [same_maps]:
  "addr_rules E vrf is_add v6 addrs t = (ok, t') \<Longrightarrow> same_maps t t'"
proof (induction E vrf is_add v6 addrs t arbitrary: ok t' rule: addr_rules.induct)
  case (2 E vrf is_add v6 fam addr plen rest t)
  then show ?case
    by (auto simp: Let_def split: if_splits prod.splits bool.splits dest!: in_world_maps
        intro: same_maps_trans)
qed simp

lemma intf_rules_maps [same_maps]: "intf_rules E vrf is_add gs t = (r, t') \<Longrightarrow> same_maps t t'"
proof (induction gs arbitrary: t)
  case (Cons g gs)
  then show ?case
    by (auto split: if_splits prod.splits bool.splits sum.splits dest!: addr_rules_maps
        intro: same_maps_trans)
qed simp

lemma iptable_rule_setup_maps [same_maps]:
  assumes "ip_svcs_iptable_rule_setup E vrf is_add t = (r, t')"
  shows "same_maps t t'"
proof -
  obtain out t1 where t1: "in_world (get_ip_addr_details E vrf None) t = (out, t1)" by force
  have "same_maps t1 t'"
  proof (cases "ipsvcs_mutex t1")
    case True
    with assms t1 show ?thesis by (simp add: ip_svcs_iptable_rule_setup_def)
  next
    case False
    obtain r2 t2 where t2: "intf_rules E vrf is_add (group_lines_based_on_position 0 out)
        (t1\<lparr>ipsvcs_mutex := True\<rparr>) = (r2, t2)" by force
    then have "same_maps t1 t2" by (auto dest: intf_rules_maps)
    moreover have "same_maps t2 t'"
      using assms t1 t2 False
      by (cases r2) (auto simp: ip_svcs_iptable_rule_setup_def split: if_splits prod.splits
          dest!: in_world_maps)
    ultimately show ?thesis by (rule same_maps_trans)
  qed
  then show ?thesis using in_world_maps [OF t1] same_maps_trans by blast
qed

lemma add_src_ips_maps [same_maps]: "same_maps t (add_src_ips E vrf other t)"
proof -
  have "same_maps t (fold (\<lambda>key t. if \<not> names_vrf vrf key then t
          else (case map_of (vrf_name_to_id t) other of
                  None \<Rightarrow> t
                | Some nsid \<Rightarrow>
                    snd (in_world (add_ip_addr E (key_part key 3) (vdst nsid)
                           (key_part key 2) (key_part key 1)) t))) keys t)" for keys
    by (induction keys arbitrary: t)
      (auto intro: same_maps_trans [OF in_world_snd_maps] split: option.splits)
  then show ?thesis by (simp add: add_src_ips_def)
qed

lemma snat_removal_maps [same_maps]: "snat_removal E src val its t = (ok, t') \<Longrightarrow> same_maps t t'"
proof (induction its arbitrary: t)
  case (Cons i its)
  then show ?case
    by (auto split: prod.splits bool.splits dest!: in_world_maps
        intro: same_maps_trans [OF _ same_maps_trans [OF run_ignored_maps]])
qed simp

lemma src_ip_loop_maps [same_maps]: "same_maps t (src_ip_loop E is_add vrf fam ip dst keys t)"
proof (induction keys arbitrary: t dst is_add vrf)
  case (Cons k ks)
  have step: "same_maps t (src_ip_loop E b v fam ip d ks (snd (in_world f t)))" for b v d f
    by (rule same_maps_trans [OF in_world_snd_maps Cons.IH])
  show ?case by (simp add: Let_def Cons.IH step split: option.split)
qed simp

lemma process_src_ip_config_maps [same_maps]: "same_maps t (snd (process_src_ip_config E vrf is_add fam ip t))"
  using src_ip_loop_maps [of "t\<lparr>vrf_src_ip_map := _\<rparr>"]
  by (simp add: process_src_ip_config_def Let_def)

section \<open>The invariant is kept\<close>

text \<open>Also of interest: only \<open>process_vrf_config\<close> changes the identifiers of the namespaces.\<close>

definition keeps_inv :: "'w tool \<Rightarrow> 'w tool \<Rightarrow> bool" where
  "keeps_inv t t' \<longleftrightarrow> (tool_inv t \<longrightarrow> tool_inv t') \<and> vrf_name_to_id t' = vrf_name_to_id t"

lemma same_maps_keeps: "same_maps t t' \<Longrightarrow> keeps_inv t t'"
  using same_maps_inv by (auto simp: keeps_inv_def same_maps_def)

lemma keeps_inv_trans: "keeps_inv t t1 \<Longrightarrow> keeps_inv t1 t2 \<Longrightarrow> keeps_inv t t2"
  by (auto simp: keeps_inv_def)

lemma keeps_inv_refl [simp]: "keeps_inv t t"
  by (simp add: keeps_inv_def)

text \<open>And only \<open>process_outgoing_ip_svcs_sub_net_config\<close> changes the private ports.\<close>

definition keeps_ports :: "'w tool \<Rightarrow> 'w tool \<Rightarrow> bool" where
  "keeps_ports t t' \<longleftrightarrow> keeps_inv t t' \<and> outgoing_ip_svcs_map t' = outgoing_ip_svcs_map t"

lemma keeps_portsD: "keeps_ports t t' \<Longrightarrow> keeps_inv t t'"
  by (simp add: keeps_ports_def)

lemma same_maps_ports: "same_maps t t' \<Longrightarrow> keeps_ports t t'"
  using same_maps_keeps by (auto simp: keeps_ports_def same_maps_def)

lemma keeps_ports_trans: "keeps_ports t t1 \<Longrightarrow> keeps_ports t1 t2 \<Longrightarrow> keeps_ports t t2"
  using keeps_inv_trans by (auto simp: keeps_ports_def)

lemma keeps_ports_refl [simp]: "keeps_ports t t"
  by (simp add: keeps_ports_def)

lemma keeps_ports_add_sub_net:
  "map_of (vrf_sub_net_map t) key = None \<Longrightarrow> free_sub_net (vrf_sub_net_map t) = Some v \<Longrightarrow>
     keeps_ports t (t\<lparr>vrf_sub_net_map := AList.update key v (vrf_sub_net_map t)\<rparr>)"
  using find_range [of "vrf_sub_net_map t" sub_net_range v]
  by (auto simp: keeps_ports_def keeps_inv_def tool_inv_def free_sub_net_def intro!: uniq_update)

lemma keeps_ports_del_sub_net:
  "keeps_ports t (t\<lparr>vrf_sub_net_map := AList.delete key (vrf_sub_net_map t)\<rparr>)"
  by (auto simp: keeps_ports_def keeps_inv_def tool_inv_def intro!: uniq_delete)

lemma keeps_inv_port:
  "map_of (outgoing_ip_svcs_map t) key = None \<Longrightarrow> free_private_port (outgoing_ip_svcs_map t) = Some v \<Longrightarrow>
     keeps_inv t (t\<lparr>outgoing_ip_svcs_map := AList.update key v (outgoing_ip_svcs_map t)\<rparr>)"
  "keeps_inv t (t\<lparr>outgoing_ip_svcs_map := AList.delete key (outgoing_ip_svcs_map t)\<rparr>)"
  using find_range [of "outgoing_ip_svcs_map t" private_port_range v]
  by (auto simp: keeps_inv_def tool_inv_def free_private_port_def intro!: uniq_update uniq_delete)

lemma subnet_removal_keeps:
  assumes "subnet_removal E src dst t = (r, t')"
  shows "keeps_ports t t'"
proof (cases "map_of (vrf_sub_net_map t) (pair_key src dst)")
  case None
  with assms show ?thesis by (simp add: subnet_removal_def Let_def)
next
  case (Some val)
  obtain ok t1 where t1: "process_veth_config E False src dst ''0'' ''0'' ''0'' ''0'' ''0'' ''0'' t = (ok, t1)"
    by force
  then have k1: "keeps_ports t t1" by (intro same_maps_ports process_veth_config_maps)
  let ?t2 = "t1\<lparr>vrf_sub_net_map := AList.delete (pair_key src dst) (vrf_sub_net_map t1)\<rparr>"
  have k2: "keeps_ports t ?t2" using k1 keeps_ports_del_sub_net by (rule keeps_ports_trans)
  have "t' = t1 \<or> t' = ?t2 \<or> same_maps ?t2 t'"
    using assms Some t1
    by (auto simp: subnet_removal_def Let_def split: bool.splits if_splits prod.splits
        dest: snat_removal_maps)
  with k1 k2 show ?thesis using keeps_ports_trans same_maps_ports by blast
qed

lemma subnet_creation_keeps:
  assumes "subnet_creation E src dst t = (r, t')"
  shows "keeps_ports t t'"
proof (cases "map_of (vrf_sub_net_map t) (pair_key src dst) = None \<and> free_sub_net (vrf_sub_net_map t) \<noteq> None")
  case False
  with assms show ?thesis by (auto simp: subnet_creation_def Let_def split: option.splits)
next
  case True
  then obtain val where v: "map_of (vrf_sub_net_map t) (pair_key src dst) = None"
    "free_sub_net (vrf_sub_net_map t) = Some val" by auto
  let ?t0 = "t\<lparr>vrf_sub_net_map := AList.update (pair_key src dst) val (vrf_sub_net_map t)\<rparr>"
  have k0: "keeps_ports t ?t0" by (rule keeps_ports_add_sub_net [OF v])
  obtain ok t1 where t1: "process_veth_config E True src dst
       (veth_ip4 val True) (veth_ip4 val False) veth_intf_ip_pref_len
       (veth_ip6 val True) (veth_ip6 val False) veth_intf_ip6_pref_len ?t0 = (ok, t1)"
    by force
  then have m1: "same_maps ?t0 t1" by (rule process_veth_config_maps)
  let ?t2 = "add_src_ips E dst src (add_src_ips E src dst t1)"
  have m2: "same_maps t1 ?t2" using add_src_ips_maps add_src_ips_maps by (rule same_maps_trans)
  have "t' = t1 \<or> t' = ?t2 \<or> same_maps ?t2 t'"
    using assms v t1
    by (auto simp: subnet_creation_def Let_def split: bool.splits if_splits prod.splits
        dest: in_world_maps)
  then have "same_maps ?t0 t'" using m1 m2 same_maps_trans by blast
  then show ?thesis using k0 keeps_ports_trans same_maps_ports by blast
qed

lemma subnet_setup_keeps:
  assumes "ip_svcs_subnet_setup E is_add src dst t = (r, t')"
  shows "keeps_ports t t'"
proof (cases "map_of (vrf_name_to_id t) src")
  case None
  with assms show ?thesis by (simp add: ip_svcs_subnet_setup_def)
next
  case (Some i)
  obtain r1 t1 where t1: "(if src \<noteq> ''default'' \<and> dst = ''default''
      then ip_svcs_iptable_rule_setup E src is_add t else (Inr True, t)) = (r1, t1)" by force
  then have m1: "same_maps t t1" by (auto split: if_splits dest: iptable_rule_setup_maps)
  obtain r2 t2 where t2: "(if dst \<noteq> ''default'' \<and> src = ''default''
      then ip_svcs_iptable_rule_setup E dst is_add t1 else (Inr True, t1)) = (r2, t2)" by force
  then have m2: "same_maps t1 t2" by (auto split: if_splits dest: iptable_rule_setup_maps)
  note k1 = same_maps_ports [OF m1] and k2 = same_maps_ports [OF same_maps_trans [OF m1 m2]]
  have "t' = t1 \<or> t' = t2 \<or> keeps_ports t2 t'"
    using assms subnet_creation_keeps [of E src dst t2] subnet_removal_keeps [of E src dst t2]
    unfolding ip_svcs_subnet_setup_def Some option.simps t1
    by (cases r1; cases r2) (auto simp: t2 split: if_splits)
  with k1 k2 show ?thesis using keeps_ports_trans by blast
qed

lemma veth_ip_get_keeps: "veth_ip_get E src dst p t = (r, t') \<Longrightarrow> keeps_ports t t'"
  unfolding veth_ip_get_def
  using subnet_setup_keeps [of E True src dst t]
  by (cases "ip_svcs_subnet_setup E True src dst t"; cases "fst (ip_svcs_subnet_setup E True src dst t)")
    (auto split: if_splits option.splits bool.splits prod.splits)

lemma get_veth_ip_str_keeps: "get_veth_ip_str E f vrf p t = (r, t') \<Longrightarrow> keeps_ports t t'"
  using veth_ip_get_keeps [of E vrf "''default''" p t]
  by (cases "veth_ip_get E vrf ''default'' p t"; cases "fst (veth_ip_get E vrf ''default'' p t)")
    (auto simp: get_veth_ip_str_def split: option.splits prod.splits)

lemma get_veth_ip_keeps: "get_veth_ip E f vrf p t = (r, t') \<Longrightarrow> keeps_ports t t'"
  using veth_ip_get_keeps [of E vrf "''default''" p t]
  by (cases "veth_ip_get E vrf ''default'' p t"; cases "fst (veth_ip_get E vrf ''default'' p t)")
    (auto simp: get_veth_ip_def split: option.splits prod.splits sum.splits)

lemma outgoing_config_keeps:
  assumes "process_outgoing_ip_svcs_sub_net_config E is_add key t = (r, t')"
  shows "keeps_inv t t'"
proof -
  obtain vrf f ip proto port where key: "key = (vrf, f, ip, proto, port)" by (cases key)
  obtain r1 t1 where t1: "veth_ip_get E vrf ''default'' False t = (r1, t1)" by force
  then have k1: "keeps_inv t t1" by (intro keeps_portsD veth_ip_get_keeps)
  note ports = keeps_inv_port(1) [of t1 key] keeps_inv_port(2) [of t1 key]
  have "keeps_inv t1 t'"
    using assms unfolding process_outgoing_ip_svcs_sub_net_config_def key prod.case t1
    by (cases r1) (auto simp: Let_def key [symmetric] intro: ports
        split: option.splits prod.splits if_splits sum.splits)
  with k1 show ?thesis by (rule keeps_inv_trans)
qed

lemma delete_subnets_keeps: "delete_subnets E vrf keys t = (r, t') \<Longrightarrow> keeps_inv t t'"
proof (induction keys arbitrary: t)
  case (Cons k ks)
  show ?case
  proof (cases "names_vrf vrf k")
    case False
    with Cons show ?thesis by simp
  next
    case True
    obtain r1 t1 where t1: "ip_svcs_subnet_setup E False (key_part k 1) (key_part k 2) t = (r1, t1)" by force
    then have "keeps_inv t t1" by (intro keeps_portsD subnet_setup_keeps)
    moreover have "keeps_inv t1 t'"
      using Cons True t1 by (cases r1) (auto split: if_splits)
    ultimately show ?thesis by (rule keeps_inv_trans)
  qed
qed simp

lemma tool_inv_ids [simp]: "tool_inv (t\<lparr>vrf_name_to_id := m\<rparr>) = tool_inv t"
  by (simp add: tool_inv_def)

lemma tool_inv_in_world [simp]: "tool_inv (snd (in_world f t)) = tool_inv t"
  by (simp add: tool_inv_def in_world_def split: prod.split)

lemma tool_inv_in_world': "in_world f t = (a, t') \<Longrightarrow> tool_inv t' = tool_inv t"
  using tool_inv_in_world [of f t] by simp

lemma tool_inv_run_ignored [simp]: "tool_inv (run_ignored E cmds t) = tool_inv t"
  by (simp add: tool_inv_def run_ignored_def)

lemma top_chain_inv [simp]: "tool_inv (snd (process_vrf_top_chain_rule E is_add vrf t)) = tool_inv t"
  by (auto simp: process_vrf_top_chain_rule_def process_default_vrf_chain_def
      split: prod.splits bool.splits if_splits dest: tool_inv_in_world')

lemma top_chain_inv': "process_vrf_top_chain_rule E is_add vrf t = (ok, t') \<Longrightarrow> tool_inv t' = tool_inv t"
  using top_chain_inv [of E is_add vrf t] by simp

lemma cleanup_folder_inv: "cleanup_folder E vrf t = (ok, t') \<Longrightarrow> tool_inv t' = tool_inv t"
  by (auto simp: cleanup_folder_def split: prod.splits bool.splits if_splits option.splits
      dest: tool_inv_in_world')

lemma make_folder_inv [simp]: "tool_inv (make_folder E vrf t) = tool_inv t"
  by (auto simp: make_folder_def split: prod.splits bool.splits dest: tool_inv_in_world')

lemma add_vrf_inv: "add_vrf E vrf i t = (ok, t') \<Longrightarrow> tool_inv t' = tool_inv t"
  by (auto simp: add_vrf_def Let_def split: prod.splits bool.splits
      dest!: tool_inv_in_world' top_chain_inv')

lemma delete_vrf_inv:
  assumes "delete_vrf E vrf t = (r, t')" "tool_inv t"
  shows "tool_inv t'"
proof -
  define t0 where "t0 = snd (process_vrf_top_chain_rule E False vrf t)"
  obtain r1 t1 where t1: "delete_subnets E vrf (map fst (vrf_sub_net_map t0)) t0 = (r1, t1)" by force
  then have "tool_inv t1"
    using delete_subnets_keeps [OF t1] assms(2) by (simp add: keeps_inv_def t0_def)
  with assms(1) t1 show ?thesis
    unfolding delete_vrf_def Let_def t0_def [symmetric]
    by (cases r1) (auto split: if_splits option.splits prod.splits bool.splits
        dest!: cleanup_folder_inv tool_inv_in_world')
qed

lemma process_vrf_config_inv:
  "process_vrf_config E is_add vrf i t = (r, t') \<Longrightarrow> tool_inv t \<Longrightarrow> tool_inv t'"
  by (auto simp: process_vrf_config_def split: if_splits prod.splits
      dest: add_vrf_inv delete_vrf_inv)

lemma nat_config_inv [simp]: "tool_inv (snd (process_vrf_ip_nat_config E b vrf name ipt t)) = tool_inv t"
  by (simp add: process_vrf_ip_nat_config_def split: option.split)

lemma bind_finish_inv: "bind_finish E name vrf ix mac t = (r, t') \<Longrightarrow> tool_inv t' = tool_inv t"
  by (auto simp: bind_finish_def split: prod.splits bool.splits dest!: tool_inv_in_world')

lemma unbind_intf_inv: "unbind_intf E name vrf t = (r, t') \<Longrightarrow> tool_inv t' = tool_inv t"
  by (auto simp: unbind_intf_def Let_def split: prod.splits bool.splits if_splits
      dest!: tool_inv_in_world')

lemma bind_inv:
  "bind_default E name t = (r, t') \<Longrightarrow> tool_inv t' = tool_inv t"
  "bind_management E name vrf mac t = (r, t') \<Longrightarrow> tool_inv t' = tool_inv t"
  "bind_macvlan E name vrf mac t = (r, t') \<Longrightarrow> tool_inv t' = tool_inv t"
  by (auto simp: bind_default_def bind_management_def bind_macvlan_def Let_def
      split: prod.splits bool.splits if_splits sum.splits option.splits
      dest!: tool_inv_in_world' bind_finish_inv)

lemma intf_config_inv: "process_vrf_intf_config E is_add name vrf ty t = (r, t') \<Longrightarrow> tool_inv t' = tool_inv t"
  by (auto simp: process_vrf_intf_config_def split: prod.splits if_splits
      dest: unbind_intf_inv bind_inv)

lemma address_event_inv: "handle_ip_address_event E v6 op ev t = (r, t') \<Longrightarrow> tool_inv t' = tool_inv t"
proof -
  have upd [simp]: "tool_inv (t\<lparr>vrf_ip_service_ip_addr := m\<rparr>) = tool_inv t"
    "tool_inv (t\<lparr>ipsvcs_mutex := b\<rparr>) = tool_inv t" for m b and t :: "'a tool"
    by (simp_all add: tool_inv_def)
  have prog: "program_address E v6 vrf addr is_add t = (ok, t') \<Longrightarrow> tool_inv t' = tool_inv t"
    for v6 vrf addr is_add t ok t'
    by (auto simp: program_address_def Let_def split: if_splits dest!: tool_inv_in_world')
  have rp: "rule_programming E v6 ev is_add t = (r, t') \<Longrightarrow> tool_inv t' = tool_inv t" for is_add t r t'
    by (auto simp: rule_programming_def split: option.splits sum.splits if_splits prod.splits bool.splits
        dest!: tool_inv_in_world' prog)
  assume h: "handle_ip_address_event E v6 op ev t = (r, t')"
  obtain r1 t1 where t1: "rule_programming E v6 ev (op = ''create'' \<or> op = ''set'') (t\<lparr>ipsvcs_mutex := True\<rparr>)
      = (r1, t1)" by force
  from rp [OF this] h t1 show ?thesis
    by (cases r1) (auto simp: handle_ip_address_event_def split: if_splits)
qed

section \<open>Runs of the module\<close>

datatype tool_op =
    T_vrf_config bool string int
  | T_intf_config bool string string "string option"
  | T_src_ip string bool string string
  | T_leaked_rt string address_family string string int string
  | T_veth_ip address_family string bool
  | T_outgoing bool svc_alias
  | T_address_event bool string addr_event

text \<open>What a call leaves behind, whether it returns, raises or blocks.\<close>

fun tool_call :: "'w ext \<Rightarrow> tool_op \<Rightarrow> 'w tool \<Rightarrow> 'w tool" where
  "tool_call E (T_vrf_config is_add vrf i) t = snd (process_vrf_config E is_add vrf i t)"
| "tool_call E (T_intf_config is_add name vrf ty) t = snd (process_vrf_intf_config E is_add name vrf ty t)"
| "tool_call E (T_src_ip vrf is_add fam ip) t = snd (process_src_ip_config E vrf is_add fam ip t)"
| "tool_call E (T_leaked_rt op f dst p n nh) t = snd (process_leaked_rt_config E op f dst p n nh t)"
| "tool_call E (T_veth_ip f vrf peer) t = snd (get_veth_ip E f vrf peer t)"
| "tool_call E (T_outgoing is_add key) t = snd (process_outgoing_ip_svcs_sub_net_config E is_add key t)"
| "tool_call E (T_address_event v6 op ev) t = snd (handle_ip_address_event E v6 op ev t)"

definition tool_init :: "'w \<Rightarrow> 'w tool" where
  "tool_init w = \<lparr>world = w, vrf_name_to_id = [], vrf_sub_net_map = [], vrf_src_ip_map = [],
     outgoing_ip_svcs_map = [], vrf_ip_service_ip_addr = [], ipsvcs_mutex = False\<rparr>"

lemma tool_call_inv: "tool_inv t \<Longrightarrow> tool_inv (tool_call E c t)"
proof (cases c)
  case (T_src_ip vrf is_add fam ip)
  moreover assume "tool_inv t"
  ultimately show ?thesis using same_maps_inv [OF process_src_ip_config_maps] by simp
next
  case (T_veth_ip f vrf peer)
  moreover assume "tool_inv t"
  ultimately show ?thesis
    using get_veth_ip_keeps [of E f vrf peer t] by (metis keeps_portsD keeps_inv_def prod.collapse tool_call.simps(5))
next
  case (T_outgoing is_add key)
  moreover assume "tool_inv t"
  ultimately show ?thesis
    using outgoing_config_keeps [of E is_add key t] by (metis keeps_inv_def prod.collapse tool_call.simps(6))
next
  case (T_leaked_rt op f dst p n nh)
  moreover assume "tool_inv t"
  ultimately show ?thesis by (simp add: process_leaked_rt_config_def Let_def)
next
  case (T_vrf_config is_add vrf i)
  moreover assume "tool_inv t"
  ultimately show ?thesis
    using process_vrf_config_inv [of E is_add vrf i t] by (metis prod.collapse tool_call.simps(1))
next
  case (T_intf_config is_add name vrf ty)
  moreover assume "tool_inv t"
  ultimately show ?thesis
    using intf_config_inv [of E is_add name vrf ty t] by (metis prod.collapse tool_call.simps(2))
next
  case (T_address_event v6 op ev)
  moreover assume "tool_inv t"
  ultimately show ?thesis
    using address_event_inv [of E v6 op ev t] by (metis prod.collapse tool_call.simps(7))
qed

section \<open>Properties\<close>

text \<open>
  C29: whatever calls reach the module, and however the commands behave, two pairs of
  namespaces never share a subnet value, two outgoing bindings never share a private port, and
  all of them lie in the ranges the module reserves.
\<close>

theorem tool_runs_unique:
  "tool_inv (fold (tool_call E) cs (tool_init w))"
proof -
  have "tool_inv t \<Longrightarrow> tool_inv (fold (tool_call E) cs t)" for t
    by (induction cs arbitrary: t) (simp_all add: tool_call_inv)
  then show ?thesis by (simp add: tool_init_def tool_inv_def uniq_vals_def)
qed

text \<open>
  The two ends of a veth pair agree: the address one namespace takes for its own is the
  address the other one takes for its peer, and asking for it changes nothing.
\<close>

theorem veth_ends_agree:
  assumes "get_veth_ip_subnet a b t \<noteq> None" "a \<noteq> ''default'' \<or> b \<noteq> ''default''"
    and "map_of (vrf_sub_net_map t) (pair_key a b) = None \<or> map_of (vrf_sub_net_map t) (pair_key b a) = None"
  shows "veth_ip_get E a b p t = veth_ip_get E b a (\<not> p) t \<and> snd (veth_ip_get E a b p t) = t \<and>
    fst (veth_ip_get E a b p t) \<noteq> Inr None"
  using assms by (auto simp: veth_ip_get_def get_veth_ip_subnet_def split: option.splits)

text \<open>
  When the veth pair of a subnet cannot be set up, the call fails but the subnet value
  stays in the map; every later creation for the same namespaces then succeeds at once and runs
  no command, so the pair is never made.
\<close>

theorem failed_subnet_stays:
  assumes "map_of (vrf_sub_net_map t) (pair_key src dst) = None"
    and "subnet_creation E src dst t = (Inr (False, Some v), t')"
  shows "map_of (vrf_sub_net_map t') (pair_key src dst) = Some v \<and>
    subnet_creation E src dst t' = (Inr (True, Some v), t')"
proof -
  obtain val where v: "free_sub_net (vrf_sub_net_map t) = Some val"
    using assms by (auto simp: subnet_creation_def split: option.splits)
  let ?t0 = "t\<lparr>vrf_sub_net_map := AList.update (pair_key src dst) val (vrf_sub_net_map t)\<rparr>"
  obtain ok t1 where t1: "process_veth_config E True src dst
       (veth_ip4 val True) (veth_ip4 val False) veth_intf_ip_pref_len
       (veth_ip6 val True) (veth_ip6 val False) veth_intf_ip6_pref_len ?t0 = (ok, t1)"
    by force
  have "same_maps ?t0 t1" by (rule process_veth_config_maps [OF t1])
  moreover have "same_maps t1 t'" and "v = val"
  proof -
    let ?t2 = "add_src_ips E dst src (add_src_ips E src dst t1)"
    have m2: "same_maps t1 ?t2" using add_src_ips_maps add_src_ips_maps by (rule same_maps_trans)
    have "t' = t1 \<or> t' = ?t2 \<or> same_maps ?t2 t'"
      using assms v t1
      by (auto simp: subnet_creation_def Let_def split: bool.splits if_splits prod.splits
          dest: in_world_maps)
    then show "same_maps t1 t'" using m2 same_maps_trans same_maps_refl by blast
    show "v = val"
      using assms v t1
      by (auto simp: subnet_creation_def Let_def split: bool.splits if_splits prod.splits)
  qed
  ultimately have "map_of (vrf_sub_net_map t') (pair_key src dst) = Some v"
    by (simp add: same_maps_def update_conv')
  then show ?thesis by (simp add: subnet_creation_def)
qed

definition blue_tool :: "string list list tool" where
  "blue_tool = (tool_init [])\<lparr>vrf_name_to_id := [(''blue'', 5), (''default'', 0)]\<rparr>"

theorem veth_ends_agree_witness:
  "veth_ip_get recorder ''default'' ''blue'' True
      (blue_tool\<lparr>vrf_sub_net_map := [(pair_key ''blue'' ''default'', 100)]\<rparr>) =
    (Inr (Some (veth_ip4 100 True, veth_ip6 100 True)),
     blue_tool\<lparr>vrf_sub_net_map := [(pair_key ''blue'' ''default'', 100)]\<rparr>)"
  using veth_ends_agree [of "''blue''" "''default''"
      "blue_tool\<lparr>vrf_sub_net_map := [(pair_key ''blue'' ''default'', 100)]\<rparr>" recorder False]
  by (simp add: get_veth_ip_subnet_def pair_key_def veth_ip_get_def)

definition failing_env :: "string list list ext" where
  "failing_env = recorder\<lparr>popen := (\<lambda>c w. ((1, []), w @ [c]))\<rparr>"

lemma failing_run [simp]: "run_all failing_env (c # cs) w = (False, w @ [c])"
  by (simp add: failing_env_def recorder_def run_ok_def run_command_def)

theorem failed_subnet_stays_witness:
  "subnet_creation failing_env ''blue'' ''default'' (snd (subnet_creation failing_env ''blue'' ''default'' blue_tool)) =
     (Inr (True, Some 100), snd (subnet_creation failing_env ''blue'' ''default'' blue_tool))"
proof -
  have "map_of (vrf_sub_net_map blue_tool) (pair_key ''blue'' ''default'') = None"
    by (simp add: blue_tool_def tool_init_def)
  moreover have "free_sub_net [] = Some 100" by code_simp
  then have "subnet_creation failing_env ''blue'' ''default'' blue_tool =
      (Inr (False, Some 100), snd (subnet_creation failing_env ''blue'' ''default'' blue_tool))"
    by (simp add: subnet_creation_def process_veth_config_def blue_tool_def tool_init_def in_world_def
        del: run_all.simps)
  ultimately show ?thesis by (rule failed_subnet_stays [THEN conjunct2])
qed

end
