(* ===== verification/Iptables.thy ===== *)
theory Iptables
  imports VrfTool RuleList
begin

text \<open>
  \<^verbatim>\<open>scripts/lib/python/dn_base_vrf_svcs_config.py\<close>, the class \<open>IptablesHandler\<close>: from a rule to
  the \<^verbatim>\<open>iptables\<close> command that installs, removes, replaces, checks or reads it, and from the
  listing of a chain back to rules.

  The handler takes rules of both classes. An attribute that one of the classes does not have
  is an \<open>AttributeError\<close> when it is read on a rule of that class.
\<close>

section \<open>Rules of either class\<close>

datatype any_rule = InRule in_rule | OutRule out_rule

fun base_of :: "any_rule \<Rightarrow> svcs_rule" where
  "base_of (InRule r) = svcs_rule.truncate r"
| "base_of (OutRule r) = svcs_rule.truncate r"

fun in_attr :: "(in_rule \<Rightarrow> 'a) \<Rightarrow> any_rule \<Rightarrow> exn + 'a" where
  "in_attr f (InRule r) = Inr (f r)"
| "in_attr f (OutRule r) = Inl AttributeError"

fun out_attr :: "(out_rule \<Rightarrow> 'a) \<Rightarrow> any_rule \<Rightarrow> exn + 'a" where
  "out_attr f (OutRule r) = Inr (f r)"
| "out_attr f (InRule r) = Inl AttributeError"

fun any_action_name :: "any_rule \<Rightarrow> string option" where
  "any_action_name (InRule r) = in_action_name True (action r)"
| "any_action_name (OutRule r) = out_action_name True (action r)"

fun any_proto_name :: "any_rule \<Rightarrow> VrfSvcsRuleProto \<Rightarrow> string option" where
  "any_proto_name (InRule r) p = in_proto_name p"
| "any_proto_name (OutRule r) p = out_proto_name p"

text \<open>\<^verbatim>\<open>str(x)\<close> of an optional number or text.\<close>

definition opt_str :: "('a \<Rightarrow> string) \<Rightarrow> 'a option \<Rightarrow> string" where
  "opt_str f x = (case x of None \<Rightarrow> ''None'' | Some a \<Rightarrow> f a)"

definition upper :: "string \<Rightarrow> string" where
  "upper s = map (\<lambda>c. if 97 \<le> (of_char c :: nat) \<and> (of_char c :: nat) \<le> 122
                       then char_of ((of_char c :: nat) - 32) else c) s"

section \<open>Chains and tables\<close>

definition vrf_name_re :: re where
  "vrf_name_re = seqs [Grp (Star AnyChar), Plus Space, lits ''(id:'', Plus Space, Grp (Plus NonSpace), lits '')'']"

definition is_vrf_valid :: "'w ext \<Rightarrow> string \<Rightarrow> 'w \<Rightarrow> bool \<times> 'w" where
  "is_vrf_valid E vrf w =
     (case run_command E [iplink_cmd, ''netns'', ''show''] w of
        ((rc, out), w') \<Rightarrow>
          (rc = 0 \<and>
           vrf \<in> set (map (\<lambda>tok. case re_search vrf_name_re tok of
                                    Some (_, gs) \<Rightarrow> gs ! 0 | None \<Rightarrow> tok) out), w'))"

definition get_chain_name :: "string \<Rightarrow> VrfSvcsRuleType \<Rightarrow> string" where
  "get_chain_name vrf t =
     (case t of
        RULE_TYPE_IP \<Rightarrow> if vrf = ''default'' then ''INPUT'' else vrf_chain_name
      | RULE_TYPE_OUT_IP \<Rightarrow> ''PREROUTING''
      | RULE_TYPE_SNAT \<Rightarrow> ''POSTROUTING''
      | RULE_TYPE_ACL \<Rightarrow> vrf_chain_name)"

definition get_ipt_cmd_prefix :: "VrfSvcsRuleType \<Rightarrow> address_family \<Rightarrow> string \<Rightarrow> string list" where
  "get_ipt_cmd_prefix t f vrf =
     (let iptables = (case f of AF_INET \<Rightarrow> ''iptables'' | AF_INET6 \<Rightarrow> ''ip6tables'')
      in if vrf = ''default'' then
           [''/sbin/'' @ iptables] @
           (case t of RULE_TYPE_IP \<Rightarrow> [] | RULE_TYPE_SNAT \<Rightarrow> [''-t'', ''nat''] | _ \<Rightarrow> [''-t'', ''raw''])
         else
           [iplink_cmd, ''netns'', ''exec'', vrf, iptables, ''-t'',
            (if t = RULE_TYPE_IP \<or> t = RULE_TYPE_OUT_IP \<or> t = RULE_TYPE_SNAT then ''nat'' else ''raw'')])"

section \<open>The filter of a rule\<close>

definition flt_src :: "any_rule \<Rightarrow> exn + string list" where
  "flt_src r =
     (case src_ip (base_of r) of
        None \<Rightarrow> Inr []
      | Some ip \<Rightarrow>
          try_bind (inet_ntop (af (base_of r)) ip) (\<lambda>s.
          try_bind (in_attr src_prefix_len r) (\<lambda>n.
            Inr [''-s'', s @ (case n of None \<Rightarrow> '''' | Some k \<Rightarrow> ''/'' @ dec k)])))"

definition flt_proto :: "any_rule \<Rightarrow> exn + string list" where
  "flt_proto r =
     (case protocol (base_of r) of
        None \<Rightarrow> Inr []
      | Some p \<Rightarrow> try_bind (or_raise TypeError (any_proto_name r p)) (\<lambda>s. Inr [''-p'', s]))"

definition flt_port :: "any_rule \<Rightarrow> exn + string list" where
  "flt_port r =
     (if rule_type (base_of r) = RULE_TYPE_OUT_IP
      then try_bind (out_attr private_port r) (\<lambda>p. Inr [''--dport'', opt_str dec p])
      else Inr (case dst_port (base_of r) of None \<Rightarrow> [] | Some p \<Rightarrow> [''--dport'', dec p]))"

definition flt_port_range :: "any_rule \<Rightarrow> exn + string list" where
  "flt_port_range r =
     (if rule_type (base_of r) = RULE_TYPE_ACL then
        try_bind (in_attr (\<lambda>i. (low_dst_port i, high_dst_port i)) r) (\<lambda>(lo, hi).
          Inr (case lo of
                 None \<Rightarrow> []
               | Some l \<Rightarrow> [''--match'', ''multiport'', ''--dports'', dec l @ '':'' @ opt_str dec hi]))
      else Inr [])"

definition flt_dst :: "any_rule \<Rightarrow> exn + string list" where
  "flt_dst r =
     (let b = base_of r
      in if rule_type b = RULE_TYPE_SNAT \<or> rule_type b = RULE_TYPE_ACL \<or>
            (vrf_name b = ''default'' \<and> rule_type b = RULE_TYPE_IP)
         then
           (case dst_ip b of
              None \<Rightarrow> Inr []
            | Some ip \<Rightarrow>
                try_bind (inet_ntop (af b) ip) (\<lambda>s.
                  Inr [''-d'', s @ (case dst_prefix_len b of None \<Rightarrow> '''' | Some k \<Rightarrow> ''/'' @ dec k)]))
         else Inr [])"

definition flt_intf :: "'w ext \<Rightarrow> any_rule \<Rightarrow> 'w tool \<Rightarrow> (string list, 'w tool) outcome" where
  "flt_intf E r t =
     (let b = base_of r
      in (case rule_type b of
            RULE_TYPE_IP \<Rightarrow>
              (if vrf_name b = ''default'' then
                 (try_bind (in_attr in_intf r) (\<lambda>i.
                    Inr (case i of Some s \<Rightarrow> [''-i'', s] | None \<Rightarrow> [''!'', ''-i'', ''vdst-nsid+''])), t)
               else (Inr [], t))
          | RULE_TYPE_OUT_IP \<Rightarrow>
              (case map_of (vrf_name_to_id t) (vrf_name b) of
                 None \<Rightarrow> (Inr [], t)
               | Some _ \<Rightarrow>
                   and_then (get_veth_ip_str E (af b) (vrf_name b) False t) (\<lambda>ip t1.
                     (Inr [''-i'', ''vdst-nsid0'', ''-d'', opt_str id ip], t1)))
          | RULE_TYPE_SNAT \<Rightarrow>
              (Inr (if vrf_name b \<noteq> ''default'' then [''!'', ''-o'', ''vdst-nsid0''] else []), t)
          | RULE_TYPE_ACL \<Rightarrow>
              (try_bind (in_attr in_intf r) (\<lambda>i.
                 (case i of
                    None \<Rightarrow> Inr []
                  | Some s \<Rightarrow>
                      try_bind (in_attr negative r) (\<lambda>n.
                      try_bind (or_raise AttributeError n) (\<lambda>neg.
                        Inr ((if neg then [''!''] else []) @ [''-i'', s]))))), t)))"

definition flt_action :: "any_rule \<Rightarrow> exn + string list" where
  "flt_action r =
     (let b = base_of r
      in try_bind (or_raise AttributeError (any_action_name r)) (\<lambda>name.
           map_sum id (append [''-j'', upper name])
             (case action b of
                RULE_ACTION_DNAT \<Rightarrow>
                  try_bind (or_raise TypeError (dst_ip b)) (\<lambda>ip.
                  try_bind (inet_ntop (af b) ip) (\<lambda>s.
                    Inr [''--to-destination'',
                         if rule_type b = RULE_TYPE_OUT_IP
                         then (case af b of
                                 AF_INET \<Rightarrow> s @ '':'' @ opt_str dec (dst_port b)
                               | AF_INET6 \<Rightarrow> ''['' @ s @ '']:'' @ opt_str dec (dst_port b))
                         else s]))
              | RULE_ACTION_REJECT \<Rightarrow> Inr [''--set-mark'', dec rej_rule_mark_value]
              | RULE_ACTION_SNAT \<Rightarrow>
                  try_bind (out_attr out_src_ip r) (\<lambda>o_ip.
                  try_bind (or_raise TypeError o_ip) (\<lambda>ip.
                  try_bind (inet_ntop (af b) ip) (\<lambda>s. Inr [''--to-source'', s])))
              | _ \<Rightarrow> Inr [])))"

text \<open>The parts that come before and after the interface, which alone looks at the state.\<close>

definition flt_head :: "any_rule \<Rightarrow> exn + string list" where
  "flt_head r =
     try_bind (flt_src r) (\<lambda>a. try_bind (flt_proto r) (\<lambda>b. try_bind (flt_port r) (\<lambda>c.
     try_bind (flt_port_range r) (\<lambda>d. try_bind (flt_dst r) (\<lambda>e. Inr (a @ b @ c @ d @ e))))))"

definition flt_args :: "'w ext \<Rightarrow> any_rule \<Rightarrow> 'w tool \<Rightarrow> (string list, 'w tool) outcome" where
  "flt_args E r t =
     and_then (flt_head r, t) (\<lambda>a t.
     and_then (flt_intf E r t) (\<lambda>b t.
     and_then (flt_action r, t) (\<lambda>c t. (Inr (a @ b @ c), t))))"

section \<open>\<open>proc_rule\<close>\<close>

datatype ipt_op = OpInsert | OpDelete | OpReplace | OpCheck | OpGet

definition stats_re :: re where
  "stats_re = seqs [Plus Space, Plus Digit, Plus Space, Plus Digit, Plus Space]"

text \<open>\<open>parse_rule_stats\<close>: the packet and the byte counter of a line.\<close>

definition parse_rule_stats :: "string \<Rightarrow> string option \<times> string option" where
  "parse_rule_stats line =
     (case re_match stats_re line of
        None \<Rightarrow> (None, None)
      | Some (m, _) \<Rightarrow> (Some (find_digits m ! 0), Some (find_digits m ! 1)))"

text \<open>The command of an operation; \<open>None\<close> where the code refuses because the index is missing.\<close>

definition chain_cmd :: "ipt_op \<Rightarrow> any_rule \<Rightarrow> nat option \<Rightarrow> string list \<Rightarrow> string list option" where
  "chain_cmd op r idx flt =
     (let b = base_of r;
          prefix = get_ipt_cmd_prefix (rule_type b) (af b) (vrf_name b);
          chain = get_chain_name (vrf_name b) (rule_type b);
          pos = (\<lambda>i. dec (int i + 1))
      in (case op of
            OpInsert \<Rightarrow>
              Some (prefix @ (case idx of None \<Rightarrow> [''-A'', chain] | Some i \<Rightarrow> [''-I'', chain, pos i]) @ flt)
          | OpDelete \<Rightarrow>
              Some (prefix @ [''-D'', chain] @ (case idx of None \<Rightarrow> flt | Some i \<Rightarrow> [pos i]))
          | OpReplace \<Rightarrow> map_option (\<lambda>i. prefix @ [''-R'', chain, pos i] @ flt) idx
          | OpCheck \<Rightarrow> Some (prefix @ [''-C'', chain] @ flt)
          | OpGet \<Rightarrow> map_option (\<lambda>i. prefix @ [''-xvL'', chain, pos i]) idx))"

text \<open>
  The result is the return value and, where the operation read them, the counters that the
  code stores in the rule.
\<close>

type_synonym rule_stats = "string option \<times> string option"

definition proc_rule ::
  "'w ext \<Rightarrow> ipt_op \<Rightarrow> any_rule \<Rightarrow> nat option \<Rightarrow> 'w tool \<Rightarrow> (bool \<times> rule_stats option, 'w tool) outcome" where
  "proc_rule E op r idx t0 =
     (let b = base_of r;
          (bypass, t) =
            (if (op = OpDelete \<or> op = OpGet) \<and> vrf_name b \<noteq> ''default''
             then (case in_world (is_vrf_valid E (vrf_name b)) t0 of (ok, t1) \<Rightarrow> (\<not> ok, t1))
             else (False, t0))
      in if bypass then (Inr (True, None), t)
         else if vrf_name b = ''default'' \<and> rule_type b = RULE_TYPE_OUT_IP then (Inr (False, None), t)
         else if op = OpReplace \<and> idx = None then (Inr (False, None), t)
         else
           and_then (flt_args E r t) (\<lambda>flt t1.
             (case chain_cmd op r idx flt of
                None \<Rightarrow> (Inr (False, None), t1)
              | Some cmd \<Rightarrow>
                  (case in_world (run_command E cmd) t1 of
                     ((rc, out), t2) \<Rightarrow>
                       if op \<noteq> OpGet then (Inr (rc = 0, None), t2)
                       else if rc \<noteq> 0 then (Inr (False, None), t2)
                       else (case out of
                               [] \<Rightarrow> (Inl IndexError, t2)
                             | l # _ \<Rightarrow> (Inr (True, Some (parse_rule_stats l)), t2))))))"

section \<open>From the listing of a chain to rules\<close>

definition get_l4_port_num :: "'w ext \<Rightarrow> string \<Rightarrow> int option" where
  "get_l4_port_num E s =
     (if s \<noteq> [] \<and> list_all is_digit s then map_option int (num_val 10 digit_val 0 s)
      else getservbyname E s)"

text \<open>
  \<open>get_ip_prefix\<close>. Its \<^verbatim>\<open>except ValueError, socket.error\<close> catches the bad prefix length only:
  in Python 2 the second name is what the exception is bound to, so the \<open>socket.error\<close> of a bad
  address goes up.
\<close>

definition get_ip_prefix :: "address_family \<Rightarrow> string \<Rightarrow> exn + (packed option \<times> int option)" where
  "get_ip_prefix f s =
     (if s = ''anywhere'' then Inr (None, None)
      else
        (let parts = split_on CHR ''/'' s
         in try_bind (inet_pton f (hd parts)) (\<lambda>ip.
              if length parts > 1 then
                (case py_int (parts ! 1) of
                   Inl _ \<Rightarrow> Inr (None, None)
                 | Inr n \<Rightarrow> Inr (Some ip, Some n))
              else Inr (Some ip, Some (case f of AF_INET \<Rightarrow> 32 | AF_INET6 \<Rightarrow> 128)))))"

text \<open>\<^verbatim>\<open>int(s, 16)\<close> of a word.\<close>

definition hex_int :: "string \<Rightarrow> int option" where
  "hex_int s =
     (let (neg, t) = (case s of c # cs \<Rightarrow> if c = CHR ''-'' then (True, cs)
                                          else if c = CHR ''+'' then (False, cs) else (False, s)
                      | [] \<Rightarrow> (False, s));
          u = (if take 2 t = ''0x'' \<or> take 2 t = ''0X'' then drop 2 t else t)
      in if u = [] then None
         else map_option (\<lambda>n. if neg then - int n else int n) (num_val 16 hex_val 0 u))"

definition mark_re :: re where
  "mark_re = seqs [lits ''MARK'', Plus Space, lits ''set'', Plus Space, Grp (Plus NonSpace)]"

definition to_re :: re where
  "to_re = seqs [lits ''to:'', Grp (Plus NonSpace)]"

definition dpt_re :: re where
  "dpt_re = seqs [lits ''dpt:'', Grp (Plus NonSpace)]"

definition multiport_re :: re where
  "multiport_re = seqs [lits ''multiport'', Plus Space, lits ''dports'', Plus Space,
     Grp (Plus NonSpace), lits '':'', Grp (Plus NonSpace)]"

text \<open>The target of the line: the action and, for DNAT, the address.\<close>

definition ipt_target ::
  "address_family \<Rightarrow> string \<Rightarrow> string \<Rightarrow> (VrfSvcsRuleAction \<times> packed option) option" where
  "ipt_target f target opts =
     (if target = ''ACCEPT'' then Some (RULE_ACTION_ALLOW, None)
      else if target = ''DROP'' then Some (RULE_ACTION_DENY, None)
      else if target = ''MARK'' then
        (case find_field mark_re 0 opts of
           None \<Rightarrow> None
         | Some m \<Rightarrow> if hex_int m = Some rej_rule_mark_value then Some (RULE_ACTION_REJECT, None) else None)
      else if target = ''DNAT'' then
        (case find_field to_re 0 opts of
           None \<Rightarrow> None
         | Some a \<Rightarrow> (case inet_pton f a of Inl _ \<Rightarrow> None | Inr ip \<Rightarrow> Some (RULE_ACTION_DNAT, Some ip)))
      else None)"

fun proto_type_map :: "string \<Rightarrow> VrfSvcsRuleProto option" where
  "proto_type_map s =
     (if s = ''tcp'' then Some RULE_PROTO_TCP else if s = ''udp'' then Some RULE_PROTO_UDP
      else if s = ''icmp'' then Some RULE_PROTO_ICMP else if s = ''icmpv6'' then Some RULE_PROTO_ICMPV6
      else None)"

text \<open>The ports of the options: \<open>None\<close> is the early return for a port that has no number.\<close>

definition ipt_port :: "'w ext \<Rightarrow> string \<Rightarrow> int option option" where
  "ipt_port E opts =
     (case find_field dpt_re 0 opts of
        None \<Rightarrow> Some None
      | Some p \<Rightarrow> map_option Some (get_l4_port_num E p))"

definition ipt_port_range :: "'w ext \<Rightarrow> string \<Rightarrow> (int option \<times> int option) option" where
  "ipt_port_range E opts =
     (case re_search multiport_re opts of
        None \<Rightarrow> Some (None, None)
      | Some (_, gs) \<Rightarrow>
          (case (get_l4_port_num E (gs ! 0), get_l4_port_num E (gs ! 1)) of
             (Some lo, Some hi) \<Rightarrow> Some (Some lo, Some hi)
           | _ \<Rightarrow> None))"

text \<open>
  \<open>ipt_tokens_to_rule\<close>; the tokens are packets, bytes, target, protocol, in, out, source,
  destination and options. \<open>Inr None\<close> is its \<^verbatim>\<open>return None\<close>.
\<close>

definition ipt_tokens_to_rule ::
  "'w ext \<Rightarrow> VrfSvcsRuleType \<Rightarrow> address_family \<Rightarrow> string \<Rightarrow> string list \<Rightarrow> exn + in_rule option" where
  "ipt_tokens_to_rule E t f vrf tokens =
     (if length tokens < 9 then Inr None
      else
        (case ipt_target f (tokens ! 2) (tokens ! 8) of
           None \<Rightarrow> Inr None
         | Some (act, dnat_ip) \<Rightarrow>
             (let proto = proto_type_map (tokens ! 3);
                  intf = (if tokens ! 4 = ''any'' then None
                          else if t = RULE_TYPE_IP \<and> vrf = ''default'' \<and> tokens ! 4 = ''!vdst-nsid+'' then None
                          else Some (tokens ! 4))
              in try_bind (get_ip_prefix f (tokens ! 6)) (\<lambda>src.
                 try_bind (if t = RULE_TYPE_ACL then get_ip_prefix f (tokens ! 7) else Inr (dnat_ip, None)) (\<lambda>dst.
                   (case (ipt_port E (tokens ! 8), ipt_port_range E (tokens ! 8)) of
                      (Some port, Some (lo, hi)) \<Rightarrow>
                        try_bind (VrfIncomingSvcsRule_init (cidr_packed E) (int_of_rule_type t) vrf
                            (int_of_action act) (int_of_af f)
                            (in_defaults\<lparr>a_src_ip := fst src, a_src_prefix_len := snd src,
                               a_protocol := map_option int_of_proto proto, a_dst_port := port,
                               a_dst_ip := fst dst, a_dst_prefix_len := snd dst,
                               a_low_dst_port := lo, a_high_dst_port := hi, a_in_intf := intf\<rparr>))
                          (\<lambda>r. Inr (Some r))
                    | _ \<Rightarrow> Inr None))))))"

text \<open>\<^verbatim>\<open>line.split(None, n)\<close>.\<close>

fun split_ws_max :: "nat \<Rightarrow> string \<Rightarrow> string list" where
  "split_ws_max 0 s = (if lstrip s = [] then [] else [lstrip s])"
| "split_ws_max (Suc n) s =
     (if lstrip s = [] then []
      else takeWhile (\<lambda>c. \<not> is_space c) (lstrip s) # split_ws_max n (dropWhile (\<lambda>c. \<not> is_space c) (lstrip s)))"

definition listing_header_re :: re where
  "listing_header_re = seqs [lits ''pkts'', Plus Space, lits ''bytes'', Plus Space, lits ''target'', Plus Space,
     lits ''prot'', Plus Space, lits ''opt'', Plus Space, lits ''in'', Plus Space, lits ''out'', Plus Space,
     lits ''source'', Plus Space, lits ''destination'']"

text \<open>The tokens of a line; the IPv4 listing has a column for options of IP that is dropped.\<close>

definition listing_tokens :: "address_family \<Rightarrow> string \<Rightarrow> string list option" where
  "listing_tokens f line =
     (let toks = split_ws_max (case f of AF_INET \<Rightarrow> 9 | AF_INET6 \<Rightarrow> 8) line
      in if length toks < 8 then None
         else
           (let toks2 = (case f of AF_INET \<Rightarrow> list_del 4 toks | AF_INET6 \<Rightarrow> toks)
            in Some (if length toks2 < 9 then toks2 @ [''''] else toks2)))"

fun listing_loop ::
  "'w ext \<Rightarrow> VrfSvcsRuleType \<Rightarrow> address_family \<Rightarrow> string \<Rightarrow> bool \<Rightarrow> string list \<Rightarrow> exn + in_rule list" where
  "listing_loop E t f vrf start [] = Inr []"
| "listing_loop E t f vrf start (l # ls) =
     (if start then
        (case listing_tokens f l of
           None \<Rightarrow> listing_loop E t f vrf True ls
         | Some toks \<Rightarrow>
             try_bind (ipt_tokens_to_rule E t f vrf toks) (\<lambda>r.
             try_bind (listing_loop E t f vrf True ls) (\<lambda>rs.
               Inr ((case r of None \<Rightarrow> [] | Some x \<Rightarrow> [x]) @ rs))))
      else listing_loop E t f vrf (re_match listing_header_re (lstrip l) \<noteq> None) ls)"

text \<open>\<open>get_rule_from_ipt\<close>; \<open>Inr None\<close> is its \<^verbatim>\<open>return False\<close>.\<close>

definition get_rule_from_ipt ::
  "'w ext \<Rightarrow> VrfSvcsRuleType \<Rightarrow> address_family \<Rightarrow> string \<Rightarrow> 'w \<Rightarrow> (in_rule list option, 'w) outcome" where
  "get_rule_from_ipt E t f vrf w =
     (case run_command E (get_ipt_cmd_prefix t f vrf @ [''-L'', get_chain_name vrf t, ''-v'']) w of
        ((rc, out), w') \<Rightarrow>
          if rc \<noteq> 0 then (Inr None, w')
          else (try_bind (listing_loop E t f vrf False out) (\<lambda>rs. Inr (Some rs)), w'))"

section \<open>Lemmas\<close>

lemma proc_rule_keeps: "proc_rule E op r idx t = (x, t') \<Longrightarrow> keeps_ports t t'"
proof -
  have w: "in_world f t = (a, t1) \<Longrightarrow> keeps_ports t t1" for f :: "'a \<Rightarrow> 'b \<times> 'a" and a t t1
    by (intro same_maps_ports in_world_maps)
  have flt: "flt_args E r t = (y, t1) \<Longrightarrow> keeps_ports t t1" for y t t1
  proof -
    assume h: "flt_args E r t = (y, t1)"
    obtain z t2 where t2: "flt_intf E r t = (z, t2)" by force
    have "keeps_ports t t2"
    proof (cases "map_of (vrf_name_to_id t) (vrf_name (base_of r))")
      case (Some i)
      obtain q t3 where q: "get_veth_ip_str E (af (base_of r)) (vrf_name (base_of r)) False t = (q, t3)" by force
      then have "keeps_ports t t3" by (rule get_veth_ip_str_keeps)
      then show ?thesis
        using t2 q Some by (cases q) (auto simp: flt_intf_def Let_def split: VrfSvcsRuleType.splits if_splits)
    qed (use t2 in \<open>auto simp: flt_intf_def Let_def split: VrfSvcsRuleType.splits if_splits\<close>)
    moreover have "t1 = t \<or> t1 = t2"
      using h t2 by (cases "flt_head r"; cases z; cases "flt_action r") (auto simp: flt_args_def)
    ultimately show ?thesis by auto
  qed
  assume h: "proc_rule E op r idx t = (x, t')"
  define b where "b = base_of r"
  obtain byp t1 where t1: "(if (op = OpDelete \<or> op = OpGet) \<and> vrf_name b \<noteq> ''default''
      then (case in_world (is_vrf_valid E (vrf_name b)) t of (ok, t1) \<Rightarrow> (\<not> ok, t1))
      else (False, t)) = (byp, t1)" by force
  then have k1: "keeps_ports t t1" by (auto split: if_splits prod.splits dest: w)
  obtain y t2 where t2: "flt_args E r t1 = (y, t2)" by force
  then have k2: "keeps_ports t1 t2" by (rule flt)
  have "t' = t1 \<or> t' = t2 \<or> keeps_ports t2 t'"
    using h t1 t2 unfolding proc_rule_def Let_def b_def [symmetric]
    by (cases y) (auto split: if_splits option.splits prod.splits list.splits dest: w)
  with k1 k2 show ?thesis using keeps_ports_trans by blast
qed

end
