(* ===== verification/RuleCache.thy ===== *)
theory RuleCache
  imports RuleList IdTool
begin

text \<open>
  \<^verbatim>\<open>scripts/lib/python/dn_base_vrf_svcs_config.py\<close>: what the two rule caches,
  \<open>VrfIncomingSvcsRuleCache\<close> and \<open>VrfOutgoingSvcsRuleCache\<close>, share. Each has two dictionaries from the
  address family and the namespace to a rule list, a re-entrant lock and an identifier generator.

  The two dictionaries are one function of the table, the address family and, as an association
  list, the namespace. The lock is its depth: every path that returns must give back what it
  took. Rules are objects that are shared between the cache and its callers, so an operation that
  changes a rule also returns it.

  The locale \<open>rule_store\<close> is the contract of a cache: its invariant, its abstract view as a map
  from identifiers to rules, and what exchanging a list, adding, replacing and removing a rule do
  to both. Both classes interpret it on their own rules.
\<close>

section \<open>The state of a cache\<close>

record ('t, 'r) rule_cache =
  c_tables :: "'t \<Rightarrow> address_family \<Rightarrow> (string \<times> 'r rule_list) list"
  c_mutex :: nat
  c_ids :: id_gen

text \<open>The class attributes as the module creates them.\<close>

definition cache_init :: "('t, 'r) rule_cache" where
  "cache_init = \<lparr>c_tables = (\<lambda>_ _. []), c_mutex = 0,
     c_ids = \<lparr>resved_ids = {||}, min_id = 1, max_id = None, avail_id = Some 1, max_resved_id = None\<rparr>\<rparr>"

definition lock :: "('t, 'r) rule_cache \<Rightarrow> ('t, 'r) rule_cache" where
  "lock c = c\<lparr>c_mutex := Suc (c_mutex c)\<rparr>"

definition unlock :: "('t, 'r) rule_cache \<Rightarrow> ('t, 'r) rule_cache" where
  "unlock c = c\<lparr>c_mutex := c_mutex c - 1\<rparr>"

definition get_list :: "'t \<Rightarrow> address_family \<Rightarrow> string \<Rightarrow> ('t, 'r) rule_cache \<Rightarrow> 'r rule_list option" where
  "get_list tb f v c = map_of (c_tables c tb f) v"

definition upd_dict ::
  "'t \<Rightarrow> address_family \<Rightarrow> ((string \<times> 'r rule_list) list \<Rightarrow> (string \<times> 'r rule_list) list) \<Rightarrow>
   ('t, 'r) rule_cache \<Rightarrow> ('t, 'r) rule_cache" where
  "upd_dict tb f g c = c\<lparr>c_tables := (c_tables c)(tb := (c_tables c tb)(f := g (c_tables c tb f)))\<rparr>"

definition set_list ::
  "'t \<Rightarrow> address_family \<Rightarrow> string \<Rightarrow> 'r rule_list \<Rightarrow> ('t, 'r) rule_cache \<Rightarrow> ('t, 'r) rule_cache" where
  "set_list tb f v l = upd_dict tb f (AList.update v l)"

definition del_list :: "'t \<Rightarrow> address_family \<Rightarrow> string \<Rightarrow> ('t, 'r) rule_cache \<Rightarrow> ('t, 'r) rule_cache" where
  "del_list tb f v = upd_dict tb f (AList.delete v)"

definition set_ids :: "id_gen \<Rightarrow> ('t, 'r) rule_cache \<Rightarrow> ('t, 'r) rule_cache" where
  "set_ids g c = c\<lparr>c_ids := g\<rparr>"

definition release_rule_id :: "int option \<Rightarrow> ('t, 'r) rule_cache \<Rightarrow> ('t, 'r) rule_cache" where
  "release_rule_id k c = (case k of None \<Rightarrow> c | Some i \<Rightarrow> set_ids (snd (release_id i (c_ids c))) c)"

text \<open>The identifier of a new rule: the given one, if it is free, or a fresh one.\<close>

definition assign_id ::
  "'a svcs_rule_scheme \<Rightarrow> id_gen \<Rightarrow> ('a svcs_rule_scheme) option \<times> id_gen" where
  "assign_id r g =
     (case rule_id r of
        None \<Rightarrow> (case get_new_id g of
                    (None, g') \<Rightarrow> (None, g')
                  | (Some i, g') \<Rightarrow> (Some (r\<lparr>rule_id := Some i\<rparr>), g'))
      | Some i \<Rightarrow>
          if is_id_used i g then (None, g)
          else (case reserve_id i g of (ok, g') \<Rightarrow> (if ok then Some r else None, g')))"

text \<open>The first list, in the order of the loops of \<open>find_rule_by_id\<close>, that knows the identifier.\<close>

definition find_in_dict :: "int \<Rightarrow> (string \<times> 'r rule_list) list \<Rightarrow> (string \<times> nat) option" where
  "find_in_dict k d =
     (case find (\<lambda>(v, l). rule_id_map l (Some k) \<noteq> None) d of
        None \<Rightarrow> None
      | Some (v, l) \<Rightarrow> Some (v, the (rule_id_map l (Some k))))"

fun find_loc ::
  "int \<Rightarrow> ('t \<times> address_family) list \<Rightarrow> ('t, 'r) rule_cache \<Rightarrow> ('t \<times> address_family \<times> string \<times> nat) option" where
  "find_loc k [] c = None"
| "find_loc k ((tb, f) # rest) c =
     (case find_in_dict k (c_tables c tb f) of
        Some (v, idx) \<Rightarrow> Some (tb, f, v, idx)
      | None \<Rightarrow> find_loc k rest c)"

text \<open>\<open>find_rule_by_match\<close>, with the equality and the choice of the table of the class.\<close>

definition match_rule ::
  "('a svcs_rule_scheme \<Rightarrow> 'a svcs_rule_scheme \<Rightarrow> bool) \<Rightarrow> ('a svcs_rule_scheme \<Rightarrow> 't) \<Rightarrow>
   'a svcs_rule_scheme \<Rightarrow> ('t, 'a svcs_rule_scheme) rule_cache \<Rightarrow> ('a svcs_rule_scheme) option" where
  "match_rule same tbl r c =
     (case get_list (tbl r) (af r) (vrf_name r) c of
        None \<Rightarrow> None
      | Some l \<Rightarrow> map_option (\<lambda>i. rules l ! i) (list_find same r l))"

section \<open>The invariant\<close>

definition holds :: "('t, 'r) rule_cache \<Rightarrow> 'r \<Rightarrow> bool" where
  "holds c r \<longleftrightarrow> (\<exists>tb f v l. get_list tb f v c = Some l \<and> r \<in> set (rules l))"

definition homed ::
  "('a svcs_rule_scheme \<Rightarrow> 't) \<Rightarrow> ('t, 'a svcs_rule_scheme) rule_cache \<Rightarrow> 't \<Rightarrow> address_family \<Rightarrow> string \<Rightarrow>
   'a svcs_rule_scheme \<Rightarrow> bool" where
  "homed tbl c tb f v r \<longleftrightarrow> tbl r = tb \<and> af r = f \<and> vrf_name r = v \<and>
     (\<exists>i. rule_id r = Some i \<and> is_id_used i (c_ids c))"

definition cache_inv ::
  "('a svcs_rule_scheme \<Rightarrow> 'a svcs_rule_scheme \<Rightarrow> bool) \<Rightarrow> ('a svcs_rule_scheme \<Rightarrow> 't) \<Rightarrow>
   ('t, 'a svcs_rule_scheme) rule_cache \<Rightarrow> bool" where
  "cache_inv same tbl c \<longleftrightarrow> id_inv (c_ids c) \<and> (\<forall>tb f. distinct (map fst (c_tables c tb f))) \<and>
     (\<forall>tb f v l. get_list tb f v c = Some l \<longrightarrow> rl_wf same l \<and> (\<forall>r\<in>set (rules l). homed tbl c tb f v r)) \<and>
     (\<forall>r r'. holds c r \<longrightarrow> holds c r' \<longrightarrow> rule_id r = rule_id r' \<longrightarrow> r = r')"

text \<open>The abstract view; \<open>norm\<close> forgets what the view leaves out of a rule.\<close>

definition abs_map ::
  "('r \<Rightarrow> 'r) \<Rightarrow> ('t \<times> address_family) list \<Rightarrow> ('t, 'r) rule_cache \<Rightarrow> int \<Rightarrow> 'r option" where
  "abs_map norm order c k =
     (case find_loc k order c of
        None \<Rightarrow> None
      | Some (tb, f, v, i) \<Rightarrow> Some (norm (rules (the (get_list tb f v c)) ! i)))"

lemma get_list_simps [simp]:
  "get_list tb f v (lock c) = get_list tb f v c"
  "get_list tb f v (unlock c) = get_list tb f v c"
  "get_list tb f v (set_ids g c) = get_list tb f v c"
  "get_list tb f v (release_rule_id k c) = get_list tb f v c"
  "get_list tb' f' v' (set_list tb f v l c) =
     (if tb' = tb \<and> f' = f \<and> v' = v then Some l else get_list tb' f' v' c)"
  "get_list tb' f' v' (del_list tb f v c) =
     (if tb' = tb \<and> f' = f \<and> v' = v then None else get_list tb' f' v' c)"
  by (auto simp: get_list_def lock_def unlock_def set_ids_def release_rule_id_def set_list_def
      del_list_def upd_dict_def update_conv' delete_conv' split: option.splits)

lemma c_ids_simps [simp]:
  "c_ids (lock c) = c_ids c" "c_ids (unlock c) = c_ids c" "c_ids (set_ids g c) = g"
  "c_ids (set_list tb f v l c) = c_ids c" "c_ids (del_list tb f v c) = c_ids c"
  "c_ids (release_rule_id (Some i) c) = snd (release_id i (c_ids c))"
  "c_ids (release_rule_id None c) = c_ids c"
  by (simp_all add: lock_def unlock_def set_ids_def set_list_def del_list_def upd_dict_def
      release_rule_id_def)

lemma c_mutex_simps [simp]:
  "c_mutex (lock c) = Suc (c_mutex c)" "c_mutex (unlock c) = c_mutex c - 1"
  "c_mutex (set_ids g c) = c_mutex c" "c_mutex (set_list tb f v l c) = c_mutex c"
  "c_mutex (del_list tb f v c) = c_mutex c" "c_mutex (release_rule_id k c) = c_mutex c"
  by (simp_all add: lock_def unlock_def set_ids_def set_list_def del_list_def upd_dict_def
      release_rule_id_def split: option.split)

definition keys_distinct :: "('t, 'r) rule_cache \<Rightarrow> bool" where
  "keys_distinct c \<longleftrightarrow> (\<forall>tb f. distinct (map fst (c_tables c tb f)))"

lemma keys_distinct_simps [simp]:
  "keys_distinct (lock c) = keys_distinct c" "keys_distinct (unlock c) = keys_distinct c"
  "keys_distinct (set_ids g c) = keys_distinct c" "keys_distinct (release_rule_id k c) = keys_distinct c"
  "keys_distinct c \<Longrightarrow> keys_distinct (set_list tb f v l c)"
  "keys_distinct c \<Longrightarrow> keys_distinct (del_list tb f v c)"
  by (auto simp: keys_distinct_def lock_def unlock_def set_ids_def set_list_def del_list_def
      upd_dict_def release_rule_id_def distinct_update distinct_delete split: option.splits)

lemma holds_simps [simp]:
  "holds (lock c) r = holds c r" "holds (unlock c) r = holds c r" "holds (set_ids g c) r = holds c r"
  "holds (release_rule_id k c) r = holds c r"
  by (simp_all add: holds_def)

text \<open>Exchanging one list.\<close>

lemma holds_set_list:
  "holds (set_list tb f v l c) r \<longleftrightarrow>
     r \<in> set (rules l) \<or> (\<exists>tb' f' v' l'. (tb', f', v') \<noteq> (tb, f, v) \<and>
        get_list tb' f' v' c = Some l' \<and> r \<in> set (rules l'))"
  by (auto simp: holds_def split: if_splits)

text \<open>The rules of one list and of the others.\<close>

definition holds_elsewhere :: "('t, 'r) rule_cache \<Rightarrow> 't \<Rightarrow> address_family \<Rightarrow> string \<Rightarrow> 'r \<Rightarrow> bool" where
  "holds_elsewhere c tb f v r \<longleftrightarrow> (\<exists>tb' f' v' l'. (tb', f', v') \<noteq> (tb, f, v) \<and>
      get_list tb' f' v' c = Some l' \<and> r \<in> set (rules l'))"

lemma holds_split:
  "holds c x \<longleftrightarrow> (\<exists>l. get_list tb f v c = Some l \<and> x \<in> set (rules l)) \<or> holds_elsewhere c tb f v x"
proof
  assume "holds c x"
  then obtain tb' f' v' l' where l': "get_list tb' f' v' c = Some l'" "x \<in> set (rules l')"
    unfolding holds_def by (elim exE conjE)
  show "(\<exists>l. get_list tb f v c = Some l \<and> x \<in> set (rules l)) \<or> holds_elsewhere c tb f v x"
  proof (cases "(tb', f', v') = (tb, f, v)")
    case True
    with l' show ?thesis by auto
  next
    case False
    with l' show ?thesis unfolding holds_elsewhere_def by (intro disjI2 exI conjI)
  qed
next
  assume "(\<exists>l. get_list tb f v c = Some l \<and> x \<in> set (rules l)) \<or> holds_elsewhere c tb f v x"
  then show "holds c x"
    unfolding holds_def holds_elsewhere_def by (elim disjE exE conjE) (intro exI conjI, assumption+)+
qed

lemma holds_set_list': "holds (set_list tb f v l c) x \<longleftrightarrow> x \<in> set (rules l) \<or> holds_elsewhere c tb f v x"
  unfolding holds_set_list holds_elsewhere_def ..

lemma holds_grow:
  "get_list tb f v c = Some l \<Longrightarrow> set (rules l') = insert r (set (rules l)) \<Longrightarrow>
     holds (set_list tb f v l' c) x \<longleftrightarrow> x = r \<or> holds c x"
  unfolding holds_set_list' holds_split [of c x tb f v] by auto

lemma holds_same:
  "get_list tb f v c = Some l \<Longrightarrow> set (rules l') = set (rules l) \<Longrightarrow>
     holds (set_list tb f v l' c) x \<longleftrightarrow> holds c x"
  unfolding holds_set_list' holds_split [of c x tb f v] by auto

lemma holds_empty:
  "get_list tb f v c = None \<Longrightarrow> holds (set_list tb f v empty_rule_list c) x \<longleftrightarrow> holds c x"
  unfolding holds_set_list' holds_split [of c x tb f v] by (auto simp: empty_rule_list_def)

lemma holds_del_empty:
  "get_list tb f v c = Some l \<Longrightarrow> rules l = [] \<Longrightarrow> holds (del_list tb f v c) x \<longleftrightarrow> holds c x"
proof -
  assume l: "get_list tb f v c = Some l" "rules l = []"
  have eq: "get_list tb' f' v' (del_list tb f v c) = get_list tb' f' v' c"
    if "(tb', f', v') \<noteq> (tb, f, v)" for tb' f' v' using that by auto
  have "holds_elsewhere (del_list tb f v c) tb f v x = holds_elsewhere c tb f v x"
    unfolding holds_elsewhere_def using eq by (simp cong: conj_cong)
  then show ?thesis
    unfolding holds_split [of c x tb f v] holds_split [of "del_list tb f v c" x tb f v] using l by auto
qed

lemma find_loc_lock [simp]:
  "find_loc k ls (lock c) = find_loc k ls c" "find_loc k ls (unlock c) = find_loc k ls c"
  by (induction k ls c rule: find_loc.induct) (auto simp: lock_def unlock_def split: option.splits)

lemma find_mem: "find P xs = Some x \<Longrightarrow> x \<in> set xs \<and> P x"
  by (auto simp: find_Some_iff)

lemma find_in_dict_Some:
  assumes "find_in_dict k d = Some (v, i)" "distinct (map fst d)"
  shows "\<exists>l. map_of d v = Some l \<and> rule_id_map l (Some k) = Some i"
proof -
  obtain l where l: "find (\<lambda>(v, l). rule_id_map l (Some k) \<noteq> None) d = Some (v, l)"
    "i = the (rule_id_map l (Some k))"
    using assms(1) by (auto simp: find_in_dict_def split: option.splits)
  from find_mem [OF l(1)] l(2) assms(2) show ?thesis by (intro exI [of _ l]) auto
qed

lemma find_in_dict_None:
  assumes "find_in_dict k d = None" "map_of d v = Some l"
  shows "rule_id_map l (Some k) = None"
proof -
  have "\<forall>(v, l)\<in>set d. rule_id_map l (Some k) = None"
    using assms(1) by (auto simp: find_in_dict_def find_None_iff split: option.splits)
  with map_of_SomeD [OF assms(2)] show ?thesis by auto
qed

lemma find_loc_Some:
  assumes "keys_distinct c" "find_loc k ls c = Some (tb, f, v, i)"
  shows "\<exists>l. get_list tb f v c = Some l \<and> rule_id_map l (Some k) = Some i"
  using assms
proof (induction k ls c rule: find_loc.induct)
  case (2 k tb' f' rest c)
  then show ?case
  proof (cases "find_in_dict k (c_tables c tb' f')")
    case (Some vi)
    with 2 have "find_in_dict k (c_tables c tb f) = Some (v, i)" by (cases vi) auto
    moreover have "distinct (map fst (c_tables c tb f))" using 2 by (simp add: keys_distinct_def)
    ultimately show ?thesis unfolding get_list_def by (rule find_in_dict_Some)
  qed auto
qed simp

lemma find_loc_None:
  assumes "find_loc k ls c = None" "(tb, f) \<in> set ls" "get_list tb f v c = Some l"
  shows "rule_id_map l (Some k) = None"
  using assms
proof (induction k ls c rule: find_loc.induct)
  case (2 k tb' f' rest c)
  then show ?case
    by (auto simp: get_list_def split: option.splits dest: find_in_dict_None)
qed simp

lemma assign_id_None: "id_inv g \<Longrightarrow> assign_id r g = (None, g') \<Longrightarrow>
    id_inv g' \<and> (\<forall>i. is_id_used i g \<longrightarrow> is_id_used i g')"
  using get_new_id_none [of g g'] reserve_id_inv [of g "the (rule_id r)"]
    reserve_id_used(2) [of "the (rule_id r)" g]
  by (auto simp: assign_id_def is_id_used_def split: option.splits if_splits prod.splits)

lemma assign_id_Some:
  assumes "id_inv g" "assign_id r g = (Some r1, g')"
  shows "\<exists>k. r1 = r\<lparr>rule_id := Some k\<rparr> \<and> \<not> is_id_used k g \<and> is_id_used k g' \<and> id_inv g' \<and>
    (\<forall>i. is_id_used i g \<longrightarrow> is_id_used i g') \<and> (rule_id r = None \<or> rule_id r = Some k)"
proof (cases "rule_id r")
  case None
  then obtain k where "get_new_id g = (Some k, g')" "r1 = r\<lparr>rule_id := Some k\<rparr>"
    using assms(2) by (auto simp: assign_id_def split: option.splits prod.splits)
  with ids.get_new_some [OF assms(1)] None show ?thesis by blast
next
  case (Some k)
  then have k: "\<not> is_id_used k g" "reserve_id k g = (True, g')" "r1 = r"
    using assms(2) by (auto simp: assign_id_def split: if_splits prod.splits)
  from ids.reserve_law [OF assms(1) k(2)] k Some show ?thesis by (intro exI [of _ k]) auto
qed

lemma assign_id_refused: "assign_id r g = (None, g') \<Longrightarrow> g' = g"
  by (auto simp: assign_id_def reserve_id_def Let_def get_new_id_none
      split: option.splits if_splits prod.splits)

lemma assign_id_used:
  assumes "id_inv g" "assign_id r g = (Some r1, g')" "rule_id r1 = Some k"
  shows "is_id_used i g' \<longleftrightarrow> is_id_used i g \<or> i = k"
proof (cases "rule_id r")
  case None
  then obtain j where "get_new_id g = (Some j, g')" "r1 = r\<lparr>rule_id := Some j\<rparr>"
    using assms(2) by (auto simp: assign_id_def split: option.splits prod.splits)
  with ids.get_new_some [OF assms(1)] assms(3) show ?thesis by auto
next
  case (Some j)
  then have "reserve_id j g = (True, g')" "r1 = r"
    using assms(2) by (auto simp: assign_id_def split: if_splits prod.splits)
  with ids.reserve_law [OF assms(1)] Some assms(3) show ?thesis by auto
qed

lemma sorted_wrt_update:
  assumes "sorted_wrt P xs" "\<And>j. j < length xs \<Longrightarrow> j \<noteq> i \<Longrightarrow> P (xs ! j) y \<and> P y (xs ! j)"
  shows "sorted_wrt P (xs[i := y])"
  unfolding sorted_wrt_iff_nth_less
proof (intro allI impI)
  fix a b
  assume h: "a < b" "b < length (xs[i := y])"
  then have "a < length xs" by simp
  with h assms show "P (xs[i := y] ! a) (xs[i := y] ! b)"
    by (cases "a = i"; cases "b = i") (auto simp: sorted_wrt_iff_nth_less)
qed

lemma rl_set_rules [simp]: "rules (rl_set i r l) = (rules l)[i := r]"
  by (simp add: rl_set_def)

section \<open>The contract of a cache\<close>

locale rule_store = rule_class same
  for same :: "'a svcs_rule_scheme \<Rightarrow> 'a svcs_rule_scheme \<Rightarrow> bool" +
  fixes tbl :: "'a svcs_rule_scheme \<Rightarrow> 't"
    and order :: "('t \<times> address_family) list"
    and norm :: "'a svcs_rule_scheme \<Rightarrow> 'a svcs_rule_scheme"
  assumes order_all: "(tb, f) \<in> set order"
    and same_home: "same r s \<Longrightarrow> tbl r = tbl s \<and> af r = af s \<and> vrf_name r = vrf_name s"
    and same_id: "same (r\<lparr>rule_id := k\<rparr>) s \<longleftrightarrow> same r s"
    and tbl_id: "tbl (r\<lparr>rule_id := k\<rparr>) = tbl r"
    and norm_frame: "rule_id (norm r) = rule_id r" "tbl (norm r) = tbl r" "af (norm r) = af r"
      "vrf_name (norm r) = vrf_name r" "prio_key (norm r) = prio_key r" "norm (norm r) = norm r"
      "same s (norm r) \<longleftrightarrow> same s r"
begin

abbreviation "at_home \<equiv> homed tbl"

abbreviation "cache_ok \<equiv> cache_inv same tbl"

abbreviation "abs_rules \<equiv> abs_map norm order"

definition list_ok where
  "list_ok c tb f v l \<longleftrightarrow> rl_wf same l \<and> (\<forall>r\<in>set (rules l). at_home c tb f v r)"

lemma cache_okI:
  assumes "id_inv (c_ids c)" "keys_distinct c"
    and "\<And>tb f v l. get_list tb f v c = Some l \<Longrightarrow> list_ok c tb f v l"
    and "\<And>r r'. holds c r \<Longrightarrow> holds c r' \<Longrightarrow> rule_id r = rule_id r' \<Longrightarrow> r = r'"
  shows "cache_ok c"
  using assms by (auto simp: cache_inv_def keys_distinct_def list_ok_def)

lemma cache_okD:
  assumes "cache_ok c"
  shows "id_inv (c_ids c)" "keys_distinct c"
    and "get_list tb f v c = Some l \<Longrightarrow> list_ok c tb f v l"
    and "get_list tb f v c = Some l \<Longrightarrow> rl_wf same l"
    and "get_list tb f v c = Some l \<Longrightarrow> r \<in> set (rules l) \<Longrightarrow> at_home c tb f v r"
    and "holds c r \<Longrightarrow> holds c r' \<Longrightarrow> rule_id r = rule_id r' \<Longrightarrow> r = r'"
  using assms by (auto simp: cache_inv_def keys_distinct_def list_ok_def)

lemma holds_home:
  assumes "cache_ok c" "holds c r"
  obtains l where "get_list (tbl r) (af r) (vrf_name r) c = Some l" "r \<in> set (rules l)"
    "at_home c (tbl r) (af r) (vrf_name r) r"
proof -
  from assms(2) obtain tb f v l where l: "get_list tb f v c = Some l" "r \<in> set (rules l)"
    by (auto simp: holds_def)
  with cache_okD(5) [OF assms(1) l] show thesis by (intro that [of l]) (auto simp: homed_def)
qed

lemma cache_ok_lock [simp]: "cache_ok (lock c) = cache_ok c"
  and cache_ok_unlock [simp]: "cache_ok (unlock c) = cache_ok c"
  by (auto simp: cache_inv_def list_ok_def homed_def keys_distinct_def [symmetric])

text \<open>Reserving more identifiers, and releasing one that no rule has.\<close>

lemma cache_ok_set_ids:
  assumes "cache_ok c" "id_inv g"
    and "\<And>i. is_id_used i (c_ids c) \<Longrightarrow> (\<exists>r. holds c r \<and> rule_id r = Some i) \<Longrightarrow> is_id_used i g"
  shows "cache_ok (set_ids g c)"
proof (rule cache_okI)
  fix tb f v l
  assume l: "get_list tb f v (set_ids g c) = Some l"
  have "at_home (set_ids g c) tb f v r" if "r \<in> set (rules l)" for r
  proof -
    have "holds c r" using l that by (auto simp: holds_def)
    then show ?thesis
      using cache_okD(5) [OF assms(1), of tb f v l r] l that assms(3) by (fastforce simp: homed_def)
  qed
  then show "list_ok (set_ids g c) tb f v l"
    using cache_okD(4) [OF assms(1)] l by (auto simp: list_ok_def)
qed (use assms cache_okD in auto)

lemma cache_ok_release:
  assumes "cache_ok c" "\<And>r. holds c r \<Longrightarrow> rule_id r \<noteq> Some i"
  shows "cache_ok (release_rule_id (Some i) c)"
proof -
  have "cache_ok (set_ids (snd (release_id i (c_ids c))) c)"
  proof (rule cache_ok_set_ids [OF assms(1)])
    show "id_inv (snd (release_id i (c_ids c)))" using cache_okD(1) [OF assms(1)] by (rule release_id_inv)
    fix j
    assume "is_id_used j (c_ids c)" "\<exists>r. holds c r \<and> rule_id r = Some j"
    with assms(2) show "is_id_used j (snd (release_id i (c_ids c)))"
      by (auto simp: is_id_used_def release_id_used)
  qed
  then show ?thesis by (simp add: release_rule_id_def)
qed

lemma cache_ok_set_list:
  assumes "cache_ok c" "list_ok c tb f v l"
    and "\<And>r r'. r \<in> set (rules l) \<Longrightarrow> holds c r' \<Longrightarrow> rule_id r = rule_id r' \<Longrightarrow>
      tbl r' = tb \<and> af r' = f \<and> vrf_name r' = v"
  shows "cache_ok (set_list tb f v l c)"
proof (rule cache_okI)
  show "id_inv (c_ids (set_list tb f v l c))" using cache_okD(1) [OF assms(1)] by simp
  show "keys_distinct (set_list tb f v l c)" using cache_okD(2) [OF assms(1)] by simp
  have same: "list_ok (set_list tb f v l c) tb' f' v' l' = list_ok c tb' f' v' l'" for tb' f' v' l'
    by (simp add: list_ok_def homed_def)
  fix tb' f' v' l'
  assume "get_list tb' f' v' (set_list tb f v l c) = Some l'"
  then show "list_ok (set_list tb f v l c) tb' f' v' l'"
    unfolding same using assms(2) cache_okD(3) [OF assms(1)] by (auto split: if_splits)
next
  have wf: "rl_wf same l" using assms(2) by (simp add: list_ok_def)
  have in_l: "r = r'" if "r \<in> set (rules l)" "r' \<in> set (rules l)" "rule_id r = rule_id r'" for r r'
    using that wf by (auto simp: rl_wf_def distinct_map dest: inj_onD)
  have mixed: False
    if "r \<in> set (rules l)" "(tb', f', v') \<noteq> (tb, f, v)" "get_list tb' f' v' c = Some l'"
      "r' \<in> set (rules l')" "rule_id r = rule_id r'" for r r' tb' f' v' l'
  proof -
    have "holds c r'" using that by (auto simp: holds_def)
    from assms(3) [OF that(1) this that(5)] cache_okD(5) [OF assms(1) that(3,4)] that(2)
    show False by (auto simp: homed_def)
  qed
  fix r r'
  assume h: "holds (set_list tb f v l c) r" "holds (set_list tb f v l c) r'" "rule_id r = rule_id r'"
  consider "r \<in> set (rules l)" "r' \<in> set (rules l)" | "r \<in> set (rules l)" "r' \<notin> set (rules l)"
    | "r \<notin> set (rules l)" "r' \<in> set (rules l)" | "r \<notin> set (rules l)" "r' \<notin> set (rules l)" by blast
  then show "r = r'"
  proof cases
    case 1
    then show ?thesis using in_l h(3) by blast
  next
    case 2
    then obtain tb' f' v' l' where "(tb', f', v') \<noteq> (tb, f, v)" "get_list tb' f' v' c = Some l'"
      "r' \<in> set (rules l')" using h(2) unfolding holds_set_list by blast
    from mixed [OF 2(1) this h(3)] show ?thesis ..
  next
    case 3
    then obtain tb' f' v' l' where "(tb', f', v') \<noteq> (tb, f, v)" "get_list tb' f' v' c = Some l'"
      "r \<in> set (rules l')" using h(1) unfolding holds_set_list by blast
    from mixed [OF 3(2) this h(3) [symmetric]] show ?thesis ..
  next
    case 4
    then have "holds c r" "holds c r'" using h(1,2) by (auto simp: holds_set_list) (auto simp: holds_def)
    then show ?thesis using cache_okD(6) [OF assms(1)] h(3) by blast
  qed
qed

lemma cache_ok_del_list:
  assumes "cache_ok c"
  shows "cache_ok (del_list tb f v c)"
proof (rule cache_okI)
  have sub: "holds (del_list tb f v c) r \<Longrightarrow> holds c r" for r
    by (auto simp: holds_def split: if_splits)
  show "id_inv (c_ids (del_list tb f v c))" using cache_okD(1) [OF assms] by simp
  show "keys_distinct (del_list tb f v c)" using cache_okD(2) [OF assms] by simp
  show "holds (del_list tb f v c) r \<Longrightarrow> holds (del_list tb f v c) r' \<Longrightarrow> rule_id r = rule_id r' \<Longrightarrow> r = r'" for r r'
    using sub cache_okD(6) [OF assms] by blast
  show "get_list tb' f' v' (del_list tb f v c) = Some l' \<Longrightarrow> list_ok (del_list tb f v c) tb' f' v' l'"
    for tb' f' v' l'
    using cache_okD(3) [OF assms] by (auto simp: list_ok_def homed_def split: if_splits)
qed

lemma cache_ok_shrink:
  assumes "cache_ok c" "get_list tb f v c = Some l" "rl_wf same l'" "set (rules l') \<subseteq> set (rules l)"
  shows "cache_ok (set_list tb f v l' c)"
proof (rule cache_ok_set_list [OF assms(1)])
  have home: "r \<in> set (rules l') \<Longrightarrow> at_home c tb f v r" for r
    using cache_okD(5) [OF assms(1,2)] assms(4) by blast
  then show "list_ok c tb f v l'" using assms(3) by (simp add: list_ok_def)
  fix r r'
  assume "r \<in> set (rules l')" "holds c r'" "rule_id r = rule_id r'"
  moreover from this have "holds c r" using assms(2) subsetD [OF assms(4)] unfolding holds_def by blast
  ultimately show "tbl r' = tb \<and> af r' = f \<and> vrf_name r' = v"
    using cache_okD(6) [OF assms(1)] home by (auto simp: homed_def)
qed

lemma cache_ok_grow:
  assumes "cache_ok c" "get_list tb f v c = Some l" "rl_wf same l'"
    and "set (rules l') = insert r (set (rules l))" "at_home c tb f v r"
    and "\<And>x. holds c x \<Longrightarrow> rule_id x \<noteq> rule_id r"
  shows "cache_ok (set_list tb f v l' c)"
proof (rule cache_ok_set_list [OF assms(1)])
  have home: "x \<in> set (rules l') \<Longrightarrow> at_home c tb f v x" for x
    using cache_okD(5) [OF assms(1,2)] assms(4,5) by auto
  then show "list_ok c tb f v l'" using assms(3) by (simp add: list_ok_def)
  fix x x'
  assume h: "x \<in> set (rules l')" "holds c x'" "rule_id x = rule_id x'"
  then have "x \<noteq> r" using assms(6) [OF h(2)] by auto
  with h(1) assms(2,4) have "holds c x" by (auto simp: holds_def)
  with h have "x = x'" using cache_okD(6) [OF assms(1)] by blast
  with home h(1) show "tbl x' = tb \<and> af x' = f \<and> vrf_name x' = v"
    by (auto simp: homed_def)
qed

lemma holds_shrink:
  assumes "cache_ok c" "get_list tb f v c = Some l" "d \<in> set (rules l)"
    and "set (rules l') = set (rules l) - {d}"
  shows "holds (set_list tb f v l' c) x \<longleftrightarrow> holds c x \<and> x \<noteq> d"
proof -
  have "at_home c tb f v d" by (rule cache_okD(5) [OF assms(1-3)])
  then have "(tb', f', v') = (tb, f, v)" if "get_list tb' f' v' c = Some l''" "d \<in> set (rules l'')"
    for tb' f' v' l''
    using cache_okD(5) [OF assms(1) that] by (simp add: homed_def)
  then have "\<not> holds_elsewhere c tb f v d" unfolding holds_elsewhere_def by blast
  then show ?thesis
    unfolding holds_set_list' holds_split [of c x tb f v] using assms(2,4) by auto
qed

lemma find_loc_ok:
  assumes "cache_ok c" "find_loc k order c = Some (tb, f, v, i)"
  obtains l where "get_list tb f v c = Some l" "rule_id_map l (Some k) = Some i"
    "i < length (rules l)" "rule_id (rules l ! i) = Some k" "rl_wf same l"
    "at_home c tb f v (rules l ! i)" "holds c (rules l ! i)"
proof -
  obtain l where l: "get_list tb f v c = Some l" "rule_id_map l (Some k) = Some i"
    using find_loc_Some [OF cache_okD(2) [OF assms(1)] assms(2)] by (elim exE conjE)
  note wf = cache_okD(4) [OF assms(1) l(1)]
  from wf_id [OF wf, of "Some k" i] l(2) have i: "i < length (rules l)" "rule_id (rules l ! i) = Some k"
    by auto
  then have "rules l ! i \<in> set (rules l)" by simp
  moreover from this l(1) have "holds c (rules l ! i)" unfolding holds_def by blast
  ultimately show thesis using cache_okD(5) [OF assms(1) l(1)] l i wf by (intro that [of l])
qed

lemma find_loc_none_holds:
  assumes "cache_ok c" "find_loc k order c = None" "holds c r"
  shows "rule_id r \<noteq> Some k"
proof
  assume id: "rule_id r = Some k"
  from assms(3) obtain tb f v l where l: "get_list tb f v c = Some l" "r \<in> set (rules l)"
    by (auto simp: holds_def)
  from find_loc_None [OF assms(2) order_all l(1)]
  have "Some k \<notin> rule_id ` set (rules l)"
    using wf_id_None [OF cache_okD(4) [OF assms(1) l(1)]] by simp
  with l(2) id show False by (metis image_eqI)
qed

lemma abs_iff:
  assumes "cache_ok c"
  shows "abs_rules c k = Some x \<longleftrightarrow> (\<exists>r. holds c r \<and> rule_id r = Some k \<and> norm r = x)"
proof (cases "find_loc k order c")
  case None
  then show ?thesis using find_loc_none_holds [OF assms None] by (auto simp: abs_map_def)
next
  case (Some p)
  obtain tb f v i where p: "p = (tb, f, v, i)" by (cases p)
  from assms Some [unfolded p] obtain l where
    l: "get_list tb f v c = Some l" "rule_id (rules l ! i) = Some k" "holds c (rules l ! i)"
    by (rule find_loc_ok)
  have a: "abs_rules c k = Some (norm (rules l ! i))" using Some p l(1) by (simp add: abs_map_def)
  have uniq: "r = rules l ! i" if "holds c r" "rule_id r = Some k" for r
    using cache_okD(6) [OF assms that(1) l(3)] that(2) l(2) by simp
  show ?thesis
  proof
    assume "abs_rules c k = Some x"
    then show "\<exists>r. holds c r \<and> rule_id r = Some k \<and> norm r = x"
      using a l(2,3) by (intro exI [of _ "rules l ! i"]) simp
  next
    assume "\<exists>r. holds c r \<and> rule_id r = Some k \<and> norm r = x"
    then obtain r where "holds c r" "rule_id r = Some k" "norm r = x" by (elim exE conjE)
    with uniq [of r] a show "abs_rules c k = Some x" by simp
  qed
qed

lemma abs_eqI:
  assumes "cache_ok c" "\<And>k x. (\<exists>r. holds c r \<and> rule_id r = Some k \<and> norm r = x) \<longleftrightarrow> m k = Some x"
  shows "abs_rules c = m"
proof
  fix k
  show "abs_rules c k = m k"
    using abs_iff [OF assms(1), of k] assms(2) [of k] by (metis not_None_eq)
qed

lemma abs_unlock [simp]: "abs_rules (unlock c) = abs_rules c" "abs_rules (lock c) = abs_rules c"
  by (rule ext, simp add: abs_map_def split: option.split)+

lemma abs_same_holds:
  assumes "cache_ok c" "cache_ok c'" "\<And>x. holds c' x \<longleftrightarrow> holds c x"
  shows "abs_rules c' = abs_rules c"
  by (rule abs_eqI [OF assms(2)]) (simp add: abs_iff [OF assms(1)] assms(3))

lemma abs_None: "cache_ok c \<Longrightarrow> abs_rules c k = None \<longleftrightarrow> (\<forall>r. holds c r \<longrightarrow> rule_id r \<noteq> Some k)"
  using abs_iff [of c k] by (metis not_None_eq)

text \<open>Putting a rule with a fresh identifier into its list.\<close>

lemma insert_held:
  assumes ok: "cache_ok c" and l: "get_list tb f v c = Some l"
    and ins: "rl_insert same r l = (Some i, l1)" and home: "at_home c tb f v r"
    and fresh: "\<forall>x. holds c x \<longrightarrow> rule_id x \<noteq> rule_id r"
  shows "cache_ok (set_list tb f v l1 c)" and "holds (set_list tb f v l1 c) x \<longleftrightarrow> x = r \<or> holds c x"
    and "rl_wf same l1" and "rules l1 = list_insert i r (rules l)" and "i \<le> length (rules l)"
proof -
  note spec = insert_Some [OF cache_okD(4) [OF ok l] ins]
  have set: "set (rules l1) = insert r (set (rules l))" by (simp add: spec(1))
  show "cache_ok (set_list tb f v l1 c)" by (rule cache_ok_grow [OF ok l spec(5) set home]) (use fresh in blast)
  show "holds (set_list tb f v l1 c) x \<longleftrightarrow> x = r \<or> holds c x" by (rule holds_grow [OF l set])
qed (use insert_Some [OF cache_okD(4) [OF ok l] ins] in auto)

text \<open>Taking a rule that was just inserted out again.\<close>

lemma remove_inserted:
  assumes "rl_wf same l1" "rules l1 = list_insert i r rs" "i \<le> length rs" "rule_id r = Some k"
  shows "\<exists>l2. rl_remove same accept r l1 = (Inr (Some (r, i)), l2) \<and> rules l2 = rs \<and> rl_wf same l2"
proof -
  have "rule_id_map l1 (Some k) = Some i"
    using wf_id [OF assms(1), of "Some k" i] assms(2-4) by simp
  then have "remove_pos accept r l1 = Some i"
    using assms(4) by (simp add: remove_pos_def)
  from remove(2) [OF assms(1) this] show ?thesis
    using assms(2,3) by auto
qed

text \<open>The list of a namespace is created on demand.\<close>

lemma ensure_list:
  fixes tb f v
  assumes "cache_ok c"
  defines "c' \<equiv> (if get_list tb f v c = None then set_list tb f v empty_rule_list c else c)"
  shows "cache_ok c'" and "holds c' x \<longleftrightarrow> holds c x" and "c_mutex c' = c_mutex c"
    and "\<exists>l. get_list tb f v c' = Some l"
proof -
  have "list_ok c tb f v empty_rule_list"
    using wf_empty by (simp add: list_ok_def empty_rule_list_def)
  then have "cache_ok (set_list tb f v empty_rule_list c)"
    by (rule cache_ok_set_list [OF assms(1)]) (simp add: empty_rule_list_def)
  then show "cache_ok c'" using assms(1) by (simp add: c'_def)
  show "holds c' x \<longleftrightarrow> holds c x" using holds_empty [of tb f v c x] by (simp add: c'_def)
qed (auto simp: c'_def)

lemma abs_insert:
  assumes ok: "cache_ok c" and ok': "cache_ok c'" and id: "rule_id r = Some k"
    and holds: "\<And>x. holds c' x \<longleftrightarrow> x = r \<or> holds c x"
    and fresh: "\<forall>x. holds c x \<longrightarrow> rule_id x \<noteq> rule_id r"
  shows "abs_rules c' = (abs_rules c)(k \<mapsto> norm r)"
proof (rule abs_eqI [OF ok'])
  fix j z
  have "abs_rules c k = None" using fresh id by (simp add: abs_None [OF ok])
  then show "(\<exists>q. holds c' q \<and> rule_id q = Some j \<and> norm q = z) \<longleftrightarrow>
      ((abs_rules c)(k \<mapsto> norm r)) j = Some z"
    using id fresh by (cases "j = k") (auto simp: holds abs_iff [OF ok])
qed

text \<open>An insertion that \<^verbatim>\<open>iptables\<close> refused is undone.\<close>

lemma insert_undone:
  assumes ok: "cache_ok c" and l: "get_list tb f v c = Some l"
    and ins: "rl_insert same r l = (Some i, l1)" and home: "at_home c tb f v r"
    and fresh: "\<forall>x. holds c x \<longrightarrow> rule_id x \<noteq> rule_id r"
  shows "\<exists>l2. rl_remove same accept r l1 = (Inr (Some (r, i)), l2) \<and> cache_ok (set_list tb f v l2 (set_list tb f v l1 c)) \<and>
    abs_rules (set_list tb f v l2 (set_list tb f v l1 c)) = abs_rules c"
proof -
  define c1 where "c1 = set_list tb f v l1 c"
  note ih = insert_held [OF ok l ins home fresh]
  obtain k where "rule_id r = Some k" using home by (auto simp: homed_def)
  from remove_inserted [OF ih(3-5) this] obtain l2 where
    l2: "rl_remove same accept r l1 = (Inr (Some (r, i)), l2)" "rules l2 = rules l" "rl_wf same l2" by blast
  have ok5: "cache_ok (set_list tb f v l2 c1)"
  proof (rule cache_ok_shrink)
    show "cache_ok c1" using ih(1) by (simp add: c1_def)
    show "get_list tb f v c1 = Some l1" by (simp add: c1_def)
    show "set (rules l2) \<subseteq> set (rules l1)" using l2(2) ih(4) by auto
  qed (rule l2(3))
  have "holds_elsewhere c1 tb f v z = holds_elsewhere c tb f v z" for z
    unfolding holds_elsewhere_def c1_def by (simp cong: conj_cong)
  then have "holds (set_list tb f v l2 c1) z \<longleftrightarrow> holds c z" for z
    unfolding holds_set_list' holds_split [of c z tb f v] using l2(2) l by auto
  with abs_same_holds [OF ok ok5] l2(1) ok5 show ?thesis unfolding c1_def by blast
qed

text \<open>Exchanging a rule in place.\<close>

lemma rl_set_wf:
  assumes "rl_wf same l" "i < length (rules l)" "rule_id r = rule_id (rules l ! i)"
    and "prio_key r = prio_key (rules l ! i)"
    and "\<And>j. j < length (rules l) \<Longrightarrow> j \<noteq> i \<Longrightarrow> \<not> same (rules l ! j) r"
  shows "rl_wf same (rl_set i r l)"
proof -
  have same: "map f ((rules l)[i := r]) = map f (rules l)" if "f r = f (rules l ! i)" for f :: "'a svcs_rule_scheme \<Rightarrow> 'b"
    using that by (simp add: map_update list_update_same_conv assms(2))
  have "no_equal same ((rules l)[i := r])"
    unfolding no_equal_def
    by (rule sorted_wrt_update) (use assms(1,5) same_sym in \<open>auto simp: rl_wf_def no_equal_def\<close>)
  moreover have "id_map_ok ((rules l)[i := r]) (rule_id_map l)"
    using assms(1-3) by (auto simp: rl_wf_def id_map_ok_def nth_list_update)
  ultimately show ?thesis
    using assms(1) same [of rule_id, OF assms(3)] same [of prio_key, OF assms(4)]
    by (auto simp: rl_wf_def rl_set_def simp flip: set_map)
qed

lemma replace_held:
  assumes ok: "cache_ok c" and l: "get_list tb f v c = Some l" and i: "i < length (rules l)"
    and home: "at_home c tb f v r" and id: "rule_id r = rule_id (rules l ! i)" "rule_id r = Some k"
    and key: "prio_key r = prio_key (rules l ! i)"
    and other: "\<And>x. holds c x \<Longrightarrow> same x r \<Longrightarrow> rule_id x = Some k"
  defines "c' \<equiv> set_list tb f v (rl_set i r l) c"
  shows "cache_ok c'" and "abs_rules c' = (abs_rules c)(k \<mapsto> norm r)" and "holds c' r"
proof -
  let ?l = "rl_set i r l"
  note wf = cache_okD(4) [OF ok l]
  have held: "holds c x" if "x \<in> set (rules l)" for x using l that unfolding holds_def by blast
  have wf': "rl_wf same ?l"
  proof (rule rl_set_wf [OF wf i id(1) key])
    fix j assume j: "j < length (rules l)" "j \<noteq> i"
    then have "rule_id (rules l ! j) \<noteq> Some k"
      using wf id i nth_eq_iff_index_eq [of "map rule_id (rules l)" j i] by (auto simp: rl_wf_def)
    with other [OF held, of "rules l ! j"] j show "\<not> same (rules l ! j) r" by auto
  qed
  have sub: "x = r \<or> x \<in> set (rules l)" if "x \<in> set (rules ?l)" for x
    using that set_update_subset_insert [of "rules l" i r] by auto
  have homes: "at_home c tb f v x" if "x \<in> set (rules ?l)" for x
    using sub [OF that] home cache_okD(5) [OF ok l] by blast
  show ok': "cache_ok c'" unfolding c'_def
  proof (rule cache_ok_set_list [OF ok])
    show "list_ok c tb f v ?l" using wf' homes by (simp add: list_ok_def)
    fix x x'
    assume h: "x \<in> set (rules ?l)" "holds c x'" "rule_id x = rule_id x'"
    define y where "y = (if x = r then rules l ! i else x)"
    have "holds c y" "rule_id y = rule_id x'" using h sub held i id(1) by (auto simp: y_def)
    then have "x' = y" using cache_okD(6) [OF ok h(2)] by simp
    moreover have "y \<in> set (rules l)" using sub [OF h(1)] i by (auto simp: y_def)
    ultimately show "tbl x' = tb \<and> af x' = f \<and> vrf_name x' = v"
      using cache_okD(5) [OF ok l] by (simp add: homed_def)
  qed
  have "r \<in> set (rules ?l)" using i by (simp add: set_update_memI)
  then show r: "holds c' r" unfolding c'_def holds_set_list' ..
  have ids: "holds c' x \<longleftrightarrow> holds c x" if "rule_id x \<noteq> Some k" for x
  proof -
    have "x \<in> set (rules ?l) \<longleftrightarrow> x \<in> set (rules l)"
    proof
      assume "x \<in> set (rules l)"
      then obtain j where j: "j < length (rules l)" "rules l ! j = x" by (auto simp: in_set_conv_nth)
      with that id have "j \<noteq> i" by auto
      with j show "x \<in> set (rules ?l)" by (auto simp: in_set_conv_nth intro!: exI [of _ j])
    qed (use sub that id in auto)
    then show ?thesis unfolding c'_def holds_set_list' holds_split [of c x tb f v] by (auto simp: l)
  qed
  show "abs_rules c' = (abs_rules c)(k \<mapsto> norm r)"
  proof (rule abs_eqI [OF ok'])
    fix j z
    show "(\<exists>q. holds c' q \<and> rule_id q = Some j \<and> norm q = z) \<longleftrightarrow> ((abs_rules c)(k \<mapsto> norm r)) j = Some z"
    proof (cases "j = k")
      case True
      have "q = r" if "holds c' q" "rule_id q = Some k" for q
        using cache_okD(6) [OF ok' that(1) r] that(2) id by simp
      with True r id(2) show ?thesis by (metis fun_upd_same option.inject)
    next
      case False
      with ids have "holds c' q \<and> rule_id q = Some j \<longleftrightarrow> holds c q \<and> rule_id q = Some j" for q
        by auto
      with False show ?thesis by (simp add: abs_iff [OF ok] flip: conj_assoc)
    qed
  qed
qed

lemma abs_held: "cache_ok c \<Longrightarrow> holds c r \<Longrightarrow> rule_id r = Some k \<Longrightarrow> abs_rules c k = Some (norm r)"
  by (auto simp: abs_iff)

text \<open>Rules of one list that are equal are the same rule; so are equal rules of the cache.\<close>

lemma held_unique:
  assumes ok: "cache_ok c" and x: "holds c x" and y: "holds c y" and eq: "same x y"
  shows "x = y"
proof -
  from holds_home [OF ok x] obtain l where
    l: "get_list (tbl x) (af x) (vrf_name x) c = Some l" "x \<in> set (rules l)" by blast
  have "tbl y = tbl x" "af y = af x" "vrf_name y = vrf_name x"
    using same_home [OF eq] by simp_all
  with holds_home [OF ok y] l(1) have "y \<in> set (rules l)" by (metis option.inject)
  with l(2) obtain i j where ij: "i < length (rules l)" "rules l ! i = x" "j < length (rules l)" "rules l ! j = y"
    by (auto simp: in_set_conv_nth)
  have "no_equal same (rules l)" using cache_okD(4) [OF ok l(1)] by (simp add: rl_wf_def)
  then have "i = j"
    using ij eq same_sym unfolding no_equal_def sorted_wrt_iff_nth_less by (metis linorder_neqE_nat)
  with ij show ?thesis by simp
qed

definition found_at :: "('t, 'a svcs_rule_scheme) rule_cache \<Rightarrow> int \<Rightarrow> 'a svcs_rule_scheme \<Rightarrow> nat \<Rightarrow> bool" where
  "found_at c k r i \<longleftrightarrow> (\<exists>l. get_list (tbl r) (af r) (vrf_name r) c = Some l \<and>
     i < length (rules l) \<and> rules l ! i = r \<and> rule_id r = Some k)"

lemma found_at_lock [simp]:
  "found_at (lock c) k r i = found_at c k r i" "found_at (unlock c) k r i = found_at c k r i"
  by (simp_all add: found_at_def)

lemma found_at_holds: "found_at c k r i \<Longrightarrow> holds c r \<and> rule_id r = Some k"
  unfolding found_at_def holds_def by (metis nth_mem)

text \<open>A rule has left its list: what is left, and what putting it back gives.\<close>

lemma delete_held:
  assumes ok: "cache_ok c" and l: "get_list tb f v c = Some l" and i: "i < length (rules l)"
    and l1: "rules l1 = list_del i (rules l)" "rl_wf same l1" and d: "rules l ! i = d" "rule_id d = Some k"
  defines "c1 \<equiv> set_list tb f v l1 c"
  shows "cache_ok c1" and "abs_rules c1 = (abs_rules c)(k := None)" and "at_home c1 tb f v d"
    and "\<forall>x. holds c1 x \<longrightarrow> rule_id x \<noteq> rule_id d" and "\<forall>x\<in>set (rules l1). \<not> same x d"
    and "(abs_rules c1)(k \<mapsto> norm d) = abs_rules c"
proof -
  have wf: "rl_wf same l" by (rule cache_okD(4) [OF ok l])
  have mem: "d \<in> set (rules l)" using d(1) i by auto
  have dist: "distinct (rules l)" using wf by (simp add: rl_wf_def distinct_map)
  have set: "set (rules l1) = set (rules l) - {d}"
    using set_list_del_distinct [OF dist i] l1(1) d(1) by simp
  show ok1: "cache_ok c1" unfolding c1_def by (rule cache_ok_shrink [OF ok l l1(2)]) (auto simp: set)
  have held: "holds c d" using l mem unfolding holds_def by blast
  have h: "holds c1 x \<longleftrightarrow> holds c x \<and> x \<noteq> d" for x
    unfolding c1_def by (rule holds_shrink [OF ok l mem set])
  have home: "at_home c tb f v d" by (rule cache_okD(5) [OF ok l mem])
  then show "at_home c1 tb f v d" by (simp add: homed_def c1_def)
  show "\<forall>x. holds c1 x \<longrightarrow> rule_id x \<noteq> rule_id d"
    using cache_okD(6) [OF ok _ held] by (auto simp: h)
  show "\<forall>x\<in>set (rules l1). \<not> same x d"
  proof
    fix x assume "x \<in> set (rules l1)"
    then have "x \<noteq> d" "x \<in> set (rules l)" by (auto simp: set)
    moreover from this l have "holds c x" unfolding holds_def by blast
    ultimately show "\<not> same x d" using held_unique [OF ok _ held] by blast
  qed
  show abs: "abs_rules c1 = (abs_rules c)(k := None)"
  proof (rule abs_eqI [OF ok1])
    fix j z
    have "q = d" if "holds c q" "rule_id q = Some k" for q
      using cache_okD(6) [OF ok that(1) held] that(2) d(2) by simp
    then have "holds c1 q \<and> rule_id q = Some j \<longleftrightarrow> j \<noteq> k \<and> holds c q \<and> rule_id q = Some j" for q
      using h [of q] d(2) by (metis option.inject)
    then show "(\<exists>q. holds c1 q \<and> rule_id q = Some j \<and> norm q = z) \<longleftrightarrow> ((abs_rules c)(k := None)) j = Some z"
      by (simp add: abs_iff [OF ok] flip: conj_assoc)
  qed
  show "(abs_rules c1)(k \<mapsto> norm d) = abs_rules c"
    using abs_held [OF ok held d(2)] by (simp add: abs fun_upd_idem)
qed

lemma finish_ok:
  assumes ok: "cache_ok c" and l: "get_list tb f v c = Some l"
    and fresh: "\<forall>x. holds c x \<longrightarrow> rule_id x \<noteq> Some k"
  defines "c' \<equiv> release_rule_id (Some k) (unlock (if rules l = [] then del_list tb f v c else c))"
  shows "cache_ok c'" and "abs_rules c' = abs_rules c" and "c_mutex c' = c_mutex c - 1"
proof -
  let ?c = "unlock (if rules l = [] then del_list tb f v c else c)"
  have ok2: "cache_ok ?c" using ok cache_ok_del_list [OF ok] by simp
  have h: "holds ?c x \<longleftrightarrow> holds c x" for x using holds_del_empty [OF l] by simp
  show ok': "cache_ok c'" unfolding c'_def by (rule cache_ok_release [OF ok2]) (use fresh h in auto)
  show "abs_rules c' = abs_rules c"
    by (rule abs_same_holds [OF ok ok']) (simp only: c'_def holds_simps(4) h)
qed (simp add: c'_def)

lemma held_abs:
  assumes "cache_ok c" "holds c x"
  obtains k where "rule_id x = Some k" "abs_rules c k = Some (norm x)"
  using holds_home [OF assms] abs_held [OF assms] unfolding homed_def by metis

text \<open>The rule that replaces another one has its place, and no third rule equals it.\<close>

definition may_replace :: "(int \<Rightarrow> 'a svcs_rule_scheme option) \<Rightarrow> int \<Rightarrow> 'a svcs_rule_scheme \<Rightarrow> bool" where
  "may_replace m k r \<longleftrightarrow> rule_id r = Some k \<and>
     (\<forall>q. m k = Some q \<longrightarrow> tbl r = tbl q \<and> af r = af q \<and> vrf_name r = vrf_name q \<and>
        prio_key r = prio_key q) \<and>
     (\<forall>j q. m j = Some q \<longrightarrow> same q r \<longrightarrow> j = k)"

lemma match_rule_spec:
  assumes ok: "cache_ok c"
  shows "match_rule same tbl r c = None \<Longrightarrow> holds c x \<Longrightarrow> \<not> same x r"
    and "match_rule same tbl r c = Some m \<Longrightarrow> holds c m \<and> same m r"
proof -
  assume none: "match_rule same tbl r c = None" and x: "holds c x"
  show "\<not> same x r"
  proof
    assume eq: "same x r"
    from holds_home [OF ok x] obtain l where
      "get_list (tbl x) (af x) (vrf_name x) c = Some l" "x \<in> set (rules l)" .
    moreover have "tbl r = tbl x" "af r = af x" "vrf_name r = vrf_name x"
      using same_home [OF eq] by simp_all
    ultimately show False
      using none eq by (auto simp: match_rule_def list_find_def py_simps)
  qed
next
  assume "match_rule same tbl r c = Some m"
  then obtain l i where l: "get_list (tbl r) (af r) (vrf_name r) c = Some l"
    "list_find same r l = Some i" "m = rules l ! i"
    by (auto simp: match_rule_def split: option.splits)
  then have i: "i < length (rules l)" "same m r" by (auto simp: list_find_def list_index_Some)
  then have "m \<in> set (rules l)" by (simp add: l(3))
  with l(1) i show "holds c m \<and> same m r" unfolding holds_def by blast
qed

end

end
