(* ===== verification/IncomingCache.thy ===== *)
theory IncomingCache
  imports Iptables RuleCache
begin

text \<open>
  \<^verbatim>\<open>scripts/lib/python/dn_base_vrf_svcs_config.py\<close>, the class \<open>VrfIncomingSvcsRuleCache\<close>: the
  incoming rules of every namespace, kept in step with \<^verbatim>\<open>iptables\<close>, and the functions of the
  module that work on it.
\<close>

section \<open>The state of the class\<close>

datatype in_table = IpRules | AclRules

type_synonym in_dict = "(string \<times> in_rule rule_list) list"

type_synonym in_cache = "(in_table, in_rule) rule_cache"

type_synonym 'w in_state = "in_cache \<times> 'w tool"

definition table_of :: "in_rule \<Rightarrow> in_table" where
  "table_of r = (if rule_type r = RULE_TYPE_IP then IpRules else AclRules)"

definition in_proc ::
  "'w ext \<Rightarrow> ipt_op \<Rightarrow> in_rule \<Rightarrow> nat option \<Rightarrow> 'w in_state \<Rightarrow> (bool \<times> rule_stats option, 'w in_state) outcome" where
  "in_proc E op r idx s =
     (case s of (c, t) \<Rightarrow> (case proc_rule E op (InRule r) idx t of (x, t') \<Rightarrow> (x, (c, t'))))"

section \<open>Insertion and deletion\<close>

text \<open>
  \<open>insert_rule\<close>; the result is the return value and the rule, whose identifier the code
  assigns. When \<^verbatim>\<open>iptables\<close> refuses the rule it leaves the list again, but its identifier stays
  reserved.
\<close>

definition insert_rule :: "'w ext \<Rightarrow> in_rule \<Rightarrow> 'w in_state \<Rightarrow> (bool \<times> in_rule, 'w in_state) outcome" where
  "insert_rule E r s =
     (case s of (c0, t) \<Rightarrow>
        (let tb = table_of r; f = af r; v = vrf_name r;
             c1 = lock c0;
             c2 = (if get_list tb f v c1 = None then set_list tb f v empty_rule_list c1 else c1)
         in (case assign_id r (c_ids c2) of
               (None, g) \<Rightarrow> (Inr (False, r), (unlock (set_ids g c2), t))
             | (Some r1, g) \<Rightarrow>
                 (let c3 = set_ids g c2;
                      l = the (get_list tb f v c3)
                  in (case in_list_insert r1 l of
                        (None, _) \<Rightarrow> (Inr (False, r1), (unlock (release_rule_id (rule_id r1) c3), t))
                      | (Some idx, l1) \<Rightarrow>
                          and_then (in_proc E OpInsert r1 (Some idx) (set_list tb f v l1 c3, t)) (\<lambda>(ok, _) (c4, t1).
                            if ok then (Inr (True, r1), (unlock c4, t1))
                            else
                              (case in_list_remove r1 l1 of
                                 (Inl e, l2) \<Rightarrow> (Inl e, (set_list tb f v l2 c4, t1))
                               | (Inr _, l2) \<Rightarrow>
                                   (Inr (False, r1), (unlock (set_list tb f v l2 c4), t1))))))))) "

text \<open>
  The common end of the two deletions, once the rule has left its list: remove it from
  \<^verbatim>\<open>iptables\<close>, put it back into the list when that fails, and drop the list when it is empty.
\<close>

definition finish_delete ::
  "'w ext \<Rightarrow> in_table \<Rightarrow> address_family \<Rightarrow> string \<Rightarrow> in_rule \<Rightarrow> nat \<Rightarrow> int option \<Rightarrow> 'w in_state \<Rightarrow>
   (bool, 'w in_state) outcome" where
  "finish_delete E tb f v d idx rid s =
     and_then (in_proc E OpDelete d (Some idx) s) (\<lambda>(ok, _) (c1, t1).
       (case (if ok then Some c1
              else (case get_list tb f (vrf_name d) c1 of
                      None \<Rightarrow> None
                    | Some l \<Rightarrow> Some (set_list tb f (vrf_name d) (snd (in_list_insert d l)) c1))) of
          None \<Rightarrow> (Inl KeyError, (c1, t1))
        | Some c2 \<Rightarrow>
            (case get_list tb f v c2 of
               None \<Rightarrow> (Inl KeyError, (c2, t1))
             | Some l \<Rightarrow>
                 (let c3 = unlock (if rules l = [] then del_list tb f v c2 else c2)
                  in (Inr ok, (if ok then release_rule_id rid c3 else c3, t1))))))"

definition delete_rule :: "'w ext \<Rightarrow> in_rule \<Rightarrow> 'w in_state \<Rightarrow> (bool, 'w in_state) outcome" where
  "delete_rule E r s =
     (case s of (c0, t) \<Rightarrow>
        (let tb = table_of r; f = af r; v = vrf_name r; c1 = lock c0
         in (case get_list tb f v c1 of
               None \<Rightarrow> (Inr False, (unlock c1, t))
             | Some l \<Rightarrow>
                 (case in_list_remove r l of
                    (Inl e, l1) \<Rightarrow> (Inl e, (set_list tb f v l1 c1, t))
                  | (Inr None, l1) \<Rightarrow> (Inr False, (unlock (set_list tb f v l1 c1), t))
                  | (Inr (Some (d, idx)), l1) \<Rightarrow>
                      finish_delete E tb f v d idx (rule_id d) (set_list tb f v l1 c1, t)))))"

section \<open>Search\<close>

text \<open>The order of the loops over the dictionaries.\<close>

definition loc_order :: "(in_table \<times> address_family) list" where
  "loc_order = [(IpRules, AF_INET), (AclRules, AF_INET), (IpRules, AF_INET6), (AclRules, AF_INET6)]"

definition set_stats :: "rule_stats option \<Rightarrow> in_rule \<Rightarrow> in_rule" where
  "set_stats st r = (case st of None \<Rightarrow> r | Some (p, b) \<Rightarrow> r\<lparr>packet_count := p, byte_count := b\<rparr>)"

text \<open>Reading the counters of the rule at a position into the rule.\<close>

definition refresh ::
  "'w ext \<Rightarrow> in_table \<Rightarrow> address_family \<Rightarrow> string \<Rightarrow> nat \<Rightarrow> 'w in_state \<Rightarrow> (in_rule, 'w in_state) outcome" where
  "refresh E tb f v idx s =
     (let l = the (get_list tb f v (fst s)); r = rules l ! idx
      in if \<not> idx < length (rules l) then (Inl IndexError, s)
         else
           and_then (in_proc E OpGet r (Some idx) s) (\<lambda>(_, st) (c1, t1).
             (Inr (set_stats st r), (set_list tb f v (rl_set idx (set_stats st r) l) c1, t1))))"

definition find_rule_by_id ::
  "'w ext \<Rightarrow> int \<Rightarrow> 'w in_state \<Rightarrow> ((in_rule \<times> nat) option, 'w in_state) outcome" where
  "find_rule_by_id E k s =
     (case s of (c0, t) \<Rightarrow>
        (let c1 = lock c0
         in (case find_loc k loc_order c1 of
               None \<Rightarrow> (Inr None, (unlock c1, t))
             | Some (tb, f, v, idx) \<Rightarrow>
                 and_then (refresh E tb f v idx (c1, t)) (\<lambda>r (c2, t1).
                   (Inr (Some (r, idx)), (unlock c2, t1))))))"

definition find_rule_by_match :: "in_rule \<Rightarrow> in_cache \<Rightarrow> in_rule option" where
  "find_rule_by_match r c = match_rule in_eq table_of r c"

text \<open>\<open>delete_rule_by_id\<close>; the second component is the rule object that was deleted.\<close>

definition delete_by_id_obj ::
  "'w ext \<Rightarrow> int \<Rightarrow> 'w in_state \<Rightarrow> (bool \<times> in_rule option, 'w in_state) outcome" where
  "delete_by_id_obj E k s =
     (case s of (c0, t) \<Rightarrow>
        and_then (find_rule_by_id E k (lock c0, t)) (\<lambda>found (c1, t1).
          (case found of
             None \<Rightarrow> (Inr (False, None), (unlock c1, t1))
           | Some (d, idx) \<Rightarrow>
               (let tb = table_of d; f = af d; v = vrf_name d
                in (case get_list tb f v c1 of
                      None \<Rightarrow> (Inl KeyError, (c1, t1))
                    | Some l \<Rightarrow>
                        (case in_list_remove_by_id k l of
                           (Inl e, l1) \<Rightarrow> (Inl e, (set_list tb f v l1 c1, t1))
                         | (Inr None, l1) \<Rightarrow> (Inr (False, None), (unlock (set_list tb f v l1 c1), t1))
                         | (Inr (Some _), l1) \<Rightarrow>
                             and_then (finish_delete E tb f v d idx (Some k) (set_list tb f v l1 c1, t1))
                               (\<lambda>ok s1. (Inr (ok, Some d), s1))))))))"

definition delete_rule_by_id :: "'w ext \<Rightarrow> int \<Rightarrow> 'w in_state \<Rightarrow> (bool, 'w in_state) outcome" where
  "delete_rule_by_id E k s = and_then (delete_by_id_obj E k s) (\<lambda>(ok, _) s1. (Inr ok, s1))"

section \<open>Change\<close>

definition replace_rule :: "'w ext \<Rightarrow> int \<Rightarrow> in_rule \<Rightarrow> 'w in_state \<Rightarrow> (bool, 'w in_state) outcome" where
  "replace_rule E k new s =
     (case s of (c0, t) \<Rightarrow>
        and_then (find_rule_by_id E k (lock c0, t)) (\<lambda>found (c1, t1).
          (case found of
             None \<Rightarrow> (Inr False, (unlock c1, t1))
           | Some (old, idx) \<Rightarrow>
               and_then (in_proc E OpReplace new (Some idx) (c1, t1)) (\<lambda>(ok, _) (c2, t2).
                 if \<not> ok then (Inr False, (unlock c2, t2))
                 else
                   (let tb = table_of old; f = af old; v = vrf_name old
                    in (case get_list tb f v c2 of
                          None \<Rightarrow> (Inl KeyError, (c2, t2))
                        | Some l \<Rightarrow> (Inr True, (unlock (set_list tb f v (rl_set idx new l) c2), t2))))))))"

text \<open>The parameters of an update, each with the attribute it sets.\<close>

datatype param =
    P_src_ip packed | P_src_prefix_len int | P_protocol int | P_dst_ip packed | P_dst_prefix_len int
  | P_dst_port int | P_low_dst_port int | P_high_dst_port int | P_action int | P_in_intf string
  | P_seq_num int

fun param_attr :: "param \<Rightarrow> attr" where
  "param_attr (P_src_ip _) = A_src_ip"
| "param_attr (P_src_prefix_len _) = A_src_prefix_len"
| "param_attr (P_protocol _) = A_protocol"
| "param_attr (P_dst_ip _) = A_dst_ip"
| "param_attr (P_dst_prefix_len _) = A_dst_prefix_len"
| "param_attr (P_dst_port _) = A_dst_port"
| "param_attr (P_low_dst_port _) = A_low_dst_port"
| "param_attr (P_high_dst_port _) = A_high_dst_port"
| "param_attr (P_action _) = A_action"
| "param_attr (P_in_intf _) = A_in_intf"
| "param_attr (P_seq_num _) = A_seq_num"

fun param_val :: "param \<Rightarrow> attr_val" where
  "param_val (P_src_ip b) = VBytes b"
| "param_val (P_dst_ip b) = VBytes b"
| "param_val (P_in_intf s) = VStr s"
| "param_val (P_src_prefix_len n) = VInt n"
| "param_val (P_protocol n) = VInt n"
| "param_val (P_dst_prefix_len n) = VInt n"
| "param_val (P_dst_port n) = VInt n"
| "param_val (P_low_dst_port n) = VInt n"
| "param_val (P_high_dst_port n) = VInt n"
| "param_val (P_action n) = VInt n"
| "param_val (P_seq_num n) = VInt n"

text \<open>\<^verbatim>\<open>setattr(rule, key, val)\<close>, with the checks of \<open>__setattr__\<close>.\<close>

fun set_param :: "param \<Rightarrow> in_rule \<Rightarrow> exn + in_rule" where
  "set_param (P_src_ip b) r = Inr (r\<lparr>src_ip := Some b\<rparr>)"
| "set_param (P_src_prefix_len n) r = Inr (r\<lparr>src_prefix_len := Some n\<rparr>)"
| "set_param (P_protocol n) r =
     try_bind (checked proto_of_int in_proto_name n) (\<lambda>p. Inr (r\<lparr>protocol := Some p\<rparr>))"
| "set_param (P_dst_ip b) r = Inr (r\<lparr>dst_ip := Some b\<rparr>)"
| "set_param (P_dst_prefix_len n) r = Inr (r\<lparr>dst_prefix_len := Some n\<rparr>)"
| "set_param (P_dst_port n) r = Inr (r\<lparr>dst_port := Some n\<rparr>)"
| "set_param (P_low_dst_port n) r = Inr (r\<lparr>low_dst_port := Some n\<rparr>)"
| "set_param (P_high_dst_port n) r = Inr (r\<lparr>high_dst_port := Some n\<rparr>)"
| "set_param (P_action n) r =
     try_bind (checked action_of_int (in_action_name False) n) (\<lambda>a. Inr (r\<lparr>action := a\<rparr>))"
| "set_param (P_in_intf s) r = Inr (in_set_intf (Some s) r)"
| "set_param (P_seq_num n) r = Inr (r\<lparr>seq_num := n\<rparr>)"

text \<open>The loop over the parameters: the changed rule and the attributes that changed.\<close>

fun check_and_set :: "param list \<Rightarrow> in_rule \<Rightarrow> attr list \<Rightarrow> exn + (in_rule \<times> attr list)" where
  "check_and_set [] r changed = Inr (r, changed)"
| "check_and_set (p # ps) r changed =
     (if map_of (in_vars r) (param_attr p) = Some (param_val p) then check_and_set ps r changed
      else try_bind (set_param p r) (\<lambda>r1. check_and_set ps r1 (param_attr p # changed)))"

definition repl_attrs :: "attr list" where
  "repl_attrs = [A_src_ip, A_src_prefix_len, A_dst_ip, A_dst_prefix_len, A_protocol, A_dst_port,
     A_low_dst_port, A_high_dst_port, A_action, A_in_intf]"

text \<open>
  The end of \<open>update_rule\<close>, for a changed rule that does not clash: delete and insert when an
  attribute changed that \<^verbatim>\<open>iptables\<close> cannot replace in place, otherwise replace. When the new
  rule cannot be inserted the old one is inserted again; that result is ignored.
\<close>

definition update_found ::
  "'w ext \<Rightarrow> int \<Rightarrow> in_rule \<Rightarrow> in_rule \<Rightarrow> attr list \<Rightarrow> 'w in_state \<Rightarrow> (bool, 'w in_state) outcome" where
  "update_found E k old upd changed s =
     (if list_all (\<lambda>a. a \<in> set repl_attrs) changed then
        and_then (replace_rule E k upd s) (\<lambda>ok (c1, t1). (Inr ok, (unlock c1, t1)))
      else
        and_then (delete_by_id_obj E k s) (\<lambda>(deleted, obj) (c1, t1).
          if \<not> deleted then (Inr False, (unlock c1, t1))
          else
            and_then (insert_rule E upd (c1, t1)) (\<lambda>(ok, _) (c2, t2).
              if ok then (Inr True, (unlock c2, t2))
              else
                and_then (insert_rule E (case obj of Some d \<Rightarrow> d | None \<Rightarrow> old) (c2, t2)) (\<lambda>_ (c3, t3).
                  (Inr False, (unlock c3, t3))))))"

definition update_rule :: "'w ext \<Rightarrow> int \<Rightarrow> param list \<Rightarrow> 'w in_state \<Rightarrow> (bool, 'w in_state) outcome" where
  "update_rule E k ps s =
     (case s of (c0, t) \<Rightarrow>
        and_then (find_rule_by_id E k (lock c0, t)) (\<lambda>found (c1, t1).
          (case found of
             None \<Rightarrow> (Inr False, (unlock c1, t1))
           | Some (old, _) \<Rightarrow>
               (case check_and_set ps old [] of
                  Inl e \<Rightarrow> (Inl e, (c1, t1))
                | Inr (upd, changed) \<Rightarrow>
                    if changed = [] then (Inr True, (unlock c1, t1))
                    else
                      (case find_rule_by_match upd c1 of
                         Some m \<Rightarrow>
                           if rule_id m \<noteq> rule_id old then (Inr False, (unlock c1, t1))
                           else update_found E k old upd changed (c1, t1)
                       | None \<Rightarrow> update_found E k old upd changed (c1, t1))))))"

section \<open>Whole lists\<close>

text \<open>\<open>clear_all_rules\<close>: the rules of a list, the lists of a dictionary, all dictionaries.\<close>

fun clear_rules :: "'w ext \<Rightarrow> in_rule list \<Rightarrow> 'w in_state \<Rightarrow> (unit, 'w in_state) outcome" where
  "clear_rules E [] s = (Inr (), s)"
| "clear_rules E (r # rs) s =
     and_then (in_proc E OpDelete r None s) (\<lambda>_ (c, t). clear_rules E rs (release_rule_id (rule_id r) c, t))"

fun clear_lists ::
  "'w ext \<Rightarrow> in_table \<Rightarrow> address_family \<Rightarrow> string option \<Rightarrow> in_dict \<Rightarrow> 'w in_state \<Rightarrow> (unit, 'w in_state) outcome" where
  "clear_lists E tb f flt [] s = (Inr (), s)"
| "clear_lists E tb f flt ((v, l) # rest) s =
     (if flt \<noteq> None \<and> flt \<noteq> Some v then clear_lists E tb f flt rest s
      else
        and_then (clear_rules E (rules l) s) (\<lambda>_ (c, t).
          clear_lists E tb f flt rest (del_list tb f v c, t)))"

fun clear_tables ::
  "'w ext \<Rightarrow> string option \<Rightarrow> address_family option \<Rightarrow> (in_table \<times> address_family) list \<Rightarrow>
   'w in_state \<Rightarrow> (unit, 'w in_state) outcome" where
  "clear_tables E flt flt_af [] s = (Inr (), s)"
| "clear_tables E flt flt_af ((tb, f) # rest) s =
     (if flt_af \<noteq> None \<and> flt_af \<noteq> Some f then clear_tables E flt flt_af rest s
      else
        and_then (clear_lists E tb f flt (c_tables (fst s) tb f) s) (\<lambda>_. clear_tables E flt flt_af rest))"

definition clear_all_rules ::
  "'w ext \<Rightarrow> string option \<Rightarrow> address_family option \<Rightarrow> 'w in_state \<Rightarrow> (unit, 'w in_state) outcome" where
  "clear_all_rules E flt flt_af s =
     (case s of (c0, t) \<Rightarrow>
        and_then (clear_tables E flt flt_af loc_order (lock c0, t)) (\<lambda>_ (c1, t1). (Inr (), (unlock c1, t1))))"

text \<open>\<open>get_all_rules\<close>: the copies of the matching rules, their counters refreshed.\<close>

fun get_rules_loop ::
  "'w ext \<Rightarrow> in_table \<Rightarrow> address_family \<Rightarrow> string \<Rightarrow> (attr \<times> attr_val) list \<Rightarrow> nat list \<Rightarrow>
   'w in_state \<Rightarrow> (in_rule list, 'w in_state) outcome" where
  "get_rules_loop E tb f v params [] s = (Inr [], s)"
| "get_rules_loop E tb f v params (i # is) s =
     (let l = the (get_list tb f v (fst s)); r = rules l ! i
      in if \<not> in_match r params then get_rules_loop E tb f v params is s
         else
           and_then
             (case (if rule_id r = None then None else rule_id_map l (rule_id r)) of
                None \<Rightarrow> (Inr r, s)
              | Some idx \<Rightarrow>
                  and_then (in_proc E OpGet r (Some idx) s) (\<lambda>(_, st) (c1, t1).
                    (Inr (set_stats st r), (set_list tb f v (rl_set i (set_stats st r) l) c1, t1))))
             (\<lambda>x s1. and_then (get_rules_loop E tb f v params is s1) (\<lambda>xs s2. (Inr (x # xs), s2))))"

fun get_lists_loop ::
  "'w ext \<Rightarrow> in_table \<Rightarrow> address_family \<Rightarrow> string option \<Rightarrow> (attr \<times> attr_val) list \<Rightarrow> in_dict \<Rightarrow>
   'w in_state \<Rightarrow> (in_rule list, 'w in_state) outcome" where
  "get_lists_loop E tb f flt params [] s = (Inr [], s)"
| "get_lists_loop E tb f flt params ((v, l) # rest) s =
     (if flt \<noteq> None \<and> flt \<noteq> Some v then get_lists_loop E tb f flt params rest s
      else
        and_then (get_rules_loop E tb f v params [0..<length (rules l)] s) (\<lambda>xs s1.
        and_then (get_lists_loop E tb f flt params rest s1) (\<lambda>ys s2. (Inr (xs @ ys), s2))))"

fun get_tables_loop ::
  "'w ext \<Rightarrow> VrfSvcsRuleType option \<Rightarrow> string option \<Rightarrow> (attr \<times> attr_val) list \<Rightarrow>
   (in_table \<times> address_family) list \<Rightarrow> 'w in_state \<Rightarrow> (in_rule list, 'w in_state) outcome" where
  "get_tables_loop E rt flt params [] s = (Inr [], s)"
| "get_tables_loop E rt flt params ((tb, f) # rest) s =
     (if rt = None \<or> rt = Some (case tb of IpRules \<Rightarrow> RULE_TYPE_IP | AclRules \<Rightarrow> RULE_TYPE_ACL) then
        and_then (get_lists_loop E tb f flt params (c_tables (fst s) tb f) s) (\<lambda>xs s1.
        and_then (get_tables_loop E rt flt params rest s1) (\<lambda>ys s2. (Inr (xs @ ys), s2)))
      else get_tables_loop E rt flt params rest s)"

definition get_all_rules ::
  "'w ext \<Rightarrow> VrfSvcsRuleType option \<Rightarrow> string option \<Rightarrow> (attr \<times> attr_val) list \<Rightarrow> 'w in_state \<Rightarrow>
   (in_rule list, 'w in_state) outcome" where
  "get_all_rules E rt flt params s =
     (case s of (c0, t) \<Rightarrow>
        and_then (get_tables_loop E rt flt params loc_order (lock c0, t))
          (\<lambda>xs (c1, t1). (Inr xs, (unlock c1, t1))))"

definition check_ipt_rules ::
  "'w ext \<Rightarrow> VrfSvcsRuleType \<Rightarrow> address_family \<Rightarrow> string \<Rightarrow> 'w in_state \<Rightarrow> (bool, 'w in_state) outcome" where
  "check_ipt_rules E rt f v s =
     (case s of (c0, t) \<Rightarrow>
        (let c1 = lock c0;
             rs = (case (if rt = RULE_TYPE_IP then get_list IpRules f v c1
                         else if rt = RULE_TYPE_ACL then get_list AclRules f v c1 else None) of
                     None \<Rightarrow> [] | Some l \<Rightarrow> rules l)
         in (case in_world (\<lambda>w. get_rule_from_ipt E rt f v w) t of
               (Inl e, t1) \<Rightarrow> (Inl e, (c1, t1))
             | (Inr None, t1) \<Rightarrow> (Inr False, (unlock c1, t1))
             | (Inr (Some ipt), t1) \<Rightarrow> (Inr (list_all2 in_eq rs ipt), (unlock c1, t1)))))"

section \<open>The functions of the module\<close>

definition process_vrf_svcs_rule_add ::
  "'w ext \<Rightarrow> int \<Rightarrow> string \<Rightarrow> int \<Rightarrow> int \<Rightarrow> in_args \<Rightarrow> 'w in_state \<Rightarrow> (int option, 'w in_state) outcome" where
  "process_vrf_svcs_rule_add E rt vrf act fam args s =
     catch None
       (and_then (VrfIncomingSvcsRule_init (cidr_packed E) rt vrf act fam args, s) (\<lambda>r s1.
        and_then (insert_rule E r s1) (\<lambda>(ok, r1) s2. (Inr (if ok then rule_id r1 else None), s2))))"

definition process_vrf_svcs_rule_set ::
  "'w ext \<Rightarrow> int \<Rightarrow> param list \<Rightarrow> 'w in_state \<Rightarrow> (bool, 'w in_state) outcome" where
  "process_vrf_svcs_rule_set E k ps s = catch False (update_rule E k ps s)"

definition process_vrf_svcs_rule_del ::
  "'w ext \<Rightarrow> int \<Rightarrow> string \<Rightarrow> int \<Rightarrow> int \<Rightarrow> in_args \<Rightarrow> 'w in_state \<Rightarrow> (bool, 'w in_state) outcome" where
  "process_vrf_svcs_rule_del E rt vrf act fam args s =
     catch False
       (and_then (VrfIncomingSvcsRule_init (cidr_packed E) rt vrf act fam args, s) (\<lambda>r s1. delete_rule E r s1))"

definition process_vrf_svcs_rule_del_by_id ::
  "'w ext \<Rightarrow> int \<Rightarrow> 'w in_state \<Rightarrow> (bool, 'w in_state) outcome" where
  "process_vrf_svcs_rule_del_by_id E k s = catch False (delete_rule_by_id E k s)"

definition process_vrf_svcs_rule_get ::
  "'w ext \<Rightarrow> int option \<Rightarrow> VrfSvcsRuleType option \<Rightarrow> string option \<Rightarrow> (attr \<times> attr_val) list \<Rightarrow>
   'w in_state \<Rightarrow> ((string \<times> attr_val) list list option, 'w in_state) outcome" where
  "process_vrf_svcs_rule_get E k rt vrf params s =
     catch None
       (case k of
          Some i \<Rightarrow>
            and_then (find_rule_by_id E i s) (\<lambda>found s1.
              (Inr (Some (case found of None \<Rightarrow> [] | Some (r, _) \<Rightarrow> [in_to_cps_obj r])), s1))
        | None \<Rightarrow>
            and_then (get_all_rules E rt vrf params s) (\<lambda>rs s1. (Inr (Some (map in_to_cps_obj rs)), s1)))"

definition process_vrf_svcs_clear_rules ::
  "'w ext \<Rightarrow> string option \<Rightarrow> 'w in_state \<Rightarrow> (bool, 'w in_state) outcome" where
  "process_vrf_svcs_clear_rules E vrf s =
     catch False (and_then (clear_all_rules E vrf None s) (\<lambda>_ s1. (Inr True, s1)))"

end
