(* ===== verification/CacheClear.thy ===== *)
theory CacheClear
  imports RuleCache
begin

text \<open>
  What the two caches share about \<open>clear_all_rules\<close>, the loops that empty the lists of a
  namespace or of all of them. While it clears a list, the code releases identifiers of rules that
  are still in it, so the invariant holds again only when the list is gone.
\<close>

definition drop_rules :: "('r \<Rightarrow> bool) \<Rightarrow> (int \<Rightarrow> 'r option) \<Rightarrow> int \<Rightarrow> 'r option" where
  "drop_rules P m k = (case m k of None \<Rightarrow> None | Some q \<Rightarrow> if P q then None else Some q)"

lemma drop_rules_Some: "drop_rules P m k = Some q \<longleftrightarrow> m k = Some q \<and> \<not> P q"
  by (auto simp: drop_rules_def split: option.splits if_splits)

lemma drop_rules_twice: "drop_rules P (drop_rules Q m) = drop_rules (\<lambda>q. Q q \<or> P q) m"
  by (rule ext) (simp add: drop_rules_def split: option.split)

lemma drop_rules_cong: "(\<And>k q. m k = Some q \<Longrightarrow> P q = Q q) \<Longrightarrow> drop_rules P m = drop_rules Q m"
  by (rule ext) (auto simp: drop_rules_def split: option.splits)

lemma drop_rules_none [simp]: "drop_rules (\<lambda>_. False) m = m"
  by (rule ext) (simp add: drop_rules_def split: option.split)

lemma set_ids_same [simp]: "set_ids (c_ids c) c = c" "set_ids g (set_ids h c) = set_ids g c"
  by (simp_all add: set_ids_def)

text \<open>The identifiers after the rules of a list are released, one by one.\<close>

definition released :: "'a svcs_rule_scheme list \<Rightarrow> id_gen \<Rightarrow> id_gen \<Rightarrow> bool" where
  "released rs g h \<longleftrightarrow> id_inv h \<and>
     (\<forall>i. is_id_used i h \<longleftrightarrow> is_id_used i g \<and> Some i \<notin> rule_id ` set rs)"

lemma released_Nil: "id_inv g \<Longrightarrow> released [] g g"
  by (simp add: released_def)

lemma released_Cons:
  assumes "id_inv (c_ids c)"
    and "\<And>c1. c1 = release_rule_id (rule_id r) c \<Longrightarrow> id_inv (c_ids c1) \<Longrightarrow>
      \<exists>h. c' = set_ids h c1 \<and> released rs (c_ids c1) h"
  shows "\<exists>h. c' = set_ids h c \<and> released (r # rs) (c_ids c) h"
proof (cases "rule_id r")
  case None
  with assms show ?thesis by (auto simp: release_rule_id_def released_def)
next
  case (Some k)
  define g where "g = snd (release_id k (c_ids c))"
  have g: "id_inv g" "is_id_used i g \<longleftrightarrow> is_id_used i (c_ids c) \<and> i \<noteq> k" for i
    using release_id_inv [OF assms(1)] by (auto simp: g_def is_id_used_def release_id_used)
  have c1: "release_rule_id (rule_id r) c = set_ids g c" by (simp add: release_rule_id_def Some g_def)
  from assms(2) [OF refl] g(1) obtain h where "c' = set_ids h c" "released rs g h" unfolding c1 by auto
  then show ?thesis by (intro exI [of _ h]) (auto simp: released_def g(2) Some)
qed

context rule_store
begin

definition cleared :: "('a svcs_rule_scheme \<Rightarrow> bool) \<Rightarrow> ('t, 'a svcs_rule_scheme) rule_cache \<Rightarrow>
    ('t, 'a svcs_rule_scheme) rule_cache \<Rightarrow> bool" where
  "cleared P c c' \<longleftrightarrow> cache_ok c' \<and> c_mutex c' = c_mutex c \<and> abs_rules c' = drop_rules P (abs_rules c)"

lemma cleared_refl: "cache_ok c \<Longrightarrow> (\<And>k q. abs_rules c k = Some q \<Longrightarrow> \<not> P q) \<Longrightarrow> cleared P c c"
  using drop_rules_cong [of "abs_rules c" P "\<lambda>_. False"] by (simp add: cleared_def)

lemma cleared_trans:
  assumes "cleared P c c1" "cleared Q c1 c'" "\<And>q. R q \<longleftrightarrow> P q \<or> Q q"
  shows "cleared R c c'"
proof -
  have "R = (\<lambda>q. P q \<or> Q q)" using assms(3) by blast
  with assms(1,2) show ?thesis by (simp add: cleared_def drop_rules_twice)
qed

lemma cleared_cong:
  assumes "cleared P c c'" "\<And>k q. abs_rules c k = Some q \<Longrightarrow> P q = Q q"
  shows "cleared Q c c'"
  using assms(1) drop_rules_cong [of "abs_rules c" P Q, OF assms(2)] by (simp add: cleared_def)

text \<open>One list: its identifiers are released, then it leaves its dictionary.\<close>

lemma cleared_list:
  assumes ok: "cache_ok c" and l: "get_list tb f v c = Some l"
    and g: "c1 = set_ids g c" "released (rules l) (c_ids c) g"
  defines "c' \<equiv> del_list tb f v c1"
  shows "cleared (\<lambda>q. tbl q = tb \<and> af q = f \<and> vrf_name q = v) c c'"
    and "\<And>v'. v' \<noteq> v \<Longrightarrow> get_list tb f v' c' = get_list tb f v' c"
proof -
  have c': "c' = set_ids g (del_list tb f v c)" by (simp add: c'_def g(1) set_ids_def del_list_def upd_dict_def)
  have ok1: "cache_ok (del_list tb f v c)" by (rule cache_ok_del_list [OF ok])
  have held: "holds (del_list tb f v c) x \<longleftrightarrow> holds c x \<and> x \<notin> set (rules l)" for x
  proof
    assume "holds (del_list tb f v c) x"
    then obtain tb' f' v' l' where l': "(tb', f', v') \<noteq> (tb, f, v)" "get_list tb' f' v' c = Some l'" "x \<in> set (rules l')"
      by (auto simp: holds_def split: if_splits)
    with cache_okD(5) [OF ok l'(2,3)] cache_okD(5) [OF ok l, of x] have "x \<notin> set (rules l)"
      by (auto simp: homed_def)
    with l' show "holds c x \<and> x \<notin> set (rules l)" unfolding holds_def by blast
  next
    assume "holds c x \<and> x \<notin> set (rules l)"
    then obtain tb' f' v' l' where "get_list tb' f' v' c = Some l'" "x \<in> set (rules l')" "x \<notin> set (rules l)"
      by (auto simp: holds_def)
    moreover from this l have "get_list tb' f' v' (del_list tb f v c) = Some l'" by auto
    ultimately show "holds (del_list tb f v c) x" unfolding holds_def by blast
  qed
  have ok': "cache_ok c'" unfolding c'
  proof (rule cache_ok_set_ids [OF ok1])
    show "id_inv g" using g(2) by (simp add: released_def)
  next
    fix i assume "is_id_used i (c_ids (del_list tb f v c))" "\<exists>r. holds (del_list tb f v c) r \<and> rule_id r = Some i"
    then obtain r where r: "is_id_used i (c_ids c)" "holds c r" "r \<notin> set (rules l)" "rule_id r = Some i"
      by (auto simp: held)
    have "rule_id q \<noteq> Some i" if "q \<in> set (rules l)" for q
    proof
      assume "rule_id q = Some i"
      moreover have "holds c q" using l that unfolding holds_def by blast
      ultimately have "q = r" using cache_okD(6) [OF ok _ r(2)] r(4) by simp
      with that r(3) show False by simp
    qed
    then have "Some i \<notin> rule_id ` set (rules l)" by force
    with g(2) r(1) show "is_id_used i g" by (simp add: released_def)
  qed
  have "abs_rules c' = drop_rules (\<lambda>q. tbl q = tb \<and> af q = f \<and> vrf_name q = v) (abs_rules c)"
  proof (rule abs_eqI [OF ok'])
    fix j z
    have "x \<in> set (rules l) \<longleftrightarrow> tbl x = tb \<and> af x = f \<and> vrf_name x = v" if "holds c x" for x
      by (rule holds_home [OF ok that]) (use l cache_okD(5) [OF ok l, of x] in \<open>auto simp: homed_def\<close>)
    then have *: "holds c' q \<longleftrightarrow> holds c q \<and> \<not> (tbl q = tb \<and> af q = f \<and> vrf_name q = v)" for q
      unfolding c' holds_simps held by (metis (no_types))
    show "(\<exists>q. holds c' q \<and> rule_id q = Some j \<and> norm q = z) \<longleftrightarrow>
        drop_rules (\<lambda>q. tbl q = tb \<and> af q = f \<and> vrf_name q = v) (abs_rules c) j = Some z"
      unfolding * drop_rules_Some abs_iff [OF ok] by (auto simp: norm_frame)
  qed
  with ok' show "cleared (\<lambda>q. tbl q = tb \<and> af q = f \<and> vrf_name q = v) c c'" by (simp add: cleared_def c')
  show "v' \<noteq> v \<Longrightarrow> get_list tb f v' c' = get_list tb f v' c" for v' by (simp add: c')
qed

text \<open>The rules of a dictionary are under its keys, so the loop over the keys reaches them all.\<close>

lemma cleared_table:
  assumes ok: "cache_ok c"
    and h: "cleared (\<lambda>q. tbl q = tb \<and> af q = f \<and> vrf_name q \<in> fst ` set (c_tables c tb f) \<and>
      (flt = None \<or> flt = Some (vrf_name q))) c c'"
  shows "cleared (\<lambda>q. tbl q = tb \<and> af q = f \<and> (flt = None \<or> flt = Some (vrf_name q))) c c'"
proof (rule cleared_cong [OF h])
  fix k q assume q: "abs_rules c k = Some q"
  then obtain r where r: "holds c r" "q = norm r" by (auto simp: abs_iff [OF ok])
  from r(1) have "tbl q = tb \<Longrightarrow> af q = f \<Longrightarrow> vrf_name q \<in> fst ` set (c_tables c tb f)"
    by (rule holds_home [OF ok])
      (use r(2) in \<open>force simp: get_list_def norm_frame dest: map_of_SomeD\<close>)
  then show "(tbl q = tb \<and> af q = f \<and> vrf_name q \<in> fst ` set (c_tables c tb f) \<and>
      (flt = None \<or> flt = Some (vrf_name q))) =
    (tbl q = tb \<and> af q = f \<and> (flt = None \<or> flt = Some (vrf_name q)))" by blast
qed

lemma dict_lists:
  "cache_ok c \<Longrightarrow> distinct (map fst (c_tables c tb f)) \<and> (\<forall>(v, l)\<in>set (c_tables c tb f). get_list tb f v c = Some l)"
  using cache_okD(2) [of c] by (auto simp: get_list_def keys_distinct_def)

end

end
