(* ===== verification/IncomingSpec.thy ===== *)
theory IncomingSpec
  imports IncomingCache CacheClear
begin

text \<open>
  What the incoming cache promises. The abstract view is a finite map from identifiers to
  rules, without the counters, which only mirror the kernel; \<open>cache_ok\<close> is the invariant that
  makes it a map. Each operation of \<open>IncomingCache\<close> is shown to keep the invariant on every
  path, also when it raises, and to do to the map what its name says when it returns.
\<close>

section \<open>The invariant and the view\<close>

definition nostats :: "in_rule \<Rightarrow> in_rule" where
  "nostats r = r\<lparr>packet_count := None, byte_count := None\<rparr>"

lemma nostats_frame [frame_simps]:
  "rule_id (nostats r) = rule_id r" "prio_key (nostats r) = prio_key r"
  "table_of (nostats r) = table_of r" "af (nostats r) = af r" "vrf_name (nostats r) = vrf_name r"
  "nostats (nostats r) = nostats r" "in_eq x (nostats r) = in_eq x r" "in_eq (nostats r) x = in_eq r x"
  "seq_num (nostats r) = seq_num r" "rule_type (nostats r) = rule_type r"
  "grp_priority (nostats r) = grp_priority r"
  unfolding prio_key_def table_of_def in_eq_iff by (simp_all add: nostats_def)

lemma loc_order_all: "(tb, f) \<in> set loc_order"
  by (cases tb; cases f) (simp_all add: loc_order_def)

interpretation ins: rule_store in_eq table_of loc_order nostats
  by unfold_locales (simp_all add: loc_order_all in_eq_iff table_of_def nostats_frame, simp_all add: nostats_def prio_key_def)

abbreviation cache_ok :: "in_cache \<Rightarrow> bool" where "cache_ok \<equiv> cache_inv in_eq table_of"

abbreviation abs_rules :: "in_cache \<Rightarrow> int \<Rightarrow> in_rule option" where
  "abs_rules \<equiv> abs_map nostats loc_order"

abbreviation at_home :: "in_cache \<Rightarrow> in_table \<Rightarrow> address_family \<Rightarrow> string \<Rightarrow> in_rule \<Rightarrow> bool" where
  "at_home \<equiv> homed table_of"

lemma table_of_id [simp]: "table_of (r\<lparr>rule_id := k\<rparr>) = table_of r"
  by (simp add: table_of_def)

lemmas in_match_spec = ins.match_rule_spec [folded find_rule_by_match_def]

lemmas in_insert_held = ins.insert_held [folded in_list_insert_def]

lemmas in_insert_undone =
  ins.insert_undone [where accept = "\<lambda>_ _. True", folded in_list_insert_def in_list_remove_def]

section \<open>Insertion\<close>

lemma in_proc_cache: "in_proc E op r idx s = (x, s') \<Longrightarrow> fst s' = fst s"
  by (auto simp: in_proc_def split: prod.splits)

lemma in_proc_pair: "in_proc E op r idx (c, t) = (x, s') \<Longrightarrow> \<exists>t'. s' = (c, t')"
  using in_proc_cache [of E op r idx "(c, t)" x s'] by (cases s') auto

text \<open>The part of \<open>insert_rule\<close> after the identifier is assigned.\<close>

definition insert_tail where
  "insert_tail E tb f v r1 c3 t =
     (case in_list_insert r1 (the (get_list tb f v c3)) of
        (None, _) \<Rightarrow> (Inr (False, r1), (unlock (release_rule_id (rule_id r1) c3), t))
      | (Some idx, l1) \<Rightarrow>
          and_then (in_proc E OpInsert r1 (Some idx) (set_list tb f v l1 c3, t)) (\<lambda>(ok, _) (c4, t1).
            if ok then (Inr (True, r1), (unlock c4, t1))
            else
              (case in_list_remove r1 l1 of
                 (Inl e, l2) \<Rightarrow> (Inl e, (set_list tb f v l2 c4, t1))
               | (Inr _, l2) \<Rightarrow> (Inr (False, r1), (unlock (set_list tb f v l2 c4), t1)))))"

lemma insert_tail_spec:
  assumes ok: "cache_ok c" and l: "get_list tb f v c = Some l" and home: "at_home c tb f v r"
    and fresh: "\<forall>x. holds c x \<longrightarrow> rule_id x \<noteq> rule_id r" and id: "rule_id r = Some k"
    and h: "insert_tail E tb f v r c t = (x, (c', t'))"
  shows "cache_ok c' \<and> (\<forall>b r1. x = Inr (b, r1) \<longrightarrow> r1 = r \<and> c_mutex c' = c_mutex c - 1 \<and>
    abs_rules c' = (if b then (abs_rules c)(k \<mapsto> nostats r) else abs_rules c))"
proof (cases "in_list_insert r l")
  case ins: (Pair i l1)
  show ?thesis
  proof (cases i)
    case None
    have rel: "cache_ok (release_rule_id (Some k) c)"
      by (rule ins.cache_ok_release [OF ok]) (use fresh id in auto)
    moreover have "x = Inr (False, r)" "c' = unlock (release_rule_id (Some k) c)"
      using h by (simp_all add: insert_tail_def l ins None id)
    ultimately show ?thesis using ins.abs_same_holds [OF ok rel] by simp
  next
    case (Some idx)
    define c4 where "c4 = set_list tb f v l1 c"
    note ins = ins [unfolded Some]
    from in_insert_undone [OF ok l ins home fresh] obtain l2 where
      l2: "in_list_remove r l1 = (Inr (Some (r, idx)), l2)" "cache_ok (set_list tb f v l2 c4)"
        "abs_rules (set_list tb f v l2 c4) = abs_rules c" unfolding c4_def by blast
    have ok4: "cache_ok c4" unfolding c4_def by (rule in_insert_held(1) [OF ok l ins home fresh])
    have abs4: "abs_rules c4 = (abs_rules c)(k \<mapsto> nostats r)"
      by (rule ins.abs_insert [OF ok ok4 id _ fresh]) (simp add: c4_def in_insert_held(2) [OF ok l ins home fresh])
    obtain y s1 where pr: "in_proc E OpInsert r (Some idx) (c4, t) = (y, s1)"
      by (cases "in_proc E OpInsert r (Some idx) (c4, t)")
    from in_proc_pair [OF pr] obtain t1 where s1: "s1 = (c4, t1)" by blast
    have "(\<exists>e. x = Inl e \<and> c' = c4) \<or> (x = Inr (True, r) \<and> c' = unlock c4) \<or>
        (x = Inr (False, r) \<and> c' = unlock (set_list tb f v l2 c4))"
      using h unfolding insert_tail_def l option.sel ins prod.case option.case c4_def [symmetric] pr s1 l2(1)
      by (cases y) (auto split: if_splits)
    then show ?thesis using ok4 l2(2,3) abs4 by (auto simp: c4_def)
  qed
qed

lemma insert_rule_tail:
  "insert_rule E r (c0, t) =
     (let tb = table_of r; f = af r; v = vrf_name r; c1 = lock c0;
          c2 = (if get_list tb f v c1 = None then set_list tb f v empty_rule_list c1 else c1)
      in (case assign_id r (c_ids c2) of
            (None, g) \<Rightarrow> (Inr (False, r), (unlock (set_ids g c2), t))
          | (Some r1, g) \<Rightarrow> insert_tail E tb f v r1 (set_ids g c2) t))"
  unfolding insert_rule_def Let_def insert_tail_def prod.case ..

lemma insert_rule_spec:
  assumes ok: "cache_ok c0" and h: "insert_rule E r (c0, t) = (x, (c', t'))"
  shows "cache_ok c' \<and> (\<forall>b r1. x = Inr (b, r1) \<longrightarrow> c_mutex c' = c_mutex c0 \<and>
    (if b then \<exists>k. r1 = r\<lparr>rule_id := Some k\<rparr> \<and> (rule_id r = None \<or> rule_id r = Some k) \<and>
               abs_rules c0 k = None \<and> abs_rules c' = (abs_rules c0)(k \<mapsto> nostats r1)
     else abs_rules c' = abs_rules c0))"
proof -
  define tb f v where "tb = table_of r" and "f = af r" and "v = vrf_name r"
  define c2 where "c2 = (if get_list tb f v (lock c0) = None
    then set_list tb f v empty_rule_list (lock c0) else lock c0)"
  note defs = tb_def [symmetric] f_def [symmetric] v_def [symmetric] c2_def [symmetric]
  have "cache_ok (lock c0)" using ok by simp
  note c2 = ins.ensure_list [OF this, of tb f v, folded c2_def, simplified]
  obtain l where l: "get_list tb f v c2 = Some l" using c2(4) by blast
  have ids2: "id_inv (c_ids c2)" by (rule ins.cache_okD(1) [OF c2(1)])
  have h: "(case assign_id r (c_ids c2) of
            (None, g) \<Rightarrow> (Inr (False, r), (unlock (set_ids g c2), t))
          | (Some r1, g) \<Rightarrow> insert_tail E tb f v r1 (set_ids g c2) t) = (x, (c', t'))"
    using h unfolding insert_rule_tail Let_def defs .
  show ?thesis
  proof (cases "assign_id r (c_ids c2)")
    case (Pair a g)
    show ?thesis
    proof (cases a)
      case None
      note g = assign_id_None [OF ids2 Pair [unfolded None]]
      have ok3: "cache_ok (set_ids g c2)" by (rule ins.cache_ok_set_ids [OF c2(1)]) (use g in auto)
      have "x = Inr (False, r)" "c' = unlock (set_ids g c2)" using h by (simp_all add: Pair None)
      with ok3 c2(3) ins.abs_same_holds [OF ok ok3] c2(2) show ?thesis by simp
    next
      case (Some r1)
      from assign_id_Some [OF ids2 Pair [unfolded Some]] obtain k where
        r1: "r1 = r\<lparr>rule_id := Some k\<rparr>" and k: "\<not> is_id_used k (c_ids c2)" "is_id_used k g"
        and g: "id_inv g" "\<forall>i. is_id_used i (c_ids c2) \<longrightarrow> is_id_used i g"
        and kr: "rule_id r = None \<or> rule_id r = Some k" by blast
      define c3 where "c3 = set_ids g c2"
      have ok3: "cache_ok c3" unfolding c3_def by (rule ins.cache_ok_set_ids [OF c2(1) g(1)]) (use g in auto)
      have l3: "get_list tb f v c3 = Some l" by (simp add: c3_def l)
      have home: "at_home c3 tb f v r1" by (simp add: homed_def r1 c3_def k tb_def f_def v_def)
      have "rule_id y \<noteq> rule_id r1" if y: "holds c2 y" for y
        by (rule ins.holds_home [OF c2(1) y]) (use k(1) in \<open>auto simp: homed_def r1\<close>)
      then have fresh: "\<forall>y. holds c3 y \<longrightarrow> rule_id y \<noteq> rule_id r1" by (simp add: c3_def)
      have abs3: "abs_rules c3 = abs_rules c0" by (rule ins.abs_same_holds [OF ok ok3]) (simp add: c3_def c2(2))
      have mutex3: "c_mutex c3 = Suc (c_mutex c0)" by (simp add: c3_def c2(3))
      have none: "abs_rules c0 k = None" using fresh by (simp add: ins.abs_None [OF ok3, unfolded abs3] r1)
      have "insert_tail E tb f v r1 c3 t = (x, (c', t'))" using h by (simp add: Pair Some c3_def)
      from insert_tail_spec [OF ok3 l3 home fresh _ this, of k] none kr show ?thesis
        by (auto simp: abs3 r1 mutex3 split: if_splits)
    qed
  qed
qed

end
