(* ===== verification/IncomingRefine.thy ===== *)
theory IncomingRefine
  imports IncomingSpec
begin

text \<open>
  The refinement of the incoming cache, continued: search, deletion, replacement, update and the
  two operations on whole lists, each against the map of \<open>IncomingSpec\<close>; then what follows for
  every sequence of calls of the functions of the module.

  \<open>ends c Q x c'\<close> is the form of all these facts: \<open>c'\<close> satisfies the invariant, and when the
  operation returned the lock is as deep as before and \<open>Q\<close> holds of the result and the new map.
\<close>

definition ends ::
  "in_cache \<Rightarrow> ('a \<Rightarrow> (int \<Rightarrow> in_rule option) \<Rightarrow> bool) \<Rightarrow> exn + 'a \<Rightarrow> in_cache \<Rightarrow> bool" where
  "ends c Q x c' \<longleftrightarrow> cache_ok c' \<and> (\<forall>a. x = Inr a \<longrightarrow> c_mutex c' = c_mutex c \<and> Q a (abs_rules c'))"

lemma ends_Inl [simp]: "ends c Q (Inl e) c' \<longleftrightarrow> cache_ok c'"
  by (simp add: ends_def)

lemma ends_Inr [simp]:
  "ends c Q (Inr a) c' \<longleftrightarrow> cache_ok c' \<and> c_mutex c' = c_mutex c \<and> Q a (abs_rules c')"
  by (simp add: ends_def)

section \<open>Search\<close>

lemma set_stats_frame [frame_simps]:
  "rule_id (set_stats st r) = rule_id r" "prio_key (set_stats st r) = prio_key r"
  "table_of (set_stats st r) = table_of r" "af (set_stats st r) = af r"
  "vrf_name (set_stats st r) = vrf_name r" "nostats (set_stats st r) = nostats r"
  "in_eq x (set_stats st r) = in_eq x r" "seq_num (set_stats st r) = seq_num r"
  unfolding prio_key_def table_of_def nostats_def in_eq_iff
  by (simp_all add: set_stats_def split: option.split)

text \<open>Writing the counters of a rule into it changes neither the invariant nor the map.\<close>

lemma stats_held:
  fixes st
  assumes ok: "cache_ok c" and l: "get_list tb f v c = Some l" and i: "i < length (rules l)"
  defines "r \<equiv> set_stats st (rules l ! i)"
  defines "c' \<equiv> set_list tb f v (rl_set i r l) c"
  shows "cache_ok c'" and "abs_rules c' = abs_rules c" and "holds c' r"
proof -
  have mem: "rules l ! i \<in> set (rules l)" using i by simp
  have home: "at_home c tb f v (rules l ! i)" by (rule ins.cache_okD(5) [OF ok l mem])
  then obtain k where k: "rule_id (rules l ! i) = Some k" by (auto simp: homed_def)
  have held: "holds c (rules l ! i)" using l mem unfolding holds_def by blast
  have other: "rule_id x = Some k" if "holds c x" "in_eq x r" for x
    using ins.held_unique [OF ok that(1) held] that(2) k by (simp add: r_def frame_simps)
  have home': "at_home c tb f v r" using home by (simp add: homed_def r_def frame_simps)
  note rep = ins.replace_held [OF ok l i home' _ _ _ other, folded c'_def]
  show "cache_ok c'" "holds c' r" using rep k by (simp_all add: r_def frame_simps)
  have "abs_rules c' = (abs_rules c)(k \<mapsto> nostats r)" using rep k by (simp add: r_def frame_simps)
  then show "abs_rules c' = abs_rules c"
    using ins.abs_held [OF ok held k] by (simp add: r_def frame_simps fun_upd_idem)
qed

lemma refresh_spec:
  assumes ok: "cache_ok c" and loc: "find_loc k loc_order c = Some (tb, f, v, i)"
    and h: "refresh E tb f v i (c, t) = (x, (c', t'))"
  shows "cache_ok c' \<and> abs_rules c' = abs_rules c \<and> c_mutex c' = c_mutex c \<and>
    (\<forall>r. x = Inr r \<longrightarrow> ins.found_at c' k r i)"
proof -
  from ins.find_loc_ok [OF ok loc] obtain l where l: "get_list tb f v c = Some l" "i < length (rules l)"
    "rule_id (rules l ! i) = Some k" "at_home c tb f v (rules l ! i)" by blast
  obtain y s where pr: "in_proc E OpGet (rules l ! i) (Some i) (c, t) = (y, s)"
    by (cases "in_proc E OpGet (rules l ! i) (Some i) (c, t)")
  from in_proc_pair [OF pr] obtain t1 where s: "s = (c, t1)" by blast
  show ?thesis
  proof (cases y)
    case (Inl e)
    with h have "x = Inl e" "c' = c" by (simp_all add: refresh_def l(1,2) pr s)
    with ok show ?thesis by simp
  next
    case (Inr p)
    define r where "r = set_stats (snd p) (rules l ! i)"
    have c': "x = Inr r" "c' = set_list tb f v (rl_set i r l) c"
      using h by (simp_all add: refresh_def l(1,2) pr s Inr r_def Let_def split_def)
    have "ins.found_at c' k r i"
      using l(2-4) by (simp add: ins.found_at_def c' r_def frame_simps homed_def)
    with stats_held [OF ok l(1,2), of "snd p"] show ?thesis by (simp add: c' r_def)
  qed
qed

lemma find_rule_by_id_spec:
  assumes ok: "cache_ok c" and h: "find_rule_by_id E k (c, t) = (x, (c', t'))"
  shows "cache_ok c' \<and> abs_rules c' = abs_rules c \<and>
    (\<forall>a. x = Inr a \<longrightarrow> c_mutex c' = c_mutex c \<and>
      (case a of None \<Rightarrow> abs_rules c k = None
       | Some (r, i) \<Rightarrow> ins.found_at c' k r i \<and> abs_rules c k = Some (nostats r)))"
proof (cases "find_loc k loc_order c")
  case None
  with h have "x = Inr None" "c' = unlock (lock c)" by (simp_all add: find_rule_by_id_def)
  with None ok show ?thesis by (simp add: abs_map_def)
next
  case (Some p)
  obtain tb f v i where p: "p = (tb, f, v, i)" by (cases p)
  obtain y c1 t1 where r: "refresh E tb f v i (lock c, t) = (y, (c1, t1))"
    by (cases "refresh E tb f v i (lock c, t)") auto
  have ok1: "cache_ok (lock c)" and loc: "find_loc k loc_order (lock c) = Some (tb, f, v, i)"
    using ok Some p by simp_all
  note sp = refresh_spec [OF ok1 loc r]
  show ?thesis
  proof (cases y)
    case (Inl e)
    with h Some p r have "x = Inl e" "c' = c1" by (simp_all add: find_rule_by_id_def)
    with sp show ?thesis by simp
  next
    case (Inr q)
    with h Some p r have x: "x = Inr (Some (q, i))" "c' = unlock c1" by (simp_all add: find_rule_by_id_def)
    have "ins.found_at c1 k q i" using sp Inr by simp
    with ins.abs_held [of c1 q k] ins.found_at_holds sp have "abs_rules c k = Some (nostats q)" by auto
    with sp Inr x show ?thesis by simp
  qed
qed

section \<open>Deletion\<close>

lemma finish_delete_spec:
  assumes ok: "cache_ok c" and l: "get_list tb f v c = Some l1" and home: "at_home c tb f v d"
    and id: "rule_id d = Some k" and fresh: "\<forall>x. holds c x \<longrightarrow> rule_id x \<noteq> rule_id d"
    and none: "\<forall>x\<in>set (rules l1). \<not> in_eq x d"
    and h: "finish_delete E tb f v d i (Some k) (c, t) = (x, (c', t'))"
  shows "cache_ok c' \<and> (\<forall>b. x = Inr b \<longrightarrow> c_mutex c' = c_mutex c - 1 \<and>
    abs_rules c' = (if b then abs_rules c else (abs_rules c)(k \<mapsto> nostats d)))"
proof -
  obtain y s where pr: "in_proc E OpDelete d (Some i) (c, t) = (y, s)"
    by (cases "in_proc E OpDelete d (Some i) (c, t)")
  from in_proc_pair [OF pr] obtain t1 where s: "s = (c, t1)" by blast
  consider (raise) e where "y = Inl e" | (gone) st where "y = Inr (True, st)" | (kept) st where "y = Inr (False, st)"
    by (cases y) auto
  then show ?thesis
  proof cases
    case raise
    with h ok show ?thesis by (auto simp: finish_delete_def pr s)
  next
    case gone
    then have x: "x = Inr True"
      "c' = release_rule_id (Some k) (unlock (if rules l1 = [] then del_list tb f v c else c))"
      using h by (simp_all add: finish_delete_def pr s l Let_def)
    show ?thesis using ins.finish_ok [OF ok l fresh [unfolded id]] by (simp add: x)
  next
    case kept
    have "fst (in_list_insert d l1) \<noteq> None"
    proof -
      have "rule_id d \<notin> rule_id ` set (rules l1)" using fresh l by (metis (no_types, lifting) holds_def imageE)
      then show ?thesis
        unfolding in_list_insert_def inl.insert_None [OF ins.cache_okD(4) [OF ok l]] using id none by auto
    qed
    then obtain j l2 where ins: "in_list_insert d l1 = (Some j, l2)" by (cases "in_list_insert d l1") auto
    define c2 where "c2 = set_list tb f v l2 c"
    note ih = in_insert_held [OF ok l ins home fresh, folded c2_def]
    have "vrf_name d = v" using home by (simp add: homed_def)
    moreover have "rules l2 \<noteq> []" by (simp add: ih(4) list_insert_def)
    ultimately have x: "x = Inr False" "c' = unlock c2"
      using h kept by (simp_all add: finish_delete_def pr s l ins c2_def Let_def)
    have "abs_rules c2 = (abs_rules c)(k \<mapsto> nostats d)" by (rule ins.abs_insert [OF ok ih(1) id ih(2) fresh])
    with ih(1) show ?thesis by (simp add: x) (simp add: c2_def)
  qed
qed

text \<open>
  \<open>delete_rule\<close> removes the rule that \<open>remove\<close> of the list finds, and nothing when there is none.
\<close>

lemma delete_rule_spec:
  assumes ok: "cache_ok c" and h: "delete_rule E r (c, t) = (x, (c', t'))"
  shows "ends c (\<lambda>b m. if b then \<exists>k d. abs_rules c k = Some d \<and> m = (abs_rules c)(k := None) \<and>
      (rule_id r = Some k \<or> in_eq d r) else m = abs_rules c) x c'"
proof -
  let ?Q = "\<lambda>b m. if b then \<exists>k d. abs_rules c k = Some d \<and> m = (abs_rules c)(k := None) \<and>
      (rule_id r = Some k \<or> in_eq d r) else m = abs_rules c"
  define tb f v where "tb = table_of r" and "f = af r" and "v = vrf_name r"
  note defs = tb_def [symmetric] f_def [symmetric] v_def [symmetric]
  have ok1: "cache_ok (lock c)" using ok by simp
  show ?thesis
  proof (cases "get_list tb f v (lock c)")
    case None
    then have "x = Inr False" "c' = unlock (lock c)"
      using h unfolding delete_rule_def prod.case Let_def defs by simp_all
    with ok show ?thesis by simp
  next
    case (Some l)
    note wf = ins.cache_okD(4) [OF ok1 Some]
    show ?thesis
    proof (cases "inl.remove_pos (\<lambda>_ _. True) r l")
      case None
      from inl.remove(1) [OF wf this] have "in_list_remove r l = (Inr None, l)" by (simp add: in_list_remove_def)
      then have x: "x = Inr False" "c' = unlock (set_list tb f v l (lock c))"
        using h unfolding delete_rule_def prod.case Let_def defs Some by simp_all
      have ok2: "cache_ok (set_list tb f v l (lock c))"
        by (rule ins.cache_ok_shrink [OF ok1 Some wf order_refl])
      have "abs_rules (set_list tb f v l (lock c)) = abs_rules (lock c)"
        by (rule ins.abs_same_holds [OF ok1 ok2]) (rule holds_same [OF Some refl])
      with x ok2 show ?thesis by simp
    next
      case pos: (Some i)
      have i: "i < length (rules l)" by (rule inl.remove_pos_less [OF wf pos])
      define d where "d = rules l ! i"
      from inl.remove(2) [OF wf pos] obtain l1 where
        l1: "in_list_remove r l = (Inr (Some (d, i)), l1)" "rules l1 = list_del i (rules l)" "rl_wf in_eq l1"
        unfolding in_list_remove_def d_def by blast
      have mem: "d \<in> set (rules l)" using i by (simp add: d_def)
      have "at_home (lock c) tb f v d" by (rule ins.cache_okD(5) [OF ok1 Some mem])
      then obtain k where k: "rule_id d = Some k" by (auto simp: homed_def)
      note dh = ins.delete_held [OF ok1 Some i l1(2,3) d_def [symmetric] k]
      define c1 where "c1 = set_list tb f v l1 (lock c)"
      have fin: "finish_delete E tb f v d i (Some k) (c1, t) = (x, (c', t'))"
        using h unfolding delete_rule_def prod.case Let_def defs Some option.case l1(1) sum.case
        by (simp add: k c1_def)
      have held: "holds c d" using Some mem unfolding holds_def by (metis get_list_simps(1))
      have why: "rule_id r = Some k \<or> in_eq d r"
        using pos k by (auto simp: inl.remove_pos_def d_def list_find_def list_index_Some inl.wf_id [OF wf]
            split: option.splits if_splits)
      have "get_list tb f v c1 = Some l1" by (simp add: c1_def)
      from finish_delete_spec [OF dh(1) [folded c1_def] this dh(3) [folded c1_def] k dh(4) [folded c1_def] dh(5) fin]
      have sp: "cache_ok c' \<and> (\<forall>b. x = Inr b \<longrightarrow> c_mutex c' = c_mutex c \<and>
          abs_rules c' = (if b then (abs_rules c)(k := None) else abs_rules c))"
        using dh(2,6) by (auto simp: c1_def)
      have eq: "in_eq (nostats d) r = in_eq d r" by (simp add: in_eq_iff nostats_def)
      show ?thesis
        unfolding ends_def using sp why ins.abs_held [OF ok held k] eq by auto
    qed
  qed
qed

lemma delete_by_id_spec:
  assumes ok: "cache_ok c" and h: "delete_by_id_obj E k (c, t) = (x, (c', t'))"
  shows "ends c (\<lambda>(b, d) m. if b then abs_rules c k \<noteq> None \<and> m = (abs_rules c)(k := None) \<and>
      map_option nostats d = abs_rules c k else m = abs_rules c) x c'"
proof -
  have ok1: "cache_ok (lock c)" using ok by simp
  obtain y c1 t1 where fnd: "find_rule_by_id E k (lock c, t) = (y, (c1, t1))"
    by (cases "find_rule_by_id E k (lock c, t)") auto
  note fs = find_rule_by_id_spec [OF ok1 fnd]
  consider (raise) e where "y = Inl e" | (none) "y = Inr None" | (found) d i where "y = Inr (Some (d, i))"
    by (metis option.exhaust prod.exhaust sum.exhaust)
  then show ?thesis
  proof cases
    case raise
    with h fnd fs show ?thesis by (auto simp: delete_by_id_obj_def)
  next
    case none
    with h fnd fs show ?thesis by (auto simp: delete_by_id_obj_def)
  next
    case found
    with fs have fs: "cache_ok c1" "abs_rules c1 = abs_rules c" "c_mutex c1 = Suc (c_mutex c)"
      "ins.found_at c1 k d i" "abs_rules c k = Some (nostats d)" by auto
    define tb f v where "tb = table_of d" and "f = af d" and "v = vrf_name d"
    note defs = tb_def [symmetric] f_def [symmetric] v_def [symmetric]
    from fs(4) obtain l where l: "get_list tb f v c1 = Some l" and i: "i < length (rules l)"
      and d: "rules l ! i = d" and k: "rule_id d = Some k" unfolding ins.found_at_def defs by blast
    note wf = ins.cache_okD(4) [OF fs(1) l]
    have "rule_id_map l (Some k) = Some i" using inl.wf_id [OF wf] i d k by auto
    from inl.remove_by_id(2) [OF wf this] obtain l1 where
      l1: "in_list_remove_by_id k l = (Inr (Some d), l1)" "rules l1 = list_del i (rules l)" "rl_wf in_eq l1"
      unfolding in_list_remove_by_id_def d by blast
    note dh = ins.delete_held [OF fs(1) l i l1(2,3) d k]
    define c2 where "c2 = set_list tb f v l1 c1"
    obtain z s where fin: "finish_delete E tb f v d i (Some k) (c2, t1) = (z, s)"
      by (cases "finish_delete E tb f v d i (Some k) (c2, t1)")
    have x: "(x, (c', t')) = and_then (z, s) (\<lambda>ok s1. (Inr (ok, Some d), s1))"
      using h unfolding delete_by_id_obj_def prod.case fnd found and_then_simps option.case Let_def defs l
        l1(1) sum.case c2_def [symmetric] fin by simp
    then have s: "s = (c', t')" by (cases z) auto
    have "get_list tb f v c2 = Some l1" by (simp add: c2_def)
    from finish_delete_spec [OF dh(1) [folded c2_def] this dh(3) [folded c2_def] k dh(4) [folded c2_def] dh(5)
        fin [unfolded s]]
    have sp: "cache_ok c' \<and> (\<forall>b. z = Inr b \<longrightarrow> c_mutex c' = c_mutex c \<and>
        abs_rules c' = (if b then (abs_rules c)(k := None) else abs_rules c))"
      using dh(2,6) fs by (auto simp: c2_def)
    show ?thesis using x sp fs(5) by (cases z) (auto simp: s)
  qed
qed

text \<open>A deletion that succeeds gives the identifier back.\<close>

lemma release_frees: "\<not> is_id_used k (c_ids (release_rule_id (Some k) c))"
  by (simp add: is_id_used_def release_id_used)

lemma finish_delete_frees:
  assumes "finish_delete E tb f v d i (Some k) s = (Inr True, (c', t'))"
  shows "\<not> is_id_used k (c_ids c')"
proof -
  obtain y c t where pr: "in_proc E OpDelete d (Some i) s = (y, (c, t))"
    by (cases "in_proc E OpDelete d (Some i) s") auto
  have "\<exists>c3. c' = release_rule_id (Some k) c3"
    using assms unfolding finish_delete_def pr
    by (cases y) (auto simp: Let_def split: option.splits if_splits)
  then show ?thesis using release_frees by metis
qed

lemma delete_by_id_frees:
  assumes "delete_by_id_obj E k s = (Inr (True, d), (c', t'))"
  shows "\<not> is_id_used k (c_ids c')"
proof -
  obtain c t where s: "s = (c, t)" by (cases s)
  obtain y c1 t1 where fnd: "find_rule_by_id E k (lock c, t) = (y, (c1, t1))"
    by (cases "find_rule_by_id E k (lock c, t)") auto
  obtain r i where y: "y = Inr (Some (r, i))"
    using assms by (cases y) (auto simp: delete_by_id_obj_def s fnd split: option.splits)
  define tb f v where "tb = table_of r" and "f = af r" and "v = vrf_name r"
  note defs = tb_def [symmetric] f_def [symmetric] v_def [symmetric]
  obtain l where l: "get_list tb f v c1 = Some l"
    using assms unfolding delete_by_id_obj_def s prod.case fnd y and_then_simps option.case Let_def defs
    by (cases "get_list tb f v c1") auto
  obtain z l1 where rem: "in_list_remove_by_id k l = (z, l1)" by (cases "in_list_remove_by_id k l")
  obtain w s2 where fin: "finish_delete E tb f v r i (Some k) (set_list tb f v l1 c1, t1) = (w, s2)"
    by (cases "finish_delete E tb f v r i (Some k) (set_list tb f v l1 c1, t1)")
  have "w = Inr True \<and> s2 = (c', t')"
    using assms unfolding delete_by_id_obj_def s prod.case fnd y and_then_simps option.case Let_def defs l rem
    by (cases z; cases w) (auto simp: fin split: option.splits)
  with fin show ?thesis using finish_delete_frees by blast
qed

section \<open>Replacement\<close>

lemma replace_rule_spec:
  assumes ok: "cache_ok c" and may: "ins.may_replace (abs_rules c) k r"
    and h: "replace_rule E k r (c, t) = (x, (c', t'))"
  shows "ends c (\<lambda>b m. if b then abs_rules c k \<noteq> None \<and> m = (abs_rules c)(k \<mapsto> nostats r)
      else m = abs_rules c) x c'"
proof -
  have ok1: "cache_ok (lock c)" using ok by simp
  obtain y c1 t1 where fnd: "find_rule_by_id E k (lock c, t) = (y, (c1, t1))"
    by (cases "find_rule_by_id E k (lock c, t)") auto
  note fs = find_rule_by_id_spec [OF ok1 fnd]
  consider (raise) e where "y = Inl e" | (none) "y = Inr None" | (found) d i where "y = Inr (Some (d, i))"
    by (metis option.exhaust prod.exhaust sum.exhaust)
  then show ?thesis
  proof cases
    case raise
    with h fnd fs show ?thesis by (auto simp: replace_rule_def)
  next
    case none
    with h fnd fs show ?thesis by (auto simp: replace_rule_def)
  next
    case found
    with fs have fs: "cache_ok c1" "abs_rules c1 = abs_rules c" "c_mutex c1 = Suc (c_mutex c)"
      "ins.found_at c1 k d i" "abs_rules c k = Some (nostats d)" by auto
    define tb f v where "tb = table_of d" and "f = af d" and "v = vrf_name d"
    note defs = tb_def [symmetric] f_def [symmetric] v_def [symmetric]
    from fs(4) obtain l where l: "get_list tb f v c1 = Some l" and i: "i < length (rules l)"
      and d: "rules l ! i = d" and k: "rule_id d = Some k" unfolding ins.found_at_def defs by blast
    have mem: "d \<in> set (rules l)" using i d by auto
    have r: "rule_id r = Some k" "table_of r = tb" "af r = f" "vrf_name r = v" "prio_key r = prio_key d"
      using may fs(5) by (auto simp: ins.may_replace_def frame_simps tb_def f_def v_def)
    have home: "at_home c1 tb f v r"
      using ins.cache_okD(5) [OF fs(1) l mem] r k by (simp add: homed_def)
    have other: "rule_id q = Some k" if "holds c1 q" "in_eq q r" for q
      by (rule ins.held_abs [OF fs(1) that(1)]) (use may that(2) fs(2) in \<open>auto simp: ins.may_replace_def frame_simps\<close>)
    note rh = ins.replace_held [OF fs(1) l i home _ r(1) _ other, unfolded d]
    obtain z s where pr: "in_proc E OpReplace r (Some i) (c1, t1) = (z, s)"
      by (cases "in_proc E OpReplace r (Some i) (c1, t1)")
    from in_proc_pair [OF pr] obtain t2 where s: "s = (c1, t2)" by blast
    have "(\<exists>e. x = Inl e \<and> c' = c1) \<or> (x = Inr False \<and> c' = unlock c1) \<or>
        (x = Inr True \<and> c' = unlock (set_list tb f v (rl_set i r l) c1))"
      using h unfolding replace_rule_def prod.case fnd found and_then_simps option.case pr s
      by (cases z) (auto simp: defs l Let_def split: if_splits)
    then show ?thesis using fs rh k r by auto
  qed
qed

section \<open>Update\<close>

lemma set_param_frame:
  assumes "set_param p r = Inr u"
  shows "rule_id u = rule_id r" "rule_type u = rule_type r" "af u = af r" "vrf_name u = vrf_name r"
    "grp_priority u = grp_priority r" "param_attr p \<noteq> A_seq_num \<Longrightarrow> seq_num u = seq_num r"
  using assms by (cases p; auto simp: try_bind_Inr in_set_intf_def split: if_splits)+

lemma check_and_set_frame:
  assumes "check_and_set ps r ch = Inr (u, ch')"
  shows "rule_id u = rule_id r \<and> rule_type u = rule_type r \<and> af u = af r \<and> vrf_name u = vrf_name r \<and>
    grp_priority u = grp_priority r \<and> (A_seq_num \<notin> set ch' \<longrightarrow> seq_num u = seq_num r) \<and>
    set ch \<subseteq> set ch' \<and> (ch' = [] \<longrightarrow> u = r)"
  using assms
proof (induction ps r ch rule: check_and_set.induct)
  case (2 p ps r ch)
  show ?case
  proof (cases "map_of (in_vars r) (param_attr p) = Some (param_val p)")
    case True
    with 2 show ?thesis by simp
  next
    case False
    with 2(3) obtain r1 where r1: "set_param p r = Inr r1" "check_and_set ps r1 (param_attr p # ch) = Inr (u, ch')"
      by (auto simp: try_bind_Inr)
    note ih = 2(2) [OF False r1(2)] and fr = set_param_frame [OF r1(1)]
    have "A_seq_num \<notin> set ch' \<longrightarrow> seq_num u = seq_num r"
      using ih fr(6) by (cases "param_attr p = A_seq_num") auto
    with ih fr(1-5) show ?thesis by auto
  qed
qed simp

lemma set_param_nostats: "set_param p (nostats r) = map_sum id nostats (set_param p r)"
  by (cases p) (auto simp: nostats_def in_set_intf_def try_bind_def split: sum.split)

lemma check_and_set_nostats:
  "check_and_set ps (nostats r) ch = map_sum id (\<lambda>(u, ch'). (nostats u, ch')) (check_and_set ps r ch)"
proof (induction ps arbitrary: r ch)
  case (Cons p ps)
  have "map_of (in_vars (nostats r)) (param_attr p) = map_of (in_vars r) (param_attr p)"
    by (cases p) (simp_all add: in_vars_def common_vars_def nostats_def)
  then show ?case
    by (cases "set_param p r") (simp_all add: set_param_nostats Cons.IH)
qed simp

text \<open>The insertion after a deletion, with its fallback.\<close>

lemma insert_again_spec:
  assumes ok: "cache_ok c1" and abs: "abs_rules c1 = m(k := None)" and mk: "m k = Some (nostats d)"
    and uk: "rule_id u = Some k" and dk: "rule_id d = Some k"
    and h: "and_then (insert_rule E u (c1, t1)) (\<lambda>(ok, _) (c2, t2).
        if ok then (Inr True, (unlock c2, t2))
        else and_then (insert_rule E d (c2, t2)) (\<lambda>_ (c3, t3). (Inr False, (unlock c3, t3)))) = (x, (c', t'))"
  shows "cache_ok c' \<and> (\<forall>b. x = Inr b \<longrightarrow> c_mutex c' = c_mutex c1 - 1 \<and>
    (if b then abs_rules c' = m(k \<mapsto> nostats u) else abs_rules c' = m \<or> abs_rules c' = m(k := None)))"
proof -
  obtain z c2 t2 where ins: "insert_rule E u (c1, t1) = (z, (c2, t2))"
    by (cases "insert_rule E u (c1, t1)") auto
  note i1 = insert_rule_spec [OF ok ins]
  obtain w c3 t3 where undo: "insert_rule E d (c2, t2) = (w, (c3, t3))"
    by (cases "insert_rule E d (c2, t2)") auto
  have same: "q\<lparr>rule_id := Some k\<rparr> = q" if "rule_id q = Some k" for q :: in_rule using that by simp
  consider (raise) e where "z = Inl e" | (yes) r1 where "z = Inr (True, r1)" | (no) r1 where "z = Inr (False, r1)"
    by (metis (full_types) prod.exhaust sum.exhaust)
  then show ?thesis
  proof cases
    case raise
    with h ins i1 show ?thesis by auto
  next
    case yes
    with i1 uk abs have "abs_rules c2 = m(k \<mapsto> nostats u)" by (auto simp: same)
    with i1 h ins yes show ?thesis by auto
  next
    case no
    with i1 abs have i1: "abs_rules c2 = m(k := None)" "cache_ok c2" "c_mutex c2 = c_mutex c1" by auto
    have x: "(x, (c', t')) = and_then (w, (c3, t3)) (\<lambda>_ (c3, t3). (Inr False, (unlock c3, t3)))"
      using h ins no undo by simp
    note i2 = insert_rule_spec [OF i1(2) undo]
    show ?thesis
    proof (cases w)
      case (Inl e)
      with x i2 show ?thesis by simp
    next
      case (Inr br)
      obtain b r1 where br: "br = (b, r1)" by (cases br)
      have "abs_rules c3 = m \<or> abs_rules c3 = m(k := None)"
        using i2 Inr br i1 dk mk by (auto simp: same fun_upd_idem split: if_splits)
      with x Inr i2 i1(3) br show ?thesis by simp
    qed
  qed
qed

lemma update_found_spec:
  assumes ok: "cache_ok c" and old: "abs_rules c k = Some (nostats old)" and id: "rule_id old = Some k"
    and set: "check_and_set ps old [] = Inr (u, changed)"
    and other: "\<forall>q. holds c q \<longrightarrow> in_eq q u \<longrightarrow> rule_id q = Some k"
    and h: "update_found E k old u changed (c, t) = (x, (c', t'))"
  shows "cache_ok c' \<and> (\<forall>b. x = Inr b \<longrightarrow> c_mutex c' = c_mutex c - 1 \<and>
    (if b then abs_rules c' = (abs_rules c)(k \<mapsto> nostats u)
     else abs_rules c' = abs_rules c \<or> abs_rules c' = (abs_rules c)(k := None)))"
proof (cases "list_all (\<lambda>a. a \<in> set repl_attrs) changed")
  case True
  note fr = check_and_set_frame [OF set]
  have "A_seq_num \<notin> set changed" using True by (auto simp: list_all_iff repl_attrs_def)
  then have place: "table_of u = table_of old" "prio_key u = prio_key old" "af u = af old" "vrf_name u = vrf_name old"
    using fr by (simp_all add: table_of_def prio_key_def)
  have "j = k" if "abs_rules c j = Some q" "in_eq q u" for j q
    using that other unfolding ins.abs_iff [OF ok] by (auto simp: frame_simps)
  then have may: "ins.may_replace (abs_rules c) k u"
    using fr id old place by (auto simp: ins.may_replace_def frame_simps)
  obtain y c1 t1 where rep: "replace_rule E k u (c, t) = (y, (c1, t1))"
    by (cases "replace_rule E k u (c, t)") auto
  from replace_rule_spec [OF ok may rep] h True show ?thesis
    by (cases y) (auto simp: update_found_def rep)
next
  case False
  have uk: "rule_id u = Some k" using check_and_set_frame [OF set] id by simp
  obtain y c1 t1 where del: "delete_by_id_obj E k (c, t) = (y, (c1, t1))"
    by (cases "delete_by_id_obj E k (c, t)") auto
  note ds = delete_by_id_spec [OF ok del]
  show ?thesis
  proof (cases "\<exists>d. y = Inr (True, d)")
    case neg: False
    with h False del ds show ?thesis by (cases y) (auto simp: update_found_def)
  next
    case True
    then obtain od where y: "y = Inr (True, od)" by blast
    with ds old have ds: "cache_ok c1" "c_mutex c1 = c_mutex c" "abs_rules c1 = (abs_rules c)(k := None)"
      and "map_option nostats od = Some (nostats old)" by auto
    then obtain d where d: "od = Some d" "nostats d = nostats old" by auto
    have dk: "rule_id d = Some k" using d(2) id by (metis nostats_frame(1))
    have mk: "abs_rules c k = Some (nostats d)" using old d(2) by simp
    have again: "and_then (insert_rule E u (c1, t1)) (\<lambda>(ok, _) (c2, t2).
        if ok then (Inr True, (unlock c2, t2))
        else and_then (insert_rule E d (c2, t2)) (\<lambda>_ (c3, t3). (Inr False, (unlock c3, t3)))) = (x, (c', t'))"
      using h False unfolding update_found_def del y d(1) and_then_simps prod.case option.case by simp
    show ?thesis using insert_again_spec [OF ds(1,3) mk uk dk again] unfolding ds(2) .
  qed
qed

lemma update_rule_spec:
  assumes ok: "cache_ok c" and h: "update_rule E k ps (c, t) = (x, (c', t'))"
  shows "ends c (\<lambda>b m. if b then \<exists>q u ch. abs_rules c k = Some q \<and> check_and_set ps q [] = Inr (u, ch) \<and>
        m = (abs_rules c)(k \<mapsto> u)
      else m = abs_rules c \<or> m = (abs_rules c)(k := None)) x c'"
proof -
  have ok1: "cache_ok (lock c)" using ok by simp
  obtain y c1 t1 where fnd: "find_rule_by_id E k (lock c, t) = (y, (c1, t1))"
    by (cases "find_rule_by_id E k (lock c, t)") auto
  note fs = find_rule_by_id_spec [OF ok1 fnd]
  consider (raise) e where "y = Inl e" | (none) "y = Inr None" | (found) d i where "y = Inr (Some (d, i))"
    by (metis option.exhaust prod.exhaust sum.exhaust)
  then show ?thesis
  proof cases
    case raise
    with h fnd fs show ?thesis by (auto simp: update_rule_def)
  next
    case none
    with h fnd fs show ?thesis by (auto simp: update_rule_def)
  next
    case found
    with fs have fs: "cache_ok c1" "abs_rules c1 = abs_rules c" "c_mutex c1 = Suc (c_mutex c)"
      "abs_rules c k = Some (nostats d)" and k: "holds c1 d" "rule_id d = Some k"
      by (auto dest: ins.found_at_holds)
    show ?thesis
    proof (cases "check_and_set ps d []")
      case (Inl e)
      with h fnd found fs show ?thesis by (auto simp: update_rule_def)
    next
      case (Inr uc)
      obtain u ch where u: "check_and_set ps d [] = Inr (u, ch)" using Inr by (cases uc) auto
      then have u': "check_and_set ps (nostats d) [] = Inr (nostats u, ch)" by (simp add: check_and_set_nostats)
      have "(ch = [] \<and> x = Inr True \<and> c' = unlock c1) \<or> (x = Inr False \<and> c' = unlock c1) \<or>
          (update_found E k d u ch (c1, t1) = (x, (c', t')) \<and>
            (\<forall>m. find_rule_by_match u c1 = Some m \<longrightarrow> rule_id m = Some k))"
        using h fnd found u k(2) by (auto simp: update_rule_def split: if_splits option.splits)
      then show ?thesis
      proof (elim disjE conjE)
        assume "ch = []" "x = Inr True" "c' = unlock c1"
        moreover from this have "u = d" using check_and_set_frame [OF u] by simp
        ultimately show ?thesis using fs u' by (auto simp: fun_upd_idem)
      next
        assume "x = Inr False" "c' = unlock c1"
        then show ?thesis using fs by simp
      next
        assume up: "update_found E k d u ch (c1, t1) = (x, (c', t'))"
          and m: "\<forall>m. find_rule_by_match u c1 = Some m \<longrightarrow> rule_id m = Some k"
        have "rule_id q = Some k" if q: "holds c1 q" "in_eq q u" for q
        proof (cases "find_rule_by_match u c1")
          case None
          from in_match_spec(1) [OF fs(1) this q(1)] q(2) show ?thesis ..
        next
          case (Some n)
          from in_match_spec(2) [OF fs(1) Some] have "holds c1 n" "in_eq n u" by auto
          then have "q = n" using ins.held_unique [OF fs(1) q(1)] q(2) inl.same_sym inl.same_trans by blast
          with Some m show ?thesis by simp
        qed
        then have other: "\<forall>q. holds c1 q \<longrightarrow> in_eq q u \<longrightarrow> rule_id q = Some k" by blast
        have "abs_rules c1 k = Some (nostats d)" using fs by simp
        note sp = update_found_spec [OF fs(1) this k(2) u other up, unfolded fs(2,3)]
        have *: "c_mutex c' = c_mutex c" "b \<Longrightarrow> abs_rules c' = (abs_rules c)(k \<mapsto> nostats u)"
          "\<not> b \<Longrightarrow> abs_rules c' = abs_rules c \<or> abs_rules c' = (abs_rules c)(k := None)"
          if "x = Inr b" for b
          using sp [THEN conjunct2, THEN spec, THEN mp, OF that] by simp_all
        show ?thesis
          unfolding ends_def fs(4) using sp * u' by (metis (full_types))
      qed
    qed
  qed
qed

end
