(* ===== verification/IncomingLists.thy ===== *)
theory IncomingLists
  imports IncomingRefine
begin

text \<open>
  The two operations of the incoming cache that go over whole lists: \<open>clear_all_rules\<close> empties
  the lists of a namespace or of all of them, \<open>get_all_rules\<close> reports the rules that match.
\<close>

section \<open>Clearing\<close>

lemma clear_rules_spec:
  assumes "clear_rules E rs (c, t) = (Inr (), (c', t'))" "id_inv (c_ids c)"
  shows "\<exists>g. c' = set_ids g c \<and> released rs (c_ids c) g"
  using assms
proof (induction rs arbitrary: c t)
  case Nil
  then show ?case by (intro exI [of _ "c_ids c"]) (simp add: released_Nil)
next
  case (Cons r rs)
  obtain y s where pr: "in_proc E OpDelete r None (c, t) = (y, s)" by (cases "in_proc E OpDelete r None (c, t)")
  from in_proc_pair [OF pr] obtain t1 where s: "s = (c, t1)" by blast
  obtain z where y: "y = Inr z" using Cons.prems(1) by (cases y) (simp_all add: pr)
  have "clear_rules E rs (release_rule_id (rule_id r) c, t1) = (Inr (), (c', t'))"
    using Cons.prems(1) by (simp add: pr y s)
  with Cons.IH show ?case by (intro released_Cons [OF Cons.prems(2)]) blast
qed

lemma clear_lists_spec:
  assumes "cache_ok c" "distinct (map fst d)" "\<forall>(v, l)\<in>set d. get_list tb f v c = Some l"
    and "clear_lists E tb f flt d (c, t) = (Inr (), (c', t'))"
  shows "ins.cleared (\<lambda>q. table_of q = tb \<and> af q = f \<and> vrf_name q \<in> fst ` set d \<and>
      (flt = None \<or> flt = Some (vrf_name q))) c c'"
  using assms
proof (induction d arbitrary: c t)
  case Nil
  then show ?case by (auto intro: ins.cleared_refl)
next
  case (Cons p d)
  obtain v l where p: "p = (v, l)" by (cases p)
  show ?case
  proof (cases "flt \<noteq> None \<and> flt \<noteq> Some v")
    case True
    with Cons.prems have "clear_lists E tb f flt d (c, t) = (Inr (), (c', t'))" by (auto simp: p)
    from Cons.IH [OF Cons.prems(1) _ _ this] Cons.prems(2,3) show ?thesis
      by (auto simp: p elim!: ins.cleared_cong) (use True in auto)
  next
    case False
    obtain y c1 t1 where cl: "clear_rules E (rules l) (c, t) = (y, (c1, t1))"
      by (cases "clear_rules E (rules l) (c, t)") auto
    have h: "y = Inr ()" "clear_lists E tb f flt d (del_list tb f v c1, t1) = (Inr (), (c', t'))"
      using Cons.prems(4) False by (cases y; simp add: p cl split: if_splits)+
    have l: "get_list tb f v c = Some l" using Cons.prems(3) by (simp add: p)
    from clear_rules_spec [OF cl [unfolded h(1)] ins.cache_okD(1) [OF Cons.prems(1)]] obtain g
      where g: "c1 = set_ids g c" "released (rules l) (c_ids c) g" by blast
    note cs = ins.cleared_list [OF Cons.prems(1) l g]
    have "\<forall>(v', l')\<in>set d. get_list tb f v' (del_list tb f v c1) = Some l'"
      using Cons.prems(2,3) cs(2) by (force simp: p)
    from Cons.IH [OF _ _ this h(2)] cs(1) Cons.prems(2) show ?thesis
      by (intro ins.cleared_trans [OF cs(1)]) (use False in \<open>auto simp: p ins.cleared_def\<close>)
  qed
qed

lemma clear_tables_spec:
  assumes "cache_ok c" "clear_tables E flt flt_af ls (c, t) = (Inr (), (c', t'))"
  shows "ins.cleared (\<lambda>q. (table_of q, af q) \<in> set ls \<and>
      (flt_af = None \<or> flt_af = Some (af q)) \<and> (flt = None \<or> flt = Some (vrf_name q))) c c'"
  using assms
proof (induction ls arbitrary: c t)
  case Nil
  then show ?case by (auto intro: ins.cleared_refl)
next
  case (Cons p ls)
  obtain tb f where p: "p = (tb, f)" by (cases p)
  show ?case
  proof (cases "flt_af \<noteq> None \<and> flt_af \<noteq> Some f")
    case True
    then have "clear_tables E flt flt_af ls (c, t) = (Inr (), (c', t'))" using Cons.prems(2) by (simp add: p)
    from Cons.IH [OF Cons.prems(1) this] show ?thesis
      by (rule ins.cleared_cong) (use True in \<open>auto simp: p\<close>)
  next
    case False
    obtain y c1 t1 where cl: "clear_lists E tb f flt (c_tables c tb f) (c, t) = (y, (c1, t1))"
      by (cases "clear_lists E tb f flt (c_tables c tb f) (c, t)") auto
    have h: "y = Inr ()" "clear_tables E flt flt_af ls (c1, t1) = (Inr (), (c', t'))"
      using Cons.prems(2) False by (cases y; simp add: p cl split: if_splits)+
    note dl = ins.dict_lists [OF Cons.prems(1), of tb f]
    note cs = ins.cleared_table [OF Cons.prems(1)
        clear_lists_spec [OF Cons.prems(1) dl [THEN conjunct1] dl [THEN conjunct2] cl [unfolded h(1)]]]
    then have "cache_ok c1" by (simp add: ins.cleared_def)
    show ?thesis by (rule ins.cleared_trans [OF cs Cons.IH [OF \<open>cache_ok c1\<close> h(2)]]) (use False in \<open>auto simp: p\<close>)
  qed
qed

lemma clear_all_spec:
  assumes ok: "cache_ok c" and h: "clear_all_rules E flt flt_af (c, t) = (Inr (), (c', t'))"
  shows "cache_ok c' \<and> c_mutex c' = c_mutex c \<and>
    abs_rules c' = drop_rules (\<lambda>q. (flt_af = None \<or> flt_af = Some (af q)) \<and>
      (flt = None \<or> flt = Some (vrf_name q))) (abs_rules c)"
proof -
  have ok1: "cache_ok (lock c)" using ok by simp
  obtain y c1 t1 where cl: "clear_tables E flt flt_af loc_order (lock c, t) = (y, (c1, t1))"
    by (cases "clear_tables E flt flt_af loc_order (lock c, t)") auto
  have h: "y = Inr ()" "c' = unlock c1" using h by (cases y; simp add: clear_all_rules_def cl)+
  from clear_tables_spec [OF ok1 cl [unfolded h(1)]] show ?thesis
    by (simp add: h(2) loc_order_all ins.cleared_def)
qed

section \<open>Reporting\<close>

text \<open>What a report may change is the counters only, in every list.\<close>

definition view :: "in_cache \<Rightarrow> in_table \<Rightarrow> address_family \<Rightarrow> string \<Rightarrow> in_rule list option" where
  "view c tb f v = map_option (\<lambda>l. map nostats (rules l)) (get_list tb f v c)"

definition same_view :: "in_cache \<Rightarrow> in_cache \<Rightarrow> bool" where
  "same_view c c' \<longleftrightarrow> cache_ok c' \<and> abs_rules c' = abs_rules c \<and> c_mutex c' = c_mutex c \<and> view c' = view c"

lemma same_view_refl: "cache_ok c \<Longrightarrow> same_view c c"
  by (simp add: same_view_def)

lemma same_view_trans: "same_view c c1 \<Longrightarrow> same_view c1 c2 \<Longrightarrow> same_view c c2"
  by (simp add: same_view_def)

lemma stats_view:
  assumes ok: "cache_ok c" and l: "get_list tb f v c = Some l" and i: "i < length (rules l)"
  shows "same_view c (set_list tb f v (rl_set i (set_stats st (rules l ! i)) l) c)"
proof -
  have "map nostats ((rules l)[i := set_stats st (rules l ! i)]) = map nostats (rules l)"
    using i by (simp add: map_update list_update_same_conv frame_simps)
  then have "view (set_list tb f v (rl_set i (set_stats st (rules l ! i)) l) c) = view c"
    by (intro ext) (simp add: view_def l)
  with stats_held(1,2) [OF ok l i, of st] show ?thesis by (simp add: same_view_def)
qed

text \<open>The filter of a report does not look at the counters.\<close>

definition stats_free :: "(attr \<times> attr_val) list \<Rightarrow> bool" where
  "stats_free params \<longleftrightarrow> A_packet_count \<notin> fst ` set params \<and> A_byte_count \<notin> fst ` set params"

lemma match_nostats: "stats_free params \<Longrightarrow> in_match (nostats r) params = in_match r params"
proof (induction params)
  case (Cons p params)
  obtain k w where p: "p = (k, w)" by (cases p)
  have "map_of (in_vars (nostats r)) k = map_of (in_vars r) k"
    using Cons.prems by (auto simp: p stats_free_def in_vars_def common_vars_def nostats_def)
  with Cons show ?case by (simp add: p in_match_def attrs_match_def stats_free_def)
qed (simp add: in_match_def attrs_match_def)

lemma get_rules_loop_spec:
  assumes "cache_ok c" "view c tb f v = Some rs" "\<forall>i\<in>set is. i < length rs"
    and "get_rules_loop E tb f v params is (c, t) = (x, (c', t'))"
  shows "same_view c c' \<and>
    (stats_free params \<longrightarrow> (\<forall>xs. x = Inr xs \<longrightarrow>
       map nostats xs = filter (\<lambda>q. in_match q params) (map (\<lambda>i. rs ! i) is)))"
  using assms
proof (induction "is" arbitrary: c t x c' t')
  case Nil
  then show ?case by (auto simp: same_view_def)
next
  case (Cons i js)
  from Cons.prems(2) obtain l where l: "get_list tb f v c = Some l" "rs = map nostats (rules l)"
    by (auto simp: view_def)
  have i: "i < length (rules l)" using Cons.prems(3) l(2) by simp
  define r where "r = rules l ! i"
  have rs: "rs ! i = nostats r" using i by (simp add: l(2) r_def)
  have wf: "rl_wf in_eq l" by (rule ins.cache_okD(4) [OF Cons.prems(1) l(1)])
  have idx: "rule_id_map l (rule_id r) = Some i" using inl.wf_id [OF wf] i by (simp add: r_def)
  have "at_home c tb f v r"
    by (rule ins.cache_okD(5) [OF Cons.prems(1) l(1)]) (use i in \<open>simp add: r_def\<close>)
  then have id: "rule_id r \<noteq> None" by (auto simp: homed_def)
  show ?case
  proof (cases "in_match r params")
    case False
    then have "get_rules_loop E tb f v params js (c, t) = (x, (c', t'))"
      using Cons.prems(4) by (simp add: l(1) r_def Let_def)
    from Cons.IH [OF Cons.prems(1,2) _ this] Cons.prems(3) False show ?thesis
      by (simp add: rs match_nostats)
  next
    case True
    obtain y s where pr: "in_proc E OpGet r (Some i) (c, t) = (y, s)" by (cases "in_proc E OpGet r (Some i) (c, t)")
    from in_proc_pair [OF pr] obtain t1 where s: "s = (c, t1)" by blast
    show ?thesis
    proof (cases y)
      case (Inl e)
      then have "x = Inl e" "c' = c"
        using Cons.prems(4) True by (simp_all add: l(1) r_def [symmetric] Let_def id idx pr s)
      with same_view_refl [OF Cons.prems(1)] show ?thesis by simp
    next
      case (Inr p)
      define q where "q = set_stats (snd p) r"
      define c1 where "c1 = set_list tb f v (rl_set i q l) c"
      have v1: "same_view c c1" unfolding c1_def q_def r_def by (rule stats_view [OF Cons.prems(1) l(1) i])
      obtain z c2 t2 where rec: "get_rules_loop E tb f v params js (c1, t1) = (z, (c2, t2))"
        by (cases "get_rules_loop E tb f v params js (c1, t1)") auto
      have "cache_ok c1" "view c1 tb f v = Some rs" using v1 Cons.prems(2) by (simp_all add: same_view_def)
      from Cons.IH [OF this _ rec] Cons.prems(3)
      have ih: "same_view c1 c2" "stats_free params \<Longrightarrow> \<forall>xs. z = Inr xs \<longrightarrow> map nostats xs = filter (\<lambda>q. in_match q params) (map (\<lambda>i. rs ! i) js)"
        by auto
      have "(x, (c', t')) = and_then (z, (c2, t2)) (\<lambda>xs s2. (Inr (q # xs), s2))"
        using Cons.prems(4) True
        by (simp add: l(1) r_def [symmetric] Let_def id idx pr s Inr split_def q_def [symmetric] c1_def [symmetric] rec)
      with same_view_trans [OF v1 ih(1)] ih(2) True show ?thesis
        by (cases z) (auto simp: rs match_nostats q_def frame_simps)
    qed
  qed
qed

text \<open>The rules of one list, of a dictionary and of all of them, without their counters.\<close>

definition dict_report ::
  "in_cache \<Rightarrow> in_table \<Rightarrow> address_family \<Rightarrow> string option \<Rightarrow> (attr \<times> attr_val) list \<Rightarrow> string list \<Rightarrow> in_rule list" where
  "dict_report c tb f flt params vs =
     concat (map (\<lambda>v. if flt = None \<or> flt = Some v
                      then filter (\<lambda>q. in_match q params) (the (view c tb f v)) else []) vs)"

lemma get_lists_loop_spec:
  assumes "cache_ok c"
    and "\<forall>(v, l)\<in>set d. view c tb f v = Some (map nostats (rules l))"
    and "get_lists_loop E tb f flt params d (c, t) = (x, (c', t'))"
  shows "same_view c c' \<and> (stats_free params \<longrightarrow>
    (\<forall>xs. x = Inr xs \<longrightarrow> map nostats xs = dict_report c tb f flt params (map fst d)))"
  using assms
proof (induction d arbitrary: c t x c' t')
  case Nil
  then show ?case by (auto simp: same_view_def dict_report_def)
next
  case (Cons p d)
  obtain v l where p: "p = (v, l)" by (cases p)
  show ?case
  proof (cases "flt \<noteq> None \<and> flt \<noteq> Some v")
    case True
    then have "get_lists_loop E tb f flt params d (c, t) = (x, (c', t'))" using Cons.prems(3) by (simp add: p)
    from Cons.IH [OF Cons.prems(1) _ this] Cons.prems(2) True show ?thesis
      by (auto simp: p dict_report_def)
  next
    case False
    obtain y c1 t1 where g: "get_rules_loop E tb f v params [0..<length (rules l)] (c, t) = (y, (c1, t1))"
      by (cases "get_rules_loop E tb f v params [0..<length (rules l)] (c, t)") auto
    obtain z c2 t2 where rec: "get_lists_loop E tb f flt params d (c1, t1) = (z, (c2, t2))"
      by (cases "get_lists_loop E tb f flt params d (c1, t1)") auto
    have v: "view c tb f v = Some (map nostats (rules l))" using Cons.prems(2) by (simp add: p)
    have gs: "same_view c c1" "stats_free params \<Longrightarrow> \<forall>xs. y = Inr xs \<longrightarrow> map nostats xs = filter (\<lambda>q. in_match q params) (map nostats (rules l))"
      using get_rules_loop_spec [OF Cons.prems(1) v _ g] map_nth [of "map nostats (rules l)"] by auto
    have c1: "cache_ok c1" "view c1 = view c" using gs(1) by (simp_all add: same_view_def)
    have "\<forall>(v, l)\<in>set d. view c1 tb f v = Some (map nostats (rules l))" using Cons.prems(2) c1(2) by auto
    note Cons.IH [OF c1(1) this rec]
    moreover have "dict_report c1 = dict_report c" unfolding dict_report_def c1(2) ..
    ultimately have ih: "same_view c1 c2" "stats_free params \<Longrightarrow> \<forall>xs. z = Inr xs \<longrightarrow> map nostats xs = dict_report c tb f flt params (map fst d)"
      by simp_all
    have x: "(x, (c', t')) = and_then (y, (c1, t1)) (\<lambda>xs s1.
        and_then (get_lists_loop E tb f flt params d s1) (\<lambda>ys s2. (Inr (xs @ ys), s2)))"
      using Cons.prems(3) False by (auto simp: p g)
    show ?thesis
    proof (cases y)
      case (Inl e)
      with x gs(1) show ?thesis by simp
    next
      case (Inr xs)
      with x rec have "(x, (c', t')) = and_then (z, (c2, t2)) (\<lambda>ys s2. (Inr (xs @ ys), s2))" by simp
      with same_view_trans [OF gs(1) ih(1)] ih(2) gs(2) Inr False show ?thesis
        by (cases z) (auto simp: p dict_report_def v)
    qed
  qed
qed

lemma abs_view:
  assumes ok: "cache_ok c"
  shows "(\<exists>v rs. view c tb f v = Some rs \<and> q \<in> set rs \<and> vrf_name q = v) \<longleftrightarrow>
    (\<exists>k. abs_rules c k = Some q \<and> table_of q = tb \<and> af q = f)"
proof
  assume "\<exists>v rs. view c tb f v = Some rs \<and> q \<in> set rs \<and> vrf_name q = v"
  then obtain l r where l: "get_list tb f (vrf_name q) c = Some l" "r \<in> set (rules l)" "q = nostats r"
    by (auto simp: view_def)
  then have "holds c r" unfolding holds_def by blast
  moreover have "at_home c tb f (vrf_name q) r" by (rule ins.cache_okD(5) [OF ok l(1,2)])
  ultimately show "\<exists>k. abs_rules c k = Some q \<and> table_of q = tb \<and> af q = f"
    using l(3) by (auto simp: homed_def ins.abs_iff [OF ok] frame_simps)
next
  assume "\<exists>k. abs_rules c k = Some q \<and> table_of q = tb \<and> af q = f"
  then obtain r where r: "holds c r" "q = nostats r" "table_of r = tb" "af r = f"
    by (auto simp: ins.abs_iff [OF ok] frame_simps)
  from ins.holds_home [OF ok r(1)] obtain l where "get_list tb f (vrf_name r) c = Some l" "r \<in> set (rules l)"
    using r(3,4) by blast
  then show "\<exists>v rs. view c tb f v = Some rs \<and> q \<in> set rs \<and> vrf_name q = v"
    by (auto simp: view_def r(2) frame_simps)
qed

lemma view_home:
  assumes "cache_ok c" "view c tb f v = Some rs" "q \<in> set rs"
  shows "vrf_name q = v"
proof -
  from assms(2,3) obtain l r where l: "get_list tb f v c = Some l" "r \<in> set (rules l)" "q = nostats r"
    by (auto simp: view_def)
  with ins.cache_okD(5) [OF assms(1) l(1,2)] show ?thesis by (simp add: homed_def frame_simps)
qed

lemma get_table_spec:
  assumes ok: "cache_ok c"
    and h: "get_lists_loop E tb f flt params (c_tables c tb f) (c, t) = (x, (c', t'))"
  shows "same_view c c' \<and> (stats_free params \<longrightarrow> (\<forall>xs. x = Inr xs \<longrightarrow> nostats ` set xs =
    {q. (\<exists>k. abs_rules c k = Some q) \<and> table_of q = tb \<and> af q = f \<and>
        (flt = None \<or> flt = Some (vrf_name q)) \<and> in_match q params}))"
proof -
  have dist: "distinct (map fst (c_tables c tb f))"
    using ins.cache_okD(2) [OF ok] by (simp add: keys_distinct_def)
  then have cur: "get_list tb f v c = Some l" if "(v, l) \<in> set (c_tables c tb f)" for v l
    using that by (simp add: get_list_def)
  then have views: "\<forall>(v, l)\<in>set (c_tables c tb f). view c tb f v = Some (map nostats (rules l))"
    by (auto simp: view_def)
  have keys: "v \<in> fst ` set (c_tables c tb f)" if "view c tb f v = Some rs" for v rs
    using that by (force simp: view_def get_list_def dest: map_of_SomeD)
  have "q \<in> set (dict_report c tb f flt params (map fst (c_tables c tb f))) \<longleftrightarrow>
      (\<exists>v rs. view c tb f v = Some rs \<and> q \<in> set rs \<and> vrf_name q = v) \<and>
      (flt = None \<or> flt = Some (vrf_name q)) \<and> in_match q params" for q
  proof
    assume "q \<in> set (dict_report c tb f flt params (map fst (c_tables c tb f)))"
    then obtain v l where v: "(v, l) \<in> set (c_tables c tb f)" "flt = None \<or> flt = Some v"
      "q \<in> set (the (view c tb f v))" "in_match q params"
      by (auto simp: dict_report_def split: if_splits)
    moreover from v(1) views have "view c tb f v = Some (map nostats (rules l))" by blast
    moreover from this v(3) view_home [OF ok this] have "vrf_name q = v" by simp
    ultimately show "(\<exists>v rs. view c tb f v = Some rs \<and> q \<in> set rs \<and> vrf_name q = v) \<and>
      (flt = None \<or> flt = Some (vrf_name q)) \<and> in_match q params" by auto
  next
    assume r: "(\<exists>v rs. view c tb f v = Some rs \<and> q \<in> set rs \<and> vrf_name q = v) \<and>
      (flt = None \<or> flt = Some (vrf_name q)) \<and> in_match q params"
    then obtain rs where "view c tb f (vrf_name q) = Some rs" "q \<in> set rs" by blast
    with r keys [OF this(1)] show "q \<in> set (dict_report c tb f flt params (map fst (c_tables c tb f)))"
      by (force simp: dict_report_def)
  qed
  then have rep: "set (dict_report c tb f flt params (map fst (c_tables c tb f))) =
      {q. (\<exists>k. abs_rules c k = Some q) \<and> table_of q = tb \<and> af q = f \<and>
        (flt = None \<or> flt = Some (vrf_name q)) \<and> in_match q params}"
    unfolding abs_view [OF ok] by auto
  show ?thesis
    using get_lists_loop_spec [OF ok views h] unfolding rep [symmetric] by (auto simp flip: set_map)
qed

definition table_type :: "in_table \<Rightarrow> VrfSvcsRuleType" where
  "table_type tb = (case tb of IpRules \<Rightarrow> RULE_TYPE_IP | AclRules \<Rightarrow> RULE_TYPE_ACL)"

lemma get_tables_loop_spec:
  assumes "cache_ok c"
    and "get_tables_loop E rt flt params ls (c, t) = (x, (c', t'))"
  shows "same_view c c' \<and> (stats_free params \<longrightarrow> (\<forall>xs. x = Inr xs \<longrightarrow> nostats ` set xs =
    {q. (\<exists>k. abs_rules c k = Some q) \<and> (table_of q, af q) \<in> set ls \<and>
        (rt = None \<or> rt = Some (table_type (table_of q))) \<and>
        (flt = None \<or> flt = Some (vrf_name q)) \<and> in_match q params}))"
  using assms
proof (induction ls arbitrary: c t x c' t')
  case Nil
  then show ?case by (auto simp: same_view_def)
next
  case (Cons p ls)
  obtain tb f where p: "p = (tb, f)" by (cases p)
  have type: "(case tb of IpRules \<Rightarrow> RULE_TYPE_IP | AclRules \<Rightarrow> RULE_TYPE_ACL) = table_type tb"
    by (simp add: table_type_def)
  show ?case
  proof (cases "rt = None \<or> rt = Some (table_type tb)")
    case False
    have "get_tables_loop E rt flt params ls (c, t) = (x, (c', t'))"
      using Cons.prems(2) unfolding p get_tables_loop.simps type if_not_P [OF False] .
    from Cons.IH [OF Cons.prems(1) this] False show ?thesis by (auto simp: p)
  next
    case True
    obtain y c1 t1 where g: "get_lists_loop E tb f flt params (c_tables c tb f) (c, t) = (y, (c1, t1))"
      by (cases "get_lists_loop E tb f flt params (c_tables c tb f) (c, t)") auto
    obtain z c2 t2 where rec: "get_tables_loop E rt flt params ls (c1, t1) = (z, (c2, t2))"
      by (cases "get_tables_loop E rt flt params ls (c1, t1)") auto
    note gs = get_table_spec [OF Cons.prems(1) g]
    have c1: "cache_ok c1" "abs_rules c1 = abs_rules c" using gs by (simp_all add: same_view_def)
    note ih = Cons.IH [OF c1(1) rec, unfolded c1(2)]
    have x: "(x, (c', t')) = and_then (y, (c1, t1)) (\<lambda>xs s1.
        and_then (get_tables_loop E rt flt params ls s1) (\<lambda>ys s2. (Inr (xs @ ys), s2)))"
      using Cons.prems(2) True unfolding p get_tables_loop.simps type fst_conv g by simp
    show ?thesis
    proof (cases y)
      case (Inl e)
      with x gs show ?thesis by simp
    next
      case (Inr xs)
      with x rec have "(x, (c', t')) = and_then (z, (c2, t2)) (\<lambda>ys s2. (Inr (xs @ ys), s2))" by simp
      with same_view_trans ih gs Inr True show ?thesis
        by (cases z) (auto simp: p image_Un)
    qed
  qed
qed

lemma get_all_spec:
  assumes ok: "cache_ok c"
    and h: "get_all_rules E rt flt params (c, t) = (x, (c', t'))"
  shows "cache_ok c' \<and> abs_rules c' = abs_rules c \<and> (\<forall>xs. x = Inr xs \<longrightarrow> c_mutex c' = c_mutex c \<and>
    (stats_free params \<longrightarrow> nostats ` set xs = {q. (\<exists>k. abs_rules c k = Some q) \<and> (rt = None \<or> rt = Some (table_type (table_of q))) \<and>
        (flt = None \<or> flt = Some (vrf_name q)) \<and> in_match q params}))"
proof -
  have ok1: "cache_ok (lock c)" using ok by simp
  obtain y c1 t1 where g: "get_tables_loop E rt flt params loc_order (lock c, t) = (y, (c1, t1))"
    by (cases "get_tables_loop E rt flt params loc_order (lock c, t)") auto
  note gs = get_tables_loop_spec [OF ok1 g]
  have "(\<exists>e. x = Inl e \<and> y = Inl e \<and> c' = c1) \<or> (\<exists>xs. x = Inr xs \<and> y = Inr xs \<and> c' = unlock c1)"
    using h by (cases y) (auto simp: get_all_rules_def g)
  with gs show ?thesis by (elim disjE exE conjE) (simp_all add: same_view_def loc_order_all)
qed

end
