(* ===== verification/OutgoingCache.thy ===== *)
theory OutgoingCache
  imports Iptables RuleCache
begin

text \<open>
  \<^verbatim>\<open>scripts/lib/python/dn_base_vrf_svcs_config.py\<close>, the class \<open>VrfOutgoingSvcsRuleCache\<close>: the
  rules for services outside the switch, and the functions of the module that work on it.

  A rule of the type \<open>RULE_TYPE_OUT_IP\<close> has a private address and port besides: the alias under
  which the namespaces reach the service. The alias is allocated in the maps of the
  namespace tool when the rule is inserted and given back when it is deleted.
\<close>

section \<open>The state of the class\<close>

datatype out_table = OutIpRules | SnatRules

type_synonym out_cache = "(out_table, out_rule) rule_cache"

type_synonym 'w out_state = "out_cache \<times> 'w tool"

definition out_table_of :: "out_rule \<Rightarrow> out_table" where
  "out_table_of r = (if rule_type r = RULE_TYPE_OUT_IP then OutIpRules else SnatRules)"

definition out_order :: "(out_table \<times> address_family) list" where
  "out_order = [(OutIpRules, AF_INET), (SnatRules, AF_INET), (OutIpRules, AF_INET6), (SnatRules, AF_INET6)]"

definition out_proc ::
  "'w ext \<Rightarrow> ipt_op \<Rightarrow> out_rule \<Rightarrow> nat option \<Rightarrow> 'w out_state \<Rightarrow> (bool \<times> rule_stats option, 'w out_state) outcome" where
  "out_proc E op r idx s =
     (case s of (c, t) \<Rightarrow> (case proc_rule E op (OutRule r) idx t of (x, t') \<Rightarrow> (x, (c, t'))))"

definition rule_alias :: "out_rule \<Rightarrow> svc_alias" where
  "rule_alias r = (vrf_name r, af r, dst_ip r, protocol r, dst_port r)"

text \<open>
  \<open>outgoing_ip_svcs_rule_sub_net_config\<close>, with the operation as whether it is \<^verbatim>\<open>'insert'\<close>; the
  second result is the rule, whose private address and port an insertion sets.
\<close>

definition outgoing_ip_svcs_rule_sub_net_config ::
  "'w ext \<Rightarrow> bool \<Rightarrow> out_rule \<Rightarrow> 'w out_state \<Rightarrow> (bool \<times> out_rule, 'w out_state) outcome" where
  "outgoing_ip_svcs_rule_sub_net_config E is_insert r s =
     (case s of (c, t) \<Rightarrow>
        if rule_type r \<noteq> RULE_TYPE_OUT_IP then (Inr (False, r), s)
        else
          (case process_outgoing_ip_svcs_sub_net_config E is_insert (rule_alias r) t of
             (Inl e, t1) \<Rightarrow> (Inl e, (c, t1))
           | (Inr None, t1) \<Rightarrow> (Inr (False, r), (c, t1))
           | (Inr (Some (ip, port)), t1) \<Rightarrow>
               (Inr (True, if is_insert then r\<lparr>private_ip := Some ip, private_port := Some port\<rparr> else r), (c, t1))))"

text \<open>\<^verbatim>\<open>if rule.rule_type == RULE_TYPE_OUT_IP: ...sub_net_config('delete', rule)\<close>.\<close>

definition release_alias :: "'w ext \<Rightarrow> out_rule \<Rightarrow> 'w out_state \<Rightarrow> (unit, 'w out_state) outcome" where
  "release_alias E r s =
     (if rule_type r = RULE_TYPE_OUT_IP
      then and_then (outgoing_ip_svcs_rule_sub_net_config E False r s) (\<lambda>_ s1. (Inr (), s1))
      else (Inr (), s))"

section \<open>Insertion and deletion\<close>

text \<open>
  \<open>insert_rule\<close>; the result is the return value and the rule, with the attributes the code sets.
  \<open>out_insert_tail\<close> is what follows the allocation of the alias.
\<close>

definition out_insert_tail ::
  "'w ext \<Rightarrow> out_table \<Rightarrow> address_family \<Rightarrow> string \<Rightarrow> out_rule \<Rightarrow> 'w out_state \<Rightarrow> (bool \<times> out_rule, 'w out_state) outcome" where
  "out_insert_tail E tb f v r s =
     (case s of (c, t) \<Rightarrow>
        (case out_list_insert r (the (get_list tb f v c)) of
           (None, _) \<Rightarrow>
             and_then (release_alias E r s) (\<lambda>_ (c1, t1).
               (Inr (False, r), (unlock (release_rule_id (rule_id r) c1), t1)))
         | (Some idx, l1) \<Rightarrow>
             and_then (out_proc E OpInsert r (Some idx) (set_list tb f v l1 c, t)) (\<lambda>(ok, _) (c1, t1).
               if ok then (Inr (True, r), (unlock c1, t1))
               else
                 (case out_list_remove r l1 of
                    (Inl e, l2) \<Rightarrow> (Inl e, (set_list tb f v l2 (release_rule_id (rule_id r) c1), t1))
                  | (Inr _, l2) \<Rightarrow>
                      and_then (release_alias E r (set_list tb f v l2 (release_rule_id (rule_id r) c1), t1))
                        (\<lambda>_ (c2, t2). (Inr (False, r), (unlock c2, t2)))))))"

definition out_insert_rule :: "'w ext \<Rightarrow> out_rule \<Rightarrow> 'w out_state \<Rightarrow> (bool \<times> out_rule, 'w out_state) outcome" where
  "out_insert_rule E r s =
     (case s of (c0, t) \<Rightarrow>
        (let tb = out_table_of r; f = af r; v = vrf_name r;
             c1 = lock c0;
             c2 = (if get_list tb f v c1 = None then set_list tb f v empty_rule_list c1 else c1)
         in (case assign_id r (c_ids c2) of
               (None, g) \<Rightarrow> (Inr (False, r), (unlock (set_ids g c2), t))
             | (Some r1, g) \<Rightarrow>
                 if rule_type r1 = RULE_TYPE_OUT_IP then
                   and_then (outgoing_ip_svcs_rule_sub_net_config E True r1 (set_ids g c2, t)) (\<lambda>(ok, r2) (c3, t1).
                     if ok then out_insert_tail E tb f v r2 (c3, t1)
                     else (Inr (False, r2), (unlock (release_rule_id (rule_id r2) c3), t1)))
                 else out_insert_tail E tb f v r1 (set_ids g c2, t))))"

text \<open>The common end of the two deletions, once the rule has left its list.\<close>

definition out_finish_delete ::
  "'w ext \<Rightarrow> out_table \<Rightarrow> address_family \<Rightarrow> string \<Rightarrow> out_rule \<Rightarrow> nat \<Rightarrow> int option \<Rightarrow> 'w out_state \<Rightarrow>
   (bool, 'w out_state) outcome" where
  "out_finish_delete E tb f v d idx rid s =
     and_then (out_proc E OpDelete d (Some idx) s) (\<lambda>(ok, _) (c1, t1).
       (case (if ok then Some c1
              else (case get_list tb f (vrf_name d) c1 of
                      None \<Rightarrow> None
                    | Some l \<Rightarrow> Some (set_list tb f (vrf_name d) (snd (out_list_insert d l)) c1))) of
          None \<Rightarrow> (Inl KeyError, (c1, t1))
        | Some c2 \<Rightarrow>
            and_then (if ok then release_alias E d (c2, t1) else (Inr (), (c2, t1))) (\<lambda>_ (c3, t2).
              (case get_list tb f v c3 of
                 None \<Rightarrow> (Inl KeyError, (c3, t2))
               | Some l \<Rightarrow>
                   (let c4 = unlock (if rules l = [] then del_list tb f v c3 else c3)
                    in (Inr ok, (if ok then release_rule_id rid c4 else c4, t2)))))))"

definition out_delete_rule :: "'w ext \<Rightarrow> out_rule \<Rightarrow> 'w out_state \<Rightarrow> (bool, 'w out_state) outcome" where
  "out_delete_rule E r s =
     (case s of (c0, t) \<Rightarrow>
        (let tb = out_table_of r; f = af r; v = vrf_name r; c1 = lock c0
         in (case get_list tb f v c1 of
               None \<Rightarrow> (Inr False, (unlock c1, t))
             | Some l \<Rightarrow>
                 (case out_list_remove r l of
                    (Inl e, l1) \<Rightarrow> (Inl e, (set_list tb f v l1 c1, t))
                  | (Inr None, l1) \<Rightarrow> (Inr False, (unlock (set_list tb f v l1 c1), t))
                  | (Inr (Some (d, idx)), l1) \<Rightarrow>
                      out_finish_delete E tb f v d idx (rule_id d) (set_list tb f v l1 c1, t)))))"

section \<open>Search\<close>

definition out_find_rule_by_id :: "int \<Rightarrow> out_cache \<Rightarrow> ((out_rule \<times> nat) option, out_cache) outcome" where
  "out_find_rule_by_id k c0 =
     (let c1 = lock c0
      in (case find_loc k out_order c1 of
            None \<Rightarrow> (Inr None, unlock c1)
          | Some (tb, f, v, idx) \<Rightarrow>
              (let l = the (get_list tb f v c1)
               in if \<not> idx < length (rules l) then (Inl IndexError, c1)
                  else (Inr (Some (rules l ! idx, idx)), unlock c1))))"

definition out_find_rule_by_match :: "out_rule \<Rightarrow> out_cache \<Rightarrow> out_rule option" where
  "out_find_rule_by_match r c = match_rule out_is_rule_equal out_table_of r c"

text \<open>\<open>delete_rule_by_id\<close>; the second component is the rule object that was deleted.\<close>

definition out_delete_by_id_obj ::
  "'w ext \<Rightarrow> int \<Rightarrow> 'w out_state \<Rightarrow> (bool \<times> out_rule option, 'w out_state) outcome" where
  "out_delete_by_id_obj E k s =
     (case s of (c0, t) \<Rightarrow>
        (case out_find_rule_by_id k (lock c0) of
           (Inl e, c1) \<Rightarrow> (Inl e, (c1, t))
         | (Inr None, c1) \<Rightarrow> (Inr (False, None), (unlock c1, t))
         | (Inr (Some (d, idx)), c1) \<Rightarrow>
             (let tb = out_table_of d; f = af d; v = vrf_name d
              in (case get_list tb f v c1 of
                    None \<Rightarrow> (Inl KeyError, (c1, t))
                  | Some l \<Rightarrow>
                      (case out_list_remove_by_id k l of
                         (Inl e, l1) \<Rightarrow> (Inl e, (set_list tb f v l1 c1, t))
                       | (Inr None, l1) \<Rightarrow> (Inr (False, None), (unlock (set_list tb f v l1 c1), t))
                       | (Inr (Some _), l1) \<Rightarrow>
                           and_then (out_finish_delete E tb f v d idx (Some k) (set_list tb f v l1 c1, t))
                             (\<lambda>ok s1. (Inr (ok, Some d), s1)))))))"

definition out_delete_rule_by_id :: "'w ext \<Rightarrow> int \<Rightarrow> 'w out_state \<Rightarrow> (bool, 'w out_state) outcome" where
  "out_delete_rule_by_id E k s = and_then (out_delete_by_id_obj E k s) (\<lambda>(ok, _) s1. (Inr ok, s1))"

section \<open>Change\<close>

definition out_replace_rule :: "'w ext \<Rightarrow> int \<Rightarrow> out_rule \<Rightarrow> 'w out_state \<Rightarrow> (bool, 'w out_state) outcome" where
  "out_replace_rule E k new s =
     (case s of (c0, t) \<Rightarrow>
        (case out_find_rule_by_id k (lock c0) of
           (Inl e, c1) \<Rightarrow> (Inl e, (c1, t))
         | (Inr None, c1) \<Rightarrow> (Inr False, (unlock c1, t))
         | (Inr (Some (old, idx)), c1) \<Rightarrow>
             and_then (out_proc E OpReplace new (Some idx) (c1, t)) (\<lambda>(ok, _) (c2, t2).
               if \<not> ok then (Inr False, (unlock c2, t2))
               else
                 (let tb = out_table_of old; f = af old; v = vrf_name old
                  in (case get_list tb f v c2 of
                        None \<Rightarrow> (Inl KeyError, (c2, t2))
                      | Some l \<Rightarrow> (Inr True, (unlock (set_list tb f v (rl_set idx new l) c2), t2)))))))"

datatype out_param =
    PO_dst_ip packed | PO_protocol int | PO_dst_port int | PO_out_src_ip packed | PO_action int
  | PO_private_ip packed | PO_private_port int | PO_seq_num int

fun out_param_attr :: "out_param \<Rightarrow> attr" where
  "out_param_attr (PO_dst_ip _) = A_dst_ip"
| "out_param_attr (PO_protocol _) = A_protocol"
| "out_param_attr (PO_dst_port _) = A_dst_port"
| "out_param_attr (PO_out_src_ip _) = A_out_src_ip"
| "out_param_attr (PO_action _) = A_action"
| "out_param_attr (PO_private_ip _) = A_private_ip"
| "out_param_attr (PO_private_port _) = A_private_port"
| "out_param_attr (PO_seq_num _) = A_seq_num"

fun out_param_val :: "out_param \<Rightarrow> attr_val" where
  "out_param_val (PO_dst_ip b) = VBytes b"
| "out_param_val (PO_out_src_ip b) = VBytes b"
| "out_param_val (PO_private_ip b) = VBytes b"
| "out_param_val (PO_protocol n) = VInt n"
| "out_param_val (PO_dst_port n) = VInt n"
| "out_param_val (PO_action n) = VInt n"
| "out_param_val (PO_private_port n) = VInt n"
| "out_param_val (PO_seq_num n) = VInt n"

text \<open>\<^verbatim>\<open>setattr(rule, key, val)\<close>, with the checks of \<open>__setattr__\<close>.\<close>

fun out_set_param :: "out_param \<Rightarrow> out_rule \<Rightarrow> exn + out_rule" where
  "out_set_param (PO_dst_ip b) r = Inr (r\<lparr>dst_ip := Some b\<rparr>)"
| "out_set_param (PO_protocol n) r =
     try_bind (checked proto_of_int out_proto_name n) (\<lambda>p. Inr (r\<lparr>protocol := Some p\<rparr>))"
| "out_set_param (PO_dst_port n) r = Inr (r\<lparr>dst_port := Some n\<rparr>)"
| "out_set_param (PO_out_src_ip b) r = Inr (r\<lparr>out_src_ip := Some b\<rparr>)"
| "out_set_param (PO_action n) r =
     try_bind (checked action_of_int (out_action_name False) n) (\<lambda>a. Inr (r\<lparr>action := a\<rparr>))"
| "out_set_param (PO_private_ip b) r = Inr (r\<lparr>private_ip := Some b\<rparr>)"
| "out_set_param (PO_private_port n) r = Inr (r\<lparr>private_port := Some n\<rparr>)"
| "out_set_param (PO_seq_num n) r = Inr (r\<lparr>seq_num := n\<rparr>)"

fun out_check_and_set :: "out_param list \<Rightarrow> out_rule \<Rightarrow> attr list \<Rightarrow> exn + (out_rule \<times> attr list)" where
  "out_check_and_set [] r changed = Inr (r, changed)"
| "out_check_and_set (p # ps) r changed =
     (if map_of (out_vars r) (out_param_attr p) = Some (out_param_val p) then out_check_and_set ps r changed
      else try_bind (out_set_param p r) (\<lambda>r1. out_check_and_set ps r1 (out_param_attr p # changed)))"

definition out_repl_attrs :: "attr list" where
  "out_repl_attrs = [A_dst_ip, A_dst_port, A_out_src_ip, A_action]"

definition out_update_found ::
  "'w ext \<Rightarrow> int \<Rightarrow> out_rule \<Rightarrow> out_rule \<Rightarrow> attr list \<Rightarrow> 'w out_state \<Rightarrow> (bool, 'w out_state) outcome" where
  "out_update_found E k old upd changed s =
     (if list_all (\<lambda>a. a \<in> set out_repl_attrs) changed then
        and_then (out_replace_rule E k upd s) (\<lambda>ok (c1, t1). (Inr ok, (unlock c1, t1)))
      else
        and_then (out_delete_by_id_obj E k s) (\<lambda>(deleted, obj) (c1, t1).
          if \<not> deleted then (Inr False, (unlock c1, t1))
          else
            and_then (out_insert_rule E upd (c1, t1)) (\<lambda>(ok, _) (c2, t2).
              if ok then (Inr True, (unlock c2, t2))
              else
                and_then (out_insert_rule E (case obj of Some d \<Rightarrow> d | None \<Rightarrow> old) (c2, t2)) (\<lambda>_ (c3, t3).
                  (Inr False, (unlock c3, t3))))))"

definition out_update_rule :: "'w ext \<Rightarrow> int \<Rightarrow> out_param list \<Rightarrow> 'w out_state \<Rightarrow> (bool, 'w out_state) outcome" where
  "out_update_rule E k ps s =
     (case s of (c0, t) \<Rightarrow>
        (case out_find_rule_by_id k (lock c0) of
           (Inl e, c1) \<Rightarrow> (Inl e, (c1, t))
         | (Inr None, c1) \<Rightarrow> (Inr False, (unlock c1, t))
         | (Inr (Some (old, _)), c1) \<Rightarrow>
             (case out_check_and_set ps old [] of
                Inl e \<Rightarrow> (Inl e, (c1, t))
              | Inr (upd, changed) \<Rightarrow>
                  if changed = [] then (Inr True, (unlock c1, t))
                  else
                    (case out_find_rule_by_match upd c1 of
                       Some m \<Rightarrow>
                         if rule_id m \<noteq> rule_id old then (Inr False, (unlock c1, t))
                         else out_update_found E k old upd changed (c1, t)
                     | None \<Rightarrow> out_update_found E k old upd changed (c1, t)))))"

section \<open>Whole lists\<close>

text \<open>
  \<open>clear_all_rules\<close>. The loop over the service rules gives the alias of every rule back, the
  loop over the SNAT rules does not ask for one.
\<close>

fun out_clear_rules :: "'w ext \<Rightarrow> out_table \<Rightarrow> out_rule list \<Rightarrow> 'w out_state \<Rightarrow> (unit, 'w out_state) outcome" where
  "out_clear_rules E tb [] s = (Inr (), s)"
| "out_clear_rules E tb (r # rs) s =
     and_then (out_proc E OpDelete r None s) (\<lambda>_ s1.
     and_then (case tb of OutIpRules \<Rightarrow> outgoing_ip_svcs_rule_sub_net_config E False r s1
               | SnatRules \<Rightarrow> (Inr (True, r), s1)) (\<lambda>_ (c, t).
       out_clear_rules E tb rs (release_rule_id (rule_id r) c, t)))"

fun out_clear_lists ::
  "'w ext \<Rightarrow> out_table \<Rightarrow> address_family \<Rightarrow> string option \<Rightarrow> (string \<times> out_rule rule_list) list \<Rightarrow>
   'w out_state \<Rightarrow> (unit, 'w out_state) outcome" where
  "out_clear_lists E tb f flt [] s = (Inr (), s)"
| "out_clear_lists E tb f flt ((v, l) # rest) s =
     (if flt \<noteq> None \<and> flt \<noteq> Some v then out_clear_lists E tb f flt rest s
      else
        and_then (out_clear_rules E tb (rules l) s) (\<lambda>_ (c, t).
          out_clear_lists E tb f flt rest (del_list tb f v c, t)))"

fun out_clear_tables ::
  "'w ext \<Rightarrow> string option \<Rightarrow> address_family option \<Rightarrow> (out_table \<times> address_family) list \<Rightarrow>
   'w out_state \<Rightarrow> (unit, 'w out_state) outcome" where
  "out_clear_tables E flt flt_af [] s = (Inr (), s)"
| "out_clear_tables E flt flt_af ((tb, f) # rest) s =
     (if flt_af \<noteq> None \<and> flt_af \<noteq> Some f then out_clear_tables E flt flt_af rest s
      else
        and_then (out_clear_lists E tb f flt (c_tables (fst s) tb f) s) (\<lambda>_. out_clear_tables E flt flt_af rest))"

definition out_clear_all_rules ::
  "'w ext \<Rightarrow> string option \<Rightarrow> address_family option \<Rightarrow> 'w out_state \<Rightarrow> (unit, 'w out_state) outcome" where
  "out_clear_all_rules E flt flt_af s =
     (case s of (c0, t) \<Rightarrow>
        and_then (out_clear_tables E flt flt_af out_order (lock c0, t)) (\<lambda>_ (c1, t1). (Inr (), (unlock c1, t1))))"

text \<open>\<open>get_all_rules\<close>, which reads only.\<close>

definition out_get_list ::
  "string option \<Rightarrow> (attr \<times> attr_val) list \<Rightarrow> string \<times> out_rule rule_list \<Rightarrow> out_rule list" where
  "out_get_list flt params vl =
     (case vl of (v, l) \<Rightarrow>
        if flt \<noteq> None \<and> flt \<noteq> Some v then [] else filter (\<lambda>r. out_match r params) (rules l))"

definition out_get_all_rules ::
  "VrfSvcsRuleType option \<Rightarrow> string option \<Rightarrow> (attr \<times> attr_val) list \<Rightarrow> out_cache \<Rightarrow> out_rule list" where
  "out_get_all_rules rt flt params c =
     concat (map (\<lambda>(tb, f).
       if rt = None \<or> rt = Some (case tb of OutIpRules \<Rightarrow> RULE_TYPE_OUT_IP | SnatRules \<Rightarrow> RULE_TYPE_SNAT)
       then concat (map (out_get_list flt params) (c_tables c tb f)) else []) out_order)"

section \<open>The functions of the module\<close>

definition process_vrf_outgoing_svcs_rule_add ::
  "'w ext \<Rightarrow> int \<Rightarrow> string \<Rightarrow> int \<Rightarrow> int \<Rightarrow> out_args \<Rightarrow> 'w out_state \<Rightarrow>
   (int option \<times> packed option \<times> int option, 'w out_state) outcome" where
  "process_vrf_outgoing_svcs_rule_add E rt vrf act fam args s =
     catch (None, None, None)
       (and_then (VrfOutgoingSvcsRule_init rt vrf act fam args, s) (\<lambda>r s1.
        and_then (out_insert_rule E r s1) (\<lambda>(ok, r1) s2.
          (Inr (if ok then (rule_id r1, private_ip r1, private_port r1) else (None, None, None)), s2))))"

definition process_vrf_outgoing_svcs_rule_set ::
  "'w ext \<Rightarrow> int \<Rightarrow> out_param list \<Rightarrow> 'w out_state \<Rightarrow> (bool, 'w out_state) outcome" where
  "process_vrf_outgoing_svcs_rule_set E k ps s = catch False (out_update_rule E k ps s)"

text \<open>The result \<open>None\<close> of a deletion is the one of a rule that could not be deleted.\<close>

definition process_vrf_outgoing_svcs_rule_del ::
  "'w ext \<Rightarrow> int \<Rightarrow> string \<Rightarrow> int \<Rightarrow> int \<Rightarrow> out_args \<Rightarrow> 'w out_state \<Rightarrow> (bool option, 'w out_state) outcome" where
  "process_vrf_outgoing_svcs_rule_del E rt vrf act fam args s =
     catch (Some False)
       (and_then (VrfOutgoingSvcsRule_init rt vrf act fam args, s) (\<lambda>r s1.
        and_then (out_delete_rule E r s1) (\<lambda>ok s2. (Inr (if ok then Some True else None), s2))))"

definition process_vrf_outgoing_svcs_rule_del_by_id ::
  "'w ext \<Rightarrow> int \<Rightarrow> 'w out_state \<Rightarrow> (bool, 'w out_state) outcome" where
  "process_vrf_outgoing_svcs_rule_del_by_id E k s = catch False (out_delete_rule_by_id E k s)"

definition process_vrf_outgoing_svcs_rule_get ::
  "int option \<Rightarrow> VrfSvcsRuleType option \<Rightarrow> string option \<Rightarrow> (attr \<times> attr_val) list \<Rightarrow>
   'w out_state \<Rightarrow> ((string \<times> attr_val) list list option, 'w out_state) outcome" where
  "process_vrf_outgoing_svcs_rule_get k rt vrf params s =
     (case s of (c, t) \<Rightarrow>
        catch None
          (case k of
             Some i \<Rightarrow>
               (case out_find_rule_by_id i c of
                  (Inl e, c1) \<Rightarrow> (Inl e, (c1, t))
                | (Inr found, c1) \<Rightarrow>
                    (Inr (Some (case found of None \<Rightarrow> [] | Some (r, _) \<Rightarrow> [out_to_cps_obj r])), (c1, t)))
           | None \<Rightarrow> (Inr (Some (map out_to_cps_obj (out_get_all_rules rt vrf params c))), (c, t))))"

definition process_vrf_outgoing_svcs_clear_rules ::
  "'w ext \<Rightarrow> string option \<Rightarrow> 'w out_state \<Rightarrow> (bool, 'w out_state) outcome" where
  "process_vrf_outgoing_svcs_clear_rules E vrf s =
     catch False (and_then (out_clear_all_rules E vrf None s) (\<lambda>_ s1. (Inr True, s1)))"

end
