(* ===== verification/LockDepth.thy ===== *)
theory LockDepth
  imports IncomingCache OutgoingCache
begin

text \<open>
  How the operations of the two caches leave the lock: one that returns gives back what it took, one
  that raises may keep it but never gives back more. This holds in every state, whatever a \<open>Clear\<close> that
  raised before has left in the lists.
\<close>

definition depth :: "nat \<Rightarrow> ('a, ('t, 'r) rule_cache \<times> 'w) outcome \<Rightarrow> bool" where
  "depth n m \<longleftrightarrow> (case m of (x, (c, t)) \<Rightarrow> n \<le> c_mutex c \<and> (\<forall>a. x = Inr a \<longrightarrow> c_mutex c = n))"

named_theorems depth_intros \<open>operations on a cache return at the depth they were called\<close>

lemma depth_ret [depth_intros]: "c_mutex c = n \<Longrightarrow> depth n (x, (c, t))"
  by (simp add: depth_def)

lemma depth_raise [depth_intros]: "n \<le> c_mutex c \<Longrightarrow> depth n (Inl e, (c, t))"
  by (simp add: depth_def)

lemma depth_and_then:
  assumes "depth k m" "n \<le> k" "\<And>a c t. m = (Inr a, (c, t)) \<Longrightarrow> c_mutex c = k \<Longrightarrow> depth n (f a (c, t))"
  shows "depth n (and_then m f)"
proof -
  obtain x c t where m: "m = (x, (c, t))" by (metis surj_pair)
  show ?thesis
  proof (cases x)
    case (Inr a)
    with assms m show ?thesis by (auto simp: depth_def)
  qed (use assms m in \<open>auto simp: depth_def\<close>)
qed

text \<open>A call at the end of an operation, and a call that something follows.\<close>

lemma depth_at: "depth k m \<Longrightarrow> k = n \<Longrightarrow> depth n m"
  by simp

lemma depth_same: "depth n m \<Longrightarrow> (\<And>a c t. c_mutex c = n \<Longrightarrow> depth n (f a (c, t))) \<Longrightarrow> depth n (and_then m f)"
  by (rule depth_and_then) auto

lemma depth_pure: "(\<And>a. x = Inr a \<Longrightarrow> depth n (f a (c, t))) \<Longrightarrow> n \<le> c_mutex c \<Longrightarrow> depth n (and_then (x, (c, t)) f)"
  by (cases x) (auto intro: depth_raise)

section \<open>Incoming\<close>

lemma depth_in_proc: "depth (c_mutex c) (in_proc E op r i (c, t))"
  by (simp add: in_proc_def depth_def split: prod.split)

lemmas in_proc_depths [depth_intros] = depth_and_then [OF depth_in_proc] depth_at [OF depth_in_proc]

lemma depth_insert_rule: "depth (c_mutex c) (insert_rule E r (c, t))"
  unfolding insert_rule_def Let_def
  by (auto intro!: depth_intros split: option.splits prod.splits sum.splits)

lemmas insert_rule_depths [depth_intros] = depth_and_then [OF depth_insert_rule] depth_at [OF depth_insert_rule]

lemma depth_finish_delete: "0 < c_mutex c \<Longrightarrow> depth (c_mutex c - 1) (finish_delete E tb f v d i k (c, t))"
  unfolding finish_delete_def Let_def
  by (auto intro!: depth_intros split: option.splits prod.splits sum.splits)

lemmas finish_delete_depths [depth_intros] = depth_and_then [OF depth_finish_delete] depth_at [OF depth_finish_delete]

lemma depth_delete_rule: "depth (c_mutex c) (delete_rule E r (c, t))"
  unfolding delete_rule_def Let_def
  by (auto intro!: depth_intros split: option.splits prod.splits sum.splits)

lemmas delete_rule_depths [depth_intros] = depth_and_then [OF depth_delete_rule] depth_at [OF depth_delete_rule]

lemma depth_refresh: "depth (c_mutex c) (refresh E tb f v i (c, t))"
  unfolding refresh_def Let_def
  by (auto intro!: depth_intros split: option.splits prod.splits)

lemmas refresh_depths [depth_intros] = depth_and_then [OF depth_refresh] depth_at [OF depth_refresh]

lemma depth_find_rule_by_id: "depth (c_mutex c) (find_rule_by_id E k (c, t))"
  unfolding find_rule_by_id_def Let_def
  by (auto intro!: depth_intros split: option.splits prod.splits)

lemmas find_rule_depths [depth_intros] = depth_and_then [OF depth_find_rule_by_id] depth_at [OF depth_find_rule_by_id]

lemma depth_delete_by_id_obj: "depth (c_mutex c) (delete_by_id_obj E k (c, t))"
  unfolding delete_by_id_obj_def Let_def
  by (auto intro!: depth_intros split: option.splits prod.splits sum.splits)

lemmas delete_by_id_obj_depths [depth_intros] = depth_and_then [OF depth_delete_by_id_obj] depth_at [OF depth_delete_by_id_obj]

lemma depth_replace_rule: "depth (c_mutex c) (replace_rule E k r (c, t))"
  unfolding replace_rule_def Let_def
  by (auto intro!: depth_intros split: option.splits prod.splits)

lemmas replace_rule_depths [depth_intros] = depth_and_then [OF depth_replace_rule] depth_at [OF depth_replace_rule]

lemma depth_update_found: "0 < c_mutex c \<Longrightarrow> depth (c_mutex c - 1) (update_found E k old upd ch (c, t))"
  unfolding update_found_def Let_def
  by (auto intro!: depth_intros split: option.splits prod.splits)

lemmas update_found_depths [depth_intros] = depth_and_then [OF depth_update_found] depth_at [OF depth_update_found]

lemma depth_update_rule: "depth (c_mutex c) (update_rule E k ps (c, t))"
  unfolding update_rule_def Let_def
  by (auto intro!: depth_intros split: option.splits prod.splits sum.splits)

lemmas update_rule_depths [depth_intros] = depth_and_then [OF depth_update_rule] depth_at [OF depth_update_rule]

lemma depth_clear_rules: "c_mutex c = n \<Longrightarrow> depth n (clear_rules E rs (c, t))"
  by (induction rs arbitrary: c t) (auto intro!: depth_intros)

lemmas clear_rules_depths [depth_intros] = depth_and_then [OF depth_clear_rules [OF refl]] depth_clear_rules

lemma depth_clear_lists: "c_mutex c = n \<Longrightarrow> depth n (clear_lists E tb f flt ls (c, t))"
  by (induction ls arbitrary: c t) (auto intro!: depth_intros)

lemmas clear_lists_depths [depth_intros] = depth_and_then [OF depth_clear_lists [OF refl]] depth_clear_lists

lemma depth_clear_tables: "c_mutex c = n \<Longrightarrow> depth n (clear_tables E flt fam ts (c, t))"
  by (induction ts arbitrary: c t) (auto intro!: depth_intros)

lemmas clear_tables_depths [depth_intros] = depth_and_then [OF depth_clear_tables [OF refl]] depth_clear_tables

lemma depth_get_rules_loop: "c_mutex c = n \<Longrightarrow> depth n (get_rules_loop E tb f v ps is (c, t))"
proof (induction "is" arbitrary: c t)
  case (Cons i js)
  then show ?case
    unfolding get_rules_loop.simps Let_def
    by (cases "in_match (rules (the (get_list tb f v (fst (c, t)))) ! i) ps")
      (auto intro!: depth_same depth_intros split: option.splits)
qed (simp add: depth_intros)

lemmas get_rules_loop_depths [depth_intros] = depth_and_then [OF depth_get_rules_loop [OF refl]] depth_get_rules_loop

lemma depth_get_lists_loop: "c_mutex c = n \<Longrightarrow> depth n (get_lists_loop E tb f flt ps ls (c, t))"
  by (induction ls arbitrary: c t) (auto intro!: depth_same depth_intros)

lemmas get_lists_loop_depths [depth_intros] = depth_and_then [OF depth_get_lists_loop [OF refl]] depth_get_lists_loop

lemma depth_get_tables_loop: "c_mutex c = n \<Longrightarrow> depth n (get_tables_loop E rt flt ps ts (c, t))"
  by (induction ts arbitrary: c t) (auto intro!: depth_same depth_intros)

lemmas get_tables_loop_depths [depth_intros] = depth_and_then [OF depth_get_tables_loop [OF refl]] depth_get_tables_loop

section \<open>Outgoing\<close>

lemma depth_out_proc: "depth (c_mutex c) (out_proc E op r i (c, t))"
  by (simp add: out_proc_def depth_def split: prod.split)

lemmas out_proc_depths [depth_intros] = depth_and_then [OF depth_out_proc] depth_at [OF depth_out_proc]

lemma depth_alias_config: "depth (c_mutex c) (outgoing_ip_svcs_rule_sub_net_config E b r (c, t))"
  by (auto simp: outgoing_ip_svcs_rule_sub_net_config_def depth_def split: prod.splits sum.splits option.splits)

lemmas alias_config_depths [depth_intros] = depth_and_then [OF depth_alias_config] depth_at [OF depth_alias_config]

lemma depth_release_alias: "depth (c_mutex c) (release_alias E r (c, t))"
  unfolding release_alias_def Let_def
  by (auto intro!: depth_intros split: option.splits prod.splits)

lemmas release_alias_depths [depth_intros] = depth_and_then [OF depth_release_alias] depth_at [OF depth_release_alias]

lemma depth_out_insert_tail: "0 < c_mutex c \<Longrightarrow> depth (c_mutex c - 1) (out_insert_tail E tb f v r (c, t))"
  unfolding out_insert_tail_def Let_def
  by (auto intro!: depth_intros split: option.splits prod.splits sum.splits)

lemmas out_insert_tail_depths [depth_intros] = depth_and_then [OF depth_out_insert_tail] depth_at [OF depth_out_insert_tail]

lemma depth_out_insert_rule: "depth (c_mutex c) (out_insert_rule E r (c, t))"
  unfolding out_insert_rule_def Let_def
  by (auto intro!: depth_intros split: option.splits prod.splits)

lemmas out_insert_rule_depths [depth_intros] = depth_and_then [OF depth_out_insert_rule] depth_at [OF depth_out_insert_rule]

lemma depth_out_finish_delete: "0 < c_mutex c \<Longrightarrow> depth (c_mutex c - 1) (out_finish_delete E tb f v d i k (c, t))"
  unfolding out_finish_delete_def Let_def
  by (auto intro!: depth_intros split: option.splits prod.splits)

lemmas out_finish_delete_depths [depth_intros] = depth_and_then [OF depth_out_finish_delete] depth_at [OF depth_out_finish_delete]

lemma depth_out_delete_rule: "depth (c_mutex c) (out_delete_rule E r (c, t))"
  unfolding out_delete_rule_def Let_def
  by (auto intro!: depth_intros split: option.splits prod.splits sum.splits)

lemmas out_delete_rule_depths [depth_intros] = depth_and_then [OF depth_out_delete_rule] depth_at [OF depth_out_delete_rule]

lemma out_find_mutex:
  "out_find_rule_by_id k c = (x, c') \<Longrightarrow> c_mutex c \<le> c_mutex c' \<and> (\<forall>a. x = Inr a \<longrightarrow> c_mutex c' = c_mutex c)"
  by (auto simp: out_find_rule_by_id_def Let_def split: option.splits if_splits)

lemma depth_out_delete_by_id_obj: "depth (c_mutex c) (out_delete_by_id_obj E k (c, t))"
  unfolding out_delete_by_id_obj_def Let_def
  by (auto dest!: out_find_mutex intro!: depth_intros split: option.splits prod.splits sum.splits)

lemmas out_delete_by_id_obj_depths [depth_intros] = depth_and_then [OF depth_out_delete_by_id_obj] depth_at [OF depth_out_delete_by_id_obj]

lemma depth_out_replace_rule: "depth (c_mutex c) (out_replace_rule E k r (c, t))"
  unfolding out_replace_rule_def Let_def
  by (auto dest!: out_find_mutex intro!: depth_intros split: option.splits prod.splits sum.splits)

lemmas out_replace_rule_depths [depth_intros] = depth_and_then [OF depth_out_replace_rule] depth_at [OF depth_out_replace_rule]

lemma depth_out_update_found: "0 < c_mutex c \<Longrightarrow> depth (c_mutex c - 1) (out_update_found E k old upd ch (c, t))"
  unfolding out_update_found_def Let_def
  by (auto intro!: depth_intros split: option.splits prod.splits)

lemmas out_update_found_depths [depth_intros] = depth_and_then [OF depth_out_update_found] depth_at [OF depth_out_update_found]

lemma depth_out_update_rule: "depth (c_mutex c) (out_update_rule E k ps (c, t))"
  unfolding out_update_rule_def Let_def
  by (auto dest!: out_find_mutex intro!: depth_intros split: option.splits prod.splits sum.splits)

lemmas out_update_rule_depths [depth_intros] = depth_and_then [OF depth_out_update_rule] depth_at [OF depth_out_update_rule]

lemma depth_out_clear_rules: "c_mutex c = n \<Longrightarrow> depth n (out_clear_rules E tb rs (c, t))"
  by (induction rs arbitrary: c t) (auto intro!: depth_intros split: out_table.splits)

lemmas out_clear_rules_depths [depth_intros] = depth_and_then [OF depth_out_clear_rules [OF refl]] depth_out_clear_rules

lemma depth_out_clear_lists: "c_mutex c = n \<Longrightarrow> depth n (out_clear_lists E tb f flt ls (c, t))"
  by (induction ls arbitrary: c t) (auto intro!: depth_intros)

lemmas out_clear_lists_depths [depth_intros] = depth_and_then [OF depth_out_clear_lists [OF refl]] depth_out_clear_lists

lemma depth_out_clear_tables: "c_mutex c = n \<Longrightarrow> depth n (out_clear_tables E flt fam ts (c, t))"
  by (induction ts arbitrary: c t) (auto intro!: depth_intros)

lemmas out_clear_tables_depths [depth_intros] = depth_and_then [OF depth_out_clear_tables [OF refl]] depth_out_clear_tables


section \<open>The functions of the module\<close>

lemma catch_depth: "depth n m \<Longrightarrow> catch a m = (x, (c, t)) \<Longrightarrow> n \<le> c_mutex c"
  by (auto simp: catch_def depth_def split: prod.splits sum.splits if_splits)

lemma depth_get_all_rules: "depth (c_mutex c) (get_all_rules E ty nm ps (c, t))"
  unfolding get_all_rules_def by (auto intro!: depth_intros)

lemmas get_all_rules_depths [depth_intros] = depth_and_then [OF depth_get_all_rules]

lemma in_calls_depth:
  "process_vrf_svcs_rule_add E rt vrf act fam args (c, t) = (x1, (c', t')) \<Longrightarrow> c_mutex c \<le> c_mutex c'"
  "process_vrf_svcs_rule_set E k ps (c, t) = (x2, (c', t')) \<Longrightarrow> c_mutex c \<le> c_mutex c'"
  "process_vrf_svcs_rule_del E rt vrf act fam args (c, t) = (x2, (c', t')) \<Longrightarrow> c_mutex c \<le> c_mutex c'"
  "process_vrf_svcs_rule_del_by_id E k (c, t) = (x2, (c', t')) \<Longrightarrow> c_mutex c \<le> c_mutex c'"
  "process_vrf_svcs_rule_get E i ty nm ps' (c, t) = (x3, (c', t')) \<Longrightarrow> c_mutex c \<le> c_mutex c'"
  unfolding process_vrf_svcs_rule_add_def process_vrf_svcs_rule_set_def process_vrf_svcs_rule_del_def
    process_vrf_svcs_rule_del_by_id_def delete_rule_by_id_def process_vrf_svcs_rule_get_def
  by (erule catch_depth [rotated]; auto intro!: depth_pure depth_intros split: option.splits)+

lemma out_calls_depth:
  "process_vrf_outgoing_svcs_rule_add E rt vrf act fam args (c, t) = (x1, (c', t')) \<Longrightarrow> c_mutex c \<le> c_mutex c'"
  "process_vrf_outgoing_svcs_rule_set E k ps (c, t) = (x2, (c', t')) \<Longrightarrow> c_mutex c \<le> c_mutex c'"
  "process_vrf_outgoing_svcs_rule_del E rt vrf act fam args (c, t) = (x3, (c', t')) \<Longrightarrow> c_mutex c \<le> c_mutex c'"
  "process_vrf_outgoing_svcs_rule_del_by_id E k (c, t) = (x2, (c', t')) \<Longrightarrow> c_mutex c \<le> c_mutex c'"
  "process_vrf_outgoing_svcs_rule_get i ty nm ps' (c, t) = (x4, (c', t')) \<Longrightarrow> c_mutex c \<le> c_mutex c'"
  unfolding process_vrf_outgoing_svcs_rule_add_def process_vrf_outgoing_svcs_rule_set_def
    process_vrf_outgoing_svcs_rule_del_def process_vrf_outgoing_svcs_rule_del_by_id_def
    out_delete_rule_by_id_def process_vrf_outgoing_svcs_rule_get_def prod.case
  by (erule catch_depth [rotated];
      auto intro!: depth_pure depth_intros dest!: out_find_mutex split: option.splits prod.splits sum.splits)+

text \<open>A \<open>Clear\<close> answers \<open>False\<close> only with the lock still acquired.\<close>

lemma clear_depth:
  assumes "process_vrf_svcs_clear_rules E vrf (c, t) = (Inr b, (c', t'))"
  shows "if b then c_mutex c' = c_mutex c else c_mutex c < c_mutex c'"
proof -
  obtain x c1 t1 where h: "clear_tables E vrf None loc_order (lock c, t) = (x, (c1, t1))" by (metis surj_pair)
  have "depth (Suc (c_mutex c)) (clear_tables E vrf None loc_order (lock c, t))" by (rule depth_clear_tables) simp
  with assms show ?thesis
    unfolding h by (cases x) (auto simp: process_vrf_svcs_clear_rules_def clear_all_rules_def h catch_def depth_def split: if_splits)
qed

lemma out_clear_depth:
  assumes "process_vrf_outgoing_svcs_clear_rules E vrf (c, t) = (Inr b, (c', t'))"
  shows "if b then c_mutex c' = c_mutex c else c_mutex c < c_mutex c'"
proof -
  obtain x c1 t1 where h: "out_clear_tables E vrf None out_order (lock c, t) = (x, (c1, t1))" by (metis surj_pair)
  have "depth (Suc (c_mutex c)) (out_clear_tables E vrf None out_order (lock c, t))" by (rule depth_out_clear_tables) simp
  with assms show ?thesis
    unfolding h by (cases x)
      (auto simp: process_vrf_outgoing_svcs_clear_rules_def out_clear_all_rules_def h catch_def depth_def split: if_splits)
qed

end
