(* ===== verification/Incoming.thy ===== *)
theory Incoming
  imports IncomingLists LockDepth
begin

text \<open>
  The incoming services as their clients see them: the functions of
  \<^verbatim>\<open>dn_base_vrf_svcs_config.py\<close> that work on the incoming cache, the states they reach, and the
  properties of the cache.
\<close>

section \<open>Calls\<close>

datatype in_call =
    Add int string int int in_args
  | Set int "param list"
  | Del int string int int in_args
  | Del_by_id int
  | Get "int option" "VrfSvcsRuleType option" "string option" "(attr \<times> attr_val) list"
  | Clear "string option" bool

text \<open>A call that is answered, in any state; a \<open>Clear\<close> carries its answer. A call that waits forever is none.\<close>

inductive in_step :: "'w ext \<Rightarrow> in_call \<Rightarrow> 'w in_state \<Rightarrow> 'w in_state \<Rightarrow> bool" for E where
  step_add: "process_vrf_svcs_rule_add E rt vrf act fam args s = (Inr k, s') \<Longrightarrow>
    in_step E (Add rt vrf act fam args) s s'"
| step_set: "process_vrf_svcs_rule_set E i ps s = (Inr b, s') \<Longrightarrow> in_step E (Set i ps) s s'"
| step_del: "process_vrf_svcs_rule_del E rt vrf act fam args s = (Inr b, s') \<Longrightarrow>
    in_step E (Del rt vrf act fam args) s s'"
| step_del_by_id: "process_vrf_svcs_rule_del_by_id E i s = (Inr b, s') \<Longrightarrow> in_step E (Del_by_id i) s s'"
| step_get: "process_vrf_svcs_rule_get E k t vrf params s = (Inr res, s') \<Longrightarrow> in_step E (Get k t vrf params) s s'"
| step_clear: "process_vrf_svcs_clear_rules E vrf s = (Inr b, s') \<Longrightarrow> in_step E (Clear vrf b) s s'"

code_pred in_step .

text \<open>
  A \<open>Clear\<close> answers \<open>False\<close> when it raised in the middle: it has then released identifiers of rules it
  did not remove, and it has not given back the lock. \<open>in_any_reach\<close> is every state that answered calls
  lead to, \<open>in_reach\<close> those that they lead to without such a \<open>Clear\<close>.
\<close>

fun clear_failed :: "in_call \<Rightarrow> bool" where
  "clear_failed (Clear _ b) = (\<not> b)"
| "clear_failed _ = False"

definition in_any_reach :: "'w ext \<Rightarrow> 'w in_state \<Rightarrow> bool" where
  "in_any_reach E = reach (\<lambda>s. fst s = cache_init) (\<lambda>s s'. \<exists>call. in_step E call s s')"

definition in_reach :: "'w ext \<Rightarrow> 'w in_state \<Rightarrow> bool" where
  "in_reach E = reach (\<lambda>s. fst s = cache_init) (\<lambda>s s'. \<exists>call. in_step E call s s' \<and> \<not> clear_failed call)"

section \<open>The invariant\<close>

lemma cache_ok_init: "cache_ok cache_init"
  by (simp add: cache_inv_def cache_init_def id_inv_def get_list_def holds_def)

lemma del_cases:
  assumes "process_vrf_svcs_rule_del E rt vrf act fam args (c, t) = (Inr b, (c', t'))"
  obtains (refused) "\<not> b" "c' = c" "t' = t"
  | (raised) r e where "VrfIncomingSvcsRule_init (cidr_packed E) rt vrf act fam args = Inr r"
      "delete_rule E r (c, t) = (Inl e, (c', t'))" "\<not> b"
  | (ran) r where "VrfIncomingSvcsRule_init (cidr_packed E) rt vrf act fam args = Inr r"
      "delete_rule E r (c, t) = (Inr b, (c', t'))"
  using assms unfolding process_vrf_svcs_rule_del_def
  by (cases "VrfIncomingSvcsRule_init (cidr_packed E) rt vrf act fam args")
    (auto elim!: catch_run)

lemma clear_True:
  assumes "process_vrf_svcs_clear_rules E vrf s = (Inr True, s')"
  shows "clear_all_rules E vrf None s = (Inr (), s')"
  using assms unfolding process_vrf_svcs_clear_rules_def
  by (cases "clear_all_rules E vrf None s"; cases "fst (clear_all_rules E vrf None s)") (auto elim!: catch_run)

lemma add_cases:
  assumes "process_vrf_svcs_rule_add E rt vrf act fam args (c, t) = (x, (c', t'))"
  obtains (refused) e where "VrfIncomingSvcsRule_init (cidr_packed E) rt vrf act fam args = Inl e" "c' = c"
    "x = Inr None \<or> x = Inl e"
  | (raised) r e where "VrfIncomingSvcsRule_init (cidr_packed E) rt vrf act fam args = Inr r"
      "insert_rule E r (c, t) = (Inl e, (c', t'))" "x = Inr None \<or> x = Inl e"
  | (ran) r ok r1 where "VrfIncomingSvcsRule_init (cidr_packed E) rt vrf act fam args = Inr r"
      "insert_rule E r (c, t) = (Inr (ok, r1), (c', t'))" "x = Inr (if ok then rule_id r1 else None)"
proof (cases "VrfIncomingSvcsRule_init (cidr_packed E) rt vrf act fam args")
  case (Inl e)
  with assms show thesis
    by (intro refused) (auto simp: process_vrf_svcs_rule_add_def catch_def split: if_splits)
next
  case (Inr r)
  obtain y s where ins: "insert_rule E r (c, t) = (y, s)" by (cases "insert_rule E r (c, t)")
  show thesis
  proof (cases y)
    case Inl': (Inl e)
    with assms Inr ins show thesis
      by (intro raised [OF Inr]) (auto simp: process_vrf_svcs_rule_add_def catch_def split: if_splits)
  next
    case Inr': (Inr p)
    obtain ok r1 where p: "p = (ok, r1)" by (cases p)
    show thesis
      by (rule ran [OF Inr, of ok r1])
        (use assms Inr ins Inr' p in \<open>auto simp: process_vrf_svcs_rule_add_def catch_def\<close>)
  qed
qed

lemma in_step_inv:
  assumes "in_step E call s s'" "cache_ok (fst s)" "\<not> clear_failed call"
  shows "cache_ok (fst s')"
proof -
  obtain c t c' t' where s: "s = (c, t)" "s' = (c', t')" by (cases s, cases s')
  have ok: "cache_ok c" using assms(2) s by simp
  have "cache_ok c'" using assms(1) unfolding s
  proof cases
    case (step_add rt vrf act fam args k)
    from step_add(2) show ?thesis
    proof (cases rule: add_cases)
      case (raised r e)
      with insert_rule_spec [OF ok raised(2)] show ?thesis by simp
    next
      case (ran r ok' r1)
      with insert_rule_spec [OF ok ran(2)] show ?thesis by simp
    qed (use ok in auto)
  next
    case (step_set i ps b)
    obtain y where "update_rule E i ps (c, t) = (y, (c', t'))"
      using catch_outcome [OF step_set(2) [unfolded process_vrf_svcs_rule_set_def]] by blast
    from update_rule_spec [OF ok this] show ?thesis by (simp add: ends_def)
  next
    case (step_del rt vrf act fam args b)
    from step_del(2) show ?thesis
    proof (cases rule: del_cases)
      case (raised r e)
      with delete_rule_spec [OF ok raised(2)] show ?thesis by simp
    next
      case (ran r)
      with delete_rule_spec [OF ok ran(2)] show ?thesis by simp
    qed (use ok in simp)
  next
    case (step_del_by_id i b)
    obtain y s1 where d: "delete_by_id_obj E i (c, t) = (y, s1)" by (cases "delete_by_id_obj E i (c, t)")
    have "s1 = (c', t')"
      using catch_state [OF step_del_by_id(2) [unfolded process_vrf_svcs_rule_del_by_id_def]]
      by (cases y) (auto simp: delete_rule_by_id_def d)
    with delete_by_id_spec [OF ok, of E i t y c' t'] d show ?thesis by (simp add: ends_def)
  next
    case (step_get k ty vrf params res)
    show ?thesis
    proof (cases k)
      case None
      obtain y s1 where g: "get_all_rules E ty vrf params (c, t) = (y, s1)"
        by (cases "get_all_rules E ty vrf params (c, t)")
      have "s1 = (c', t')"
        using catch_state [OF step_get(2) [unfolded process_vrf_svcs_rule_get_def None option.case g]]
        by (cases y) auto
      with get_all_spec [OF ok, of E ty vrf params t y c' t'] g show ?thesis by simp
    next
      case (Some i)
      obtain y s1 where g: "find_rule_by_id E i (c, t) = (y, s1)" by (cases "find_rule_by_id E i (c, t)")
      have "s1 = (c', t')"
        using catch_state [OF step_get(2) [unfolded process_vrf_svcs_rule_get_def Some option.case g]]
        by (cases y) auto
      with find_rule_by_id_spec [OF ok, of E i t y c' t'] g show ?thesis by simp
    qed
  next
    case (step_clear vrf b)
    then have "process_vrf_svcs_clear_rules E vrf (c, t) = (Inr True, (c', t'))" using assms(3) by simp
    from clear_all_spec [OF ok clear_True [OF this]] show ?thesis by simp
  qed
  then show ?thesis by (simp add: s)
qed

interpretation incoming:
  service "\<lambda>s. fst s = cache_init" "\<lambda>s s'. \<exists>call. in_step E call s s' \<and> \<not> clear_failed call" "\<lambda>s. cache_ok (fst s)" for E
  by unfold_locales (auto simp: cache_ok_init intro: in_step_inv)

lemma in_reach_ok: "in_reach E s \<Longrightarrow> cache_ok (fst s)"
  unfolding in_reach_def by (rule incoming.reach_inv)

text \<open>After any answered calls: the cache is as it should be, or its lock is still acquired.\<close>

definition in_safe :: "in_cache \<Rightarrow> bool" where
  "in_safe c \<longleftrightarrow> cache_ok c \<or> 0 < c_mutex c"

lemma in_step_depth: "in_step E call (c, t) (c', t') \<Longrightarrow> c_mutex c \<le> c_mutex c' \<and> (clear_failed call \<longrightarrow> c_mutex c < c_mutex c')"
  by (erule in_step.cases) (auto dest: in_calls_depth clear_depth split: if_splits)

lemma in_step_safe:
  assumes "in_step E call s s'" "in_safe (fst s)"
  shows "in_safe (fst s')"
proof -
  obtain c t c' t' where s: "s = (c, t)" "s' = (c', t')" by (cases s, cases s')
  with assms in_step_depth [of E call c t c' t'] in_step_inv [OF assms(1)] show ?thesis
    by (auto simp: in_safe_def)
qed

interpretation incoming_any:
  service "\<lambda>s. fst s = cache_init" "\<lambda>s s'. \<exists>call. in_step E call s s'" "\<lambda>s. in_safe (fst s)" for E
  by unfold_locales (auto simp: cache_ok_init in_safe_def [of cache_init] intro: in_step_safe)

lemma in_reach_step: "in_reach E s \<Longrightarrow> in_step E call s s' \<Longrightarrow> \<not> clear_failed call \<Longrightarrow> in_reach E s'"
  unfolding in_reach_def by (blast intro: reach_step)

lemma in_reach_any: "in_reach E s \<Longrightarrow> in_any_reach E s"
  unfolding in_reach_def in_any_reach_def by (induction rule: reach.induct) (auto intro: reach_start reach_step)

lemma in_any_reach_safe: "in_any_reach E s \<Longrightarrow> in_safe (fst s)"
  unfolding in_any_reach_def by (rule incoming_any.reach_inv)

section \<open>An insertion up to \<^verbatim>\<open>iptables\<close>\<close>

text \<open>
  A rule that gets an identifier and equals no rule of the cache gets as far as \<^verbatim>\<open>iptables\<close>: \<open>c4\<close>
  is the cache the command is run on, \<open>c5\<close> the one after its refusal.
\<close>

lemma insert_reaches_iptables:
  assumes ok: "cache_ok c" and new: "assign_id r (c_ids c) = (Some (r\<lparr>rule_id := Some k\<rparr>), g)"
    and none: "\<forall>x. holds c x \<longrightarrow> \<not> in_eq x r"
  shows "\<exists>i c4 c5. abs_rules c k = None \<and> cache_ok c4 \<and> c_mutex c4 = Suc (c_mutex c) \<and>
    abs_rules c4 = (abs_rules c)(k \<mapsto> nostats (r\<lparr>rule_id := Some k\<rparr>)) \<and>
    abs_rules c5 = abs_rules c \<and> cache_ok c5 \<and> is_id_used k (c_ids c5) \<and> c_mutex c5 = Suc (c_mutex c) \<and>
    insert_rule E r (c, t) =
      and_then (in_proc E OpInsert (r\<lparr>rule_id := Some k\<rparr>) (Some i) (c4, t)) (\<lambda>(ok, _) (_, t1).
        (Inr (ok, r\<lparr>rule_id := Some k\<rparr>), (unlock (if ok then c4 else c5), t1)))"
proof -
  define tb f v where "tb = table_of r" and "f = af r" and "v = vrf_name r"
  define r1 where "r1 = r\<lparr>rule_id := Some k\<rparr>"
  define c2 where "c2 = (if get_list tb f v (lock c) = None
    then set_list tb f v empty_rule_list (lock c) else lock c)"
  note defs = tb_def [symmetric] f_def [symmetric] v_def [symmetric] c2_def [symmetric]
  have "cache_ok (lock c)" using ok by simp
  note c2 = ins.ensure_list [OF this, of tb f v, folded c2_def, simplified]
  obtain l where l: "get_list tb f v c2 = Some l" using c2(4) by blast
  have ids: "c_ids c2 = c_ids c" by (simp add: c2_def)
  have nw: "id_inv g" "\<not> is_id_used k (c_ids c)" "is_id_used k g" "\<forall>i. is_id_used i (c_ids c) \<longrightarrow> is_id_used i g"
    using assign_id_Some [OF ins.cache_okD(1) [OF ok] new] by (auto dest: arg_cong [where f = rule_id])
  define c3 where "c3 = set_ids g c2"
  have ok3: "cache_ok c3" unfolding c3_def
    by (rule ins.cache_ok_set_ids [OF c2(1)]) (use nw in \<open>auto simp: ids\<close>)
  have l3: "get_list tb f v c3 = Some l" by (simp add: c3_def l)
  have home: "at_home c3 tb f v r1" using nw by (simp add: homed_def r1_def c3_def tb_def f_def v_def)
  have held: "holds c x" if "x \<in> set (rules l)" for x
    using l that c2(2) unfolding holds_def [of c2] by blast
  have "rule_id y \<noteq> Some k" if y: "holds c y" for y
    by (rule ins.holds_home [OF ok y]) (use nw in \<open>auto simp: homed_def\<close>)
  then have fresh: "\<forall>y. holds c3 y \<longrightarrow> rule_id y \<noteq> rule_id r1" by (simp add: c3_def c2(2) r1_def)
  have abs3: "abs_rules c3 = abs_rules c" by (rule ins.abs_same_holds [OF ok ok3]) (simp add: c3_def c2(2))
  have k: "abs_rules c k = None" using fresh by (simp add: ins.abs_None [OF ok3, unfolded abs3] r1_def)
  have "fst (in_list_insert r1 l) \<noteq> None"
    unfolding in_list_insert_def inl.insert_None [OF ins.cache_okD(4) [OF ok3 l3]]
    using none held fresh by (force simp: r1_def in_eq_iff c3_def c2(2))
  then obtain i l1 where ins: "in_list_insert r1 l = (Some i, l1)" by (cases "in_list_insert r1 l") auto
  define c4 where "c4 = set_list tb f v l1 c3"
  note ih = in_insert_held [OF ok3 l3 ins home fresh, folded c4_def]
  from in_insert_undone [OF ok3 l3 ins home fresh, folded c4_def] obtain l2 where
    l2: "in_list_remove r1 l1 = (Inr (Some (r1, i)), l2)" "abs_rules (set_list tb f v l2 c4) = abs_rules c"
      "cache_ok (set_list tb f v l2 c4)"
    using abs3 by auto
  have tail: "insert_rule E r (c, t) = insert_tail E tb f v r1 c3 t"
    unfolding insert_rule_tail Let_def defs ids new by (simp add: c3_def r1_def)
  obtain y s1 where pr: "in_proc E OpInsert r1 (Some i) (c4, t) = (y, s1)"
    by (cases "in_proc E OpInsert r1 (Some i) (c4, t)")
  from in_proc_pair [OF pr] obtain t1 where s1: "s1 = (c4, t1)" by blast
  have "insert_tail E tb f v r1 c3 t =
      and_then (in_proc E OpInsert r1 (Some i) (c4, t)) (\<lambda>(ok, _) (_, t1).
        (Inr (ok, r1), (unlock (if ok then c4 else set_list tb f v l2 c4), t1)))"
    using pr s1 l2(1)
    unfolding insert_tail_def l3 option.sel ins prod.case option.case c4_def [symmetric]
    by (cases y) (auto split: if_splits)
  moreover have "abs_rules c4 = (abs_rules c)(k \<mapsto> nostats r1)"
    using ins.abs_insert [OF ok3 ih(1) _ ih(2) fresh, of k] by (simp add: r1_def abs3)
  moreover have "c_mutex c4 = Suc (c_mutex c)" by (simp add: c4_def c3_def c2(3))
  moreover have "is_id_used k (c_ids (set_list tb f v l2 c4))" by (simp add: c4_def c3_def nw)
  moreover have "c_mutex (set_list tb f v l2 c4) = Suc (c_mutex c)" by (simp add: c4_def c3_def c2(3))
  ultimately show ?thesis
    unfolding tail r1_def [symmetric]
    by (intro exI [of _ i] exI [of _ c4] exI [of _ "set_list tb f v l2 c4"] conjI k ih(1) l2(2,3))
qed

text \<open>Without an identifier nothing is inserted, and the generator stays as it was.\<close>

lemma insert_no_id:
  assumes "assign_id r (c_ids c) = (None, c_ids c)"
  shows "\<exists>c'. insert_rule E r (c, t) = (Inr (False, r), (c', t)) \<and> c_ids c' = c_ids c"
  unfolding insert_rule_tail Let_def using assms by simp

lemma assign_given_id:
  assumes "rule_id r = Some k"
  shows "assign_id r g = (None, g) \<or>
    (assign_id r g = (Some (r\<lparr>rule_id := Some k\<rparr>), snd (reserve_id k g)) \<and> \<not> is_id_used k g)"
proof (cases "is_id_used k g \<or> \<not> fst (reserve_id k g)")
  case True
  have "reserve_id k g = (False, g)" if "\<not> fst (reserve_id k g)"
    using that by (auto simp: reserve_id_def Let_def split: if_splits)
  with True assms show ?thesis by (auto simp: assign_id_def split: prod.split)
next
  case False
  have "r\<lparr>rule_id := Some k\<rparr> = r" using assms by simp
  with False assms show ?thesis by (auto simp: assign_id_def split: prod.split)
qed

lemma assign_new_id:
  "rule_id r = None \<Longrightarrow> get_new_id g = (Some k, g') \<Longrightarrow> assign_id r g = (Some (r\<lparr>rule_id := Some k\<rparr>), g')"
  by (simp add: assign_id_def)

text \<open>What an answer means, from the invariant alone.\<close>

lemma add_answer:
  assumes ok: "cache_ok c"
    and "process_vrf_svcs_rule_add E rt vrf act fam args (c, t) = (Inr (Some k), (c', t'))"
  shows "abs_rules c k = None \<and> c_mutex c' = c_mutex c \<and>
    (\<exists>r. VrfIncomingSvcsRule_init (cidr_packed E) rt vrf act fam args = Inr r \<and>
      abs_rules c' = (abs_rules c)(k \<mapsto> nostats (r\<lparr>rule_id := Some k\<rparr>)))"
  using assms(2)
proof (cases rule: add_cases)
  case (ran r b r1)
  with insert_rule_spec [OF ok ran(2)] show ?thesis by (cases b) auto
qed auto

lemma del_by_id_answer:
  assumes ok: "cache_ok c" and "process_vrf_svcs_rule_del_by_id E k (c, t) = (Inr True, (c', t'))"
  shows "c_mutex c' = c_mutex c \<and> abs_rules c k \<noteq> None \<and> abs_rules c' = (abs_rules c)(k := None) \<and>
    \<not> is_id_used k (c_ids c')"
proof -
  have "delete_rule_by_id E k (c, t) = (Inr True, (c', t'))"
    using assms(2) unfolding process_vrf_svcs_rule_del_by_id_def by (auto elim: catch_run)
  then obtain d where "delete_by_id_obj E k (c, t) = (Inr (True, d), (c', t'))"
    unfolding delete_rule_by_id_def
    by (cases "delete_by_id_obj E k (c, t)"; cases "fst (delete_by_id_obj E k (c, t))") auto
  from delete_by_id_spec [OF ok this] delete_by_id_frees [OF this] show ?thesis by simp
qed

lemma get_answer:
  assumes ok: "cache_ok c" "stats_free params"
    and "process_vrf_svcs_rule_get E None rt vrf params (c, t) = (Inr (Some objs), (c', t'))"
  shows "abs_rules c' = abs_rules c \<and> c_mutex c' = c_mutex c \<and> (\<exists>xs. objs = map in_to_cps_obj xs \<and>
    nostats ` set xs = {q. (\<exists>k. abs_rules c k = Some q) \<and> (rt = None \<or> rt = Some (table_type (table_of q))) \<and>
      (vrf = None \<or> vrf = Some (vrf_name q)) \<and> in_match q params})"
proof -
  obtain y s where g: "get_all_rules E rt vrf params (c, t) = (y, s)"
    by (cases "get_all_rules E rt vrf params (c, t)")
  have "\<exists>xs. y = Inr xs \<and> objs = map in_to_cps_obj xs \<and> s = (c', t')"
    using assms(3) g unfolding process_vrf_svcs_rule_get_def by (cases y) (auto elim: catch_run)
  then obtain xs where "y = Inr xs" "objs = map in_to_cps_obj xs" "s = (c', t')" by blast
  with get_all_spec [OF ok(1), of E rt vrf params t] ok(2) g show ?thesis by blast
qed

lemma clear_answer:
  assumes ok: "cache_ok c" and "process_vrf_svcs_clear_rules E vrf (c, t) = (Inr True, (c', t'))"
  shows "c_mutex c' = c_mutex c \<and> (\<forall>k. abs_rules c' k =
    (case abs_rules c k of None \<Rightarrow> None
     | Some q \<Rightarrow> if vrf = None \<or> vrf = Some (vrf_name q) then None else Some q))"
  using clear_all_spec [OF ok clear_True [OF assms(2)]] by (simp add: drop_rules_def)

section \<open>Properties\<close>

text \<open>
  C2: take any state that answered calls lead to, whatever the answers. Unless a \<open>Clear\<close> has
  answered \<open>False\<close> and the lock is still acquired since, every rule of the cache is in the list of its
  table, address family and namespace, has an identifier that is reserved in the generator and that
  no other rule has, and every list is sorted by group priority and sequence number, with correct
  indexes and no two equal rules. (After such a \<open>Clear\<close> identifiers of listed rules are free.)
\<close>

theorem in_cache_reachable:
  assumes "in_any_reach E (c, t)" "in_reach E (c, t) \<or> c_mutex c = 0"
  shows "(\<forall>tb f v l. get_list tb f v c = Some l \<longrightarrow> rl_wf in_eq l \<and>
      (\<forall>r\<in>set (rules l). table_of r = tb \<and> af r = f \<and> vrf_name r = v \<and>
        (\<exists>k. rule_id r = Some k \<and> is_id_used k (c_ids c)))) \<and>
    (\<forall>r r'. holds c r \<longrightarrow> holds c r' \<longrightarrow> rule_id r = rule_id r' \<longrightarrow> r = r')"
proof -
  have ok: "cache_ok c"
    using in_reach_ok [of E "(c, t)"] in_any_reach_safe [OF assms(1)] assms(2) by (auto simp: in_safe_def)
  show ?thesis
    using ins.cache_okD(4) [OF ok] ins.cache_okD(5) [OF ok] ins.cache_okD(6) [OF ok] unfolding homed_def by metis
qed

text \<open>
  C1: an \<open>Add\<close> that answers with an identifier has added exactly the rule its arguments
  describe, under that identifier, which no rule had; the lock is given back.
\<close>

theorem add_refines:
  assumes "in_reach E (c, t)"
    and "process_vrf_svcs_rule_add E rt vrf act fam args (c, t) = (Inr (Some k), (c', t'))"
  shows "abs_rules c k = None \<and> c_mutex c' = c_mutex c \<and>
    (\<exists>r. VrfIncomingSvcsRule_init (cidr_packed E) rt vrf act fam args = Inr r \<and>
      abs_rules c' = (abs_rules c)(k \<mapsto> nostats (r\<lparr>rule_id := Some k\<rparr>)))"
  using add_answer [OF _ assms(2)] in_reach_ok [OF assms(1)] by simp

text \<open>
  C3: a \<open>Set\<close> that answers \<open>True\<close> has applied the parameters to the rule with the identifier,
  and to that rule only; the lock is given back.
\<close>

theorem set_refines:
  assumes "in_reach E (c, t)" "process_vrf_svcs_rule_set E k ps (c, t) = (Inr True, (c', t'))"
  shows "c_mutex c' = c_mutex c \<and> (\<exists>q u ch. abs_rules c k = Some q \<and>
    check_and_set ps q [] = Inr (u, ch) \<and> abs_rules c' = (abs_rules c)(k \<mapsto> u))"
proof -
  have ok: "cache_ok c" using in_reach_ok [OF assms(1)] by simp
  have "update_rule E k ps (c, t) = (Inr True, (c', t'))"
    using assms(2) unfolding process_vrf_svcs_rule_set_def by (auto elim: catch_run)
  from update_rule_spec [OF ok this] show ?thesis by simp
qed

text \<open>
  A \<open>Del\<close> that answers \<open>True\<close> has removed exactly one rule: one with the identifier of the
  arguments, or one that equals the rule they describe.
\<close>

theorem del_refines:
  assumes "in_reach E (c, t)" "process_vrf_svcs_rule_del E rt vrf act fam args (c, t) = (Inr True, (c', t'))"
  shows "c_mutex c' = c_mutex c \<and> (\<exists>r k d. VrfIncomingSvcsRule_init (cidr_packed E) rt vrf act fam args = Inr r \<and>
    abs_rules c k = Some d \<and> (a_rule_id args = Some k \<or> in_eq d r) \<and> abs_rules c' = (abs_rules c)(k := None))"
proof -
  have ok: "cache_ok c" using in_reach_ok [OF assms(1)] by simp
  from assms(2) show ?thesis
  proof (cases rule: del_cases)
    case (ran r)
    have "rule_id r = a_rule_id args" using ran(1) by (rule in_init_cases) (simp add: frame_simps)
    with delete_rule_spec [OF ok ran(2)] ran(1) show ?thesis by auto
  qed auto
qed

text \<open>
  C4: a \<open>Del_by_id\<close> that answers \<open>True\<close> has removed the rule with the identifier, which was
  there, and no other, and the identifier is free again.
\<close>

theorem del_by_id_refines:
  assumes "in_reach E (c, t)" "process_vrf_svcs_rule_del_by_id E k (c, t) = (Inr True, (c', t'))"
  shows "c_mutex c' = c_mutex c \<and> abs_rules c k \<noteq> None \<and> abs_rules c' = (abs_rules c)(k := None) \<and>
    \<not> is_id_used k (c_ids c')"
  using del_by_id_answer [OF _ assms(2)] in_reach_ok [OF assms(1)] by simp

text \<open>
  C5: a \<open>Get\<close> without an identifier reports exactly the rules of the cache that have the type
  and the namespace and match the parameters, and changes no rule.
\<close>

theorem get_complete:
  assumes "in_reach E (c, t)" "stats_free params"
    and "process_vrf_svcs_rule_get E None rt vrf params (c, t) = (Inr (Some objs), (c', t'))"
  shows "abs_rules c' = abs_rules c \<and> c_mutex c' = c_mutex c \<and> (\<exists>xs. objs = map in_to_cps_obj xs \<and>
    nostats ` set xs = {q. (\<exists>k. abs_rules c k = Some q) \<and> (rt = None \<or> rt = Some (table_type (table_of q))) \<and>
      (vrf = None \<or> vrf = Some (vrf_name q)) \<and> in_match q params})"
  using get_answer [OF _ assms(2,3)] in_reach_ok [OF assms(1)] by simp

text \<open>
  A \<open>Clear\<close> that answers \<open>True\<close> has removed every rule of the namespace, or every rule when
  none is given, and no other.
\<close>

theorem clear_exact:
  assumes "in_reach E (c, t)" "process_vrf_svcs_clear_rules E vrf (c, t) = (Inr True, (c', t'))"
  shows "c_mutex c' = c_mutex c \<and> (\<forall>k. abs_rules c' k =
    (case abs_rules c k of None \<Rightarrow> None
     | Some q \<Rightarrow> if vrf = None \<or> vrf = Some (vrf_name q) then None else Some q))"
  using clear_answer [OF _ assms(2)] in_reach_ok [OF assms(1)] by simp

text \<open>
  When \<^verbatim>\<open>iptables\<close> refuses a new rule the cache has no trace of the rule, but the
  identifier it was given stays reserved though no rule has it.
\<close>

theorem refused_add_leaks_id:
  assumes "in_reach E (c, t)" "rule_id r = None" "\<forall>x. holds c x \<longrightarrow> \<not> in_eq x r"
    and "get_new_id (c_ids c) = (Some k, g)" "insert_rule E r (c, t) = (Inr (False, r1), (c', t'))"
  shows "abs_rules c' = abs_rules c \<and> abs_rules c' k = None \<and> is_id_used k (c_ids c')"
proof -
  have ok: "cache_ok c" using in_reach_ok [OF assms(1)] by simp
  from insert_reaches_iptables [OF ok assign_new_id [OF assms(2,4)] assms(3), of E t] obtain i c4 c5 where
    i: "abs_rules c k = None" "abs_rules c5 = abs_rules c" "is_id_used k (c_ids c5)"
    "insert_rule E r (c, t) =
      and_then (in_proc E OpInsert (r\<lparr>rule_id := Some k\<rparr>) (Some i) (c4, t)) (\<lambda>(ok, _) (_, t1).
        (Inr (ok, r\<lparr>rule_id := Some k\<rparr>), (unlock (if ok then c4 else c5), t1)))" by blast
  have "c' = unlock c5"
    using assms(5) unfolding i(4)
    by (cases "in_proc E OpInsert (r\<lparr>rule_id := Some k\<rparr>) (Some i) (c4, t)";
        cases "fst (in_proc E OpInsert (r\<lparr>rule_id := Some k\<rparr>) (Some i) (c4, t))") auto
  then show ?thesis using i(1-3) by simp
qed

text \<open>After the deletion no rule equals the new one; after the refusal the old one is refused too.\<close>

lemma no_equal_left:
  assumes "cache_ok c" "cache_ok c1" "abs_rules c1 = (abs_rules c)(k := None)"
    and "\<forall>x. holds c x \<longrightarrow> in_eq x u \<longrightarrow> rule_id x = Some k"
  shows "\<forall>x. holds c1 x \<longrightarrow> \<not> in_eq x u"
proof (intro allI impI notI)
  fix x assume x: "holds c1 x" "in_eq x u"
  from ins.held_abs [OF assms(2) x(1)] obtain j where j: "rule_id x = Some j" "abs_rules c1 j = Some (nostats x)" .
  then have "abs_rules c j = Some (nostats x)" "j \<noteq> k" using assms(3) by (auto split: if_splits)
  then obtain y where y: "holds c y" "rule_id y = Some j" "nostats y = nostats x" by (auto simp: ins.abs_iff [OF assms(1)])
  have "in_eq y u" using x(2) y(3) nostats_frame(8) by metis
  with assms(4) y \<open>j \<noteq> k\<close> show False by auto
qed

lemma second_insert_refused:
  assumes "cache_ok c1" "rule_id u = Some k" "rule_id d = Some k" "\<forall>x. holds c1 x \<longrightarrow> \<not> in_eq x u"
    and "insert_rule E u (c1, t1) = (Inr (False, u1), (c2, t2))"
  shows "\<exists>c3. insert_rule E d (c2, t2) = (Inr (False, d), (c3, t2)) \<and>
      cache_ok c2 \<and> abs_rules c2 = abs_rules c1"
proof (cases "assign_id u (c_ids c1) = (None, c_ids c1)")
  case True
  from insert_no_id [OF this, of E t1] assms(5) have c2: "c_ids c2 = c_ids c1" "t2 = t1" by auto
  have "assign_id d (c_ids c2) = (None, c_ids c2)"
    using True assms(3) assms(2) unfolding c2(1) by (auto simp: assign_id_def split: if_splits prod.splits)
  from insert_no_id [OF this, of E t2] insert_rule_spec [OF assms(1) assms(5)] show ?thesis by auto
next
  case False
  with assign_given_id [OF assms(2)]
  have new: "assign_id u (c_ids c1) = (Some (u\<lparr>rule_id := Some k\<rparr>), snd (reserve_id k (c_ids c1)))" by metis
  from insert_reaches_iptables [OF assms(1) new assms(4), of E t1] obtain i c4 c5 where
    i: "is_id_used k (c_ids c5)"
    "insert_rule E u (c1, t1) =
      and_then (in_proc E OpInsert (u\<lparr>rule_id := Some k\<rparr>) (Some i) (c4, t1)) (\<lambda>(ok, _) (_, t1).
        (Inr (ok, u\<lparr>rule_id := Some k\<rparr>), (unlock (if ok then c4 else c5), t1)))" by blast
  have c2: "c2 = unlock c5"
    using assms(5) unfolding i(2)
    by (cases "in_proc E OpInsert (u\<lparr>rule_id := Some k\<rparr>) (Some i) (c4, t1)";
        cases "fst (in_proc E OpInsert (u\<lparr>rule_id := Some k\<rparr>) (Some i) (c4, t1))") auto
  have "assign_id d (c_ids c2) = (None, c_ids c2)" using i(1) assms(3) by (simp add: assign_id_def c2)
  from insert_no_id [OF this, of E t2] insert_rule_spec [OF assms(1) assms(5)] show ?thesis by auto
qed

text \<open>
  C6: an update that \<^verbatim>\<open>iptables\<close> cannot do in place deletes the old rule and inserts the new one.
  When \<^verbatim>\<open>iptables\<close> refuses the new rule, inserting the old one again cannot succeed either,
  because the identifier is still reserved (or was never in the range of the generator): the update answers \<open>False\<close> and the old rule is gone.
\<close>

theorem refused_update_loses_rule:
  assumes "in_reach E (c, t)" "rule_id u = Some k" "\<not> list_all (\<lambda>a. a \<in> set repl_attrs) changed"
    and "\<forall>x. holds c x \<longrightarrow> in_eq x u \<longrightarrow> rule_id x = Some k"
    and "delete_by_id_obj E k (c, t) = (Inr (True, Some d), (c1, t1))"
    and "insert_rule E u (c1, t1) = (Inr (False, u1), (c2, t2))"
  shows "\<exists>c'. update_found E k old u changed (c, t) = (Inr False, (c', t2)) \<and>
    abs_rules c k = Some (nostats d) \<and> abs_rules c' = (abs_rules c)(k := None)"
proof -
  have ok: "cache_ok c" using in_reach_ok [OF assms(1)] by simp
  have ds: "cache_ok c1" "abs_rules c1 = (abs_rules c)(k := None)" "abs_rules c k = Some (nostats d)"
    using delete_by_id_spec [OF ok assms(5)] by auto
  have none: "\<forall>x. holds c1 x \<longrightarrow> \<not> in_eq x u" by (rule no_equal_left [OF ok ds(1,2) assms(4)])
  have dk: "rule_id d = Some k" using ds(3) ins.abs_iff [OF ok] by (metis nostats_frame(1))
  from second_insert_refused [OF ds(1) assms(2) dk none assms(6)] obtain c3 where c3: "insert_rule E d (c2, t2) = (Inr (False, d), (c3, t2))" "cache_ok c2"
    "abs_rules c2 = abs_rules c1" by blast
  have "abs_rules c3 = abs_rules c2" using insert_rule_spec [OF c3(2,1)] by (auto split: if_splits)
  moreover have "update_found E k old u changed (c, t) = (Inr False, (unlock c3, t2))"
    using assms(3) unfolding update_found_def assms(5,6) and_then_simps prod.case option.case
    by (simp add: c3(1))
  ultimately show ?thesis using ds c3(3) by (intro exI [of _ "unlock c3"]) simp
qed

text \<open>
  A rule whose source address does not have the length of its family passes the
  constructor when it has no prefix length. \<open>Add\<close> then answers \<open>None\<close>, because printing the
  address raises, but the rule is in the cache, no command was run for it, and the lock is not
  given back.
\<close>

theorem bad_address_stays:
  assumes "in_reach E (c, t)" "VrfIncomingSvcsRule_init (cidr_packed E) rt vrf act fam args = Inr r"
    and "a_src_ip args = Some b" "a_src_prefix_len args = None" "length b \<noteq> addr_len (af r)"
    and "a_rule_id args = None" "\<forall>x. holds c x \<longrightarrow> \<not> in_eq x r" "get_new_id (c_ids c) = (Some k, g)"
  shows "\<exists>c'. process_vrf_svcs_rule_add E rt vrf act fam args (c, t) = (Inr None, (c', t)) \<and>
    abs_rules c' = (abs_rules c)(k \<mapsto> nostats (r\<lparr>rule_id := Some k\<rparr>)) \<and> c_mutex c' = Suc (c_mutex c)"
proof -
  have ok: "cache_ok c" using in_reach_ok [OF assms(1)] by simp
  have r: "src_ip r = Some b" "rule_id r = None"
    using assms(2-4,6)
    by (auto elim!: in_init_cases simp: frame_simps normalize_ip_prefix_def split: if_splits)
  from insert_reaches_iptables [OF ok assign_new_id [OF r(2) assms(8)] assms(7), of E t] obtain i c4 c5 where
    i: "c_mutex c4 = Suc (c_mutex c)" "abs_rules c4 = (abs_rules c)(k \<mapsto> nostats (r\<lparr>rule_id := Some k\<rparr>))"
    "insert_rule E r (c, t) =
      and_then (in_proc E OpInsert (r\<lparr>rule_id := Some k\<rparr>) (Some i) (c4, t)) (\<lambda>(ok, _) (_, t1).
        (Inr (ok, r\<lparr>rule_id := Some k\<rparr>), (unlock (if ok then c4 else c5), t1)))" by blast
  have rt: "rule_type r \<noteq> RULE_TYPE_OUT_IP"
    using assms(2) by (rule in_init_cases) (auto simp: frame_simps)
  have "flt_head (InRule (r\<lparr>rule_id := Some k\<rparr>)) = Inl ValueError"
    using r(1) assms(5) by (simp add: flt_head_def flt_src_def inet_ntop_def svcs_rule.defs)
  then have "in_proc E OpInsert (r\<lparr>rule_id := Some k\<rparr>) (Some i) (c4, t) = (Inl ValueError, (c4, t))"
    using rt by (simp add: in_proc_def proc_rule_def flt_args_def svcs_rule.defs)
  with i assms(2) show ?thesis
    by (intro exI [of _ c4]) (simp add: process_vrf_svcs_rule_add_def catch_def)
qed

text \<open>
  An IP rule of the default namespace is installed with the same command whether its
  interface is negated or not: the \<^verbatim>\<open>!\<close> of the configured name has no effect on the kernel.
\<close>

theorem ip_rule_negation_ignored:
  assumes "rule_type r = RULE_TYPE_IP" "vrf_name r = ''default''"
  shows "proc_rule E op (InRule (in_set_intf (Some (''!'' @ s)) r)) idx t =
    proc_rule E op (InRule (r\<lparr>in_intf := Some s\<rparr>)) idx t"
proof -
  let ?a = "in_set_intf (Some (''!'' @ s)) r" and ?b = "r\<lparr>in_intf := Some s\<rparr>"
  have base: "base_of (InRule ?a) = base_of (InRule ?b)"
    by (simp add: in_set_intf_def svcs_rule.defs)
  have attrs: "in_attr in_intf (InRule ?a) = in_attr in_intf (InRule ?b)"
    "in_attr src_prefix_len (InRule ?a) = in_attr src_prefix_len (InRule ?b)"
    "in_attr (\<lambda>i. (low_dst_port i, high_dst_port i)) (InRule ?a) =
     in_attr (\<lambda>i. (low_dst_port i, high_dst_port i)) (InRule ?b)"
    "any_action_name (InRule ?a) = any_action_name (InRule ?b)"
    "any_proto_name (InRule ?a) p = any_proto_name (InRule ?b) p" for p
    by (simp_all add: in_set_intf_def)
  have ty: "rule_type (base_of (InRule ?b)) = RULE_TYPE_IP" using assms(1) by (simp add: svcs_rule.defs)
  have "flt_head (InRule ?a) = flt_head (InRule ?b)"
    unfolding flt_head_def flt_src_def flt_proto_def flt_port_def flt_port_range_def flt_dst_def Let_def
      base attrs out_attr.simps ..
  moreover have "flt_intf E (InRule ?a) = flt_intf E (InRule ?b)"
    unfolding flt_intf_def Let_def base attrs ty VrfSvcsRuleType.case ..
  moreover have "flt_action (InRule ?a) = flt_action (InRule ?b)"
    unfolding flt_action_def Let_def base attrs out_attr.simps ..
  ultimately have "flt_args E (InRule ?a) = flt_args E (InRule ?b)" by (intro ext) (simp add: flt_args_def)
  then show ?thesis unfolding proc_rule_def chain_cmd_def base by (rule ssubst) (rule refl)
qed

text \<open>
  An ACL rule that is added with the action \<open>deny\<close> is stored, and installed, as
  \<open>reject\<close>; a \<open>Set\<close> of the same action on the same rule stores \<open>deny\<close>, which \<^verbatim>\<open>iptables\<close>
  gets as \<^verbatim>\<open>DROP\<close> instead of \<^verbatim>\<open>MARK\<close>.
\<close>

theorem acl_deny_add_and_set_differ:
  assumes "VrfIncomingSvcsRule_init c (int_of_rule_type RULE_TYPE_ACL) vrf
    (int_of_action RULE_ACTION_DENY) fam args = Inr r"
  shows "flt_action (InRule r) = Inr [''-j'', ''MARK'', ''--set-mark'', dec rej_rule_mark_value] \<and>
    check_and_set [P_action (int_of_action RULE_ACTION_DENY)] r [] = Inr (r\<lparr>action := RULE_ACTION_DENY\<rparr>, [A_action]) \<and>
    flt_action (InRule (r\<lparr>action := RULE_ACTION_DENY\<rparr>)) = Inr [''-j'', ''DROP'']"
proof -
  have a: "action r = RULE_ACTION_REJECT"
    using assms by (rule in_init_cases) (auto simp: frame_simps action_of_int_def rule_type_of_int_def)
  have u: "upper ''mark'' = ''MARK''" "upper ''drop'' = ''DROP''" by code_simp+
  show ?thesis
    using a u by (simp add: flt_action_def svcs_rule.defs in_vars_def common_vars_def checked_def
        action_of_int_def Let_def del: enum_val_inject)
qed



section \<open>Examples\<close>

text \<open>
  A kernel that answers every command with the counters of a rule, and the cache with one rule in it:
  accept everything in the default namespace. The hypotheses of the properties hold in these
  states.
\<close>

definition counting_env :: "string list list ext" where
  "counting_env = recorder\<lparr>popen := (\<lambda>c w. ((0, [''    7   420 ACCEPT all'']), w @ [c]))\<rparr>"

definition no_rules :: "string list list in_state" where
  "no_rules = (cache_init, tool_init [])"

definition one_rule :: "string list list in_state" where
  "one_rule = snd (process_vrf_svcs_rule_add counting_env 2 ''default'' 1 2 in_defaults no_rules)"

lemma reach_no_rules: "in_reach E (cache_init, t)"
  unfolding in_reach_def by (rule reach_start) simp

lemma one_rule_added:
  "process_vrf_svcs_rule_add counting_env 2 ''default'' 1 2 in_defaults (cache_init, tool_init []) =
    (Inr (Some 1), (fst one_rule, snd one_rule))"
proof -
  have "fst (process_vrf_svcs_rule_add counting_env 2 ''default'' 1 2 in_defaults no_rules) = Inr (Some 1)"
    by code_simp
  then show ?thesis by (simp add: one_rule_def no_rules_def prod_eq_iff)
qed

lemma reach_one_rule: "in_reach counting_env (fst one_rule, snd one_rule)"
  by (rule in_reach_step [OF reach_no_rules step_add [OF one_rule_added]]) simp

theorem in_cache_reachable_witness:
  "\<forall>tb f v. map_option (rl_wf in_eq) (get_list tb f v (fst one_rule)) \<noteq> Some False"
proof -
  have "c_mutex (fst one_rule) = 0" using add_answer [OF cache_ok_init one_rule_added] by (simp add: cache_init_def)
  with in_cache_reachable [OF in_reach_any [OF reach_one_rule]] show ?thesis by auto
qed

theorem add_refines_witness:
  "map_option (\<lambda>r. (vrf_name r, rule_type r)) (abs_rules (fst one_rule) 1) = Some (''default'', RULE_TYPE_ACL)"
  using add_refines [OF reach_no_rules one_rule_added]
  by (auto simp: nostats_def frame_simps rule_type_of_int_def elim!: in_init_cases)

definition set_rule :: "string list list in_state" where
  "set_rule = snd (process_vrf_svcs_rule_set counting_env 1 [P_seq_num 5] one_rule)"

lemma one_rule_set:
  "process_vrf_svcs_rule_set counting_env 1 [P_seq_num 5] (fst one_rule, snd one_rule) =
    (Inr True, (fst set_rule, snd set_rule))"
proof -
  have "fst (process_vrf_svcs_rule_set counting_env 1 [P_seq_num 5] one_rule) = Inr True" by code_simp
  then show ?thesis by (simp add: set_rule_def prod_eq_iff)
qed

theorem set_refines_witness:
  "c_mutex (fst set_rule) = c_mutex (fst one_rule) \<and> abs_rules (fst set_rule) 1 \<noteq> None"
  using set_refines [OF reach_one_rule one_rule_set] by auto

definition del_rule :: "string list list in_state" where
  "del_rule = snd (process_vrf_svcs_rule_del counting_env 2 ''default'' 1 2 in_defaults one_rule)"

lemma one_rule_del:
  "process_vrf_svcs_rule_del counting_env 2 ''default'' 1 2 in_defaults (fst one_rule, snd one_rule) =
    (Inr True, (fst del_rule, snd del_rule))"
proof -
  have "fst (process_vrf_svcs_rule_del counting_env 2 ''default'' 1 2 in_defaults one_rule) = Inr True" by code_simp
  then show ?thesis by (simp add: del_rule_def prod_eq_iff)
qed

theorem del_refines_witness:
  "\<exists>k. abs_rules (fst one_rule) k \<noteq> None \<and> abs_rules (fst del_rule) k = None"
  using del_refines [OF reach_one_rule one_rule_del] by auto

definition gone_rule :: "string list list in_state" where
  "gone_rule = snd (process_vrf_svcs_rule_del_by_id counting_env 1 one_rule)"

lemma one_rule_gone:
  "process_vrf_svcs_rule_del_by_id counting_env 1 (fst one_rule, snd one_rule) =
    (Inr True, (fst gone_rule, snd gone_rule))"
proof -
  have "fst (process_vrf_svcs_rule_del_by_id counting_env 1 one_rule) = Inr True" by code_simp
  then show ?thesis by (simp add: gone_rule_def prod_eq_iff)
qed

theorem del_by_id_refines_witness:
  "abs_rules (fst one_rule) 1 \<noteq> None \<and> abs_rules (fst gone_rule) 1 = None"
  using del_by_id_refines [OF reach_one_rule one_rule_gone] by simp

definition one_report :: "(string \<times> attr_val) list list \<times> string list list in_state" where
  "one_report = (case process_vrf_svcs_rule_get counting_env None None None [] one_rule of
     (r, s) \<Rightarrow> (the (projr r), s))"

lemma one_rule_get:
  "process_vrf_svcs_rule_get counting_env None None None [] (fst one_rule, snd one_rule) =
    (Inr (Some (fst one_report)), (fst (snd one_report), snd (snd one_report)))"
proof -
  have "(case process_vrf_svcs_rule_get counting_env None None None [] one_rule of
      (Inr (Some x), s) \<Rightarrow> True | _ \<Rightarrow> False)" by code_simp
  then show ?thesis by (auto simp: one_report_def split: prod.splits sum.splits option.splits)
qed

theorem get_complete_witness:
  "abs_rules (fst (snd one_report)) = abs_rules (fst one_rule)"
  using get_complete [OF reach_one_rule _ one_rule_get] by (simp add: stats_free_def)

definition cleared :: "string list list in_state" where
  "cleared = snd (process_vrf_svcs_clear_rules counting_env (Some ''default'') one_rule)"

lemma one_rule_clear:
  "process_vrf_svcs_clear_rules counting_env (Some ''default'') (fst one_rule, snd one_rule) =
    (Inr True, (fst cleared, snd cleared))"
proof -
  have "fst (process_vrf_svcs_clear_rules counting_env (Some ''default'') one_rule) = Inr True" by code_simp
  then show ?thesis by (simp add: cleared_def prod_eq_iff)
qed

theorem clear_exact_witness:
  "c_mutex (fst cleared) = c_mutex (fst one_rule) \<and>
   abs_rules (fst cleared) 1 = (case abs_rules (fst one_rule) 1 of None \<Rightarrow> None
     | Some q \<Rightarrow> if vrf_name q = ''default'' then None else Some q)"
  using clear_exact [OF reach_one_rule one_rule_clear] by (auto split: option.splits)

definition accept_rule :: in_rule where
  "accept_rule = in_new RULE_TYPE_ACL ''default'' AF_INET None RULE_ACTION_ALLOW in_defaults
     (Some (any_ip AF_INET), Some 0) (Some (any_ip AF_INET), Some 0)"

lemma no_rules_held: "\<not> holds cache_init x"
  by (simp add: holds_def get_list_def cache_init_def)

lemma first_id: "\<exists>g. get_new_id (c_ids (cache_init :: in_cache)) = (Some 1, g)"
  by (simp add: cache_init_def get_new_id_def Let_def)

theorem refused_add_leaks_id_witness:
  "\<exists>s. insert_rule failing_env accept_rule (cache_init, tool_init []) = s \<and>
     is_id_used 1 (c_ids (fst (snd s))) \<and> abs_rules (fst (snd s)) 1 = None"
proof -
  define s where "s = insert_rule failing_env accept_rule (cache_init, tool_init [])"
  have "(case fst (insert_rule failing_env accept_rule (cache_init, tool_init [])) of
      Inr (b, r) \<Rightarrow> \<not> b | _ \<Rightarrow> False)" by code_simp
  then obtain r1 where s: "s = (Inr (False, r1), (fst (snd s), snd (snd s)))"
    by (cases s; cases "fst s") (auto simp: s_def split: sum.splits prod.splits)
  obtain g where g: "get_new_id (c_ids (cache_init :: in_cache)) = (Some 1, g)" using first_id by blast
  have id: "rule_id accept_rule = None" by (simp add: accept_rule_def frame_simps in_defaults_def)
  have run: "insert_rule failing_env accept_rule (cache_init, tool_init []) =
      (Inr (False, r1), (fst (snd s), snd (snd s)))" unfolding s_def [symmetric] by (rule s)
  have none: "\<forall>x. holds cache_init x \<longrightarrow> \<not> in_eq x accept_rule" by (simp add: no_rules_held)
  from refused_add_leaks_id [OF reach_no_rules id none g run] show ?thesis unfolding s_def by blast
qed

text \<open>A kernel that accepts the first rule only.\<close>

definition once_env :: "string list list ext" where
  "once_env = recorder\<lparr>popen := (\<lambda>c w.
     ((if ''-I'' \<in> set c \<and> list_ex (\<lambda>d. ''-I'' \<in> set d) w then 1 else 0, [''    7   420 ACCEPT all'']), w @ [c]))\<rparr>"

definition once_rule :: "string list list in_state" where
  "once_rule = snd (process_vrf_svcs_rule_add once_env 2 ''default'' 1 2 in_defaults no_rules)"

lemma once_rule_added:
  "process_vrf_svcs_rule_add once_env 2 ''default'' 1 2 in_defaults (cache_init, tool_init []) =
    (Inr (Some 1), (fst once_rule, snd once_rule))"
proof -
  have "fst (process_vrf_svcs_rule_add once_env 2 ''default'' 1 2 in_defaults no_rules) = Inr (Some 1)"
    by code_simp
  then show ?thesis by (simp add: once_rule_def no_rules_def prod_eq_iff)
qed

lemma reach_once_rule: "in_reach once_env (fst once_rule, snd once_rule)"
  by (rule in_reach_step [OF reach_no_rules step_add [OF once_rule_added]]) simp

lemma once_rule_only: "holds (fst once_rule) x \<Longrightarrow> rule_id x = Some 1"
proof -
  assume x: "holds (fst once_rule) x"
  have ok: "cache_ok (fst once_rule)" using in_reach_ok [OF reach_once_rule] by simp
  from once_rule_added have "\<exists>q. abs_rules (fst once_rule) = (abs_rules cache_init)(1 \<mapsto> q)"
  proof (cases rule: add_cases)
    case (ran r b r1)
    with insert_rule_spec [OF cache_ok_init ran(2)] show ?thesis by (cases b) auto
  qed auto
  moreover from ins.held_abs [OF ok x] obtain k where "rule_id x = Some k" "abs_rules (fst once_rule) k = Some (nostats x)" .
  moreover have "abs_rules cache_init k = None" for k by (simp add: ins.abs_None [OF cache_ok_init] no_rules_held)
  ultimately show ?thesis by (auto split: if_splits)
qed

definition once_new :: in_rule where
  "once_new = accept_rule\<lparr>seq_num := 5, rule_id := Some 1\<rparr>"

definition once_deleted :: "(bool \<times> in_rule option) \<times> string list list in_state" where
  "once_deleted = (case delete_by_id_obj once_env 1 once_rule of (y, s) \<Rightarrow> (projr y, s))"

theorem refused_update_loses_rule_witness:
  "abs_rules (fst once_rule) 1 \<noteq> None \<and>
   abs_rules (fst (snd (update_found once_env 1 accept_rule once_new [A_seq_num] (fst once_rule, snd once_rule)))) 1 = None"
proof -
  define del where "del = delete_by_id_obj once_env 1 once_rule"
  define ins where "ins = insert_rule once_env once_new (snd del)"
  have e: "(case fst (delete_by_id_obj once_env 1 once_rule) of Inr (b, od) \<Rightarrow> b \<and> od \<noteq> None | _ \<Rightarrow> False)"
    "(case fst (insert_rule once_env once_new (snd (delete_by_id_obj once_env 1 once_rule))) of
      Inr (b, r) \<Rightarrow> \<not> b | _ \<Rightarrow> False)" by code_simp+
  from e(1) obtain d where d: "del = (Inr (True, Some d), (fst (snd del), snd (snd del)))"
    by (cases del; cases "fst del") (auto simp: del_def)
  from e(2) obtain u1 where u1: "ins = (Inr (False, u1), (fst (snd ins), snd (snd ins)))"
    by (cases ins; cases "fst ins") (auto simp: ins_def del_def)
  have "delete_by_id_obj once_env 1 (fst once_rule, snd once_rule) =
      (Inr (True, Some d), (fst (snd del), snd (snd del)))" using d by (simp add: del_def)
  moreover have "insert_rule once_env once_new (fst (snd del), snd (snd del)) =
      (Inr (False, u1), (fst (snd ins), snd (snd ins)))" using u1 by (simp add: ins_def)
  moreover have "rule_id once_new = Some 1" by (simp add: once_new_def)
  moreover have "\<not> list_all (\<lambda>a. a \<in> set repl_attrs) [A_seq_num]" by (simp add: repl_attrs_def)
  moreover have "\<forall>x. holds (fst once_rule) x \<longrightarrow> in_eq x once_new \<longrightarrow> rule_id x = Some 1"
    using once_rule_only by blast
  ultimately obtain c' where "update_found once_env 1 accept_rule once_new [A_seq_num] (fst once_rule, snd once_rule) =
      (Inr False, (c', snd (snd ins)))" "abs_rules (fst once_rule) 1 = Some (nostats d)"
    "abs_rules c' = (abs_rules (fst once_rule))(1 := None)"
    using refused_update_loses_rule [OF reach_once_rule] by blast
  then show ?thesis by simp
qed

definition short_args :: in_args where
  "short_args = in_defaults\<lparr>a_src_ip := Some [1, 2, 3]\<rparr>"

theorem bad_address_stays_witness:
  "\<exists>c'. process_vrf_svcs_rule_add recorder 2 ''default'' 1 2 short_args (cache_init, tool_init []) =
     (Inr None, (c', tool_init [])) \<and> c_mutex c' = 1"
proof -
  obtain g where g: "get_new_id (c_ids (cache_init :: in_cache)) = (Some 1, g)" using first_id by blast
  have r: "VrfIncomingSvcsRule_init (cidr_packed recorder) 2 ''default'' 1 2 short_args =
      Inr (in_new RULE_TYPE_ACL ''default'' AF_INET None RULE_ACTION_ALLOW short_args
        (Some [1, 2, 3], None) (Some (any_ip AF_INET), Some 0))"
    by (simp add: VrfIncomingSvcsRule_init_def checked_def checked_opt_def rule_type_of_int_def
        action_of_int_def af_of_int_def short_args_def in_defaults_def normalize_ip_prefix_def)
  have "a_src_ip short_args = Some [1, 2, 3]" "a_src_prefix_len short_args = None" "a_rule_id short_args = None"
    by (simp_all add: short_args_def in_defaults_def)
  from bad_address_stays [OF reach_no_rules r this(1,2) _ this(3) _ g, of "tool_init []"] show ?thesis
    by (auto simp: frame_simps addr_len_def no_rules_held) (simp add: cache_init_def)
qed





theorem ip_rule_negation_ignored_witness:
  "proc_rule recorder OpInsert (InRule (in_set_intf (Some ''!eth0'') (accept_rule\<lparr>rule_type := RULE_TYPE_IP\<rparr>))) None (tool_init []) =
   proc_rule recorder OpInsert (InRule ((accept_rule\<lparr>rule_type := RULE_TYPE_IP\<rparr>)\<lparr>in_intf := Some ''eth0''\<rparr>)) None (tool_init [])"
  using ip_rule_negation_ignored [of "accept_rule\<lparr>rule_type := RULE_TYPE_IP\<rparr>" recorder OpInsert "''eth0''"]
  by (simp add: accept_rule_def frame_simps)

theorem acl_deny_add_and_set_differ_witness:
  "flt_action (InRule ((in_new RULE_TYPE_ACL ''default'' AF_INET None RULE_ACTION_DENY in_defaults
     (Some (any_ip AF_INET), Some 0) (Some (any_ip AF_INET), Some 0))\<lparr>action := RULE_ACTION_DENY\<rparr>)) =
   Inr [''-j'', ''DROP'']"
  by (rule acl_deny_add_and_set_differ [of "\<lambda>s. Inl AddrFormatError" "''default''" 2 in_defaults, THEN conjunct2, THEN conjunct2])
    (simp add: VrfIncomingSvcsRule_init_def checked_def checked_opt_def rule_type_of_int_def
      action_of_int_def af_of_int_def in_defaults_def normalize_ip_prefix_def)

end
