(* ===== verification/OutgoingSpec.thy ===== *)
theory OutgoingSpec
  imports OutgoingCache CacheClear
begin

text \<open>
  The refinement of the outgoing cache: each operation of \<open>OutgoingCache\<close> keeps the invariant
  of \<open>RuleCache\<close> on every path and does to the map from identifiers to rules what its name says
  when it returns. What the aliases do is in \<open>Outgoing\<close>.
\<close>

section \<open>The contract\<close>

lemma out_order_all: "(tb, f) \<in> set out_order"
  by (cases tb; cases f) (simp_all add: out_order_def)

interpretation outs: rule_store out_is_rule_equal out_table_of out_order "\<lambda>r. r"
  by unfold_locales (simp_all add: out_order_all out_eq_iff out_table_of_def)

abbreviation out_ok :: "out_cache \<Rightarrow> bool" where "out_ok \<equiv> cache_inv out_is_rule_equal out_table_of"

abbreviation out_abs :: "out_cache \<Rightarrow> int \<Rightarrow> out_rule option" where
  "out_abs \<equiv> abs_map (\<lambda>r. r) out_order"

abbreviation out_home where "out_home \<equiv> homed out_table_of"

lemmas out_match_spec = outs.match_rule_spec [folded out_find_rule_by_match_def]

lemmas out_insert_held = outs.insert_held [folded out_list_insert_def]

lemmas out_insert_undone =
  outs.insert_undone [where accept = out_accept, folded out_list_insert_def out_list_remove_def]

text \<open>The commands and the aliases do not touch the cache.\<close>

lemma out_proc_pair: "out_proc E op r idx (c, t) = (x, s') \<Longrightarrow> \<exists>t'. s' = (c, t')"
  by (auto simp: out_proc_def split: prod.splits)

definition alias_set :: "out_rule \<Rightarrow> out_rule \<Rightarrow> bool" where
  "alias_set r r' \<longleftrightarrow> r' = r\<lparr>private_ip := private_ip r', private_port := private_port r'\<rparr>"

lemma alias_set_frame:
  "alias_set r r' \<Longrightarrow> rule_id r' = rule_id r \<and> out_table_of r' = out_table_of r \<and> af r' = af r \<and>
     vrf_name r' = vrf_name r \<and> prio_key r' = prio_key r \<and> out_is_rule_equal x r' = out_is_rule_equal x r \<and>
     rule_type r' = rule_type r \<and> rule_alias r' = rule_alias r"
  unfolding alias_set_def by (erule ssubst) (simp add: out_table_of_def prio_key_def out_eq_iff rule_alias_def)

lemma alias_set_refl [simp]: "alias_set r r"
  by (simp add: alias_set_def)

lemma alias_config_pair:
  "outgoing_ip_svcs_rule_sub_net_config E b r (c, t) = (x, s') \<Longrightarrow>
     (\<exists>t'. s' = (c, t')) \<and> (\<forall>ok r'. x = Inr (ok, r') \<longrightarrow> alias_set r r')"
  by (auto simp: outgoing_ip_svcs_rule_sub_net_config_def alias_set_def
      split: if_splits prod.splits sum.splits option.splits)

lemma release_alias_pair: "release_alias E r (c, t) = (x, s') \<Longrightarrow> \<exists>t'. s' = (c, t')"
  using alias_config_pair [of E False r c t]
  by (cases "outgoing_ip_svcs_rule_sub_net_config E False r (c, t)";
      cases "fst (outgoing_ip_svcs_rule_sub_net_config E False r (c, t))")
    (auto simp: release_alias_def split: if_splits)

section \<open>Insertion\<close>

lemma set_list_release: "set_list tb f v l (release_rule_id k c) = release_rule_id k (set_list tb f v l c)"
  by (auto simp: set_list_def upd_dict_def release_rule_id_def set_ids_def split: option.split)

lemma out_insert_tail_spec:
  assumes ok: "out_ok c" and l: "get_list tb f v c = Some l" and home: "out_home c tb f v r"
    and fresh: "\<forall>x. holds c x \<longrightarrow> rule_id x \<noteq> rule_id r" and id: "rule_id r = Some k"
    and h: "out_insert_tail E tb f v r (c, t) = (x, (c', t'))"
  shows "out_ok c' \<and> (\<forall>b r1. x = Inr (b, r1) \<longrightarrow> r1 = r \<and> c_mutex c' = c_mutex c - 1 \<and>
    out_abs c' = (if b then (out_abs c)(k \<mapsto> r) else out_abs c))"
proof (cases "out_list_insert r l")
  case ins: (Pair i l1)
  show ?thesis
  proof (cases i)
    case None
    have rel: "out_ok (release_rule_id (Some k) c)"
      by (rule outs.cache_ok_release [OF ok]) (use fresh id in auto)
    obtain y s where al: "release_alias E r (c, t) = (y, s)" by (cases "release_alias E r (c, t)")
    from release_alias_pair [OF al] obtain t1 where s: "s = (c, t1)" by blast
    have "(\<exists>e. x = Inl e \<and> c' = c) \<or> (x = Inr (False, r) \<and> c' = unlock (release_rule_id (Some k) c))"
      using h by (cases y) (auto simp: out_insert_tail_def l ins None id al s)
    then show ?thesis using ok rel outs.abs_same_holds [OF ok rel] by auto
  next
    case (Some idx)
    define c4 where "c4 = set_list tb f v l1 c"
    note ins = ins [unfolded Some]
    from out_insert_undone [OF ok l ins home fresh] obtain l2 where
      l2: "out_list_remove r l1 = (Inr (Some (r, idx)), l2)" "out_ok (set_list tb f v l2 c4)"
        "out_abs (set_list tb f v l2 c4) = out_abs c" unfolding c4_def by blast
    define c5 where "c5 = release_rule_id (Some k) (set_list tb f v l2 c4)"
    have ok4: "out_ok c4" unfolding c4_def by (rule out_insert_held(1) [OF ok l ins home fresh])
    have abs4: "out_abs c4 = (out_abs c)(k \<mapsto> r)"
      by (rule outs.abs_insert [OF ok ok4 id _ fresh]) (simp add: c4_def out_insert_held(2) [OF ok l ins home fresh])
    have "out_abs c k = None" using fresh id by (simp add: outs.abs_None [OF ok])
    then have none: "rule_id x \<noteq> Some k" if "holds (set_list tb f v l2 c4) x" for x
      using outs.abs_None [OF l2(2), of k] l2(3) that by simp
    have ok5: "out_ok c5" unfolding c5_def by (rule outs.cache_ok_release [OF l2(2) none])
    have abs5: "out_abs c5 = out_abs c"
      using outs.abs_same_holds [OF l2(2) ok5] l2(3) by (simp add: c5_def)
    obtain y s1 where pr: "out_proc E OpInsert r (Some idx) (c4, t) = (y, s1)"
      by (cases "out_proc E OpInsert r (Some idx) (c4, t)")
    from out_proc_pair [OF pr] obtain t1 where s1: "s1 = (c4, t1)" by blast
    obtain z s2 where al: "release_alias E r (c5, t1) = (z, s2)" by (cases "release_alias E r (c5, t1)")
    from release_alias_pair [OF al] obtain t2 where s2: "s2 = (c5, t2)" by blast
    have "(\<exists>e. x = Inl e \<and> (c' = c4 \<or> c' = c5)) \<or> (x = Inr (True, r) \<and> c' = unlock c4) \<or>
        (x = Inr (False, r) \<and> c' = unlock c5)"
      using h unfolding out_insert_tail_def prod.case l option.sel ins option.case c4_def [symmetric] pr s1 l2(1)
        sum.case id set_list_release
      by (cases y; cases z) (auto simp: al [unfolded c5_def] s2 [unfolded c5_def] c5_def split: if_splits)
    then show ?thesis using ok4 ok5 abs4 abs5 by (auto simp: c4_def c5_def)
  qed
qed

lemma out_insert_rule_spec:
  assumes ok: "out_ok c0" and h: "out_insert_rule E r (c0, t) = (x, (c', t'))"
  shows "out_ok c' \<and> (\<forall>b r1. x = Inr (b, r1) \<longrightarrow> c_mutex c' = c_mutex c0 \<and>
    (if b then \<exists>k. alias_set (r\<lparr>rule_id := Some k\<rparr>) r1 \<and> (rule_id r = None \<or> rule_id r = Some k) \<and>
               out_abs c0 k = None \<and> out_abs c' = (out_abs c0)(k \<mapsto> r1)
     else out_abs c' = out_abs c0))"
proof -
  define tb f v where "tb = out_table_of r" and "f = af r" and "v = vrf_name r"
  define c2 where "c2 = (if get_list tb f v (lock c0) = None
    then set_list tb f v empty_rule_list (lock c0) else lock c0)"
  note defs = tb_def [symmetric] f_def [symmetric] v_def [symmetric] c2_def [symmetric]
  have "out_ok (lock c0)" using ok by simp
  note c2 = outs.ensure_list [OF this, of tb f v, folded c2_def, simplified]
  obtain l where l: "get_list tb f v c2 = Some l" using c2(4) by blast
  have ids2: "id_inv (c_ids c2)" by (rule outs.cache_okD(1) [OF c2(1)])
  show ?thesis
  proof (cases "assign_id r (c_ids c2)")
    case (Pair a g)
    show ?thesis
    proof (cases a)
      case None
      note g = assign_id_None [OF ids2 Pair [unfolded None]]
      have ok3: "out_ok (set_ids g c2)" by (rule outs.cache_ok_set_ids [OF c2(1)]) (use g in auto)
      have "x = Inr (False, r)" "c' = unlock (set_ids g c2)"
        using h unfolding out_insert_rule_def prod.case Let_def defs Pair None by simp_all
      with ok3 c2(3) outs.abs_same_holds [OF ok ok3] c2(2) show ?thesis by simp
    next
      case (Some r1)
      from assign_id_Some [OF ids2 Pair [unfolded Some]] obtain k where
        r1: "r1 = r\<lparr>rule_id := Some k\<rparr>" and k: "\<not> is_id_used k (c_ids c2)" "is_id_used k g"
        and g: "id_inv g" "\<forall>i. is_id_used i (c_ids c2) \<longrightarrow> is_id_used i g"
        and kr: "rule_id r = None \<or> rule_id r = Some k" by blast
      define c3 where "c3 = set_ids g c2"
      have ok3: "out_ok c3" unfolding c3_def by (rule outs.cache_ok_set_ids [OF c2(1) g(1)]) (use g in auto)
      have l3: "get_list tb f v c3 = Some l" by (simp add: c3_def l)
      have home: "out_home c3 tb f v r1" by (simp add: homed_def r1 c3_def k tb_def f_def v_def out_table_of_def)
      have "rule_id y \<noteq> Some k" if y: "holds c2 y" for y
        by (rule outs.holds_home [OF c2(1) y]) (use k(1) in \<open>auto simp: homed_def\<close>)
      then have fresh: "\<forall>y. holds c3 y \<longrightarrow> rule_id y \<noteq> Some k" by (simp add: c3_def)
      have abs3: "out_abs c3 = out_abs c0" by (rule outs.abs_same_holds [OF ok ok3]) (simp add: c3_def c2(2))
      have mutex3: "c_mutex c3 = Suc (c_mutex c0)" by (simp add: c3_def c2(3))
      have none: "out_abs c0 k = None" using fresh by (simp add: outs.abs_None [OF ok3, unfolded abs3])
      have rel: "out_ok (release_rule_id (Some k) c3)"
        by (rule outs.cache_ok_release [OF ok3]) (use fresh in auto)
      have tail: ?thesis
        if r2: "alias_set r1 r2" "out_insert_tail E tb f v r2 (c3, t1) = (x, (c', t'))" for r2 t1
      proof -
        from alias_set_frame [OF r2(1)] have id2: "rule_id r2 = Some k" and "out_home c3 tb f v r2"
          using home by (simp_all add: homed_def r1)
        from out_insert_tail_spec [OF ok3 l3 this(2) _ id2 r2(2)] fresh
        have sp: "out_ok c'" "\<forall>b q. x = Inr (b, q) \<longrightarrow> q = r2 \<and> c_mutex c' = c_mutex c0 \<and>
            out_abs c' = (if b then (out_abs c0)(k \<mapsto> r2) else out_abs c0)"
          by (simp_all add: id2 abs3 mutex3)
        show ?thesis
        proof (intro conjI allI impI)
          show "out_ok c'" by (rule sp(1))
        next
          fix b q assume "x = Inr (b, q)"
          with sp(2) have "q = r2" "c_mutex c' = c_mutex c0"
            "out_abs c' = (if b then (out_abs c0)(k \<mapsto> r2) else out_abs c0)" by blast+
          with r2(1) kr none show "c_mutex c' = c_mutex c0" and
            "if b then \<exists>k. alias_set (r\<lparr>rule_id := Some k\<rparr>) q \<and> (rule_id r = None \<or> rule_id r = Some k) \<and>
                 out_abs c0 k = None \<and> out_abs c' = (out_abs c0)(k \<mapsto> q) else out_abs c' = out_abs c0"
            by (auto simp: r1)
        qed
      qed
      show ?thesis
      proof (cases "rule_type r1 = RULE_TYPE_OUT_IP")
        case False
        then have "out_insert_tail E tb f v r1 (c3, t) = (x, (c', t'))"
          using h unfolding out_insert_rule_def prod.case Let_def defs Pair Some option.case c3_def by simp
        from tail [OF alias_set_refl this] show ?thesis .
      next
        case True
        obtain y s where al: "outgoing_ip_svcs_rule_sub_net_config E True r1 (c3, t) = (y, s)"
          by (cases "outgoing_ip_svcs_rule_sub_net_config E True r1 (c3, t)")
        from alias_config_pair [OF al] obtain t1 where s: "s = (c3, t1)"
          and set: "\<forall>ok r'. y = Inr (ok, r') \<longrightarrow> alias_set r1 r'" by blast
        have run: "(x, (c', t')) = and_then (y, (c3, t1)) (\<lambda>(ok, r2) (c3, t1).
            if ok then out_insert_tail E tb f v r2 (c3, t1)
            else (Inr (False, r2), (unlock (release_rule_id (rule_id r2) c3), t1)))"
          using h unfolding out_insert_rule_def prod.case Let_def defs Pair Some option.case
            c3_def [symmetric] al s by (simp only: True refl if_True)
        consider (raise) e where "y = Inl e" | (yes) r2 where "y = Inr (True, r2)" | (no) r2 where "y = Inr (False, r2)"
          by (metis (full_types) prod.exhaust sum.exhaust)
        then show ?thesis
        proof cases
          case raise
          with run ok3 show ?thesis by simp
        next
          case yes
          with set have r2: "alias_set r1 r2" by blast
          have "out_insert_tail E tb f v r2 (c3, t1) = (x, (c', t'))" using run yes by simp
          from tail [OF r2 this] show ?thesis .
        next
          case no
          with set have "alias_set r1 r2" by blast
          then have "rule_id r2 = Some k" using alias_set_frame [of r1 r2] by (simp add: r1)
          with run no have "x = Inr (False, r2)" "c' = unlock (release_rule_id (Some k) c3)" by simp_all
          with rel outs.abs_same_holds [OF ok3 rel] abs3 mutex3 show ?thesis by simp
        qed
      qed
    qed
  qed
qed

end
