(* ===== verification/OutgoingRefine.thy ===== *)
theory OutgoingRefine
  imports OutgoingSpec
begin

text \<open>
  The refinement of the outgoing cache, continued: search, deletion, replacement, update and the
  two operations on whole lists, each against the map of \<open>OutgoingSpec\<close>. \<open>out_ends c Q x c'\<close> is
  the form of these facts, as \<open>ends\<close> is for the incoming cache.
\<close>

definition out_ends ::
  "out_cache \<Rightarrow> ('a \<Rightarrow> (int \<Rightarrow> out_rule option) \<Rightarrow> bool) \<Rightarrow> exn + 'a \<Rightarrow> out_cache \<Rightarrow> bool" where
  "out_ends c Q x c' \<longleftrightarrow> out_ok c' \<and> (\<forall>a. x = Inr a \<longrightarrow> c_mutex c' = c_mutex c \<and> Q a (out_abs c'))"

lemma out_ends_Inl [simp]: "out_ends c Q (Inl e) c' \<longleftrightarrow> out_ok c'"
  by (simp add: out_ends_def)

lemma out_ends_Inr [simp]:
  "out_ends c Q (Inr a) c' \<longleftrightarrow> out_ok c' \<and> c_mutex c' = c_mutex c \<and> Q a (out_abs c')"
  by (simp add: out_ends_def)

section \<open>Search\<close>

lemma out_find_rule_by_id_spec:
  assumes ok: "out_ok c" and h: "out_find_rule_by_id k c = (x, c')"
  shows "\<exists>a. x = Inr a \<and> out_ok c' \<and> out_abs c' = out_abs c \<and> c_mutex c' = c_mutex c \<and>
    (case a of None \<Rightarrow> out_abs c k = None
     | Some (r, i) \<Rightarrow> outs.found_at c' k r i \<and> out_abs c k = Some r)"
proof (cases "find_loc k out_order c")
  case None
  with h have "x = Inr None" "c' = unlock (lock c)" by (simp_all add: out_find_rule_by_id_def)
  with None ok show ?thesis by (simp add: abs_map_def)
next
  case (Some p)
  obtain tb f v i where p: "p = (tb, f, v, i)" by (cases p)
  from outs.find_loc_ok [OF ok] Some p obtain l where l: "get_list tb f v c = Some l" "i < length (rules l)"
    "rule_id (rules l ! i) = Some k" "out_home c tb f v (rules l ! i)" by blast
  then have x: "x = Inr (Some (rules l ! i, i))" "c' = unlock (lock c)"
    using h Some p by (simp_all add: out_find_rule_by_id_def)
  have "outs.found_at c' k (rules l ! i) i"
    using l by (simp add: outs.found_at_def x homed_def)
  moreover from this have "out_abs c k = Some (rules l ! i)"
    using outs.abs_held [of c' "rules l ! i" k] outs.found_at_holds ok by (auto simp: x)
  ultimately show ?thesis using ok x by simp
qed

text \<open>The search that the other operations start with, under the lock.\<close>

lemma out_find_locked:
  assumes ok: "out_ok c" and h: "out_find_rule_by_id k (lock c) = (x, c1)"
  shows "out_ok c1" "out_abs c1 = out_abs c" "c_mutex c1 = Suc (c_mutex c)"
    and "(x = Inr None \<and> out_abs c k = None) \<or>
      (\<exists>d i. x = Inr (Some (d, i)) \<and> outs.found_at c1 k d i \<and> out_abs c k = Some d)"
  using out_find_rule_by_id_spec [OF _ h] ok by (auto split: option.splits)

section \<open>Deletion\<close>

lemma out_finish_delete_spec:
  assumes ok: "out_ok c" and l: "get_list tb f v c = Some l1" and home: "out_home c tb f v d"
    and id: "rule_id d = Some k" and fresh: "\<forall>x. holds c x \<longrightarrow> rule_id x \<noteq> rule_id d"
    and none: "\<forall>x\<in>set (rules l1). \<not> out_is_rule_equal x d"
    and h: "out_finish_delete E tb f v d i (Some k) (c, t) = (x, (c', t'))"
  shows "out_ok c' \<and> (\<forall>b. x = Inr b \<longrightarrow> c_mutex c' = c_mutex c - 1 \<and>
    out_abs c' = (if b then out_abs c else (out_abs c)(k \<mapsto> d)))"
proof -
  obtain y s where pr: "out_proc E OpDelete d (Some i) (c, t) = (y, s)"
    by (cases "out_proc E OpDelete d (Some i) (c, t)")
  from out_proc_pair [OF pr] obtain t1 where s: "s = (c, t1)" by blast
  consider (raise) e where "y = Inl e" | (gone) st where "y = Inr (True, st)" | (kept) st where "y = Inr (False, st)"
    by (cases y) auto
  then show ?thesis
  proof cases
    case raise
    with h ok show ?thesis by (auto simp: out_finish_delete_def pr s)
  next
    case gone
    obtain z s2 where al: "release_alias E d (c, t1) = (z, s2)" by (cases "release_alias E d (c, t1)")
    from release_alias_pair [OF al] obtain t2 where s2: "s2 = (c, t2)" by blast
    from gone have "(\<exists>e. x = Inl e \<and> c' = c) \<or> (x = Inr True \<and>
      c' = release_rule_id (Some k) (unlock (if rules l1 = [] then del_list tb f v c else c)))"
      using h by (cases z) (auto simp: out_finish_delete_def pr s l Let_def al s2)
    then show ?thesis using ok outs.finish_ok [OF ok l fresh [unfolded id]] by auto
  next
    case kept
    have "fst (out_list_insert d l1) \<noteq> None"
    proof -
      have "rule_id d \<notin> rule_id ` set (rules l1)" using fresh l by (metis (no_types, lifting) holds_def imageE)
      then show ?thesis
        unfolding out_list_insert_def outl.insert_None [OF outs.cache_okD(4) [OF ok l]] using id none by auto
    qed
    then obtain j l2 where ins: "out_list_insert d l1 = (Some j, l2)" by (cases "out_list_insert d l1") auto
    define c2 where "c2 = set_list tb f v l2 c"
    note ih = out_insert_held [OF ok l ins home fresh, folded c2_def]
    have "vrf_name d = v" using home by (simp add: homed_def)
    moreover have "rules l2 \<noteq> []" by (simp add: ih(4) list_insert_def)
    ultimately have x: "x = Inr False" "c' = unlock c2"
      using h kept by (simp_all add: out_finish_delete_def pr s l ins c2_def Let_def)
    have "out_abs c2 = (out_abs c)(k \<mapsto> d)" by (rule outs.abs_insert [OF ok ih(1) id ih(2) fresh])
    with ih(1) show ?thesis by (simp add: x) (simp add: c2_def)
  qed
qed

text \<open>
  \<open>delete_rule\<close> removes the rule that \<open>remove\<close> of the list finds, and nothing when there is none.
\<close>

lemma out_delete_rule_spec:
  assumes ok: "out_ok c" and h: "out_delete_rule E r (c, t) = (x, (c', t'))"
  shows "out_ends c (\<lambda>b m. if b then \<exists>k d. out_abs c k = Some d \<and> m = (out_abs c)(k := None) \<and>
      (rule_id r = Some k \<or> out_is_rule_equal d r) else m = out_abs c) x c'"
proof -
  define tb f v where "tb = out_table_of r" and "f = af r" and "v = vrf_name r"
  note defs = tb_def [symmetric] f_def [symmetric] v_def [symmetric]
  have ok1: "out_ok (lock c)" using ok by simp
  show ?thesis
  proof (cases "get_list tb f v (lock c)")
    case None
    then have "x = Inr False" "c' = unlock (lock c)"
      using h unfolding out_delete_rule_def prod.case Let_def defs by simp_all
    with ok show ?thesis by simp
  next
    case (Some l)
    note wf = outs.cache_okD(4) [OF ok1 Some]
    show ?thesis
    proof (cases "outl.remove_pos out_accept r l")
      case None
      from outl.remove(1) [OF wf this] have "out_list_remove r l = (Inr None, l)" by (simp add: out_list_remove_def)
      then have x: "x = Inr False" "c' = unlock (set_list tb f v l (lock c))"
        using h unfolding out_delete_rule_def prod.case Let_def defs Some by simp_all
      have ok2: "out_ok (set_list tb f v l (lock c))"
        by (rule outs.cache_ok_shrink [OF ok1 Some wf order_refl])
      have "out_abs (set_list tb f v l (lock c)) = out_abs (lock c)"
        by (rule outs.abs_same_holds [OF ok1 ok2]) (rule holds_same [OF Some refl])
      with x ok2 show ?thesis by simp
    next
      case pos: (Some i)
      have i: "i < length (rules l)" by (rule outl.remove_pos_less [OF wf pos])
      define d where "d = rules l ! i"
      from outl.remove(2) [OF wf pos] obtain l1 where
        l1: "out_list_remove r l = (Inr (Some (d, i)), l1)" "rules l1 = list_del i (rules l)"
          "rl_wf out_is_rule_equal l1"
        unfolding out_list_remove_def d_def by blast
      have mem: "d \<in> set (rules l)" using i by (simp add: d_def)
      have "out_home (lock c) tb f v d" by (rule outs.cache_okD(5) [OF ok1 Some mem])
      then obtain k where k: "rule_id d = Some k" by (auto simp: homed_def)
      note dh = outs.delete_held [OF ok1 Some i l1(2,3) d_def [symmetric] k]
      define c1 where "c1 = set_list tb f v l1 (lock c)"
      have fin: "out_finish_delete E tb f v d i (Some k) (c1, t) = (x, (c', t'))"
        using h unfolding out_delete_rule_def prod.case Let_def defs Some option.case l1(1) sum.case
        by (simp add: k c1_def)
      have held: "holds c d" using Some mem unfolding holds_def by (metis get_list_simps(1))
      have why: "rule_id r = Some k \<or> out_is_rule_equal d r"
        using pos k by (auto simp: outl.remove_pos_def d_def list_find_def list_index_Some outl.wf_id [OF wf]
            split: option.splits if_splits)
      have "get_list tb f v c1 = Some l1" by (simp add: c1_def)
      from out_finish_delete_spec [OF dh(1) [folded c1_def] this dh(3) [folded c1_def] k dh(4) [folded c1_def] dh(5) fin]
      have sp: "out_ok c' \<and> (\<forall>b. x = Inr b \<longrightarrow> c_mutex c' = c_mutex c \<and>
          out_abs c' = (if b then (out_abs c)(k := None) else out_abs c))"
        using dh(2,6) by (auto simp: c1_def)
      show ?thesis
        unfolding out_ends_def using sp why outs.abs_held [OF ok held k] by auto
    qed
  qed
qed

lemma out_delete_by_id_spec:
  assumes ok: "out_ok c" and h: "out_delete_by_id_obj E k (c, t) = (x, (c', t'))"
  shows "out_ends c (\<lambda>(b, d) m. if b then out_abs c k \<noteq> None \<and> m = (out_abs c)(k := None) \<and>
      d = out_abs c k else m = out_abs c) x c'"
proof -
  obtain y c1 where fnd: "out_find_rule_by_id k (lock c) = (y, c1)" by (cases "out_find_rule_by_id k (lock c)")
  note fs = out_find_locked [OF ok fnd]
  from fs(4) consider (none) "y = Inr None"
    | (found) d i where "y = Inr (Some (d, i))" "outs.found_at c1 k d i" "out_abs c k = Some d" by blast
  then show ?thesis
  proof cases
    case none
    with h fnd fs(1-3) show ?thesis by (auto simp: out_delete_by_id_obj_def)
  next
    case found
    note y = found(1) and at = found(2,3)
    define tb f v where "tb = out_table_of d" and "f = af d" and "v = vrf_name d"
    note defs = tb_def [symmetric] f_def [symmetric] v_def [symmetric]
    from at(1) obtain l where l: "get_list tb f v c1 = Some l" and i: "i < length (rules l)"
      and d: "rules l ! i = d" and k: "rule_id d = Some k" unfolding outs.found_at_def defs by blast
    note wf = outs.cache_okD(4) [OF fs(1) l]
    have "rule_id_map l (Some k) = Some i" using outl.wf_id [OF wf] i d k by auto
    from outl.remove_by_id(2) [OF wf this] obtain l1 where
      l1: "out_list_remove_by_id k l = (Inr (Some d), l1)" "rules l1 = list_del i (rules l)"
        "rl_wf out_is_rule_equal l1"
      unfolding out_list_remove_by_id_def d by blast
    note dh = outs.delete_held [OF fs(1) l i l1(2,3) d k]
    define c2 where "c2 = set_list tb f v l1 c1"
    obtain z s where fin: "out_finish_delete E tb f v d i (Some k) (c2, t) = (z, s)"
      by (cases "out_finish_delete E tb f v d i (Some k) (c2, t)")
    have x: "(x, (c', t')) = and_then (z, s) (\<lambda>ok s1. (Inr (ok, Some d), s1))"
      using h unfolding out_delete_by_id_obj_def prod.case fnd y sum.case option.case Let_def defs l
        l1(1) c2_def [symmetric] fin by simp
    then have s: "s = (c', t')" by (cases z) auto
    have "get_list tb f v c2 = Some l1" by (simp add: c2_def)
    from out_finish_delete_spec [OF dh(1) [folded c2_def] this dh(3) [folded c2_def] k dh(4) [folded c2_def] dh(5)
        fin [unfolded s]]
    have sp: "out_ok c' \<and> (\<forall>b. z = Inr b \<longrightarrow> c_mutex c' = c_mutex c \<and>
        out_abs c' = (if b then (out_abs c)(k := None) else out_abs c))"
      using dh(2,6) fs(1-3) by (auto simp: c2_def)
    show ?thesis using x sp at(2) by (cases z) (auto simp: s)
  qed
qed

section \<open>Replacement\<close>

lemma out_replace_rule_spec:
  assumes ok: "out_ok c" and may: "outs.may_replace (out_abs c) k r"
    and h: "out_replace_rule E k r (c, t) = (x, (c', t'))"
  shows "out_ends c (\<lambda>b m. if b then out_abs c k \<noteq> None \<and> m = (out_abs c)(k \<mapsto> r)
      else m = out_abs c) x c'"
proof -
  obtain y c1 where fnd: "out_find_rule_by_id k (lock c) = (y, c1)" by (cases "out_find_rule_by_id k (lock c)")
  note fs = out_find_locked [OF ok fnd]
  from fs(4) consider (none) "y = Inr None"
    | (found) d i where "y = Inr (Some (d, i))" "outs.found_at c1 k d i" "out_abs c k = Some d" by blast
  then show ?thesis
  proof cases
    case none
    with h fnd fs(1-3) show ?thesis by (auto simp: out_replace_rule_def)
  next
    case found
    note y = found(1) and at = found(2,3)
    define tb f v where "tb = out_table_of d" and "f = af d" and "v = vrf_name d"
    note defs = tb_def [symmetric] f_def [symmetric] v_def [symmetric]
    from at(1) obtain l where l: "get_list tb f v c1 = Some l" and i: "i < length (rules l)"
      and d: "rules l ! i = d" and k: "rule_id d = Some k" unfolding outs.found_at_def defs by blast
    have mem: "d \<in> set (rules l)" using i d by auto
    have r: "rule_id r = Some k" "out_table_of r = tb" "af r = f" "vrf_name r = v" "prio_key r = prio_key d"
      using may at(2) by (auto simp: outs.may_replace_def tb_def f_def v_def)
    have home: "out_home c1 tb f v r"
      using outs.cache_okD(5) [OF fs(1) l mem] r k by (simp add: homed_def)
    have other: "rule_id q = Some k" if "holds c1 q" "out_is_rule_equal q r" for q
      by (rule outs.held_abs [OF fs(1) that(1)]) (use may that(2) fs(2) in \<open>auto simp: outs.may_replace_def\<close>)
    note rh = outs.replace_held [OF fs(1) l i home _ r(1) _ other, unfolded d]
    obtain z s where pr: "out_proc E OpReplace r (Some i) (c1, t) = (z, s)"
      by (cases "out_proc E OpReplace r (Some i) (c1, t)")
    from out_proc_pair [OF pr] obtain t2 where s: "s = (c1, t2)" by blast
    have "(\<exists>e. x = Inl e \<and> c' = c1) \<or> (x = Inr False \<and> c' = unlock c1) \<or>
        (x = Inr True \<and> c' = unlock (set_list tb f v (rl_set i r l) c1))"
      using h unfolding out_replace_rule_def prod.case fnd y sum.case option.case pr s
      by (cases z) (auto simp: defs l Let_def split: if_splits)
    then show ?thesis using fs(1-3) at(2) rh k r by auto
  qed
qed

section \<open>Update\<close>

lemma out_set_param_frame:
  assumes "out_set_param p r = Inr u"
  shows "rule_id u = rule_id r" "rule_type u = rule_type r" "af u = af r" "vrf_name u = vrf_name r"
    "grp_priority u = grp_priority r" "out_param_attr p \<noteq> A_seq_num \<Longrightarrow> seq_num u = seq_num r"
  using assms by (cases p; auto simp: try_bind_Inr split: if_splits)+

lemma out_check_and_set_frame:
  assumes "out_check_and_set ps r ch = Inr (u, ch')"
  shows "rule_id u = rule_id r \<and> rule_type u = rule_type r \<and> af u = af r \<and> vrf_name u = vrf_name r \<and>
    grp_priority u = grp_priority r \<and> (A_seq_num \<notin> set ch' \<longrightarrow> seq_num u = seq_num r) \<and>
    set ch \<subseteq> set ch' \<and> (ch' = [] \<longrightarrow> u = r)"
  using assms
proof (induction ps r ch rule: out_check_and_set.induct)
  case (2 p ps r ch)
  show ?case
  proof (cases "map_of (out_vars r) (out_param_attr p) = Some (out_param_val p)")
    case True
    with 2 show ?thesis by simp
  next
    case False
    with 2(3) obtain r1 where r1: "out_set_param p r = Inr r1"
      "out_check_and_set ps r1 (out_param_attr p # ch) = Inr (u, ch')"
      by (auto simp: try_bind_Inr)
    note ih = 2(2) [OF False r1(2)] and fr = out_set_param_frame [OF r1(1)]
    have "A_seq_num \<notin> set ch' \<longrightarrow> seq_num u = seq_num r"
      using ih fr(6) by (cases "out_param_attr p = A_seq_num") auto
    with ih fr(1-5) show ?thesis by auto
  qed
qed simp

text \<open>What an insertion makes of a rule that brings its identifier: only the alias may differ.\<close>

lemma out_insert_again_spec:
  assumes ok: "out_ok c1" and abs: "out_abs c1 = m(k := None)" and mk: "m k = Some d"
    and uk: "rule_id u = Some k" and dk: "rule_id d = Some k"
    and h: "and_then (out_insert_rule E u (c1, t1)) (\<lambda>(ok, _) (c2, t2).
        if ok then (Inr True, (unlock c2, t2))
        else and_then (out_insert_rule E d (c2, t2)) (\<lambda>_ (c3, t3). (Inr False, (unlock c3, t3)))) = (x, (c', t'))"
  shows "out_ok c' \<and> (\<forall>b. x = Inr b \<longrightarrow> c_mutex c' = c_mutex c1 - 1 \<and>
    (if b then \<exists>u'. alias_set u u' \<and> out_abs c' = m(k \<mapsto> u')
     else out_abs c' = m(k := None) \<or> (\<exists>d'. alias_set d d' \<and> out_abs c' = m(k \<mapsto> d'))))"
proof -
  obtain z c2 t2 where ins: "out_insert_rule E u (c1, t1) = (z, (c2, t2))"
    by (cases "out_insert_rule E u (c1, t1)") auto
  note i1 = out_insert_rule_spec [OF ok ins]
  obtain w c3 t3 where undo: "out_insert_rule E d (c2, t2) = (w, (c3, t3))"
    by (cases "out_insert_rule E d (c2, t2)") auto
  have same: "q\<lparr>rule_id := Some k\<rparr> = q" if "rule_id q = Some k" for q :: out_rule using that by simp
  consider (raise) e where "z = Inl e" | (yes) r1 where "z = Inr (True, r1)" | (no) r1 where "z = Inr (False, r1)"
    by (metis (full_types) prod.exhaust sum.exhaust)
  then show ?thesis
  proof cases
    case raise
    with h ins i1 show ?thesis by auto
  next
    case yes
    with i1 uk abs have "\<exists>u'. alias_set u u' \<and> out_abs c2 = m(k \<mapsto> u')" by (auto simp: same)
    with i1 h ins yes show ?thesis by auto
  next
    case no
    with i1 abs have i1: "out_abs c2 = m(k := None)" "out_ok c2" "c_mutex c2 = c_mutex c1" by auto
    have x: "(x, (c', t')) = and_then (w, (c3, t3)) (\<lambda>_ (c3, t3). (Inr False, (unlock c3, t3)))"
      using h ins no undo by simp
    note i2 = out_insert_rule_spec [OF i1(2) undo]
    show ?thesis
    proof (cases w)
      case (Inl e)
      with x i2 show ?thesis by simp
    next
      case (Inr br)
      obtain b r1 where br: "br = (b, r1)" by (cases br)
      have "out_abs c3 = m(k := None) \<or> (\<exists>d'. alias_set d d' \<and> out_abs c3 = m(k \<mapsto> d'))"
        using i2 Inr br i1 dk mk by (auto simp: same split: if_splits)
      with x Inr i2 i1(3) br show ?thesis by simp
    qed
  qed
qed

lemma out_update_found_spec:
  assumes ok: "out_ok c" and old: "out_abs c k = Some old" and id: "rule_id old = Some k"
    and set: "out_check_and_set ps old [] = Inr (u, changed)"
    and other: "\<forall>q. holds c q \<longrightarrow> out_is_rule_equal q u \<longrightarrow> rule_id q = Some k"
    and h: "out_update_found E k old u changed (c, t) = (x, (c', t'))"
  shows "out_ok c' \<and> (\<forall>b. x = Inr b \<longrightarrow> c_mutex c' = c_mutex c - 1 \<and>
    (if b then \<exists>u'. alias_set u u' \<and> out_abs c' = (out_abs c)(k \<mapsto> u')
     else out_abs c' = (out_abs c)(k := None) \<or>
       (\<exists>d'. alias_set old d' \<and> out_abs c' = (out_abs c)(k \<mapsto> d'))))"
proof (cases "list_all (\<lambda>a. a \<in> set out_repl_attrs) changed")
  case True
  note fr = out_check_and_set_frame [OF set]
  have "A_seq_num \<notin> set changed" using True by (auto simp: list_all_iff out_repl_attrs_def)
  then have place: "out_table_of u = out_table_of old" "prio_key u = prio_key old" "af u = af old"
    "vrf_name u = vrf_name old"
    using fr by (simp_all add: out_table_of_def prio_key_def)
  have "j = k" if "out_abs c j = Some q" "out_is_rule_equal q u" for j q
    using that other unfolding outs.abs_iff [OF ok] by auto
  then have may: "outs.may_replace (out_abs c) k u"
    using fr id old place by (auto simp: outs.may_replace_def)
  obtain y c1 t1 where rep: "out_replace_rule E k u (c, t) = (y, (c1, t1))"
    by (cases "out_replace_rule E k u (c, t)") auto
  have same: "\<exists>d'. alias_set old d' \<and> out_abs c = (out_abs c)(k \<mapsto> d')"
    using old alias_set_refl by (metis fun_upd_triv)
  note rs = out_replace_rule_spec [OF ok may rep]
  have x: "(x, (c', t')) = and_then (y, (c1, t1)) (\<lambda>ok (c1, t1). (Inr ok, (unlock c1, t1)))"
    using h True by (simp add: out_update_found_def rep)
  show ?thesis
  proof (cases y)
    case (Inl e)
    with x rs show ?thesis by simp
  next
    case (Inr b)
    with x rs have *: "x = Inr b" "c' = unlock c1" "out_ok c'" "c_mutex c' = c_mutex c - 1"
      "if b then out_abs c' = (out_abs c)(k \<mapsto> u) else out_abs c' = out_abs c" by (auto split: if_splits)
    have "if b then \<exists>u'. alias_set u u' \<and> out_abs c' = (out_abs c)(k \<mapsto> u')
     else out_abs c' = (out_abs c)(k := None) \<or>
       (\<exists>d'. alias_set old d' \<and> out_abs c' = (out_abs c)(k \<mapsto> d'))"
      using *(5) same alias_set_refl [of u] by (cases b) (simp only: if_True, blast, simp)
    with * show ?thesis by simp
  qed
next
  case False
  have uk: "rule_id u = Some k" using out_check_and_set_frame [OF set] id by simp
  obtain y c1 t1 where del: "out_delete_by_id_obj E k (c, t) = (y, (c1, t1))"
    by (cases "out_delete_by_id_obj E k (c, t)") auto
  note ds = out_delete_by_id_spec [OF ok del]
  have same: "\<exists>d'. alias_set old d' \<and> out_abs c = (out_abs c)(k \<mapsto> d')"
    using old alias_set_refl by (metis fun_upd_triv)
  show ?thesis
  proof (cases "\<exists>d. y = Inr (True, d)")
    case neg: False
    have "(\<exists>e. x = Inl e \<and> y = Inl e \<and> c' = c1) \<or> (\<exists>d. x = Inr False \<and> y = Inr (False, d) \<and> c' = unlock c1)"
      using h False del neg by (cases y) (auto simp: out_update_found_def)
    with ds same show ?thesis by auto
  next
    case True
    then obtain od where y: "y = Inr (True, od)" by blast
    with ds old have ds: "out_ok c1" "c_mutex c1 = c_mutex c" "out_abs c1 = (out_abs c)(k := None)"
      and od: "od = Some old" by auto
    have again: "and_then (out_insert_rule E u (c1, t1)) (\<lambda>(ok, _) (c2, t2).
        if ok then (Inr True, (unlock c2, t2))
        else and_then (out_insert_rule E old (c2, t2)) (\<lambda>_ (c3, t3). (Inr False, (unlock c3, t3)))) = (x, (c', t'))"
      using h False unfolding out_update_found_def del y od and_then_simps prod.case option.case by simp
    show ?thesis using out_insert_again_spec [OF ds(1,3) old uk id again] unfolding ds(2) .
  qed
qed

lemma out_update_rule_spec:
  assumes ok: "out_ok c" and h: "out_update_rule E k ps (c, t) = (x, (c', t'))"
  shows "out_ends c (\<lambda>b m. if b then \<exists>q u ch u'. out_abs c k = Some q \<and>
        out_check_and_set ps q [] = Inr (u, ch) \<and> alias_set u u' \<and> m = (out_abs c)(k \<mapsto> u')
      else m = out_abs c \<or> m = (out_abs c)(k := None) \<or>
        (\<exists>q q'. out_abs c k = Some q \<and> alias_set q q' \<and> m = (out_abs c)(k \<mapsto> q'))) x c'"
proof -
  obtain y c1 where fnd: "out_find_rule_by_id k (lock c) = (y, c1)" by (cases "out_find_rule_by_id k (lock c)")
  note fs = out_find_locked [OF ok fnd]
  from fs(4) consider (none) "y = Inr None"
    | (found) d i where "y = Inr (Some (d, i))" "outs.found_at c1 k d i" "out_abs c k = Some d" by blast
  then show ?thesis
  proof cases
    case none
    with h fnd fs(1-3) show ?thesis by (auto simp: out_update_rule_def)
  next
    case found
    note y = found(1) and d = found(3)
    have k: "holds c1 d" "rule_id d = Some k" using found(2) by (auto dest: outs.found_at_holds)
    show ?thesis
    proof (cases "out_check_and_set ps d []")
      case (Inl e)
      with h fnd y fs(1) show ?thesis by (auto simp: out_update_rule_def)
    next
      case (Inr uc)
      obtain u ch where u: "out_check_and_set ps d [] = Inr (u, ch)" using Inr by (cases uc) auto
      have "(ch = [] \<and> x = Inr True \<and> c' = unlock c1) \<or> (x = Inr False \<and> c' = unlock c1) \<or>
          (out_update_found E k d u ch (c1, t) = (x, (c', t')) \<and>
            (\<forall>m. out_find_rule_by_match u c1 = Some m \<longrightarrow> rule_id m = Some k))"
        using h fnd y u k(2) by (auto simp: out_update_rule_def split: if_splits option.splits)
      then show ?thesis
      proof (elim disjE conjE)
        assume "ch = []" "x = Inr True" "c' = unlock c1"
        moreover from this have "u = d" using out_check_and_set_frame [OF u] by simp
        moreover have "out_abs c = (out_abs c)(k \<mapsto> d)" using d by (simp add: fun_upd_idem)
        ultimately show ?thesis using fs(1-3) d u by simp (metis alias_set_refl)
      next
        assume "x = Inr False" "c' = unlock c1"
        then show ?thesis using fs(1-3) by simp
      next
        assume up: "out_update_found E k d u ch (c1, t) = (x, (c', t'))"
          and m: "\<forall>m. out_find_rule_by_match u c1 = Some m \<longrightarrow> rule_id m = Some k"
        have "rule_id q = Some k" if q: "holds c1 q" "out_is_rule_equal q u" for q
        proof (cases "out_find_rule_by_match u c1")
          case None
          from out_match_spec(1) [OF fs(1) this q(1)] q(2) show ?thesis ..
        next
          case (Some n)
          from out_match_spec(2) [OF fs(1) Some] have "holds c1 n" "out_is_rule_equal n u" by auto
          then have "q = n" using outs.held_unique [OF fs(1) q(1)] q(2) outl.same_sym outl.same_trans by blast
          with Some m show ?thesis by simp
        qed
        then have other: "\<forall>q. holds c1 q \<longrightarrow> out_is_rule_equal q u \<longrightarrow> rule_id q = Some k" by blast
        have "out_abs c1 k = Some d" using fs(2) d by simp
        note sp = out_update_found_spec [OF fs(1) this k(2) u other up, unfolded fs(2,3)]
        show ?thesis
          unfolding out_ends_def
        proof (intro conjI allI impI)
          fix b assume b: "x = Inr b"
          note spb = sp [THEN conjunct2, THEN spec, THEN mp, OF b]
          show "c_mutex c' = c_mutex c" using spb by simp
          show "if b then \<exists>q u ch u'. out_abs c k = Some q \<and>
              out_check_and_set ps q [] = Inr (u, ch) \<and> alias_set u u' \<and> out_abs c' = (out_abs c)(k \<mapsto> u')
            else out_abs c' = out_abs c \<or> out_abs c' = (out_abs c)(k := None) \<or>
              (\<exists>q q'. out_abs c k = Some q \<and> alias_set q q' \<and> out_abs c' = (out_abs c)(k \<mapsto> q'))"
            using spb d u by (metis (full_types))
        qed (use sp in blast)
      qed
    qed
  qed
qed

end
