(* ===== verification/OutgoingLists.thy ===== *)
theory OutgoingLists
  imports OutgoingRefine
begin

text \<open>
  The two operations of the outgoing cache that go over whole lists: \<open>clear_all_rules\<close> empties
  the lists of a namespace or of all of them, \<open>get_all_rules\<close> reports the rules that match.
\<close>

section \<open>Clearing\<close>

lemma out_clear_rules_spec:
  assumes "out_clear_rules E tb rs (c, t) = (Inr (), (c', t'))" "id_inv (c_ids c)"
  shows "\<exists>g. c' = set_ids g c \<and> released rs (c_ids c) g"
  using assms
proof (induction rs arbitrary: c t)
  case Nil
  then show ?case by (intro exI [of _ "c_ids c"]) (simp add: released_Nil)
next
  case (Cons r rs)
  obtain y s where pr: "out_proc E OpDelete r None (c, t) = (y, s)" by (cases "out_proc E OpDelete r None (c, t)")
  from out_proc_pair [OF pr] obtain t1 where s: "s = (c, t1)" by blast
  obtain z where y: "y = Inr z" using Cons.prems(1) by (cases y) (simp_all add: pr)
  obtain w s2 where al: "(case tb of OutIpRules \<Rightarrow> outgoing_ip_svcs_rule_sub_net_config E False r (c, t1)
      | SnatRules \<Rightarrow> (Inr (True, r), (c, t1))) = (w, s2)"
    by (cases "case tb of OutIpRules \<Rightarrow> outgoing_ip_svcs_rule_sub_net_config E False r (c, t1)
      | SnatRules \<Rightarrow> (Inr (True, r), (c, t1))")
  then obtain t2 where s2: "s2 = (c, t2)"
    using alias_config_pair [of E False r c t1] by (cases tb) auto
  have "out_clear_rules E tb rs (release_rule_id (rule_id r) c, t2) = (Inr (), (c', t'))"
    using Cons.prems(1) by (cases w) (simp_all add: pr y s al s2)
  with Cons.IH show ?case by (intro released_Cons [OF Cons.prems(2)]) blast
qed

lemma out_clear_lists_spec:
  assumes "out_ok c" "distinct (map fst d)" "\<forall>(v, l)\<in>set d. get_list tb f v c = Some l"
    and "out_clear_lists E tb f flt d (c, t) = (Inr (), (c', t'))"
  shows "outs.cleared (\<lambda>q. out_table_of q = tb \<and> af q = f \<and> vrf_name q \<in> fst ` set d \<and>
      (flt = None \<or> flt = Some (vrf_name q))) c c'"
  using assms
proof (induction d arbitrary: c t)
  case Nil
  then show ?case by (auto intro: outs.cleared_refl)
next
  case (Cons p d)
  obtain v l where p: "p = (v, l)" by (cases p)
  show ?case
  proof (cases "flt \<noteq> None \<and> flt \<noteq> Some v")
    case True
    with Cons.prems have "out_clear_lists E tb f flt d (c, t) = (Inr (), (c', t'))" by (auto simp: p)
    from Cons.IH [OF Cons.prems(1) _ _ this] Cons.prems(2,3) show ?thesis
      by (auto simp: p elim!: outs.cleared_cong) (use True in auto)
  next
    case False
    obtain y c1 t1 where cl: "out_clear_rules E tb (rules l) (c, t) = (y, (c1, t1))"
      by (cases "out_clear_rules E tb (rules l) (c, t)") auto
    have h: "y = Inr ()" "out_clear_lists E tb f flt d (del_list tb f v c1, t1) = (Inr (), (c', t'))"
      using Cons.prems(4) False by (cases y; simp add: p cl split: if_splits)+
    have l: "get_list tb f v c = Some l" using Cons.prems(3) by (simp add: p)
    from out_clear_rules_spec [OF cl [unfolded h(1)] outs.cache_okD(1) [OF Cons.prems(1)]] obtain g
      where g: "c1 = set_ids g c" "released (rules l) (c_ids c) g" by blast
    note cs = outs.cleared_list [OF Cons.prems(1) l g]
    have "\<forall>(v', l')\<in>set d. get_list tb f v' (del_list tb f v c1) = Some l'"
      using Cons.prems(2,3) cs(2) by (force simp: p)
    from Cons.IH [OF _ _ this h(2)] cs(1) Cons.prems(2) show ?thesis
      by (intro outs.cleared_trans [OF cs(1)]) (use False in \<open>auto simp: p outs.cleared_def\<close>)
  qed
qed

lemma out_clear_tables_spec:
  assumes "out_ok c" "out_clear_tables E flt flt_af ls (c, t) = (Inr (), (c', t'))"
  shows "outs.cleared (\<lambda>q. (out_table_of q, af q) \<in> set ls \<and>
      (flt_af = None \<or> flt_af = Some (af q)) \<and> (flt = None \<or> flt = Some (vrf_name q))) c c'"
  using assms
proof (induction ls arbitrary: c t)
  case Nil
  then show ?case by (auto intro: outs.cleared_refl)
next
  case (Cons p ls)
  obtain tb f where p: "p = (tb, f)" by (cases p)
  show ?case
  proof (cases "flt_af \<noteq> None \<and> flt_af \<noteq> Some f")
    case True
    then have "out_clear_tables E flt flt_af ls (c, t) = (Inr (), (c', t'))" using Cons.prems(2) by (simp add: p)
    from Cons.IH [OF Cons.prems(1) this] show ?thesis
      by (rule outs.cleared_cong) (use True in \<open>auto simp: p\<close>)
  next
    case False
    obtain y c1 t1 where cl: "out_clear_lists E tb f flt (c_tables c tb f) (c, t) = (y, (c1, t1))"
      by (cases "out_clear_lists E tb f flt (c_tables c tb f) (c, t)") auto
    have h: "y = Inr ()" "out_clear_tables E flt flt_af ls (c1, t1) = (Inr (), (c', t'))"
      using Cons.prems(2) False by (cases y; simp add: p cl split: if_splits)+
    note dl = outs.dict_lists [OF Cons.prems(1), of tb f]
    note cs = outs.cleared_table [OF Cons.prems(1)
        out_clear_lists_spec [OF Cons.prems(1) dl [THEN conjunct1] dl [THEN conjunct2] cl [unfolded h(1)]]]
    then have "out_ok c1" by (simp add: outs.cleared_def)
    show ?thesis by (rule outs.cleared_trans [OF cs Cons.IH [OF \<open>out_ok c1\<close> h(2)]]) (use False in \<open>auto simp: p\<close>)
  qed
qed

lemma out_clear_all_spec:
  assumes ok: "out_ok c" and h: "out_clear_all_rules E flt flt_af (c, t) = (Inr (), (c', t'))"
  shows "out_ok c' \<and> c_mutex c' = c_mutex c \<and>
    out_abs c' = drop_rules (\<lambda>q. (flt_af = None \<or> flt_af = Some (af q)) \<and>
      (flt = None \<or> flt = Some (vrf_name q))) (out_abs c)"
proof -
  have ok1: "out_ok (lock c)" using ok by simp
  obtain y c1 t1 where cl: "out_clear_tables E flt flt_af out_order (lock c, t) = (y, (c1, t1))"
    by (cases "out_clear_tables E flt flt_af out_order (lock c, t)") auto
  have h: "y = Inr ()" "c' = unlock c1" using h by (cases y; simp add: out_clear_all_rules_def cl)+
  from out_clear_tables_spec [OF ok1 cl [unfolded h(1)]] show ?thesis
    by (simp add: h(2) out_order_all outs.cleared_def)
qed

section \<open>Reporting\<close>

definition out_table_type :: "out_table \<Rightarrow> VrfSvcsRuleType" where
  "out_table_type tb = (case tb of OutIpRules \<Rightarrow> RULE_TYPE_OUT_IP | SnatRules \<Rightarrow> RULE_TYPE_SNAT)"

lemma out_get_all_spec:
  assumes ok: "out_ok c"
  shows "set (out_get_all_rules rt flt params c) =
    {q. (\<exists>k. out_abs c k = Some q) \<and> (rt = None \<or> rt = Some (out_table_type (out_table_of q))) \<and>
        (flt = None \<or> flt = Some (vrf_name q)) \<and> out_match q params}"
proof -
  have dict: "(v, l) \<in> set (c_tables c tb f) \<longleftrightarrow> get_list tb f v c = Some l" for v l tb f
    using outs.dict_lists [OF ok, of tb f] by (auto simp: get_list_def dest: map_of_SomeD)
  have rep: "q \<in> set (out_get_all_rules rt flt params c) \<longleftrightarrow>
      (\<exists>tb f. (rt = None \<or> rt = Some (out_table_type tb)) \<and>
         (\<exists>v l. get_list tb f v c = Some l \<and> (flt = None \<or> flt = Some v) \<and> q \<in> set (rules l) \<and> out_match q params))"
    for q
  proof -
    have "q \<in> set (concat (map (out_get_list flt params) (c_tables c tb f))) \<longleftrightarrow>
        (\<exists>v l. get_list tb f v c = Some l \<and> (flt = None \<or> flt = Some v) \<and> q \<in> set (rules l) \<and> out_match q params)"
      for tb f by (force simp: out_get_list_def simp flip: dict)
    then show ?thesis
      unfolding out_get_all_rules_def out_table_type_def [symmetric] set_concat set_map
      by (force simp: out_order_all split: if_splits)
  qed
  have home: "get_list tb f v c = Some l \<Longrightarrow> q \<in> set (rules l) \<Longrightarrow>
      tb = out_table_of q \<and> f = af q \<and> v = vrf_name q" for tb f v l q
    using outs.cache_okD(5) [OF ok, of tb f v l q] by (simp add: homed_def)
  have held: "(\<exists>k. out_abs c k = Some q) \<longleftrightarrow> (\<exists>tb f v l. get_list tb f v c = Some l \<and> q \<in> set (rules l))" for q
    unfolding outs.abs_iff [OF ok] holds_def [symmetric]
    using outs.holds_home [OF ok, of q] by (auto simp: homed_def)
  show ?thesis unfolding set_eq_iff rep mem_Collect_eq held using home by metis
qed

end
