(* ===== verification/OutgoingAlias.thy ===== *)
theory OutgoingAlias
  imports OutgoingLists
begin

text \<open>
  The aliases of the outgoing rules: the private address and port under which a namespace reaches
  a service outside of it. The ports are handed out by
  \<open>process_outgoing_ip_svcs_sub_net_config\<close> of the namespace tool, which keeps them in a
  dictionary of its own. This theory follows that dictionary through the operations of the cache.
\<close>

abbreviation ports :: "'w tool \<Rightarrow> svc_alias \<Rightarrow> int option" where
  "ports t \<equiv> map_of (outgoing_ip_svcs_map t)"

section \<open>The address of a namespace stays known\<close>

definition pairs_kept :: "'w tool \<Rightarrow> 'w tool \<Rightarrow> bool" where
  "pairs_kept t t' \<longleftrightarrow> (\<forall>k v. map_of (vrf_sub_net_map t) k = Some v \<longrightarrow> map_of (vrf_sub_net_map t') k = Some v)"

lemma pairs_kept_refl [simp]: "pairs_kept t t"
  by (simp add: pairs_kept_def)

lemma pairs_kept_trans: "pairs_kept t t1 \<Longrightarrow> pairs_kept t1 t2 \<Longrightarrow> pairs_kept t t2"
  by (simp add: pairs_kept_def)

lemma same_maps_pairs: "same_maps t t' \<Longrightarrow> pairs_kept t t'"
  by (simp add: pairs_kept_def same_maps_def)

lemma subnet_creation_pairs:
  assumes "subnet_creation E src dst t = (r, t')"
  shows "pairs_kept t t'"
proof (cases "map_of (vrf_sub_net_map t) (pair_key src dst) = None \<and> free_sub_net (vrf_sub_net_map t) \<noteq> None")
  case False
  with assms show ?thesis by (auto simp: subnet_creation_def Let_def split: option.splits)
next
  case True
  then obtain val where v: "map_of (vrf_sub_net_map t) (pair_key src dst) = None"
    "free_sub_net (vrf_sub_net_map t) = Some val" by auto
  let ?t0 = "t\<lparr>vrf_sub_net_map := AList.update (pair_key src dst) val (vrf_sub_net_map t)\<rparr>"
  have k0: "pairs_kept t ?t0" using v(1) by (auto simp: pairs_kept_def update_conv')
  obtain ok t1 where t1: "process_veth_config E True src dst
       (veth_ip4 val True) (veth_ip4 val False) veth_intf_ip_pref_len
       (veth_ip6 val True) (veth_ip6 val False) veth_intf_ip6_pref_len ?t0 = (ok, t1)"
    by force
  then have m1: "same_maps ?t0 t1" by (rule process_veth_config_maps)
  let ?t2 = "add_src_ips E dst src (add_src_ips E src dst t1)"
  have m2: "same_maps t1 ?t2" using add_src_ips_maps add_src_ips_maps by (rule same_maps_trans)
  have "t' = t1 \<or> t' = ?t2 \<or> same_maps ?t2 t'"
    using assms v t1
    by (auto simp: subnet_creation_def Let_def split: bool.splits if_splits prod.splits
        dest: in_world_maps)
  then have "same_maps ?t0 t'" using m1 m2 same_maps_trans by blast
  then show ?thesis using k0 pairs_kept_trans same_maps_pairs by blast
qed

lemma subnet_add_pairs:
  assumes "ip_svcs_subnet_setup E True src dst t = (r, t')"
  shows "pairs_kept t t'"
proof (cases "map_of (vrf_name_to_id t) src")
  case None
  with assms show ?thesis by (simp add: ip_svcs_subnet_setup_def)
next
  case (Some i)
  obtain r1 t1 where t1: "(if src \<noteq> ''default'' \<and> dst = ''default''
      then ip_svcs_iptable_rule_setup E src True t else (Inr True, t)) = (r1, t1)" by force
  then have m1: "same_maps t t1" by (auto split: if_splits dest: iptable_rule_setup_maps)
  obtain r2 t2 where t2: "(if dst \<noteq> ''default'' \<and> src = ''default''
      then ip_svcs_iptable_rule_setup E dst True t1 else (Inr True, t1)) = (r2, t2)" by force
  then have m2: "same_maps t1 t2" by (auto split: if_splits dest: iptable_rule_setup_maps)
  note k1 = same_maps_pairs [OF m1] and k2 = same_maps_pairs [OF same_maps_trans [OF m1 m2]]
  have "t' = t1 \<or> t' = t2 \<or> pairs_kept t2 t'"
    using assms subnet_creation_pairs [of E src dst t2]
    unfolding ip_svcs_subnet_setup_def Some option.simps t1
    by (cases r1; cases r2) (auto simp: t2 split: if_splits)
  with k1 k2 show ?thesis using pairs_kept_trans by blast
qed

lemma veth_ip_get_pairs: "veth_ip_get E src dst p t = (r, t') \<Longrightarrow> pairs_kept t t'"
  unfolding veth_ip_get_def
  using subnet_add_pairs [of E src dst t]
  by (cases "ip_svcs_subnet_setup E True src dst t"; cases "fst (ip_svcs_subnet_setup E True src dst t)")
    (auto split: if_splits option.splits bool.splits prod.splits)

lemma get_veth_ip_str_pairs: "get_veth_ip_str E f vrf p t = (r, t') \<Longrightarrow> pairs_kept t t'"
  using veth_ip_get_pairs [of E vrf "''default''" p t]
  by (cases "veth_ip_get E vrf ''default'' p t"; cases "fst (veth_ip_get E vrf ''default'' p t)")
    (auto simp: get_veth_ip_str_def split: option.splits prod.splits)

lemma flt_args_pairs: "flt_args E r t = (y, t1) \<Longrightarrow> pairs_kept t t1"
proof -
  assume h: "flt_args E r t = (y, t1)"
  obtain z t2 where t2: "flt_intf E r t = (z, t2)" by force
  have "pairs_kept t t2"
  proof (cases "map_of (vrf_name_to_id t) (vrf_name (base_of r))")
    case (Some i)
    obtain q t3 where q: "get_veth_ip_str E (af (base_of r)) (vrf_name (base_of r)) False t = (q, t3)" by force
    then have "pairs_kept t t3" by (rule get_veth_ip_str_pairs)
    then show ?thesis
      using t2 q Some by (cases q) (auto simp: flt_intf_def Let_def split: VrfSvcsRuleType.splits if_splits)
  qed (use t2 in \<open>auto simp: flt_intf_def Let_def split: VrfSvcsRuleType.splits if_splits\<close>)
  moreover have "t1 = t \<or> t1 = t2"
    using h t2 by (cases "flt_head r"; cases z; cases "flt_action r") (auto simp: flt_args_def)
  ultimately show ?thesis by auto
qed

lemma proc_rule_pairs:
  assumes h: "proc_rule E op r idx t = (x, t')"
  shows "pairs_kept t t'"
proof -
  have w: "in_world f t = (a, t1) \<Longrightarrow> pairs_kept t t1" for f :: "'a \<Rightarrow> 'b \<times> 'a" and a t t1
    by (intro same_maps_pairs in_world_maps)
  define b where "b = base_of r"
  obtain byp t1 where t1: "(if (op = OpDelete \<or> op = OpGet) \<and> vrf_name b \<noteq> ''default''
      then (case in_world (is_vrf_valid E (vrf_name b)) t of (ok, t1) \<Rightarrow> (\<not> ok, t1))
      else (False, t)) = (byp, t1)" by force
  then have k1: "pairs_kept t t1" by (auto split: if_splits prod.splits dest: w)
  obtain y t2 where t2: "flt_args E r t1 = (y, t2)" by force
  then have k2: "pairs_kept t1 t2" by (rule flt_args_pairs)
  have "t' = t1 \<or> t' = t2 \<or> pairs_kept t2 t'"
    using h t1 t2 unfolding proc_rule_def Let_def b_def [symmetric]
    by (cases y) (auto split: if_splits option.splits prod.splits list.splits dest: w)
  with k1 k2 show ?thesis using pairs_kept_trans by blast
qed

text \<open>The commands of a rule leave the ports alone and the known addresses known.\<close>

lemma out_proc_ports:
  assumes "out_proc E op r idx (c, t) = (x, (c', t'))"
  shows "outgoing_ip_svcs_map t' = outgoing_ip_svcs_map t" "pairs_kept t t'"
  using assms proc_rule_keeps [of E op "OutRule r" idx t x t'] proc_rule_pairs [of E op "OutRule r" idx t x t']
  by (auto simp: out_proc_def keeps_ports_def split: prod.splits)

section \<open>Allocation and release\<close>

lemma free_port_new:
  "free_private_port m = Some q \<Longrightarrow> q \<in> set private_port_range \<and> (\<forall>key. map_of m key \<noteq> Some q)"
  using find_range [of m private_port_range q] by (force simp: free_private_port_def dest: map_of_SomeD)

text \<open>One allocation, in the namespace tool.\<close>

lemma port_allocation:
  assumes h: "process_outgoing_ip_svcs_sub_net_config E True key t = (x, t')"
  shows "(\<exists>e. x = Inl e) \<or> (x = Inr None \<and> ports t' = ports t) \<or>
    (\<exists>ip p. x = Inr (Some (ip, p)) \<and> free_private_port (outgoing_ip_svcs_map t) = Some p \<and>
       ports t key = None \<and> ports t' = (ports t)(key \<mapsto> p))"
proof -
  obtain v f i3 i4 i5 where key: "key = (v, f, i3, i4, i5)" by (cases key)
  obtain y t1 where y: "veth_ip_get E v ''default'' False t = (y, t1)" by force
  have p: "outgoing_ip_svcs_map t1 = outgoing_ip_svcs_map t"
    using veth_ip_get_keeps [OF y] by (simp add: keeps_ports_def)
  show ?thesis
  proof (cases y)
    case (Inl e)
    with h show ?thesis by (auto simp: process_outgoing_ip_svcs_sub_net_config_def key y)
  next
    case (Inr a)
    show ?thesis
    proof (cases a)
      case None
      with h Inr p show ?thesis by (auto simp: process_outgoing_ip_svcs_sub_net_config_def key y)
    next
      case (Some ips)
      obtain ip4 ip6 where ips: "ips = (ip4, ip6)" by (cases ips)
      show ?thesis
      proof (cases "ports t key = None \<and> free_private_port (outgoing_ip_svcs_map t) \<noteq> None")
        case True
        then obtain q where q: "ports t key = None" "free_private_port (outgoing_ip_svcs_map t) = Some q" by auto
        with h Inr Some ips p show ?thesis
          by (auto simp: process_outgoing_ip_svcs_sub_net_config_def key y Let_def update_conv' split: sum.splits)
      next
        case False
        with h Inr Some ips p show ?thesis
          by (auto simp: process_outgoing_ip_svcs_sub_net_config_def key y Let_def split: option.splits)
      qed
    qed
  qed
qed

lemma alias_config_add:
  assumes "outgoing_ip_svcs_rule_sub_net_config E True r (c, t) = (x, (c', t'))"
  shows "(\<exists>e. x = Inl e) \<or> (x = Inr (False, r) \<and> ports t' = ports t) \<or>
    (\<exists>r' p. x = Inr (True, r') \<and> private_port r' = Some p \<and> private_ip r' \<noteq> None \<and> p \<in> set private_port_range \<and>
      (\<forall>key. ports t key \<noteq> Some p) \<and> ports t (rule_alias r) = None \<and> ports t' = (ports t)(rule_alias r \<mapsto> p))"
proof (cases "rule_type r = RULE_TYPE_OUT_IP")
  case False
  with assms show ?thesis by (simp add: outgoing_ip_svcs_rule_sub_net_config_def)
next
  case True
  obtain y t1 where y: "process_outgoing_ip_svcs_sub_net_config E True (rule_alias r) t = (y, t1)" by force
  note pa = port_allocation [OF y]
  show ?thesis
    using assms True pa free_port_new by (auto simp: outgoing_ip_svcs_rule_sub_net_config_def y)
qed

lemma alias_taken:
  assumes "ports t (rule_alias r) \<noteq> None"
    and "outgoing_ip_svcs_rule_sub_net_config E True r (c, t) = (x, (c', t'))"
  shows "(\<exists>e. x = Inl e) \<or> x = Inr (False, r)"
  using alias_config_add [OF assms(2)] assms(1) by auto

text \<open>A release answers, and takes the alias out, when the address of the namespace is known.\<close>

lemma release_alias_ports:
  assumes "rule_type r = RULE_TYPE_OUT_IP" "vrf_name r \<noteq> ''default''"
    and "get_veth_ip_subnet (vrf_name r) ''default'' t \<noteq> None"
    and "release_alias E r (c, t) = (x, (c', t'))"
  shows "ports t' = (ports t)(rule_alias r := None)"
proof -
  obtain a where y: "veth_ip_get E (vrf_name r) ''default'' False t = (Inr (Some a), t)"
    using assms(2,3) by (auto simp: veth_ip_get_def get_veth_ip_subnet_def split: option.splits)
  show ?thesis
    using assms(1,4) unfolding release_alias_def outgoing_ip_svcs_rule_sub_net_config_def prod.case
      process_outgoing_ip_svcs_sub_net_config_def rule_alias_def y
    by (auto simp: Let_def delete_conv' fun_upd_idem split: if_splits option.splits sum.splits prod.splits)
qed

lemma release_alias_none: "rule_type r \<noteq> RULE_TYPE_OUT_IP \<Longrightarrow> release_alias E r s = (Inr (), s)"
  by (simp add: release_alias_def)

lemma release_alias_frame:
  assumes "release_alias E r (c, t) = (x, (c', t'))"
  shows "ports t' = ports t \<or> ports t' = (ports t)(rule_alias r := None)"
proof (cases "rule_type r = RULE_TYPE_OUT_IP")
  case False
  with assms show ?thesis by (simp add: release_alias_none)
next
  case True
  obtain y t1 where y: "veth_ip_get E (vrf_name r) ''default'' False t = (y, t1)" by force
  have "outgoing_ip_svcs_map t1 = outgoing_ip_svcs_map t"
    using veth_ip_get_keeps [OF y] by (simp add: keeps_ports_def)
  then show ?thesis
    using assms True unfolding release_alias_def outgoing_ip_svcs_rule_sub_net_config_def prod.case
      process_outgoing_ip_svcs_sub_net_config_def rule_alias_def y
    by (cases y) (auto simp: Let_def delete_conv' split: if_splits option.splits sum.splits prod.splits)
qed

section \<open>An allocation makes the address known\<close>

lemma subnet_creation_known:
  assumes "subnet_creation E src dst t = (Inr (True, v), t')"
  shows "map_of (vrf_sub_net_map t') (pair_key src dst) \<noteq> None"
proof (cases "map_of (vrf_sub_net_map t) (pair_key src dst)")
  case None
  then obtain val where v: "free_sub_net (vrf_sub_net_map t) = Some val"
    using assms by (cases "free_sub_net (vrf_sub_net_map t)") (auto simp: subnet_creation_def Let_def)
  let ?t0 = "t\<lparr>vrf_sub_net_map := AList.update (pair_key src dst) val (vrf_sub_net_map t)\<rparr>"
  obtain ok t1 where t1: "process_veth_config E True src dst
       (veth_ip4 val True) (veth_ip4 val False) veth_intf_ip_pref_len
       (veth_ip6 val True) (veth_ip6 val False) veth_intf_ip6_pref_len ?t0 = (ok, t1)"
    by force
  then have m1: "same_maps ?t0 t1" by (rule process_veth_config_maps)
  let ?t2 = "add_src_ips E dst src (add_src_ips E src dst t1)"
  have m2: "same_maps t1 ?t2" using add_src_ips_maps add_src_ips_maps by (rule same_maps_trans)
  have "t' = t1 \<or> t' = ?t2 \<or> same_maps ?t2 t'"
    using assms None v t1
    by (auto simp: subnet_creation_def Let_def split: bool.splits if_splits prod.splits
        dest: in_world_maps)
  then have "same_maps ?t0 t'" using m1 m2 same_maps_trans by blast
  then show ?thesis by (simp add: same_maps_def update_conv')
next
  case (Some val)
  with assms subnet_creation_pairs [OF assms] show ?thesis by (auto simp: pairs_kept_def)
qed

lemma veth_ip_get_known:
  assumes "veth_ip_get E src dst p t = (Inr (Some a), t')"
  shows "get_veth_ip_subnet src dst t' \<noteq> None" "src \<noteq> dst \<or> src \<noteq> ''default''"
proof -
  have "ip_svcs_subnet_setup E True src dst t = (Inr (True, v), t') \<Longrightarrow>
      map_of (vrf_sub_net_map t') (pair_key src dst) \<noteq> None" for v
  proof -
    assume h: "ip_svcs_subnet_setup E True src dst t = (Inr (True, v), t')"
    obtain r1 t1 where t1: "(if src \<noteq> ''default'' \<and> dst = ''default''
        then ip_svcs_iptable_rule_setup E src True t else (Inr True, t)) = (r1, t1)" by force
    obtain r2 t2 where t2: "(if dst \<noteq> ''default'' \<and> src = ''default''
        then ip_svcs_iptable_rule_setup E dst True t1 else (Inr True, t1)) = (r2, t2)" by force
    have "subnet_creation E src dst t2 = (Inr (True, v), t')"
      using h unfolding ip_svcs_subnet_setup_def t1
      by (cases "map_of (vrf_name_to_id t) src"; cases r1; cases r2) (auto simp: t2 split: if_splits)
    then show ?thesis by (rule subnet_creation_known)
  qed
  then show "get_veth_ip_subnet src dst t' \<noteq> None"
    using assms unfolding veth_ip_get_def get_veth_ip_subnet_def
    by (cases "ip_svcs_subnet_setup E True src dst t"; cases "fst (ip_svcs_subnet_setup E True src dst t)")
      (auto split: if_splits option.splits bool.splits prod.splits)
  show "src \<noteq> dst \<or> src \<noteq> ''default''"
    using assms by (auto simp: veth_ip_get_def split: if_splits)
qed

lemma alias_config_known:
  assumes "outgoing_ip_svcs_rule_sub_net_config E True r (c, t) = (Inr (True, r'), (c', t'))"
  shows "get_veth_ip_subnet (vrf_name r) ''default'' t' \<noteq> None" "vrf_name r \<noteq> ''default''"
    "rule_type r = RULE_TYPE_OUT_IP"
proof -
  obtain y t1 where y: "veth_ip_get E (vrf_name r) ''default'' False t = (y, t1)" by force
  have "(\<exists>a. y = Inr (Some a)) \<and> vrf_sub_net_map t' = vrf_sub_net_map t1 \<and> rule_type r = RULE_TYPE_OUT_IP"
    using assms unfolding outgoing_ip_svcs_rule_sub_net_config_def prod.case
      process_outgoing_ip_svcs_sub_net_config_def rule_alias_def y
    by (cases y) (auto simp: Let_def split: if_splits option.splits sum.splits prod.splits)
  then obtain a where "y = Inr (Some a)" and m: "vrf_sub_net_map t' = vrf_sub_net_map t1"
    and "rule_type r = RULE_TYPE_OUT_IP" by blast
  with veth_ip_get_known [OF y [unfolded this(1)]] show "get_veth_ip_subnet (vrf_name r) ''default'' t' \<noteq> None"
    "vrf_name r \<noteq> ''default''" "rule_type r = RULE_TYPE_OUT_IP"
    unfolding get_veth_ip_subnet_def m by blast+
qed

lemma known_kept:
  "pairs_kept t t' \<Longrightarrow> get_veth_ip_subnet v w t \<noteq> None \<Longrightarrow> get_veth_ip_subnet v w t' \<noteq> None"
  by (auto simp: pairs_kept_def get_veth_ip_subnet_def split: option.splits)

section \<open>Insertion and deletion\<close>

lemma out_insert_tail_ports:
  assumes "out_insert_tail E tb f v r (c, t) = (Inr (b, r1), (c', t'))"
  shows "b \<Longrightarrow> r1 = r \<and> ports t' = ports t"
    and "\<not> b \<Longrightarrow> rule_type r = RULE_TYPE_OUT_IP \<Longrightarrow> vrf_name r \<noteq> ''default'' \<Longrightarrow>
      get_veth_ip_subnet (vrf_name r) ''default'' t \<noteq> None \<Longrightarrow> ports t' = (ports t)(rule_alias r := None)"
    and "\<not> b \<Longrightarrow> rule_type r \<noteq> RULE_TYPE_OUT_IP \<Longrightarrow> ports t' = ports t"
    and "\<not> b \<Longrightarrow> r1 = r \<and> c_ids c' = c_ids (release_rule_id (rule_id r) c)"
proof -
  obtain i l1 where ins: "out_list_insert r (the (get_list tb f v c)) = (i, l1)"
    by (cases "out_list_insert r (the (get_list tb f v c))")
  have "b \<and> r1 = r \<and> ports t' = ports t \<or>
      (\<not> b \<and> r1 = r \<and> c_ids c' = c_ids (release_rule_id (rule_id r) c) \<and>
       (\<exists>c2 t2 c3. ports t2 = ports t \<and> pairs_kept t t2 \<and> release_alias E r (c2, t2) = (Inr (), (c3, t'))))"
  proof (cases i)
    case None
    obtain y s where al: "release_alias E r (c, t) = (y, s)" by (cases "release_alias E r (c, t)")
    from release_alias_pair [OF al] obtain t1 where s: "s = (c, t1)" by blast
    show ?thesis
      using assms unfolding out_insert_tail_def prod.case ins None option.case al s
      by (cases y) (use al s in \<open>auto intro!: exI [of _ c] exI [of _ t]\<close>)
  next
    case (Some idx)
    let ?c4 = "set_list tb f v l1 c"
    obtain y c4 t4 where pr: "out_proc E OpInsert r (Some idx) (?c4, t) = (y, (c4, t4))"
      by (cases "out_proc E OpInsert r (Some idx) (?c4, t)") auto
    have c4: "c4 = ?c4" using out_proc_pair [OF pr] by auto
    note pp = out_proc_ports [OF pr]
    obtain z l2 where rem: "out_list_remove r l1 = (z, l2)" by (cases "out_list_remove r l1")
    let ?c5 = "set_list tb f v l2 (release_rule_id (rule_id r) ?c4)"
    obtain w s2 where al: "release_alias E r (?c5, t4) = (w, s2)" by (cases "release_alias E r (?c5, t4)")
    from release_alias_pair [OF al] obtain t5 where s2: "s2 = (?c5, t5)" by blast
    have ids: "c_ids ?c5 = c_ids (release_rule_id (rule_id r) c)"
      by (simp add: release_rule_id_def split: option.split)
    show ?thesis
      using assms unfolding out_insert_tail_def prod.case ins Some option.case pr c4
      by (cases y; cases z; cases w)
        (use pp al s2 rem ids in \<open>auto split: if_splits intro!: exI [of _ ?c5] exI [of _ t4]\<close>)
  qed
  then have sp: "(b \<longrightarrow> r1 = r \<and> ports t' = ports t) \<and>
      (\<not> b \<longrightarrow> r1 = r \<and> c_ids c' = c_ids (release_rule_id (rule_id r) c))"
    and rel: "\<not> b \<Longrightarrow> \<exists>c2 t2 c3. ports t2 = ports t \<and> pairs_kept t t2 \<and>
      release_alias E r (c2, t2) = (Inr (), (c3, t'))" by blast+
  show "b \<Longrightarrow> r1 = r \<and> ports t' = ports t" "\<not> b \<Longrightarrow> r1 = r \<and> c_ids c' = c_ids (release_rule_id (rule_id r) c)"
    using sp by simp_all
  show "ports t' = (ports t)(rule_alias r := None)"
    if nb: "\<not> b" "rule_type r = RULE_TYPE_OUT_IP" "vrf_name r \<noteq> ''default''"
      "get_veth_ip_subnet (vrf_name r) ''default'' t \<noteq> None"
  proof -
    from rel [OF nb(1)] obtain c2 t2 c3 where "ports t2 = ports t" "pairs_kept t t2"
      "release_alias E r (c2, t2) = (Inr (), (c3, t'))" by blast
    with release_alias_ports [OF nb(2,3) known_kept [OF _ nb(4)]] show ?thesis by metis
  qed
  show "ports t' = ports t" if nb: "\<not> b" "rule_type r \<noteq> RULE_TYPE_OUT_IP"
    using rel [OF nb(1)] by (auto simp: release_alias_none [OF nb(2)])
qed

text \<open>
  An insertion takes a new port for the alias of a service rule and none for a SNAT rule; a refused
  insertion leaves the ports, and the identifiers, as they were.
\<close>

lemma out_insert_rule_ports:
  assumes ok: "out_ok c" and h: "out_insert_rule E r (c, t) = (Inr (b, r1), (c', t'))"
  shows "b \<Longrightarrow> rule_type r = RULE_TYPE_OUT_IP \<Longrightarrow>
      \<exists>p. private_port r1 = Some p \<and> private_ip r1 \<noteq> None \<and> p \<in> set private_port_range \<and>
        (\<forall>key. ports t key \<noteq> Some p) \<and> ports t (rule_alias r) = None \<and> ports t' = (ports t)(rule_alias r \<mapsto> p)"
    and "b \<Longrightarrow> rule_type r \<noteq> RULE_TYPE_OUT_IP \<Longrightarrow> ports t' = ports t"
    and "\<not> b \<Longrightarrow> ports t' = ports t"
    and "\<not> b \<Longrightarrow> is_id_used i (c_ids c') = is_id_used i (c_ids c)"
proof -
  define tb f v where "tb = out_table_of r" and "f = af r" and "v = vrf_name r"
  define c2 where "c2 = (if get_list tb f v (lock c) = None
    then set_list tb f v empty_rule_list (lock c) else lock c)"
  note defs = tb_def [symmetric] f_def [symmetric] v_def [symmetric] c2_def [symmetric]
  have ids: "c_ids c2 = c_ids c" by (simp add: c2_def)
  have inv: "id_inv (c_ids c)" by (rule outs.cache_okD(1) [OF ok])
  obtain a g where as: "assign_id r (c_ids c) = (a, g)" by (cases "assign_id r (c_ids c)")
  have run: "out_insert_rule E r (c, t) =
      (case a of None \<Rightarrow> (Inr (False, r), (unlock (set_ids g c2), t))
       | Some q \<Rightarrow>
           if rule_type q = RULE_TYPE_OUT_IP then
             and_then (outgoing_ip_svcs_rule_sub_net_config E True q (set_ids g c2, t)) (\<lambda>(ok, r2) (c3, t1).
               if ok then out_insert_tail E tb f v r2 (c3, t1)
               else (Inr (False, r2), (unlock (release_rule_id (rule_id r2) c3), t1)))
           else out_insert_tail E tb f v q (set_ids g c2, t))"
    unfolding out_insert_rule_def prod.case Let_def defs ids as ..
  have goal: "(b \<longrightarrow> rule_type r = RULE_TYPE_OUT_IP \<longrightarrow>
      (\<exists>p. private_port r1 = Some p \<and> private_ip r1 \<noteq> None \<and> p \<in> set private_port_range \<and>
        (\<forall>key. ports t key \<noteq> Some p) \<and> ports t (rule_alias r) = None \<and> ports t' = (ports t)(rule_alias r \<mapsto> p))) \<and>
    (b \<longrightarrow> rule_type r \<noteq> RULE_TYPE_OUT_IP \<longrightarrow> ports t' = ports t) \<and>
    (\<not> b \<longrightarrow> ports t' = ports t \<and> (\<forall>i. is_id_used i (c_ids c') = is_id_used i (c_ids c)))"
  proof (cases a)
    case None
    show ?thesis using h assign_id_refused [OF as [unfolded None]] unfolding run None by auto
  next
    case (Some q)
    from assign_id_Some [OF inv as [unfolded Some]] obtain k where
      q: "q = r\<lparr>rule_id := Some k\<rparr>" "\<not> is_id_used k (c_ids c)" "id_inv g" by blast
    have qk: "rule_id q = Some k" using q(1) by simp
    have fr: "rule_alias q = rule_alias r" "rule_type q = rule_type r" "vrf_name q = vrf_name r"
      unfolding q(1) by (simp_all add: rule_alias_def)
    have freed: "is_id_used i (c_ids (release_rule_id (Some k) (set_ids g c3))) = is_id_used i (c_ids c)" for i c3
      using assign_id_used [OF inv as [unfolded Some] qk] q(2)
      by (auto simp: is_id_used_def release_id_used)
    show ?thesis
    proof (cases "rule_type r = RULE_TYPE_OUT_IP")
      case False
      have tl: "out_insert_tail E tb f v q (set_ids g c2, t) = (Inr (b, r1), (c', t'))"
        using h False unfolding run Some by (simp add: fr)
      from out_insert_tail_ports [OF tl] False freed [of _ c2] show ?thesis by (cases b) (simp_all add: fr qk)
    next
      case True
      obtain y s where al: "outgoing_ip_svcs_rule_sub_net_config E True q (set_ids g c2, t) = (y, s)"
        by (cases "outgoing_ip_svcs_rule_sub_net_config E True q (set_ids g c2, t)")
      from alias_config_pair [OF al] obtain t1 where s: "s = (set_ids g c2, t1)"
        and set: "\<forall>ok r'. y = Inr (ok, r') \<longrightarrow> alias_set q r'" by blast
      note al = al [unfolded s]
      have run2: "(Inr (b, r1), (c', t')) = and_then (y, (set_ids g c2, t1)) (\<lambda>(ok, r2) (c3, t1).
               if ok then out_insert_tail E tb f v r2 (c3, t1)
               else (Inr (False, r2), (unlock (release_rule_id (rule_id r2) c3), t1)))"
        using h True unfolding run Some by (simp add: fr al)
      from alias_config_add [OF al] show ?thesis
      proof (elim disjE exE conjE)
        fix e assume "y = Inl e"
        with run2 show ?thesis by simp
      next
        assume "y = Inr (False, q)" "ports t1 = ports t"
        with run2 freed [of _ c2] show ?thesis by (auto simp: qk)
      next
        fix r2 p assume y: "y = Inr (True, r2)" and p: "private_port r2 = Some p" "private_ip r2 \<noteq> None"
          "p \<in> set private_port_range" "\<forall>key. ports t key \<noteq> Some p" "ports t (rule_alias q) = None"
          "ports t1 = (ports t)(rule_alias q \<mapsto> p)"
        have "alias_set q r2" using set y by blast
        note fr2 = alias_set_frame [OF this]
        note known = alias_config_known [OF al [unfolded y]]
        have tl: "out_insert_tail E tb f v r2 (set_ids g c2, t1) = (Inr (b, r1), (c', t'))"
          using run2 y by simp
        note tp = out_insert_tail_ports [OF tl]
        show ?thesis
        proof (cases b)
          case b: True
          with tp(1) p True show ?thesis by (simp add: fr)
        next
          case False
          have "ports t' = (ports t1)(rule_alias q := None)"
            using tp(2) [OF False] known fr2 True by (simp add: fr)
          then have "ports t' = ports t" using p(5,6) by (simp add: fun_upd_idem)
          moreover have "is_id_used i (c_ids c') = is_id_used i (c_ids c)" for i
            using tp(4) [OF False] fr2 freed [of i c2] by (simp add: qk)
          ultimately show ?thesis using False by simp
        qed
      qed
    qed
  qed
  show "b \<Longrightarrow> rule_type r = RULE_TYPE_OUT_IP \<Longrightarrow>
      \<exists>p. private_port r1 = Some p \<and> private_ip r1 \<noteq> None \<and> p \<in> set private_port_range \<and>
        (\<forall>key. ports t key \<noteq> Some p) \<and> ports t (rule_alias r) = None \<and> ports t' = (ports t)(rule_alias r \<mapsto> p)"
    and "b \<Longrightarrow> rule_type r \<noteq> RULE_TYPE_OUT_IP \<Longrightarrow> ports t' = ports t"
    and "\<not> b \<Longrightarrow> ports t' = ports t"
    and "\<not> b \<Longrightarrow> is_id_used i (c_ids c') = is_id_used i (c_ids c)"
    using goal by blast+
qed

lemma out_finish_delete_ports:
  assumes h: "out_finish_delete E tb f v d i rid (c, t) = (Inr True, (c', t'))"
  shows "ports t' = ports t \<or> ports t' = (ports t)(rule_alias d := None)"
    and "rule_type d \<noteq> RULE_TYPE_OUT_IP \<Longrightarrow> ports t' = ports t"
    and "rule_type d = RULE_TYPE_OUT_IP \<Longrightarrow> vrf_name d \<noteq> ''default'' \<Longrightarrow>
      get_veth_ip_subnet (vrf_name d) ''default'' t \<noteq> None \<Longrightarrow> ports t' = (ports t)(rule_alias d := None)"
    and "rid = Some k \<Longrightarrow> \<not> is_id_used k (c_ids c')"
proof -
  obtain y c1 t1 where pr: "out_proc E OpDelete d (Some i) (c, t) = (y, (c1, t1))"
    by (cases "out_proc E OpDelete d (Some i) (c, t)") auto
  note pp = out_proc_ports [OF pr]
  obtain z c2 t2 where al: "release_alias E d (c1, t1) = (z, (c2, t2))"
    by (cases "release_alias E d (c1, t1)") auto
  have *: "t' = t2 \<and> z = Inr () \<and> (\<exists>c3. c' = release_rule_id rid c3)"
    using h unfolding out_finish_delete_def pr
    by (cases y; cases z) (auto simp: Let_def al split: option.splits if_splits, blast+)
  show "ports t' = ports t \<or> ports t' = (ports t)(rule_alias d := None)"
    using release_alias_frame [OF al] * pp(1) by simp
  show "rule_type d \<noteq> RULE_TYPE_OUT_IP \<Longrightarrow> ports t' = ports t"
    using al * pp(1) by (auto simp: release_alias_none)
  show "rid = Some k \<Longrightarrow> \<not> is_id_used k (c_ids c')"
    using * by (auto simp: is_id_used_def release_id_used)
  show "rule_type d = RULE_TYPE_OUT_IP \<Longrightarrow> vrf_name d \<noteq> ''default'' \<Longrightarrow>
      get_veth_ip_subnet (vrf_name d) ''default'' t \<noteq> None \<Longrightarrow> ports t' = (ports t)(rule_alias d := None)"
    using release_alias_ports [OF _ _ known_kept [OF pp(2)] al] * pp(1) by simp
qed

text \<open>A deletion that answers runs this end on the rule with the identifier.\<close>

lemma out_delete_by_id_ports:
  assumes ok: "out_ok c" and h: "out_delete_by_id_obj E k (c, t) = (Inr (True, d), (c', t'))"
  shows "\<exists>q tb f v i c1. out_abs c k = Some q \<and> d = Some q \<and>
    out_finish_delete E tb f v q i (Some k) (c1, t) = (Inr True, (c', t'))"
proof -
  obtain y c1 where fnd: "out_find_rule_by_id k (lock c) = (y, c1)" by (cases "out_find_rule_by_id k (lock c)")
  note fs = out_find_locked [OF ok fnd]
  from fs(4) consider (none) "y = Inr None" | (found) q i where "y = Inr (Some (q, i))" "out_abs c k = Some q" by blast
  then show ?thesis
  proof cases
    case none
    with h fnd show ?thesis by (simp add: out_delete_by_id_obj_def)
  next
    case found
    define tb f v where "tb = out_table_of q" and "f = af q" and "v = vrf_name q"
    note defs = tb_def [symmetric] f_def [symmetric] v_def [symmetric]
    obtain l where l: "get_list tb f v c1 = Some l"
      using h unfolding out_delete_by_id_obj_def prod.case fnd found sum.case option.case Let_def defs
      by (cases "get_list tb f v c1") auto
    obtain z l1 where rem: "out_list_remove_by_id k l = (z, l1)" by (cases "out_list_remove_by_id k l")
    obtain w s where fin: "out_finish_delete E tb f v q i (Some k) (set_list tb f v l1 c1, t) = (w, s)"
      by (cases "out_finish_delete E tb f v q i (Some k) (set_list tb f v l1 c1, t)")
    have "w = Inr True \<and> d = Some q \<and> s = (c', t')"
      using h unfolding out_delete_by_id_obj_def prod.case fnd found sum.case option.case Let_def defs l rem
      by (cases z; cases w) (auto simp: fin split: option.splits)
    with fin found(2) show ?thesis by blast
  qed
qed

section \<open>Replacement\<close>

lemma out_replace_rule_ports:
  assumes "out_replace_rule E k r (c, t) = (x, (c', t'))"
  shows "ports t' = ports t"
proof -
  obtain y c1 where fnd: "out_find_rule_by_id k (lock c) = (y, c1)" by (cases "out_find_rule_by_id k (lock c)")
  show ?thesis
  proof (cases "\<exists>d i. y = Inr (Some (d, i))")
    case False
    then show ?thesis
      using assms fnd by (cases y) (auto simp: out_replace_rule_def split: option.splits)
  next
    case True
    then obtain d i where y: "y = Inr (Some (d, i))" by blast
    obtain z c2 t2 where pr: "out_proc E OpReplace r (Some i) (c1, t) = (z, (c2, t2))"
      by (cases "out_proc E OpReplace r (Some i) (c1, t)") auto
    have "t' = t2"
      using assms unfolding out_replace_rule_def prod.case fnd y sum.case option.case pr
      by (cases z) (auto simp: Let_def split: if_splits option.splits)
    with out_proc_ports(1) [OF pr] show ?thesis by simp
  qed
qed

text \<open>
  An update of attributes that \<^verbatim>\<open>iptables\<close> replaces in place does not touch the ports, also when
  the attribute is part of the alias.
\<close>

lemma out_update_in_place_ports:
  assumes ok: "out_ok c" and q: "out_abs c k = Some q"
    and set: "out_check_and_set ps q [] = Inr (u, ch)" "list_all (\<lambda>a. a \<in> set out_repl_attrs) ch"
    and h: "out_update_rule E k ps (c, t) = (x, (c', t'))"
  shows "ports t' = ports t"
proof -
  obtain y c1 where fnd: "out_find_rule_by_id k (lock c) = (y, c1)" by (cases "out_find_rule_by_id k (lock c)")
  from out_find_locked(4) [OF ok fnd] q obtain i where y: "y = Inr (Some (q, i))" by auto
  have "t' = t \<or> (\<exists>z c2. out_replace_rule E k u (c1, t) = (z, (c2, t')))"
  proof -
    obtain z s where "out_replace_rule E k u (c1, t) = (z, s)" by (cases "out_replace_rule E k u (c1, t)")
    then show ?thesis
      using h fnd y set
      by (cases z; cases s) (auto simp: out_update_rule_def out_update_found_def split: if_splits option.splits)
  qed
  with out_replace_rule_ports show ?thesis by metis
qed

end
