(* ===== verification/Outgoing.thy ===== *)
theory Outgoing
  imports OutgoingAlias LockDepth
begin

text \<open>
  The outgoing services as their clients see them: the functions of
  \<^verbatim>\<open>dn_base_vrf_svcs_config.py\<close> that work on the outgoing cache, the states they reach, and the
  properties of the cache and of the aliases.
\<close>

section \<open>Calls\<close>

datatype out_call =
    OAdd int string int int out_args
  | OSet int "out_param list"
  | ODel int string int int out_args
  | ODel_by_id int
  | OGet "int option" "VrfSvcsRuleType option" "string option" "(attr \<times> attr_val) list"
  | OClear "string option" bool

text \<open>An answered call, in any state; a \<open>Clear\<close> carries its answer.\<close>

inductive out_step :: "'w ext \<Rightarrow> out_call \<Rightarrow> 'w out_state \<Rightarrow> 'w out_state \<Rightarrow> bool" for E where
  ostep_add: "process_vrf_outgoing_svcs_rule_add E rt vrf act fam args s = (Inr k, s') \<Longrightarrow>
    out_step E (OAdd rt vrf act fam args) s s'"
| ostep_set: "process_vrf_outgoing_svcs_rule_set E i ps s = (Inr b, s') \<Longrightarrow> out_step E (OSet i ps) s s'"
| ostep_del: "process_vrf_outgoing_svcs_rule_del E rt vrf act fam args s = (Inr b, s') \<Longrightarrow>
    out_step E (ODel rt vrf act fam args) s s'"
| ostep_del_by_id: "process_vrf_outgoing_svcs_rule_del_by_id E i s = (Inr b, s') \<Longrightarrow>
    out_step E (ODel_by_id i) s s'"
| ostep_get: "process_vrf_outgoing_svcs_rule_get k t vrf params s = (Inr res, s') \<Longrightarrow>
    out_step E (OGet k t vrf params) s s'"
| ostep_clear: "process_vrf_outgoing_svcs_clear_rules E vrf s = (Inr b, s') \<Longrightarrow> out_step E (OClear vrf b) s s'"

code_pred out_step .

text \<open>
  As for the incoming services, a \<open>Clear\<close> that raised answers \<open>False\<close>, has released identifiers of rules
  that are still listed, and keeps the lock. \<open>out_any_reach\<close> is every state that answered calls lead to,
  \<open>out_reach\<close> those that they lead to without such a \<open>Clear\<close>.
\<close>

fun out_clear_failed :: "out_call \<Rightarrow> bool" where
  "out_clear_failed (OClear _ b) = (\<not> b)"
| "out_clear_failed _ = False"

definition out_any_reach :: "'w ext \<Rightarrow> 'w out_state \<Rightarrow> bool" where
  "out_any_reach E = reach (\<lambda>s. fst s = cache_init) (\<lambda>s s'. \<exists>call. out_step E call s s')"

definition out_reach :: "'w ext \<Rightarrow> 'w out_state \<Rightarrow> bool" where
  "out_reach E = reach (\<lambda>s. fst s = cache_init) (\<lambda>s s'. \<exists>call. out_step E call s s' \<and> \<not> out_clear_failed call)"

section \<open>The invariant\<close>

lemma out_ok_init: "out_ok cache_init"
  by (simp add: cache_inv_def cache_init_def id_inv_def get_list_def holds_def)

lemma out_clear_True:
  assumes "process_vrf_outgoing_svcs_clear_rules E vrf s = (Inr True, s')"
  shows "out_clear_all_rules E vrf None s = (Inr (), s')"
  using assms unfolding process_vrf_outgoing_svcs_clear_rules_def
  by (cases "out_clear_all_rules E vrf None s"; cases "fst (out_clear_all_rules E vrf None s)")
    (auto elim!: catch_run)

lemma out_add_cases:
  assumes "process_vrf_outgoing_svcs_rule_add E rt vrf act fam args (c, t) = (x, (c', t'))"
  obtains (refused) e where "VrfOutgoingSvcsRule_init rt vrf act fam args = Inl e" "c' = c"
    "x = Inr (None, None, None) \<or> x = Inl e"
  | (raised) r e where "VrfOutgoingSvcsRule_init rt vrf act fam args = Inr r"
      "out_insert_rule E r (c, t) = (Inl e, (c', t'))" "x = Inr (None, None, None) \<or> x = Inl e"
  | (ran) r ok r1 where "VrfOutgoingSvcsRule_init rt vrf act fam args = Inr r"
      "out_insert_rule E r (c, t) = (Inr (ok, r1), (c', t'))"
      "x = Inr (if ok then (rule_id r1, private_ip r1, private_port r1) else (None, None, None))"
proof (cases "VrfOutgoingSvcsRule_init rt vrf act fam args")
  case (Inl e)
  with assms show thesis
    by (intro refused) (auto simp: process_vrf_outgoing_svcs_rule_add_def catch_def split: if_splits)
next
  case (Inr r)
  obtain y s where ins: "out_insert_rule E r (c, t) = (y, s)" by (cases "out_insert_rule E r (c, t)")
  show thesis
  proof (cases y)
    case Inl': (Inl e)
    with assms Inr ins show thesis
      by (intro raised [OF Inr]) (auto simp: process_vrf_outgoing_svcs_rule_add_def catch_def split: if_splits)
  next
    case Inr': (Inr p)
    obtain ok r1 where p: "p = (ok, r1)" by (cases p)
    show thesis
      by (rule ran [OF Inr, of ok r1])
        (use assms Inr ins Inr' p in \<open>auto simp: process_vrf_outgoing_svcs_rule_add_def catch_def\<close>)
  qed
qed

lemma out_del_cases:
  assumes "process_vrf_outgoing_svcs_rule_del E rt vrf act fam args (c, t) = (x, (c', t'))"
  obtains (refused) "c' = c" | (ran) r y where "VrfOutgoingSvcsRule_init rt vrf act fam args = Inr r"
      "out_delete_rule E r (c, t) = (y, (c', t'))" "x = Inr (Some True) \<Longrightarrow> y = Inr True"
proof (cases "VrfOutgoingSvcsRule_init rt vrf act fam args")
  case (Inl e)
  with assms show thesis
    by (intro refused) (auto simp: process_vrf_outgoing_svcs_rule_del_def catch_def split: if_splits)
next
  case (Inr r)
  obtain y s where d: "out_delete_rule E r (c, t) = (y, s)" by (cases "out_delete_rule E r (c, t)")
  show thesis
    by (rule ran [OF Inr, of y])
      (use assms Inr d in \<open>cases y; auto simp: process_vrf_outgoing_svcs_rule_del_def catch_def split: if_splits\<close>)+
qed

lemma out_del_by_id_run:
  assumes "process_vrf_outgoing_svcs_rule_del_by_id E i (c, t) = (Inr b, (c', t'))"
  obtains y where "out_delete_by_id_obj E i (c, t) = (y, (c', t'))" "b \<Longrightarrow> \<exists>d. y = Inr (True, d)"
proof -
  obtain y s1 where d: "out_delete_by_id_obj E i (c, t) = (y, s1)" by (cases "out_delete_by_id_obj E i (c, t)")
  have "s1 = (c', t') \<and> (b \<longrightarrow> (\<exists>d. y = Inr (True, d)))"
    using assms
    by (cases y) (auto simp: process_vrf_outgoing_svcs_rule_del_by_id_def out_delete_rule_by_id_def d catch_def
        split: if_splits)
  with d that show thesis by blast
qed

lemma out_step_inv:
  assumes "out_step E call s s'" "out_ok (fst s)" "\<not> out_clear_failed call"
  shows "out_ok (fst s')"
proof -
  obtain c t c' t' where s: "s = (c, t)" "s' = (c', t')" by (cases s, cases s')
  have ok: "out_ok c" using assms(2) s by simp
  have "out_ok c'" using assms(1) unfolding s
  proof cases
    case (ostep_add rt vrf act fam args k)
    from ostep_add(2) show ?thesis
    proof (cases rule: out_add_cases)
      case (raised r e)
      with out_insert_rule_spec [OF ok raised(2)] show ?thesis by simp
    next
      case (ran r ok' r1)
      with out_insert_rule_spec [OF ok ran(2)] show ?thesis by simp
    qed (use ok in auto)
  next
    case (ostep_set i ps b)
    obtain y where "out_update_rule E i ps (c, t) = (y, (c', t'))"
      using catch_outcome [OF ostep_set(2) [unfolded process_vrf_outgoing_svcs_rule_set_def]] by blast
    from out_update_rule_spec [OF ok this] show ?thesis by (simp add: out_ends_def)
  next
    case (ostep_del rt vrf act fam args b)
    from ostep_del(2) show ?thesis
    proof (cases rule: out_del_cases)
      case (ran r y)
      with out_delete_rule_spec [OF ok ran(2)] show ?thesis by (simp add: out_ends_def)
    qed (use ok in simp)
  next
    case (ostep_del_by_id i b)
    from out_del_by_id_run [OF ostep_del_by_id(2)] obtain y where
      "out_delete_by_id_obj E i (c, t) = (y, (c', t'))" .
    from out_delete_by_id_spec [OF ok this] show ?thesis by (simp add: out_ends_def)
  next
    case (ostep_get k ty vrf params res)
    show ?thesis
    proof (cases k)
      case None
      with ostep_get(2) ok show ?thesis by (auto simp: process_vrf_outgoing_svcs_rule_get_def catch_def)
    next
      case (Some i)
      obtain y c1 where g: "out_find_rule_by_id i c = (y, c1)" by (cases "out_find_rule_by_id i c")
      from out_find_rule_by_id_spec [OF ok g] ostep_get(2) Some g show ?thesis
        by (auto simp: process_vrf_outgoing_svcs_rule_get_def catch_def)
    qed
  next
    case (ostep_clear vrf b)
    then have "process_vrf_outgoing_svcs_clear_rules E vrf (c, t) = (Inr True, (c', t'))" using assms(3) by simp
    from out_clear_all_spec [OF ok out_clear_True [OF this]] show ?thesis by simp
  qed
  then show ?thesis by (simp add: s)
qed

interpretation outgoing:
  service "\<lambda>s. fst s = cache_init" "\<lambda>s s'. \<exists>call. out_step E call s s' \<and> \<not> out_clear_failed call" "\<lambda>s. out_ok (fst s)" for E
  by unfold_locales (auto simp: out_ok_init intro: out_step_inv)

lemma out_reach_ok: "out_reach E s \<Longrightarrow> out_ok (fst s)"
  unfolding out_reach_def by (rule outgoing.reach_inv)

text \<open>After any answered calls: the cache is as it should be, or its lock is still acquired.\<close>

definition out_safe :: "out_cache \<Rightarrow> bool" where
  "out_safe c \<longleftrightarrow> out_ok c \<or> 0 < c_mutex c"

lemma out_step_depth:
  "out_step E call (c, t) (c', t') \<Longrightarrow> c_mutex c \<le> c_mutex c' \<and> (out_clear_failed call \<longrightarrow> c_mutex c < c_mutex c')"
  by (erule out_step.cases) (auto dest: out_calls_depth out_clear_depth split: if_splits)

lemma out_step_safe:
  assumes "out_step E call s s'" "out_safe (fst s)"
  shows "out_safe (fst s')"
proof -
  obtain c t c' t' where s: "s = (c, t)" "s' = (c', t')" by (cases s, cases s')
  with assms out_step_depth [of E call c t c' t'] out_step_inv [OF assms(1)] show ?thesis
    by (auto simp: out_safe_def)
qed

interpretation outgoing_any:
  service "\<lambda>s. fst s = cache_init" "\<lambda>s s'. \<exists>call. out_step E call s s'" "\<lambda>s. out_safe (fst s)" for E
  by unfold_locales (auto simp: out_ok_init out_safe_def [of cache_init] intro: out_step_safe)

lemma out_reach_step: "out_reach E s \<Longrightarrow> out_step E call s s' \<Longrightarrow> \<not> out_clear_failed call \<Longrightarrow> out_reach E s'"
  unfolding out_reach_def by (blast intro: reach_step)

lemma out_reach_any: "out_reach E s \<Longrightarrow> out_any_reach E s"
  unfolding out_reach_def out_any_reach_def by (induction rule: reach.induct) (auto intro: reach_start reach_step)

lemma out_any_reach_safe: "out_any_reach E s \<Longrightarrow> out_safe (fst s)"
  unfolding out_any_reach_def by (rule outgoing_any.reach_inv)

text \<open>What an answered insertion means, from the invariant alone.\<close>

lemma out_add_answer:
  assumes ok: "out_ok c"
    and "process_vrf_outgoing_svcs_rule_add E rt vrf act fam args (c, t) = (Inr (Some k, ip, port), (c', t'))"
  shows "out_abs c k = None \<and> c_mutex c' = c_mutex c \<and>
    (\<exists>r r1. VrfOutgoingSvcsRule_init rt vrf act fam args = Inr r \<and>
      r1 = r\<lparr>rule_id := Some k, private_ip := ip, private_port := port\<rparr> \<and>
      out_abs c' = (out_abs c)(k \<mapsto> r1) \<and>
      (if rule_type r = RULE_TYPE_OUT_IP
       then \<exists>p. port = Some p \<and> ip \<noteq> None \<and> p \<in> set private_port_range \<and> (\<forall>key. ports t key \<noteq> Some p) \<and>
         ports t (rule_alias r) = None \<and> ports t' = (ports t)(rule_alias r \<mapsto> p)
       else ports t' = ports t))"
proof -
  from assms(2) show ?thesis
  proof (cases rule: out_add_cases)
    case (ran r b r1)
    then have b: "b" "rule_id r1 = Some k" "private_ip r1 = ip" "private_port r1 = port" by (auto split: if_splits)
    from out_insert_rule_spec [OF ok ran(2)] b obtain j where sp: "c_mutex c' = c_mutex c"
      "alias_set (r\<lparr>rule_id := Some j\<rparr>) r1" "out_abs c j = None" "out_abs c' = (out_abs c)(j \<mapsto> r1)" by auto
    have j: "j = k" using alias_set_frame [OF sp(2)] b(2) by simp
    have r1: "r1 = r\<lparr>rule_id := Some k, private_ip := ip, private_port := port\<rparr>"
      using sp(2) b unfolding alias_set_def j by simp
    from out_insert_rule_ports(1,2) [OF ok ran(2)] b r1 sp ran(1) show ?thesis
      unfolding j by (cases "rule_type r = RULE_TYPE_OUT_IP") auto
  qed auto
qed

section \<open>Properties\<close>

text \<open>
  C8: take any state that answered calls lead to, whatever the answers. Unless a \<open>Clear\<close> has
  answered \<open>False\<close> and the lock is still acquired since, every rule of the cache is in the list of its
  table, address family and namespace, has an identifier that is reserved in the generator and that
  no other rule has, and every list is sorted, with correct indexes and no two equal rules.
\<close>

theorem out_cache_reachable:
  assumes "out_any_reach E (c, t)" "out_reach E (c, t) \<or> c_mutex c = 0"
  shows "(\<forall>tb f v l. get_list tb f v c = Some l \<longrightarrow> rl_wf out_is_rule_equal l \<and>
      (\<forall>r\<in>set (rules l). out_table_of r = tb \<and> af r = f \<and> vrf_name r = v \<and>
        (\<exists>k. rule_id r = Some k \<and> is_id_used k (c_ids c)))) \<and>
    (\<forall>r r'. holds c r \<longrightarrow> holds c r' \<longrightarrow> rule_id r = rule_id r' \<longrightarrow> r = r')"
proof -
  have ok: "out_ok c"
    using out_reach_ok [of E "(c, t)"] out_any_reach_safe [OF assms(1)] assms(2) by (auto simp: out_safe_def)
  show ?thesis
    using outs.cache_okD(4) [OF ok] outs.cache_okD(5) [OF ok] outs.cache_okD(6) [OF ok] unfolding homed_def by metis
qed

text \<open>
  C7: an \<open>Add\<close> that answers with an identifier has added the rule its arguments describe under
  that identifier, which no rule had. For a service rule it has allocated a private port that no
  other alias has, stored it in the rule and answered it; for a SNAT rule it has allocated none.
\<close>

theorem out_add_refines:
  assumes "out_reach E (c, t)"
    and "process_vrf_outgoing_svcs_rule_add E rt vrf act fam args (c, t) = (Inr (Some k, ip, port), (c', t'))"
  shows "out_abs c k = None \<and> c_mutex c' = c_mutex c \<and>
    (\<exists>r r1. VrfOutgoingSvcsRule_init rt vrf act fam args = Inr r \<and>
      r1 = r\<lparr>rule_id := Some k, private_ip := ip, private_port := port\<rparr> \<and>
      out_abs c' = (out_abs c)(k \<mapsto> r1) \<and>
      (if rule_type r = RULE_TYPE_OUT_IP
       then \<exists>p. port = Some p \<and> ip \<noteq> None \<and> p \<in> set private_port_range \<and> (\<forall>key. ports t key \<noteq> Some p) \<and>
         ports t (rule_alias r) = None \<and> ports t' = (ports t)(rule_alias r \<mapsto> p)
       else ports t' = ports t))"
  using out_add_answer [OF _ assms(2)] out_reach_ok [OF assms(1)] by simp

text \<open>
  C9: a refused insertion leaves no trace: the rules, the reserved identifiers and the private
  ports are what they were. (An incoming rule that is refused keeps its identifier reserved.)
\<close>

theorem out_refused_add_clean:
  assumes "out_reach E (c, t)" "out_insert_rule E r (c, t) = (Inr (False, r1), (c', t'))"
  shows "out_abs c' = out_abs c \<and> c_mutex c' = c_mutex c \<and> ports t' = ports t \<and>
    is_id_used i (c_ids c') = is_id_used i (c_ids c)"
proof -
  have ok: "out_ok c" using out_reach_ok [OF assms(1)] by simp
  from out_insert_rule_spec [OF ok assms(2)] out_insert_rule_ports(3,4) [OF ok assms(2)] show ?thesis by auto
qed

text \<open>
  A \<open>Set\<close> that answers \<open>True\<close> has applied the parameters to the rule with the identifier,
  and to that rule only; besides, only its alias may be a new one.
\<close>

theorem out_set_refines:
  assumes "out_reach E (c, t)" "process_vrf_outgoing_svcs_rule_set E k ps (c, t) = (Inr True, (c', t'))"
  shows "c_mutex c' = c_mutex c \<and> (\<exists>q u ch ip port. out_abs c k = Some q \<and>
    out_check_and_set ps q [] = Inr (u, ch) \<and>
    out_abs c' = (out_abs c)(k \<mapsto> u\<lparr>private_ip := ip, private_port := port\<rparr>))"
proof -
  have ok: "out_ok c" using out_reach_ok [OF assms(1)] by simp
  have "out_update_rule E k ps (c, t) = (Inr True, (c', t'))"
    using assms(2) unfolding process_vrf_outgoing_svcs_rule_set_def by (auto elim: catch_run)
  from out_update_rule_spec [OF ok this] obtain q u ch u' where
    "c_mutex c' = c_mutex c" "out_abs c k = Some q" "out_check_and_set ps q [] = Inr (u, ch)"
    "alias_set u u'" "out_abs c' = (out_abs c)(k \<mapsto> u')" by auto
  then show ?thesis unfolding alias_set_def by metis
qed

text \<open>
  C10: a \<open>Del_by_id\<close> that answers \<open>True\<close> has removed the rule with the identifier and no other,
  the identifier is free again; so is the private port of the alias of a service rule, provided that its
  namespace is not the default one and the address of the namespace is known.
\<close>

theorem out_del_by_id_refines:
  assumes "out_reach E (c, t)" "process_vrf_outgoing_svcs_rule_del_by_id E k (c, t) = (Inr True, (c', t'))"
  shows "c_mutex c' = c_mutex c \<and> out_abs c' = (out_abs c)(k := None) \<and> \<not> is_id_used k (c_ids c') \<and>
    (\<exists>q. out_abs c k = Some q \<and>
      (rule_type q = RULE_TYPE_OUT_IP \<longrightarrow> vrf_name q \<noteq> ''default'' \<longrightarrow>
         get_veth_ip_subnet (vrf_name q) ''default'' t \<noteq> None \<longrightarrow> ports t' = (ports t)(rule_alias q := None)))"
proof -
  have ok: "out_ok c" using out_reach_ok [OF assms(1)] by simp
  from out_del_by_id_run [OF assms(2)] obtain d where
    d: "out_delete_by_id_obj E k (c, t) = (Inr (True, d), (c', t'))" by blast
  from out_delete_by_id_ports [OF ok d] obtain q tb f v i c1 where q: "out_abs c k = Some q"
    "out_finish_delete E tb f v q i (Some k) (c1, t) = (Inr True, (c', t'))" by blast
  note fp = out_finish_delete_ports [OF q(2)]
  show ?thesis using out_delete_by_id_spec [OF ok d] q(1) fp(3) fp(4) [OF refl] by auto
qed

text \<open>
  C11: an update of the destination address replaces the rule in place and leaves its alias under
  the old address. When the rule is then deleted, the private port of the old address stays
  allocated although the rule is gone.
\<close>

theorem moved_rule_leaks_port:
  assumes "out_reach E (c, t)" "out_abs c k = Some q" "dst_ip q \<noteq> Some b"
    and "process_vrf_outgoing_svcs_rule_set E k [PO_dst_ip b] (c, t) = (Inr True, (c1, t1))"
    and "process_vrf_outgoing_svcs_rule_del_by_id E k (c1, t1) = (Inr True, (c2, t2))"
  shows "out_abs c2 = (out_abs c)(k := None) \<and> ports t2 (rule_alias q) = ports t (rule_alias q)"
proof -
  have ok: "out_ok c" using out_reach_ok [OF assms(1)] by simp
  have up: "out_update_rule E k [PO_dst_ip b] (c, t) = (Inr True, (c1, t1))"
    using assms(4) unfolding process_vrf_outgoing_svcs_rule_set_def by (auto elim: catch_run)
  define u where "u = q\<lparr>dst_ip := Some b\<rparr>"
  have set: "out_check_and_set [PO_dst_ip b] q [] = Inr (u, [A_dst_ip])"
    using assms(3) by (cases "dst_ip q") (simp_all add: u_def out_vars_def common_vars_def opt_val_def)
  note us = out_update_rule_spec [OF ok up]
  have ok1: "out_ok c1" using us by (simp add: out_ends_def)
  from us assms(2) set obtain u' where u': "alias_set u u'" "out_abs c1 = (out_abs c)(k \<mapsto> u')" by auto
  have p1: "ports t1 = ports t"
    by (rule out_update_in_place_ports [OF ok assms(2) set _ up]) (simp add: out_repl_attrs_def)
  from out_del_by_id_run [OF assms(5)] obtain d where
    d: "out_delete_by_id_obj E k (c1, t1) = (Inr (True, d), (c2, t2))" by blast
  from out_delete_by_id_ports [OF ok1 d] obtain r tb f v i c3 where r: "out_abs c1 k = Some r"
    "out_finish_delete E tb f v r i (Some k) (c3, t1) = (Inr True, (c2, t2))" by blast
  have "rule_alias r = rule_alias u" using r(1) u' alias_set_frame [OF u'(1)] by simp
  then have "rule_alias r \<noteq> rule_alias q" using assms(3) by (auto simp: rule_alias_def u_def)
  with out_finish_delete_ports(1) [OF r(2)] p1 have "ports t2 (rule_alias q) = ports t (rule_alias q)" by auto
  moreover have "out_abs c2 = (out_abs c)(k := None)" using out_delete_by_id_spec [OF ok1 d] u'(2) by simp
  ultimately show ?thesis by simp
qed

text \<open>
  A \<open>Clear\<close> that answers \<open>True\<close> has removed every rule of the namespace, or every rule when
  none is given, and no other: a \<open>Get\<close> then reports exactly the rules of the other namespaces that
  match its parameters.
\<close>

theorem out_clear_and_get_exact:
  assumes "out_reach E (c, t)" "process_vrf_outgoing_svcs_clear_rules E vrf (c, t) = (Inr True, (c', t'))"
  shows "c_mutex c' = c_mutex c \<and>
    fst (process_vrf_outgoing_svcs_rule_get None rt flt params (c', t')) =
      Inr (Some (map out_to_cps_obj (out_get_all_rules rt flt params c'))) \<and>
    set (out_get_all_rules rt flt params c') =
      {q. (\<exists>k. out_abs c k = Some q) \<and> vrf \<noteq> None \<and> vrf \<noteq> Some (vrf_name q) \<and>
        (rt = None \<or> rt = Some (out_table_type (out_table_of q))) \<and>
        (flt = None \<or> flt = Some (vrf_name q)) \<and> out_match q params}"
proof -
  have ok: "out_ok c" using out_reach_ok [OF assms(1)] by simp
  note cs = out_clear_all_spec [OF ok out_clear_True [OF assms(2)]]
  have "set (out_get_all_rules rt flt params c') =
      {q. (\<exists>k. out_abs c k = Some q) \<and> vrf \<noteq> None \<and> vrf \<noteq> Some (vrf_name q) \<and>
        (rt = None \<or> rt = Some (out_table_type (out_table_of q))) \<and>
        (flt = None \<or> flt = Some (vrf_name q)) \<and> out_match q params}"
    using out_get_all_spec [of c' rt flt params] cs by (auto simp: drop_rules_Some)
  with cs show ?thesis by (simp add: process_vrf_outgoing_svcs_rule_get_def catch_def)
qed

section \<open>Examples\<close>

text \<open>The search for a free port, in a form that stops at the first one when it is evaluated.\<close>

function first_free :: "int list \<Rightarrow> int \<Rightarrow> int \<Rightarrow> int option" where
  "first_free used i n =
     (case n < i of True \<Rightarrow> None
      | False \<Rightarrow> (case i \<in> set used of True \<Rightarrow> first_free used (i + 1) n | False \<Rightarrow> Some i))"
  by auto
termination by (relation "measure (\<lambda>(used, i, n). nat (n + 1 - i))") auto

lemma first_free_find: "find (\<lambda>p. p \<notin> set used) [i..n] = first_free used i n"
proof (induction used i n rule: first_free.induct)
  case (1 used i n)
  show ?case by (subst upto.simps, subst first_free.simps) (use 1 in \<open>auto split: bool.splits\<close>)
qed

lemma free_private_port_code [code]:
  "free_private_port m = first_free (map snd m) 62000 64999"
  unfolding free_private_port_def private_port_range_def first_free_find [symmetric] by simp

text \<open>
  The namespace \<^verbatim>\<open>blue\<close> with a known address, and the cache after one rule is added: the service at
  10.1.2.3, TCP port 22.
\<close>

definition blue_svcs :: "string list list tool" where
  "blue_svcs = (tool_init [])\<lparr>vrf_name_to_id := [(''blue'', 1)],
     vrf_sub_net_map := [(pair_key ''blue'' ''default'', 100)]\<rparr>"

definition ssh_args :: out_args where
  "ssh_args = out_defaults\<lparr>o_dst_ip := Some [10, 1, 2, 3], o_protocol := Some 1, o_dst_port := Some 22\<rparr>"

definition ssh_rule :: out_rule where
  "ssh_rule = \<lparr>rule_type = RULE_TYPE_OUT_IP, vrf_name = ''blue'', af = AF_INET, src_ip = None,
     protocol = Some RULE_PROTO_TCP, dst_port = Some 22, dst_ip = Some [10, 1, 2, 3], dst_prefix_len = None,
     seq_num = 0, action = RULE_ACTION_DNAT, grp_priority = prio_of_bool False, packet_count = None,
     byte_count = None, rule_id = None, out_src_ip = None, private_ip = None, private_port = None\<rparr>"

lemma ssh_init:
  "VrfOutgoingSvcsRule_init (int_of_rule_type RULE_TYPE_OUT_IP) ''blue'' (int_of_action RULE_ACTION_DNAT) 2 ssh_args =
    Inr ssh_rule"
  by code_simp

definition ssh_state :: "string list list out_state" where
  "ssh_state = snd (process_vrf_outgoing_svcs_rule_add recorder (int_of_rule_type RULE_TYPE_OUT_IP) ''blue''
     (int_of_action RULE_ACTION_DNAT) 2 ssh_args (cache_init, blue_svcs))"

lemma out_reach_start: "out_reach E (cache_init, t)"
  unfolding out_reach_def by (rule reach_start) simp

lemma ssh_added:
  "process_vrf_outgoing_svcs_rule_add recorder (int_of_rule_type RULE_TYPE_OUT_IP) ''blue''
     (int_of_action RULE_ACTION_DNAT) 2 ssh_args (cache_init, blue_svcs) =
    (Inr (Some 1, Some [127, 100, 100, 1], Some 62000), (fst ssh_state, snd ssh_state))"
proof -
  have "fst (process_vrf_outgoing_svcs_rule_add recorder (int_of_rule_type RULE_TYPE_OUT_IP) ''blue''
     (int_of_action RULE_ACTION_DNAT) 2 ssh_args (cache_init, blue_svcs)) =
    Inr (Some 1, Some [127, 100, 100, 1], Some 62000)" by code_simp
  then show ?thesis by (simp add: ssh_state_def prod_eq_iff)
qed

lemma reach_ssh: "out_reach recorder (fst ssh_state, snd ssh_state)"
  by (rule out_reach_step [OF out_reach_start ostep_add [OF ssh_added]]) simp

theorem out_cache_reachable_witness:
  "\<forall>tb f v. map_option (rl_wf out_is_rule_equal) (get_list tb f v (fst ssh_state)) \<noteq> Some False"
proof -
  have "c_mutex (fst ssh_state) = 0" using out_add_answer [OF out_ok_init ssh_added] by (simp add: cache_init_def)
  with out_cache_reachable [OF out_reach_any [OF reach_ssh]] show ?thesis by auto
qed

theorem out_add_refines_witness:
  "ports (snd ssh_state) (rule_alias ssh_rule) = Some 62000 \<and>
   map_option private_port (out_abs (fst ssh_state) 1) = Some (Some 62000)"
proof -
  have "rule_type ssh_rule = RULE_TYPE_OUT_IP" by (simp add: ssh_rule_def)
  with out_add_refines [OF out_reach_start ssh_added, unfolded ssh_init] show ?thesis by auto
qed

lemma ssh_held: "\<exists>q. out_abs (fst ssh_state) 1 = Some q \<and> rule_alias q = rule_alias ssh_rule \<and> dst_ip q = Some [10, 1, 2, 3] \<and>
    rule_type q = RULE_TYPE_OUT_IP"
proof -
  have "(case out_find_rule_by_id 1 (fst ssh_state) of
      (Inr (Some (q, i)), c) \<Rightarrow> rule_alias q = rule_alias ssh_rule \<and> dst_ip q = Some [10, 1, 2, 3] \<and>
        rule_type q = RULE_TYPE_OUT_IP
    | _ \<Rightarrow> False)" by code_simp
  with out_find_rule_by_id_spec [of "fst ssh_state" 1] out_reach_ok [OF reach_ssh] show ?thesis
    by (cases "out_find_rule_by_id 1 (fst ssh_state)") (auto split: sum.splits option.splits)
qed

definition ssh_set :: "out_param \<Rightarrow> string list list out_state" where
  "ssh_set p = snd (process_vrf_outgoing_svcs_rule_set recorder 1 [p] ssh_state)"

lemma ssh_set_run:
  "fst (process_vrf_outgoing_svcs_rule_set recorder 1 [p] ssh_state) = Inr True \<Longrightarrow>
    process_vrf_outgoing_svcs_rule_set recorder 1 [p] (fst ssh_state, snd ssh_state) =
      (Inr True, (fst (ssh_set p), snd (ssh_set p)))"
  by (simp add: ssh_set_def prod_eq_iff)

theorem out_set_refines_witness:
  "c_mutex (fst (ssh_set (PO_seq_num 5))) = c_mutex (fst ssh_state) \<and>
   out_abs (fst (ssh_set (PO_seq_num 5))) 1 \<noteq> None"
proof -
  have "fst (process_vrf_outgoing_svcs_rule_set recorder 1 [PO_seq_num 5] ssh_state) = Inr True" by code_simp
  from out_set_refines [OF reach_ssh ssh_set_run [OF this]] show ?thesis by auto
qed

definition ssh_gone :: "string list list out_state \<Rightarrow> string list list out_state" where
  "ssh_gone s = snd (process_vrf_outgoing_svcs_rule_del_by_id recorder 1 s)"

lemma ssh_gone_run:
  "fst (process_vrf_outgoing_svcs_rule_del_by_id recorder 1 s) = Inr True \<Longrightarrow>
    process_vrf_outgoing_svcs_rule_del_by_id recorder 1 (fst s, snd s) =
      (Inr True, (fst (ssh_gone s), snd (ssh_gone s)))"
  by (simp add: ssh_gone_def prod_eq_iff)

theorem out_del_by_id_refines_witness:
  "out_abs (fst ssh_state) 1 \<noteq> None \<and> out_abs (fst (ssh_gone ssh_state)) 1 = None"
proof -
  have "fst (process_vrf_outgoing_svcs_rule_del_by_id recorder 1 ssh_state) = Inr True" by code_simp
  from out_del_by_id_refines [OF reach_ssh ssh_gone_run [OF this]] show ?thesis by auto
qed

theorem moved_rule_leaks_port_witness:
  "out_abs (fst (ssh_gone (ssh_set (PO_dst_ip [10, 9, 9, 9])))) 1 = None \<and>
   ports (snd (ssh_gone (ssh_set (PO_dst_ip [10, 9, 9, 9])))) (rule_alias ssh_rule) = Some 62000"
proof -
  have "fst (process_vrf_outgoing_svcs_rule_set recorder 1 [PO_dst_ip [10, 9, 9, 9]] ssh_state) = Inr True" by code_simp
  note set = ssh_set_run [OF this]
  have "fst (process_vrf_outgoing_svcs_rule_del_by_id recorder 1 (ssh_set (PO_dst_ip [10, 9, 9, 9]))) = Inr True" by code_simp
  note del = ssh_gone_run [OF this]
  obtain q where q: "out_abs (fst ssh_state) 1 = Some q" "rule_alias q = rule_alias ssh_rule" "dst_ip q \<noteq> Some [10, 9, 9, 9]"
    using ssh_held by auto
  have "ports (snd ssh_state) (rule_alias ssh_rule) = Some 62000" by code_simp
  with moved_rule_leaks_port [OF reach_ssh q(1,3) set del] q(2) show ?thesis by simp
qed

definition ssh_cleared :: "string list list out_state" where
  "ssh_cleared = snd (process_vrf_outgoing_svcs_clear_rules recorder (Some ''blue'') ssh_state)"

theorem out_clear_and_get_exact_witness:
  "set (out_get_all_rules None (Some ''blue'') [] (fst ssh_cleared)) = {}"
proof -
  have "fst (process_vrf_outgoing_svcs_clear_rules recorder (Some ''blue'') ssh_state) = Inr True" by code_simp
  then have "process_vrf_outgoing_svcs_clear_rules recorder (Some ''blue'') (fst ssh_state, snd ssh_state) =
      (Inr True, (fst ssh_cleared, snd ssh_cleared))" by (simp add: ssh_cleared_def prod_eq_iff)
  from out_clear_and_get_exact [OF reach_ssh this, of None "Some ''blue''" "[]"] show ?thesis by auto
qed

definition ssh_refused :: "(exn + bool \<times> out_rule) \<times> string list list out_state" where
  "ssh_refused = out_insert_rule failing_env ssh_rule (cache_init, blue_svcs)"

theorem out_refused_add_clean_witness:
  "\<not> is_id_used 1 (c_ids (fst (snd ssh_refused))) \<and> ports (snd (snd ssh_refused)) (rule_alias ssh_rule) = None"
proof -
  have "(case fst (out_insert_rule failing_env ssh_rule (cache_init, blue_svcs)) of
      Inr (b, r) \<Rightarrow> \<not> b | _ \<Rightarrow> False)" by code_simp
  then obtain r1 where "ssh_refused = (Inr (False, r1), (fst (snd ssh_refused), snd (snd ssh_refused)))"
    by (cases ssh_refused; cases "fst ssh_refused") (auto simp: ssh_refused_def split: sum.splits prod.splits)
  then have run: "out_insert_rule failing_env ssh_rule (cache_init, blue_svcs) =
      (Inr (False, r1), (fst (snd ssh_refused), snd (snd ssh_refused)))" unfolding ssh_refused_def .
  have "\<not> is_id_used 1 (c_ids (cache_init :: out_cache))" by (simp add: cache_init_def is_id_used_def IdGenerator_init_def)
  moreover have "ports blue_svcs (rule_alias ssh_rule) = None" by (simp add: blue_svcs_def tool_init_def)
  ultimately show ?thesis using out_refused_add_clean [OF out_reach_start run] by simp
qed

end
