(* ===== verification/McastBase.thy ===== *)
theory McastBase
  imports Inet PyRegex Complex_Main
begin

text \<open>
  What the multicast snooping scripts share (\<^verbatim>\<open>scripts/lib/python/dn_base_mcast_snoop_utils.py\<close>):
  the values of CPS attributes, the services they call, files and commands, and the objects kept
  for a multicast router port and a multicast group.

  Outside of the repository are the kernel's commands and files, the CPS library (\<open>cps_get_vlan\<close>
  answers the query of \<open>_get_vlan_info\<close>, \<open>event_send\<close> takes the module, the operation and the
  attributes of an event), \<open>cps_utils\<close> and
  \<open>bytearray_utils\<close>; they are the fields of \<open>mext\<close>.
\<close>

section \<open>Values and services\<close>

datatype cps_val =
    CInt int
  | CStr string
  | CBytes packed
  | CNames "string list"
  | CDict "(string \<times> cps_val) list"

text \<open>A VLAN as \<open>_get_vlan_info\<close> describes it; an attribute that is missing is \<open>None\<close>.\<close>

record vlan_obj =
  v_name :: string
  v_id :: "int option"
  v_tagged :: "string list option"
  v_untagged :: "string list option"

datatype vlan_query = AllVlans | ById cps_val | ByName string

text \<open>The name of an attribute of an event: a path that embeds it in another one, or a plain name.\<close>

datatype event_attr = PlainAttr string | EmbedAttr "string list"

record 'w mext =
  m_popen :: "string list \<Rightarrow> 'w \<Rightarrow> (int \<times> string list) \<times> 'w"
  m_write :: "string \<Rightarrow> string \<Rightarrow> 'w \<Rightarrow> bool \<times> 'w"
  m_read :: "string \<Rightarrow> 'w \<Rightarrow> string list option"
  cps_get_vlan :: "vlan_query \<Rightarrow> 'w \<Rightarrow> vlan_obj list"
  event_send :: "string \<Rightarrow> string \<Rightarrow> (event_attr \<times> cps_val) list \<Rightarrow> 'w \<Rightarrow> 'w"
  is_ipv4_addr :: "cps_val \<Rightarrow> exn + bool"
  is_ipv6_addr :: "cps_val \<Rightarrow> exn + bool"
  ba_to_ipv4str :: "cps_val \<Rightarrow> exn + string"
  ba_to_ipv6str :: "cps_val \<Rightarrow> exn + string"
  ipv4str_to_ba :: "string \<Rightarrow> packed"
  ipv6str_to_ba :: "string \<Rightarrow> packed"

text \<open>
  \<open>MCast_CpsEvents\<close> of \<^verbatim>\<open>dn_base_mcast_snoop_events.py\<close>. A key of the data is a path, of one name
  when it is no tuple.
\<close>

definition event_attr_of :: "string list \<Rightarrow> event_attr" where
  "event_attr_of key = (case key of [k] \<Rightarrow> PlainAttr k | _ \<Rightarrow> EmbedAttr key)"

definition publish_events :: "'w mext \<Rightarrow> string \<Rightarrow> (string list \<times> cps_val) list \<Rightarrow> string \<Rightarrow> 'w \<Rightarrow> 'w" where
  "publish_events M mod_name event_data op w =
     event_send M mod_name op (map (\<lambda>(key, v). (event_attr_of key, v)) event_data) w"

definition publish_igmp_events :: "'w mext \<Rightarrow> (string list \<times> cps_val) list \<Rightarrow> string \<Rightarrow> 'w \<Rightarrow> 'w" where
  "publish_igmp_events M event_data op w =
     publish_events M ''igmp-mld-snooping/rt/routing-state/control-plane-protocols/igmp-snooping/vlans/vlan''
       event_data op w"

definition publish_mld_events :: "'w mext \<Rightarrow> (string list \<times> cps_val) list \<Rightarrow> string \<Rightarrow> 'w \<Rightarrow> 'w" where
  "publish_mld_events M event_data op w =
     publish_events M ''igmp-mld-snooping/rt/routing-state/control-plane-protocols/mld-snooping/vlans/vlan''
       event_data op w"

text \<open>The choice between the two that all clients make.\<close>

definition cps_send :: "'w mext \<Rightarrow> bool \<Rightarrow> string \<Rightarrow> (string list \<times> cps_val) list \<Rightarrow> 'w \<Rightarrow> 'w" where
  "cps_send M igmp op event_data w =
     (if igmp then publish_igmp_events M event_data op w else publish_mld_events M event_data op w)"

text \<open>\<open>run_command\<close> of this module; the lines of the response are stripped on the right.\<close>

definition mrun :: "'w mext \<Rightarrow> string list \<Rightarrow> 'w \<Rightarrow> (int \<times> string list) \<times> 'w" where
  "mrun M cmd w = (case m_popen M cmd w of ((rc, out), w') \<Rightarrow> ((rc, map rstrip out), w'))"

definition mrun_ok :: "'w mext \<Rightarrow> string list \<Rightarrow> 'w \<Rightarrow> bool \<times> 'w" where
  "mrun_ok M cmd w = (case mrun M cmd w of ((rc, _), w') \<Rightarrow> (rc = 0, w'))"

text \<open>
  A loop over commands that goes on after a failure and answers whether all succeeded, as in
  \<open>_handle_mcast_querier_functionality\<close> and the loops over rules.
\<close>

fun mrun_each :: "'w mext \<Rightarrow> string list list \<Rightarrow> 'w \<Rightarrow> bool \<times> 'w" where
  "mrun_each M [] w = (True, w)"
| "mrun_each M (c # cs) w =
     (case mrun_ok M c w of (ok, w1) \<Rightarrow> (case mrun_each M cs w1 of (oks, w2) \<Rightarrow> (ok \<and> oks, w2)))"

definition update_file_system :: "'w mext \<Rightarrow> string \<Rightarrow> string \<Rightarrow> 'w \<Rightarrow> bool \<times> 'w" where
  "update_file_system M path val w = m_write M path val w"

text \<open>\<open>_read_file_system\<close>: the first word of the first line, \<open>None\<close> for its \<^verbatim>\<open>return False\<close>.\<close>

definition read_file_system :: "'w mext \<Rightarrow> string \<Rightarrow> 'w \<Rightarrow> string option" where
  "read_file_system M path w =
     (case m_read M path w of
        None \<Rightarrow> None
      | Some [] \<Rightarrow> None
      | Some (l # _) \<Rightarrow> (case split_ws l of [] \<Rightarrow> None | x # _ \<Rightarrow> Some x))"

definition mcast_path_prefix :: string where
  "mcast_path_prefix = ''/sys/devices/virtual/net/''"

definition get_path_per_vlan_configs :: "string \<Rightarrow> string \<Rightarrow> string" where
  "get_path_per_vlan_configs vlan file = mcast_path_prefix @ vlan @ ''/bridge/'' @ file"

definition brif_path :: "string \<Rightarrow> string \<Rightarrow> string" where
  "brif_path br ifn = mcast_path_prefix @ br @ ''/brif/'' @ ifn @ ''/multicast_router''"

section \<open>Decimal numbers\<close>

text \<open>
  \<open>float(s)\<close>: white space around it, a sign, digits with an optional point, an optional exponent.
  The value is the exact rational number; \<open>None\<close> stands for an infinity or a NaN, which
  \<open>int\<close> cannot convert.
\<close>

definition signed :: "string \<Rightarrow> bool \<times> string" where
  "signed s = (case s of [] \<Rightarrow> (False, s)
     | c # cs \<Rightarrow> if c = CHR ''-'' then (True, cs) else if c = CHR ''+'' then (False, cs) else (False, s))"

definition float_digits :: "string \<Rightarrow> (nat \<times> nat) option" where
  "float_digits s =
     (case split_on CHR ''.'' s of
        [a] \<Rightarrow> if a = '''' then None else map_option (\<lambda>n. (n, 0)) (num_val 10 digit_val 0 a)
      | [a, b] \<Rightarrow> if a = '''' \<and> b = '''' then None
                  else map_option (\<lambda>n. (n, length b)) (num_val 10 digit_val 0 (a @ b))
      | _ \<Rightarrow> None)"

definition py_float :: "string \<Rightarrow> exn + rat option" where
  "py_float s =
     (let (neg, u) = signed (lower (strip s))
      in if u \<in> {''inf'', ''infinity'', ''nan''} then Inr None
         else
           (let (m, e) = (case split_on CHR ''e'' u of [m] \<Rightarrow> (m, Some 0)
                          | [m, e] \<Rightarrow> (m, (case signed e of (eneg, ds) \<Rightarrow>
                               if ds = '''' then None
                               else map_option (\<lambda>n. if eneg then - int n else int n) (num_val 10 digit_val 0 ds)))
                          | _ \<Rightarrow> (u, None))
            in (case (float_digits m, e) of
                  (Some (n, k), Some x) \<Rightarrow>
                    (let v = of_nat n * (10 :: rat) powi (x - int k) in Inr (Some (if neg then - v else v)))
                | _ \<Rightarrow> Inl ValueError)))"

text \<open>\<open>int(x)\<close> of a float cuts off the fraction.\<close>

definition rat_trunc :: "rat \<Rightarrow> int" where
  "rat_trunc x = (if x < 0 then - \<lfloor>- x\<rfloor> else \<lfloor>x\<rfloor>)"

definition int_of_float :: "rat option \<Rightarrow> exn + int" where
  "int_of_float x = (case x of None \<Rightarrow> Inl ValueError | Some r \<Rightarrow> Inr (rat_trunc r))"

section \<open>Router ports and groups\<close>

text \<open>
  \<open>remove_ifname_tag\<close>: \<^verbatim>\<open>rfind('.')\<close> splits the name at its last dot; the rest is cut off when it
  consists of digits.
\<close>

definition remove_ifname_tag :: "string \<Rightarrow> string" where
  "remove_ifname_tag s =
     (let (tag, rest) = (takeWhile (\<lambda>c. c \<noteq> CHR ''.'') (rev s), dropWhile (\<lambda>c. c \<noteq> CHR ''.'') (rev s))
      in (case rest of
            [] \<Rightarrow> s
          | _ # name \<Rightarrow> if tag \<noteq> [] \<and> list_all is_digit tag then rev name else s))"

record mrouter =
  mr_br :: string
  mr_raw :: string
  mr_if :: string
  mr_expire :: "string option"

definition McastRouterInfo :: "string \<Rightarrow> string \<Rightarrow> string option \<Rightarrow> mrouter" where
  "McastRouterInfo br ifn ex =
     \<lparr>mr_br = br, mr_raw = ifn, mr_if = remove_ifname_tag ifn, mr_expire = ex\<rparr>"

record mgroup =
  mg_br :: string
  mg_ip_str :: string
  mg_ip :: packed
  mg_if :: string
  mg_igmp :: bool
  mg_expire :: "string option"

definition McastGroupInfo :: "'w mext \<Rightarrow> string \<Rightarrow> string \<Rightarrow> string \<Rightarrow> bool \<Rightarrow> string option \<Rightarrow> mgroup" where
  "McastGroupInfo M br ip ifn igmp ex =
     \<lparr>mg_br = br, mg_ip_str = ip, mg_ip = (if igmp then ipv4str_to_ba M ip else ipv6str_to_ba M ip),
      mg_if = remove_ifname_tag ifn, mg_igmp = igmp, mg_expire = ex\<rparr>"

text \<open>What \<open>__eq__\<close> of the two classes compares.\<close>

definition mr_key :: "mrouter \<Rightarrow> string \<times> string" where
  "mr_key m = (mr_br m, mr_if m)"

definition mg_key :: "mgroup \<Rightarrow> string \<times> packed \<times> string" where
  "mg_key g = (mg_br g, mg_ip g, mg_if g)"

section \<open>Sets of objects\<close>

text \<open>
  A Python set of objects whose equality compares a key: a list in the order in which the
  interpreter iterates over it, without two elements of the same key. An element that is already
  there is not replaced.
\<close>

definition set_add :: "('a \<Rightarrow> 'k) \<Rightarrow> 'a \<Rightarrow> 'a list \<Rightarrow> 'a list" where
  "set_add key x xs = (if key x \<in> key ` set xs then xs else xs @ [x])"

definition set_discard :: "('a \<Rightarrow> 'k) \<Rightarrow> 'k \<Rightarrow> 'a list \<Rightarrow> 'a list" where
  "set_discard key k xs = filter (\<lambda>y. key y \<noteq> k) xs"

definition set_diff :: "('a \<Rightarrow> 'k) \<Rightarrow> 'a list \<Rightarrow> 'a list \<Rightarrow> 'a list" where
  "set_diff key xs ys = filter (\<lambda>x. key x \<notin> key ` set ys) xs"

definition keyed :: "('a \<Rightarrow> 'k) \<Rightarrow> 'a list \<Rightarrow> bool" where
  "keyed key xs \<longleftrightarrow> distinct (map key xs)"

lemma keyed_Nil [simp]: "keyed key []"
  by (simp add: keyed_def)

lemma keyed_set_add [simp]: "keyed key xs \<Longrightarrow> keyed key (set_add key x xs)"
  by (auto simp: keyed_def set_add_def)

lemma keyed_filter [simp]: "keyed key xs \<Longrightarrow> keyed key (filter P xs)"
  by (simp add: keyed_def distinct_map_filter)

lemma keyed_set_discard [simp]: "keyed key xs \<Longrightarrow> keyed key (set_discard key k xs)"
  by (simp add: set_discard_def)

lemma keyed_set_diff [simp]: "keyed key xs \<Longrightarrow> keyed key (set_diff key xs ys)"
  by (simp add: set_diff_def)

lemma keys_set_add [simp]: "key ` set (set_add key x xs) = insert (key x) (key ` set xs)"
  by (auto simp: set_add_def)

lemma keys_set_discard [simp]: "key ` set (set_discard key k xs) = key ` set xs - {k}"
  by (auto simp: set_discard_def)

lemma keys_set_diff [simp]: "key ` set (set_diff key xs ys) = key ` set xs - key ` set ys"
  by (auto simp: set_diff_def)

lemma remove_ifname_tag_plain: "CHR ''.'' \<notin> set s \<Longrightarrow> remove_ifname_tag s = s"
proof -
  assume "CHR ''.'' \<notin> set s"
  then have none: "dropWhile (\<lambda>c. c \<noteq> CHR ''.'') (rev s) = []" by (simp add: dropWhile_eq_Nil_conv) metis
  show ?thesis unfolding remove_ifname_tag_def Let_def prod.case none list.case ..
qed

lemma remove_ifname_tag_tagged:
  assumes "tag \<noteq> []" "list_all is_digit tag"
  shows "remove_ifname_tag (s @ CHR ''.'' # tag) = s"
proof -
  have "\<not> is_digit CHR ''.''" by (simp add: is_digit_def)
  then have nd: "\<forall>c\<in>set (rev tag). c \<noteq> CHR ''.''" using assms(2) unfolding list_all_iff set_rev by metis
  have "takeWhile (\<lambda>c. c \<noteq> CHR ''.'') (rev tag @ CHR ''.'' # rev s) = rev tag"
    by (subst takeWhile_append2) (use nd in blast, simp)
  moreover have "dropWhile (\<lambda>c. c \<noteq> CHR ''.'') (rev tag @ CHR ''.'' # rev s) = CHR ''.'' # rev s"
    by (subst dropWhile_append2) (use nd in blast, simp)
  ultimately show ?thesis using assms by (simp add: remove_ifname_tag_def list_all_iff)
qed

end
