(* ===== verification/McastRoute.thy ===== *)
theory McastRoute
  imports McastBase
begin

text \<open>
  \<open>get_igmp_snooping_route\<close> of \<^verbatim>\<open>dn_base_mcast_snoop_utils.py\<close>: the parser of \<^verbatim>\<open>bridge mdb show\<close>.
  With \<open>cache_update\<close> it gives the router ports and the groups as the objects of the cache,
  otherwise the attributes of each bridge for a get request.
\<close>

datatype ip_type = TypeIPv4 | TypeIPv6 | AllTypes

section \<open>One line\<close>

definition mdb_entry_re :: re where
  "mdb_entry_re = seqs [lits ''dev'', Plus Space, Grp (Plus NonSpace), Plus Space, lits ''port'', Plus Space,
     Grp (Plus NonSpace), Plus Space, lits ''grp'', Plus Space, Grp (Plus NonSpace), Plus Space,
     Grp (Alt (lits ''permanent'') (lits ''temp'')), Grp (Star AnyChar)]"

definition mdb_tail_re :: re where
  "mdb_tail_re = seqs [Plus Space, Grp (Alt (lits ''offload'') Eps), Plus Space,
     Grp (Alt (seqs [lits ''vid'', Plus Space, Plus NonSpace, Plus Space]) Eps), Grp (Plus NonSpace)]"

definition mdb_router_re :: re where
  "mdb_router_re = seqs [lits ''router ports on '', Grp (Plus NonSpace), lits '':'', Grp (Star AnyChar)]"

text \<open>
  A line is skipped, or its format is unknown, or it is an entry (bridge, port, group, whether it
  is permanent, expiry time) or the router ports of a bridge (whether they are permanent).
\<close>

datatype mdb_line =
    LSkip
  | LBad
  | LEntry string string string bool "string option"
  | LRouter string "string list" bool "string option"

definition mdb_line_of :: "string \<Rightarrow> mdb_line" where
  "mdb_line_of line =
     (case split_ws line of
        w # _ # _ \<Rightarrow>
          if w = ''dev'' then
            (case re_search mdb_entry_re line of
               Some (_, [dev, ifn, grp, ty, tail]) \<Rightarrow>
                 LEntry dev ifn grp (ty = ''permanent'')
                   (if tail = '''' then None
                    else (case re_search mdb_tail_re tail of
                            Some (_, [_, _, e]) \<Rightarrow> Some e
                          | _ \<Rightarrow> None))
             | _ \<Rightarrow> LBad)
          else if w = ''router'' then
            (case re_search mdb_router_re line of
               Some (_, [dev, tail]) \<Rightarrow>
                 (case split_ws tail of
                    [i, e, ty] \<Rightarrow>
                      if (ty = ''temp'' \<or> ty = ''permanent'') \<and> (case py_float e of Inr _ \<Rightarrow> True | Inl _ \<Rightarrow> False)
                      then LRouter dev [i] (ty = ''permanent'') (Some e)
                      else LRouter dev [i, e, ty] True None
                  | ifs \<Rightarrow> LRouter dev ifs True None)
             | _ \<Rightarrow> LBad)
          else LBad
      | _ \<Rightarrow> LSkip)"

text \<open>
  Whether an address is of the type that was asked for, and whether it is one of IGMP; \<open>None\<close> for an
  entry that is passed over.
\<close>

definition is_addr :: "'w mext \<Rightarrow> bool \<Rightarrow> string \<Rightarrow> exn + bool" where
  "is_addr M v4 grp = (if v4 then is_ipv4_addr M (CStr grp) else is_ipv6_addr M (CStr grp))"

definition igmp_entry :: "'w mext \<Rightarrow> ip_type \<Rightarrow> string \<Rightarrow> exn + bool option" where
  "igmp_entry M ty grp =
     (case ty of
        TypeIPv4 \<Rightarrow> try_bind (is_addr M True grp) (\<lambda>b. Inr (if b then Some True else None))
      | TypeIPv6 \<Rightarrow> try_bind (is_addr M False grp) (\<lambda>b. Inr (if b then Some False else None))
      | AllTypes \<Rightarrow>
          try_bind (is_addr M True grp) (\<lambda>b4. if b4 then Inr (Some True)
            else try_bind (is_addr M False grp) (\<lambda>b6. Inr (if b6 then Some False else None))))"

section \<open>The objects of the cache\<close>

type_synonym mdb_objs = "mrouter list \<times> mgroup list"

definition add_routers :: "string \<Rightarrow> string list \<Rightarrow> string option \<Rightarrow> mrouter list \<Rightarrow> mrouter list" where
  "add_routers dev ifs ex ms = fold (\<lambda>i ms. set_add mr_key (McastRouterInfo dev i ex) ms) ifs ms"

text \<open>The loop over the lines with \<open>cache_update\<close>; \<open>Inr None\<close> is its \<^verbatim>\<open>return None\<close>.\<close>

fun mdb_objs_loop ::
  "'w mext \<Rightarrow> ip_type \<Rightarrow> string option \<Rightarrow> string list \<Rightarrow> mdb_objs \<Rightarrow> exn + mdb_objs option" where
  "mdb_objs_loop M ty br [] acc = Inr (Some acc)"
| "mdb_objs_loop M ty br (l # ls) (ms, gs) =
     (case mdb_line_of l of
        LSkip \<Rightarrow> mdb_objs_loop M ty br ls (ms, gs)
      | LBad \<Rightarrow> Inr None
      | LEntry dev ifn grp perm ex \<Rightarrow>
          if br \<noteq> None \<and> br \<noteq> Some dev then mdb_objs_loop M ty br ls (ms, gs)
          else
            try_bind (igmp_entry M ty grp) (\<lambda>r.
              mdb_objs_loop M ty br ls
                (ms, (case r of None \<Rightarrow> gs | Some igmp \<Rightarrow> set_add mg_key (McastGroupInfo M dev grp ifn igmp ex) gs)))
      | LRouter dev ifs perm ex \<Rightarrow>
          if br \<noteq> None \<and> br \<noteq> Some dev then mdb_objs_loop M ty br ls (ms, gs)
          else mdb_objs_loop M ty br ls (add_routers dev ifs ex ms, gs))"

definition bridge_cmd :: string where "bridge_cmd = ''/sbin/bridge''"

definition mdb_show_cmd :: "string list" where
  "mdb_show_cmd = [bridge_cmd, ''-s'', ''-d'', ''mdb'', ''show'']"

definition get_snooping_objs ::
  "'w mext \<Rightarrow> ip_type \<Rightarrow> string option \<Rightarrow> 'w \<Rightarrow> (mdb_objs option, 'w) outcome" where
  "get_snooping_objs M ty br w =
     (case mrun M mdb_show_cmd w of
        ((rc, out), w') \<Rightarrow> if rc \<noteq> 0 then (Inr None, w') else (mdb_objs_loop M ty br out ([], []), w'))"

section \<open>The attributes of a bridge\<close>

text \<open>
  A dictionary of groups is a list in the order of its indexes 0, 1, ..., each a dictionary of
  attributes.
\<close>

datatype route_val = Groups "(string \<times> cps_val) list list" | Names "string list"

type_synonym route_attrs = "(string \<times> route_val) list"

type_synonym route_map = "(string \<times> route_attrs) list"

definition add_route :: "string \<Rightarrow> route_val \<Rightarrow> route_attrs \<Rightarrow> route_attrs" where
  "add_route name v attrs =
     AList.update name
       (case (map_of attrs name, v) of
          (Some (Groups gs), Groups hs) \<Rightarrow> Groups (gs @ hs)
        | (Some (Names is), Names js) \<Rightarrow> Names (is @ js)
        | _ \<Rightarrow> v) attrs"

definition entry_attr :: "string \<Rightarrow> string \<Rightarrow> bool \<Rightarrow> string option \<Rightarrow> exn + string \<times> route_val" where
  "entry_attr ifn grp perm ex =
     (if perm then Inr (''static-l2-multicast-group'', Groups [[(''group'', CStr grp), (''interface'', CStr ifn)]])
      else
        try_bind (case ex of None \<Rightarrow> Inr (Some 0) | Some e \<Rightarrow> py_float e) (\<lambda>f.
        try_bind (int_of_float f) (\<lambda>n.
          Inr (''group'', Groups [[(''address'', CStr grp), (''interface'', CStr ifn), (''expire'', CInt n)]]))))"

fun route_loop :: "'w mext \<Rightarrow> ip_type \<Rightarrow> string option \<Rightarrow> string list \<Rightarrow> route_map \<Rightarrow> exn + route_map option" where
  "route_loop M ty br [] acc = Inr (Some acc)"
| "route_loop M ty br (l # ls) acc =
     (case mdb_line_of l of
        LSkip \<Rightarrow> route_loop M ty br ls acc
      | LBad \<Rightarrow> Inr None
      | LEntry dev ifn grp perm ex \<Rightarrow>
          if br \<noteq> None \<and> br \<noteq> Some dev then route_loop M ty br ls acc
          else
            (let attrs = (case map_of acc dev of None \<Rightarrow> [] | Some a \<Rightarrow> a) in
            try_bind (igmp_entry M ty grp) (\<lambda>r.
              if r = None then route_loop M ty br ls (AList.update dev attrs acc)
              else
                try_bind (entry_attr ifn grp perm ex) (\<lambda>(name, v).
                  route_loop M ty br ls (AList.update dev (add_route name v attrs) acc))))
      | LRouter dev ifs perm ex \<Rightarrow>
          if br \<noteq> None \<and> br \<noteq> Some dev then route_loop M ty br ls acc
          else
            (let attrs = (case map_of acc dev of None \<Rightarrow> [] | Some a \<Rightarrow> a);
                 name = (if perm then ''static-mrouter-interface'' else ''mrouter-interface'')
             in route_loop M ty br ls (AList.update dev (add_route name (Names ifs) attrs) acc)))"

definition get_igmp_snooping_route ::
  "'w mext \<Rightarrow> ip_type \<Rightarrow> string option \<Rightarrow> 'w \<Rightarrow> (route_map option, 'w) outcome" where
  "get_igmp_snooping_route M ty br w =
     (case mrun M mdb_show_cmd w of
        ((rc, out), w') \<Rightarrow> if rc \<noteq> 0 then (Inr None, w') else (route_loop M ty br out [], w'))"

section \<open>What the parser gives\<close>

lemma add_routers_keyed: "keyed mr_key ms \<Longrightarrow> keyed mr_key (add_routers dev ifs ex ms)"
  unfolding add_routers_def by (induction ifs arbitrary: ms) simp_all

lemma mdb_objs_loop_keyed:
  "mdb_objs_loop M ty br ls (ms, gs) = Inr (Some (ms', gs')) \<Longrightarrow> keyed mr_key ms \<Longrightarrow> keyed mg_key gs \<Longrightarrow>
     keyed mr_key ms' \<and> keyed mg_key gs'"
proof (induction ls arbitrary: ms gs)
  case (Cons l ls)
  show ?case
  proof (cases "mdb_line_of l")
    case (LEntry dev ifn grp perm ex)
    show ?thesis
    proof (cases "br \<noteq> None \<and> br \<noteq> Some dev")
      case True
      with Cons LEntry show ?thesis by simp
    next
      case False
      with Cons.prems(1) LEntry obtain r where "igmp_entry M ty grp = Inr r"
        "mdb_objs_loop M ty br ls
          (ms, (case r of None \<Rightarrow> gs | Some igmp \<Rightarrow> set_add mg_key (McastGroupInfo M dev grp ifn igmp ex) gs)) =
          Inr (Some (ms', gs'))"
        by (auto simp: try_bind_Inr)
      from Cons.IH [OF this(2)] Cons.prems(2,3) show ?thesis by (cases r) auto
    qed
  qed (use Cons add_routers_keyed in \<open>auto split: if_splits\<close>)
qed simp

lemma get_snooping_objs_keyed:
  "get_snooping_objs M ty br w = (Inr (Some (ms, gs)), w') \<Longrightarrow> keyed mr_key ms \<and> keyed mg_key gs"
  by (auto simp: get_snooping_objs_def split: prod.splits if_splits dest!: mdb_objs_loop_keyed)

end
