(* ===== verification/McastCache.thy ===== *)
theory McastCache
  imports McastRoute
begin

text \<open>
  \<open>McastSnoopCacheMgr\<close> of \<^verbatim>\<open>dn_base_mcast_snoop_utils.py\<close>: the thread that polls the kernel's multicast
  database, keeps the last one it has seen and publishes what changed; and the queue of
  \<^verbatim>\<open>hash_max\<close> settings that it retries.

  The lock is not reentrant and is a flag here: to acquire it twice is to wait for ever. The clock
  is an input of the loop.
\<close>

section \<open>State\<close>

record snoop_cache =
  mrouter_set :: "mrouter list"
  static_mrouter_set :: "mrouter list"
  br_mrouter_map :: "(string \<times> string list) list"
  group_set :: "mgroup list"
  br_group_map :: "(string \<times> mgroup list) list"
  vlan_map :: "(string \<times> int) list"
  hashmax_q :: "(string \<times> int \<times> nat) list"
  snoop_lock :: bool

type_synonym 'w snoop = "snoop_cache \<times> 'w"

definition snoop_init :: snoop_cache where
  "snoop_init = \<lparr>mrouter_set = [], static_mrouter_set = [], br_mrouter_map = [], group_set = [],
     br_group_map = [], vlan_map = [], hashmax_q = [], snoop_lock = False\<rparr>"

definition max_hashmax_cfg_try_count :: nat where "max_hashmax_cfg_try_count = 50"

definition with_lock :: "(snoop_cache \<Rightarrow> snoop_cache) \<Rightarrow> 'w snoop \<Rightarrow> (unit, 'w snoop) outcome" where
  "with_lock f s =
     (case s of (c, w) \<Rightarrow> if snoop_lock c then (Inl Blocked, s) else (Inr (), (f c, w)))"

section \<open>Static router ports\<close>

definition update_static_mrouter_cache :: "mrouter \<Rightarrow> 'w snoop \<Rightarrow> (unit, 'w snoop) outcome" where
  "update_static_mrouter_cache m =
     with_lock (\<lambda>c. c\<lparr>static_mrouter_set := set_add mr_key m (static_mrouter_set c)\<rparr>)"

definition clear_static_mrouter_cache :: "mrouter \<Rightarrow> 'w snoop \<Rightarrow> (unit, 'w snoop) outcome" where
  "clear_static_mrouter_cache m =
     with_lock (\<lambda>c. c\<lparr>static_mrouter_set := set_discard mr_key (mr_key m) (static_mrouter_set c)\<rparr>)"

text \<open>
  \<open>get_all_static_mrouter_cache\<close> prints every element and reads the two names back; a name
  with white space in it is cut there.
\<close>

definition get_all_static_mrouter_cache :: "snoop_cache \<Rightarrow> (string \<times> string) list" where
  "get_all_static_mrouter_cache c =
     List.map_filter (\<lambda>m.
       (case re_search (seqs [lits ''MRouter: bridge'', One Space, Grp (Plus NonSpace), One Space,
               lits ''interface'', One Space, Grp (Plus NonSpace)])
             (''MRouter: bridge '' @ mr_br m @ '' interface '' @ mr_raw m) of
          Some (_, [br, i]) \<Rightarrow> Some (br, i)
        | _ \<Rightarrow> None)) (static_mrouter_set c)"

definition apply_static_mrouter_configs :: "'w mext \<Rightarrow> 'w snoop \<Rightarrow> 'w snoop" where
  "apply_static_mrouter_configs M s =
     fold (\<lambda>(br, i) (c, w).
       (case update_file_system M (brif_path br i) ''2'' w of
          (ok, w1) \<Rightarrow>
            (if ok then c\<lparr>static_mrouter_set :=
                 set_discard mr_key (mr_key (McastRouterInfo br i None)) (static_mrouter_set c)\<rparr> else c, w1)))
       (get_all_static_mrouter_cache (fst s)) s"

section \<open>Flushing\<close>

definition flush_bridge :: "string \<Rightarrow> snoop_cache \<Rightarrow> snoop_cache" where
  "flush_bridge br c =
     (let c1 = (case map_of (br_mrouter_map c) br of
                  None \<Rightarrow> c
                | Some ifs \<Rightarrow>
                    c\<lparr>mrouter_set := fold (\<lambda>i ms. set_discard mr_key (mr_key (McastRouterInfo br i None)) ms) ifs (mrouter_set c),
                      br_mrouter_map := AList.delete br (br_mrouter_map c)\<rparr>)
      in (case map_of (br_group_map c1) br of
            None \<Rightarrow> c1
          | Some gs \<Rightarrow>
              c1\<lparr>group_set := fold (\<lambda>g xs. set_discard mg_key (mg_key g) xs) gs (group_set c1),
                 br_group_map := AList.delete br (br_group_map c1)\<rparr>))"

definition flush_cache :: "string option \<Rightarrow> 'w snoop \<Rightarrow> (unit, 'w snoop) outcome" where
  "flush_cache br =
     with_lock (\<lambda>c. case br of
        None \<Rightarrow> c\<lparr>mrouter_set := [], br_mrouter_map := [], group_set := [], br_group_map := []\<rparr>
      | Some b \<Rightarrow> flush_bridge b c)"

section \<open>Publishing\<close>

datatype pub_item = PubGroup mgroup | PubRouter mrouter

fun pub_br :: "pub_item \<Rightarrow> string" where
  "pub_br (PubGroup g) = mg_br g"
| "pub_br (PubRouter m) = mr_br m"

fun pub_igmp :: "pub_item \<Rightarrow> bool" where
  "pub_igmp (PubGroup g) = mg_igmp g"
| "pub_igmp (PubRouter m) = True"

fun pub_data :: "int \<Rightarrow> pub_item \<Rightarrow> (string list \<times> cps_val) list" where
  "pub_data vid (PubGroup g) =
     [([''vlan-id''], CInt vid), ([''group'', ''0'', ''interface''], CStr (mg_if g)),
      ([''group'', ''0'', ''address''], CStr (mg_ip_str g))]"
| "pub_data vid (PubRouter m) =
     [([''vlan-id''], CInt vid), ([''mrouter-interface''], CNames [mr_if m])]"

text \<open>\<open>get_vlan_id\<close>, which remembers the answer.\<close>

definition get_vlan_id :: "'w mext \<Rightarrow> string \<Rightarrow> 'w snoop \<Rightarrow> (int option, 'w snoop) outcome" where
  "get_vlan_id M br s =
     (case s of (c, w) \<Rightarrow>
        (case map_of (vlan_map c) br of
           Some vid \<Rightarrow> (Inr (Some vid), s)
         | None \<Rightarrow>
             (case cps_get_vlan M (ByName br) w of
                [] \<Rightarrow> (Inr None, s)
              | v # _ \<Rightarrow>
                  (case v_id v of
                     None \<Rightarrow> (Inl KeyError, s)
                   | Some vid \<Rightarrow> (Inr (Some vid), (c\<lparr>vlan_map := AList.update br vid (vlan_map c)\<rparr>, w))))))"

fun publish_event :: "'w mext \<Rightarrow> string \<Rightarrow> pub_item list \<Rightarrow> 'w snoop \<Rightarrow> (unit, 'w snoop) outcome" where
  "publish_event M op [] s = (Inr (), s)"
| "publish_event M op (x # xs) s =
     and_then (get_vlan_id M (pub_br x) s) (\<lambda>r (c, w).
       (case r of
          None \<Rightarrow> publish_event M op xs (c, w)
        | Some vid \<Rightarrow> publish_event M op xs (c, cps_send M (pub_igmp x) op (pub_data vid x) w)))"

section \<open>Polling\<close>

text \<open>The two halves of \<open>update_cache_set\<close>.\<close>

definition drop_groups :: "mgroup list \<Rightarrow> (string \<times> mgroup list) list \<Rightarrow> (string \<times> mgroup list) list" where
  "drop_groups gs m =
     fold (\<lambda>g m. case map_of m (mg_br g) of
        None \<Rightarrow> m
      | Some xs \<Rightarrow> AList.update (mg_br g) (set_discard mg_key (mg_key g) xs) m) gs m"

definition put_groups :: "mgroup list \<Rightarrow> (string \<times> mgroup list) list \<Rightarrow> (string \<times> mgroup list) list" where
  "put_groups gs m =
     fold (\<lambda>g m. AList.update (mg_br g)
        (set_add mg_key g (case map_of m (mg_br g) of None \<Rightarrow> [] | Some xs \<Rightarrow> xs)) m) gs m"

definition drop_routers :: "mrouter list \<Rightarrow> (string \<times> string list) list \<Rightarrow> (string \<times> string list) list" where
  "drop_routers ms m =
     fold (\<lambda>r m. case map_of m (mr_br r) of
        None \<Rightarrow> m
      | Some xs \<Rightarrow> AList.update (mr_br r) (set_discard id (mr_if r) xs) m) ms m"

definition put_routers :: "mrouter list \<Rightarrow> (string \<times> string list) list \<Rightarrow> (string \<times> string list) list" where
  "put_routers ms m =
     fold (\<lambda>r m. AList.update (mr_br r)
        (set_add id (mr_if r) (case map_of m (mr_br r) of None \<Rightarrow> [] | Some xs \<Rightarrow> xs)) m) ms m"

definition update_groups :: "'w mext \<Rightarrow> mgroup list \<Rightarrow> 'w snoop \<Rightarrow> (bool, 'w snoop) outcome" where
  "update_groups M new s =
     (let old = group_set (fst s); gone = set_diff mg_key old new; come = set_diff mg_key new old
      in and_then (publish_event M ''delete'' (map PubGroup gone) s) (\<lambda>_ (c1, w1).
         and_then (publish_event M ''create'' (map PubGroup come)
                     (c1\<lparr>br_group_map := drop_groups gone (br_group_map c1)\<rparr>, w1)) (\<lambda>_ (c2, w2).
           (Inr True, (c2\<lparr>br_group_map := put_groups come (br_group_map c2), group_set := new\<rparr>, w2)))))"

definition update_routers :: "'w mext \<Rightarrow> mrouter list \<Rightarrow> 'w snoop \<Rightarrow> (bool, 'w snoop) outcome" where
  "update_routers M new s =
     (let old = mrouter_set (fst s); gone = set_diff mr_key old new; come = set_diff mr_key new old
      in and_then (publish_event M ''delete'' (map PubRouter gone) s) (\<lambda>_ (c1, w1).
         and_then (publish_event M ''create'' (map PubRouter come)
                     (c1\<lparr>br_mrouter_map := drop_routers gone (br_mrouter_map c1)\<rparr>, w1)) (\<lambda>_ (c2, w2).
           (Inr True, (c2\<lparr>br_mrouter_map := put_routers come (br_mrouter_map c2), mrouter_set := new\<rparr>, w2)))))"

definition update_cache :: "'w mext \<Rightarrow> 'w snoop \<Rightarrow> (unit, 'w snoop) outcome" where
  "update_cache M s =
     (case s of (c, w) \<Rightarrow>
        (case get_snooping_objs M AllTypes None w of
           (Inl e, w1) \<Rightarrow> (Inl e, (c\<lparr>vlan_map := []\<rparr>, w1))
         | (Inr None, w1) \<Rightarrow> (Inr (), (c\<lparr>vlan_map := []\<rparr>, w1))
         | (Inr (Some (ms, gs)), w1) \<Rightarrow>
             and_then (update_routers M ms (c\<lparr>vlan_map := []\<rparr>, w1)) (\<lambda>ok s2.
               if \<not> ok then (Inr (), s2)
               else and_then (update_groups M gs s2) (\<lambda>_ s3. (Inr (), s3)))))"

section \<open>The thread\<close>

definition hashmax_cfg_to_queue :: "string \<Rightarrow> int \<Rightarrow> nat \<Rightarrow> snoop_cache \<Rightarrow> snoop_cache" where
  "hashmax_cfg_to_queue br n k c = c\<lparr>hashmax_q := hashmax_q c @ [(br, n, k)]\<rparr>"

text \<open>What the loop keeps: the time left until the next poll, and whether to poll now.\<close>

record poller =
  polling_timeout :: rat
  do_polling :: bool

definition mcast_snoop_polling_interval :: rat where "mcast_snoop_polling_interval = 5"

definition poller_init :: poller where
  "poller_init = \<lparr>polling_timeout = mcast_snoop_polling_interval, do_polling = True\<rparr>"

text \<open>
  The first part of an iteration. An exception leaves the lock behind, since nothing releases it.
\<close>

definition poll_part :: "'w mext \<Rightarrow> poller \<times> 'w snoop \<Rightarrow> (unit, poller \<times> 'w snoop) outcome" where
  "poll_part M ps =
     (case ps of (p, (c, w)) \<Rightarrow>
        if \<not> do_polling p then (Inr (), ps)
        else if snoop_lock c then (Inl Blocked, ps)
        else
          (case update_cache M (apply_static_mrouter_configs M (c\<lparr>snoop_lock := True\<rparr>, w)) of
             (Inl e, s1) \<Rightarrow> (Inl e, (p, s1))
           | (Inr _, (c1, w1)) \<Rightarrow> (Inr (), (p\<lparr>do_polling := False\<rparr>, (c1\<lparr>snoop_lock := False\<rparr>, w1)))))"

text \<open>
  The second part: wait for a setting, from \<open>start\<close> to \<open>stop\<close> on the clock, or time out when there is
  none; write the setting, and put it back when that fails.
\<close>

definition queue_part :: "'w mext \<Rightarrow> rat \<Rightarrow> rat \<Rightarrow> poller \<times> 'w snoop \<Rightarrow> poller \<times> 'w snoop" where
  "queue_part M start stop ps =
     (case ps of (p, (c, w)) \<Rightarrow>
        (case hashmax_q c of
           [] \<Rightarrow> (\<lparr>polling_timeout = mcast_snoop_polling_interval, do_polling = True\<rparr>, (c, w))
         | (br, n, k) # q \<Rightarrow>
             (let left = polling_timeout p - (stop - start);
                  p1 = (if stop < start \<or> left \<le> 0
                        then \<lparr>polling_timeout = mcast_snoop_polling_interval, do_polling = True\<rparr>
                        else p\<lparr>polling_timeout := left\<rparr>);
                  c1 = c\<lparr>hashmax_q := q\<rparr>
              in (case update_file_system M (get_path_per_vlan_configs br ''hash_max'') (dec n) w of
                    (ok, w1) \<Rightarrow>
                      (p1, (if ok \<or> max_hashmax_cfg_try_count \<le> k + 1 then c1
                            else hashmax_cfg_to_queue br n (k + 1) c1, w1))))))"

text \<open>\<^verbatim>\<open>Queue.get(True, timeout)\<close> raises \<^verbatim>\<open>ValueError\<close> when the time-out is negative.\<close>

definition run_iter :: "'w mext \<Rightarrow> rat \<times> rat \<Rightarrow> poller \<times> 'w snoop \<Rightarrow> (unit, poller \<times> 'w snoop) outcome" where
  "run_iter M clock ps =
     and_then (poll_part M ps) (\<lambda>_ ps1.
       if polling_timeout (fst ps1) < 0 then (Inl ValueError, ps1)
       else (Inr (), queue_part M (fst clock) (snd clock) ps1))"

text \<open>The loop for as many iterations as the clock gives readings; an exception ends the thread.\<close>

fun run_loop :: "'w mext \<Rightarrow> (rat \<times> rat) list \<Rightarrow> poller \<times> 'w snoop \<Rightarrow> (unit, poller \<times> 'w snoop) outcome" where
  "run_loop M [] ps = (Inr (), ps)"
| "run_loop M (t # ts) ps = and_then (run_iter M t ps) (\<lambda>_. run_loop M ts)"

end
