(* ===== verification/McastConfig.thy ===== *)
theory McastConfig
  imports McastCache
begin

text \<open>
  The configuration of multicast snooping: \<open>handle_configs_fs\<close>, which writes the files of the kernel,
  \<open>handle_configs\<close>, which starts \<^verbatim>\<open>ip link\<close>, and the \<^verbatim>\<open>ebtables\<close> rules
  (\<^verbatim>\<open>dn_base_mcast_snoop_utils.py\<close>).

  The attributes of a request are the fields of \<open>mdata\<close>, with the types of the YANG model; each exists
  for IGMP and for MLD, and an attribute that is not in the request is \<open>None\<close>. The order in which
  Python 2 goes through the dictionary \<open>_ip_link_cmd_params\<close> is the argument \<open>ks\<close>.
\<close>

section \<open>Requests\<close>

datatype protocol = Igmp | Mld

datatype link_param = McastSnooping | LastMemberInterval | QueryInterval | QueryResponseInterval

record sgroup =
  sg_group :: "cps_val option"
  sg_if :: "string option"
  sg_source :: "cps_val option"

record mdata =
  d_global :: "protocol \<Rightarrow> int option"
  d_vlan_id :: "protocol \<Rightarrow> int option"
  d_param :: "link_param \<Rightarrow> protocol \<Rightarrow> int option"
  d_groups :: "protocol \<Rightarrow> (string \<times> sgroup) list option"
  d_mrouters :: "protocol \<Rightarrow> string list option"
  d_querier :: "protocol \<Rightarrow> bool"

definition no_data :: mdata where
  "no_data = \<lparr>d_global = (\<lambda>_. None), d_vlan_id = (\<lambda>_. None), d_param = (\<lambda>_ _. None),
     d_groups = (\<lambda>_. None), d_mrouters = (\<lambda>_. None), d_querier = (\<lambda>_. False)\<rparr>"

fun param_name :: "link_param \<Rightarrow> string" where
  "param_name McastSnooping = ''mcast_snooping''"
| "param_name LastMemberInterval = ''mcast_last_member_interval''"
| "param_name QueryInterval = ''mcast_query_interval''"
| "param_name QueryResponseInterval = ''mcast_query_response_interval''"

fun param_file :: "link_param \<Rightarrow> string" where
  "param_file McastSnooping = ''multicast_snooping''"
| "param_file LastMemberInterval = ''multicast_last_member_interval''"
| "param_file QueryInterval = ''multicast_query_interval''"
| "param_file QueryResponseInterval = ''multicast_query_response_interval''"

text \<open>The paths of each parameter: IGMP first.\<close>

definition link_items :: "link_param list \<Rightarrow> (link_param \<times> protocol) list" where
  "link_items ks = concat (map (\<lambda>k. [(k, Igmp), (k, Mld)]) ks)"

definition param_val :: "link_param \<Rightarrow> int \<Rightarrow> string" where
  "param_val k n = (if k = LastMemberInterval \<or> k = QueryInterval then dec (n * 100) else dec n)"

text \<open>
  The VLAN identifier of an event; the handlers have checked that the request has one.
\<close>

definition event_vlan :: "mdata \<Rightarrow> int" where
  "event_vlan d = (case d_vlan_id d Igmp of Some i \<Rightarrow> i
     | None \<Rightarrow> (case d_vlan_id d Mld of Some i \<Rightarrow> i | None \<Rightarrow> 0))"

definition enable_event :: "mdata \<Rightarrow> int \<Rightarrow> (string list \<times> cps_val) list" where
  "enable_event d n = [([''vlan-id''], CStr (dec (event_vlan d))), ([''enable''], CStr (dec n))]"

definition on_world :: "('w \<Rightarrow> 'a \<times> 'w) \<Rightarrow> 'w snoop \<Rightarrow> 'a \<times> 'w snoop" where
  "on_world f s = (case s of (c, w) \<Rightarrow> (case f w of (x, w1) \<Rightarrow> (x, (c, w1))))"

section \<open>Ports\<close>

text \<open>
  \<open>_get_if_name\<close>; \<open>None\<close> is its \<^verbatim>\<open>False\<close>, which its callers do not tell from an empty name.
\<close>

definition lists_port :: "string list option \<Rightarrow> string \<Rightarrow> bool" where
  "lists_port ps ifn = (case ps of None \<Rightarrow> False | Some xs \<Rightarrow> ifn \<in> set xs)"

definition get_if_name :: "vlan_obj \<Rightarrow> string \<Rightarrow> int \<Rightarrow> string option" where
  "get_if_name v ifn vid =
     (if lists_port (v_untagged v) ifn then (if ifn = '''' then None else Some ifn)
      else if lists_port (v_tagged v) ifn then Some (ifn @ ''.'' @ dec vid)
      else None)"

definition is_intf_vlan_member :: "vlan_obj \<Rightarrow> string \<Rightarrow> bool" where
  "is_intf_vlan_member v ifn \<longleftrightarrow> lists_port (v_untagged v) ifn \<or> lists_port (v_tagged v) ifn"

section \<open>Static groups\<close>

text \<open>\<open>_is_ip_addr\<close> takes a \<^verbatim>\<open>TypeError\<close> for an answer; other exceptions pass.\<close>

definition is_ip_addr :: "'w mext \<Rightarrow> bool \<Rightarrow> cps_val \<Rightarrow> exn + bool" where
  "is_ip_addr M v4 a =
     (case (if v4 then is_ipv4_addr M a else is_ipv6_addr M a) of
        Inl e \<Rightarrow> if e = TypeError then Inr False else Inl e
      | Inr b \<Rightarrow> Inr b)"

text \<open>An address as text: as it is when it is text, otherwise converted.\<close>

definition addr_text :: "'w mext \<Rightarrow> bool \<Rightarrow> cps_val \<Rightarrow> exn + cps_val" where
  "addr_text M v4 a =
     try_bind (is_ip_addr M v4 a) (\<lambda>b.
       if b then Inr a
       else try_bind (if v4 then ba_to_ipv4str M a else ba_to_ipv6str M a) (\<lambda>s. Inr (CStr s)))"

text \<open>
  A command with an argument that is not text is not started, \<open>run_command\<close> answers \<^verbatim>\<open>-1\<close>.
\<close>

definition mdb_cmd :: "string \<Rightarrow> string \<Rightarrow> string \<Rightarrow> string \<Rightarrow> string list" where
  "mdb_cmd op br ifn grp =
     [''/sbin/bridge'', ''mdb'', op, ''dev'', br, ''port'', ifn, ''grp'', grp, ''permanent'']"

definition bridge_op :: "string \<Rightarrow> string option" where
  "bridge_op op = (if op = ''create'' then Some ''add'' else if op = ''delete'' then Some ''del'' else None)"

text \<open>
  The loop over the groups; \<open>vid\<close> is \<^verbatim>\<open>data[vlan_id_key]\<close>, which is looked up in every round.
\<close>

fun static_groups_loop ::
  "'w mext \<Rightarrow> string \<Rightarrow> vlan_obj \<Rightarrow> bool \<Rightarrow> int option \<Rightarrow> sgroup list \<Rightarrow> bool \<Rightarrow> 'w \<Rightarrow> (bool, 'w) outcome" where
  "static_groups_loop M op v v4 vid [] ret w = (Inr ret, w)"
| "static_groups_loop M op v v4 vid (g # gs) ret w =
     (case sg_group g of
        None \<Rightarrow> (Inl KeyError, w)
      | Some a \<Rightarrow>
          (case addr_text M v4 a of
             Inl e \<Rightarrow> (Inl e, w)
           | Inr grp \<Rightarrow>
               (case (sg_if g, vid) of
                  (Some ifn, Some n) \<Rightarrow>
                    (case get_if_name v ifn n of
                       None \<Rightarrow> (Inr False, w)
                     | Some port \<Rightarrow>
                         (case bridge_op op of
                            None \<Rightarrow> (Inl KeyError, w)
                          | Some bop \<Rightarrow>
                              (case (case grp of CStr t \<Rightarrow> mrun_ok M (mdb_cmd bop (v_name v) port t) w
                                     | _ \<Rightarrow> (False, w)) of
                                 (ok, w1) \<Rightarrow> static_groups_loop M op v v4 vid gs (ret \<and> ok) w1)))
                | _ \<Rightarrow> (Inl KeyError, w))))"

definition handle_static_groups ::
  "'w mext \<Rightarrow> string \<Rightarrow> vlan_obj \<Rightarrow> bool \<Rightarrow> int option \<Rightarrow> (string \<times> sgroup) list \<Rightarrow> 'w \<Rightarrow> (bool, 'w) outcome" where
  "handle_static_groups M op v v4 vid gs w =
     catch False (static_groups_loop M op v v4 vid (map snd gs) True w)"

section \<open>Rules of \<^verbatim>\<open>ebtables\<close>\<close>

text \<open>
  The loops that install or remove the rules that the listing \<open>res\<close> does not have, or has.
  \<open>run_command\<close> appends the output of each command to the same list \<open>res\<close>.
\<close>

fun ebt_loop :: "'w mext \<Rightarrow> bool \<Rightarrow> string \<Rightarrow> string list \<Rightarrow> string list \<Rightarrow> 'w \<Rightarrow> bool \<times> 'w" where
  "ebt_loop M add pre [] res w = (True, w)"
| "ebt_loop M add pre (r # rs) res w =
     (if (r \<in> set res) = add then ebt_loop M add pre rs res w
      else
        (case mrun M (split_ws (pre @ r)) w of
           ((rc, out), w1) \<Rightarrow>
             (case ebt_loop M add pre rs (res @ out) w1 of (ok, w2) \<Rightarrow> (rc = 0 \<and> ok, w2))))"

definition snoop_rules :: "string list" where
  "snoop_rules =
     [''-p IPv6 --ip6-proto ipv6-icmp --ip6-icmp-type 132/0:255 --mark 0x1 -j ACCEPT'',
      ''-p IPv6 --ip6-proto ipv6-icmp --ip6-icmp-type 131/0:255 --mark 0x1 -j ACCEPT'',
      ''-p IPv6 --ip6-proto ipv6-icmp --ip6-icmp-type 130/0:255 --mark 0x1 -j ACCEPT'',
      ''-p IPv4 --ip-proto igmp --mark 0x1 -j ACCEPT'']"

definition read_rules :: "'w mext \<Rightarrow> 'w \<Rightarrow> string list \<times> 'w" where
  "read_rules M w =
     (case mrun M [''ebtables'', ''-t'', ''nat'', ''-L'', ''POSTROUTING''] w of ((_, out), w1) \<Rightarrow> (out, w1))"

definition validate_and_insert :: "'w mext \<Rightarrow> 'w \<Rightarrow> bool \<times> 'w" where
  "validate_and_insert M w =
     (case read_rules M w of (res, w1) \<Rightarrow> ebt_loop M True ''ebtables -t nat -I POSTROUTING '' snoop_rules res w1)"

definition validate_and_delete :: "'w mext \<Rightarrow> 'w \<Rightarrow> bool \<times> 'w" where
  "validate_and_delete M w =
     (case read_rules M w of (res, w1) \<Rightarrow> ebt_loop M False ''ebtables -t nat -D POSTROUTING '' snoop_rules res w1)"

definition handle_rules :: "'w mext \<Rightarrow> mdata \<Rightarrow> 'w snoop \<Rightarrow> (bool, 'w snoop) outcome" where
  "handle_rules M d s =
     (case d_global d Igmp of
        None \<Rightarrow> (Inl KeyError, s)
      | Some n \<Rightarrow>
          if n = 1 then (case on_world (validate_and_insert M) s of (b, s1) \<Rightarrow> (Inr b, s1))
          else if n = 0 then (case on_world (validate_and_delete M) s of (b, s1) \<Rightarrow> (Inr b, s1))
          else (Inr False, s))"

section \<open>Configuration through files\<close>

definition fs_write :: "'w mext \<Rightarrow> string \<Rightarrow> string \<Rightarrow> bool \<Rightarrow> 'w snoop \<Rightarrow> bool \<times> 'w snoop" where
  "fs_write M path val ret s = (if ret then on_world (update_file_system M path val) s else (False, s))"

definition send :: "'w mext \<Rightarrow> bool \<Rightarrow> string \<Rightarrow> (string list \<times> cps_val) list \<Rightarrow> 'w snoop \<Rightarrow> 'w snoop" where
  "send M igmp op ev s = (case s of (c, w) \<Rightarrow> (c, cps_send M igmp op ev w))"

definition max_grps :: int where "max_grps = 16384"
definition def_mcast_hash_elasticity :: int where "def_mcast_hash_elasticity = 8"

text \<open>\<open>ret = ret and polling_thread.hashmax_cfg_to_queue(vlan_name, max_grps)\<close>; the queue is never full.\<close>

definition queue_max_grps :: "string \<Rightarrow> bool \<Rightarrow> 'w snoop \<Rightarrow> 'w snoop" where
  "queue_max_grps br ret s = (case s of (c, w) \<Rightarrow> (if ret then hashmax_cfg_to_queue br max_grps 0 c else c, w))"

text \<open>
  The membership interval of RFC 2236 and the querier interval, in hundredths of a second; \<open>/\<close> of
  integers in Python 2 rounds down.
\<close>

definition membership_interval :: "int \<Rightarrow> int \<Rightarrow> int" where
  "membership_interval n resp = (n * 2 + resp div 100) * 100"

definition querier_interval :: "int \<Rightarrow> int \<Rightarrow> int" where
  "querier_interval n resp = (n * 2 + (resp div 100) div 2) * 100"

text \<open>\<open>Inr None\<close> is the \<^verbatim>\<open>return False\<close> when the response interval cannot be read.\<close>

definition update_intervals :: "'w mext \<Rightarrow> string \<Rightarrow> int \<Rightarrow> bool \<Rightarrow> 'w snoop \<Rightarrow> (bool option, 'w snoop) outcome" where
  "update_intervals M br n ret s =
     (case read_file_system M (get_path_per_vlan_configs br ''multicast_query_response_interval'') (snd s) of
        None \<Rightarrow> (Inr None, s)
      | Some txt \<Rightarrow>
          (case py_int txt of
             Inl e \<Rightarrow> (Inl e, s)
           | Inr resp \<Rightarrow>
               (case fs_write M (get_path_per_vlan_configs br ''multicast_membership_interval'') (dec (membership_interval n resp)) ret s of
                  (ret1, s1) \<Rightarrow>
                    (case fs_write M (get_path_per_vlan_configs br ''multicast_querier_interval'') (dec (querier_interval n resp)) ret1 s1 of
                       (ret2, s2) \<Rightarrow> (Inr (Some ret2), s2)))))"

text \<open>One attribute of \<open>_handle_mcast_snoop_configs_fs\<close> with the value \<open>n\<close>.\<close>

definition snoop_config_fs ::
  "'w mext \<Rightarrow> mdata \<Rightarrow> string \<Rightarrow> string \<Rightarrow> link_param \<Rightarrow> int \<Rightarrow> bool \<Rightarrow> 'w snoop \<Rightarrow> (bool option, 'w snoop) outcome" where
  "snoop_config_fs M d br op k n ret s =
     and_then (if k = McastSnooping \<and> n = 0 then flush_cache (Some br) s else (Inr (), s)) (\<lambda>_ s1.
       (case fs_write M (get_path_per_vlan_configs br (param_file k)) (param_val k n) ret s1 of
          (ret2, s2) \<Rightarrow>
            (let s3 = (if ret2 \<and> k = McastSnooping
                       then send M False op (enable_event d n) (send M True op (enable_event d n) s2) else s2);
                 (ret4, s4) = (if k = McastSnooping \<and> n = 1
                       then fs_write M (get_path_per_vlan_configs br ''hash_elasticity'') (dec def_mcast_hash_elasticity)
                              ret2 (queue_max_grps br ret2 s3)
                       else (ret2, s3))
             in if k = QueryInterval then update_intervals M br n ret4 s4 else (Inr (Some ret4), s4))))"

fun snoop_configs_fs ::
  "'w mext \<Rightarrow> mdata \<Rightarrow> string \<Rightarrow> string \<Rightarrow> (link_param \<times> protocol) list \<Rightarrow> bool \<Rightarrow> 'w snoop \<Rightarrow> (bool, 'w snoop) outcome" where
  "snoop_configs_fs M d br op [] ret s = (Inr ret, s)"
| "snoop_configs_fs M d br op ((k, q) # xs) ret s =
     (case d_param d k q of
        None \<Rightarrow> snoop_configs_fs M d br op xs ret s
      | Some n \<Rightarrow>
          if op = ''delete'' then (Inr False, s)
          else and_then (snoop_config_fs M d br op k n ret s) (\<lambda>r s1.
            (case r of None \<Rightarrow> (Inr False, s1) | Some ret1 \<Rightarrow> snoop_configs_fs M d br op xs ret1 s1)))"

text \<open>\<open>create\<close> and \<open>set\<close> turn on, everything else turns off.\<close>

definition turns_on :: "string \<Rightarrow> bool" where
  "turns_on op \<longleftrightarrow> op = ''create'' \<or> op = ''set''"

definition querier_fs :: "'w mext \<Rightarrow> string \<Rightarrow> string \<Rightarrow> 'w snoop \<Rightarrow> bool \<times> 'w snoop" where
  "querier_fs M br op s =
     (let val = (if turns_on op then ''1'' else ''0'')
      in (case fs_write M (get_path_per_vlan_configs br ''multicast_querier'') val True s of
            (ret1, s1) \<Rightarrow> fs_write M (get_path_per_vlan_configs br ''multicast_query_use_ifaddr'') val ret1 s1))"

text \<open>
  The static router ports. The result is the one of the \<^verbatim>\<open>return\<close> in the loop, \<open>Inr None\<close> when the
  loop ends.
\<close>

fun mrouters_fs ::
  "'w mext \<Rightarrow> vlan_obj \<Rightarrow> int \<Rightarrow> string \<Rightarrow> string list \<Rightarrow> 'w snoop \<Rightarrow> (bool option, 'w snoop) outcome" where
  "mrouters_fs M v vid op [] s = (Inr None, s)"
| "mrouters_fs M v vid op (x # xs) s =
     (case get_if_name v x vid of
        None \<Rightarrow> (Inr (Some (op = ''delete'')), s)
      | Some ifn \<Rightarrow>
          (case on_world (update_file_system M (brif_path (v_name v) ifn) (if turns_on op then ''2'' else ''1'')) s of
             (ok, s1) \<Rightarrow>
               and_then (if \<not> ok \<and> turns_on op
                         then update_static_mrouter_cache (McastRouterInfo (v_name v) ifn None) s1 else (Inr (), s1)) (\<lambda>_ s2.
               and_then (if op = ''delete''
                         then clear_static_mrouter_cache (McastRouterInfo (v_name v) ifn None) s2 else (Inr (), s2)) (\<lambda>_ s3.
                 mrouters_fs M v vid op xs s3))))"

text \<open>\<open>ret = ret and _handle_static_groups(...)\<close>, of IGMP if the request has them, else of MLD.\<close>

definition groups_fs :: "'w mext \<Rightarrow> mdata \<Rightarrow> vlan_obj \<Rightarrow> string \<Rightarrow> bool \<Rightarrow> 'w snoop \<Rightarrow> (bool, 'w snoop) outcome" where
  "groups_fs M d v op ret s =
     (case (d_groups d Igmp, d_groups d Mld) of
        (Some gs, _) \<Rightarrow> if ret then on_world (handle_static_groups M op v True (d_vlan_id d Igmp) gs) s else (Inr False, s)
      | (None, Some gs) \<Rightarrow> if ret then on_world (handle_static_groups M op v False (d_vlan_id d Mld) gs) s else (Inr False, s)
      | _ \<Rightarrow> (Inr ret, s))"

definition either :: "(protocol \<Rightarrow> 'a option) \<Rightarrow> 'a option" where
  "either f = (case f Igmp of Some a \<Rightarrow> Some a | None \<Rightarrow> f Mld)"

definition configure_vlan_fs ::
  "'w mext \<Rightarrow> link_param list \<Rightarrow> mdata \<Rightarrow> string \<Rightarrow> int \<Rightarrow> vlan_obj \<Rightarrow> 'w snoop \<Rightarrow> (bool, 'w snoop) outcome" where
  "configure_vlan_fs M ks d op vid v s =
     (let (ret1, s1) = (if d_querier d Igmp \<or> d_querier d Mld then querier_fs M (v_name v) op s else (True, s))
      in and_then (if ret1 then snoop_configs_fs M d (v_name v) op (link_items ks) True s1 else (Inr False, s1)) (\<lambda>ret2 s2.
         and_then (groups_fs M d v op ret2 s2) (\<lambda>ret3 s3.
           (case either (d_mrouters d) of
              None \<Rightarrow> (Inr ret3, s3)
            | Some xs \<Rightarrow>
                and_then (mrouters_fs M v vid op xs s3) (\<lambda>r s4.
                  (Inr (case r of None \<Rightarrow> ret3 | Some b \<Rightarrow> b), s4))))))"

definition handle_configs_fs ::
  "'w mext \<Rightarrow> link_param list \<Rightarrow> mdata \<Rightarrow> string \<Rightarrow> 'w snoop \<Rightarrow> (bool, 'w snoop) outcome" where
  "handle_configs_fs M ks d op s =
     (if either (d_global d) \<noteq> None then handle_rules M d s
      else
        (case either (d_vlan_id d) of
           None \<Rightarrow> (Inr False, s)
         | Some vid \<Rightarrow>
             (case cps_get_vlan M (ById (CInt vid)) (snd s) of
                [] \<Rightarrow> (Inr False, s)
              | v # _ \<Rightarrow> configure_vlan_fs M ks d op vid v s)))"

section \<open>Configuration by \<^verbatim>\<open>ip link\<close>\<close>

text \<open>
  \<open>handle_configs\<close>, for kernels whose \<^verbatim>\<open>ip link\<close> has the attributes; no kernel does so far
  (\<open>_is_ip_link_snoop_cmd_supported\<close>). \<open>None\<close>: the request has none of the attributes, or deletes.
\<close>

fun snoop_configs ::
  "'w mext \<Rightarrow> mdata \<Rightarrow> string \<Rightarrow> bool \<Rightarrow> string \<Rightarrow> (link_param \<times> protocol) list \<Rightarrow> 'w \<Rightarrow> bool option \<times> 'w" where
  "snoop_configs M d br igmp op [] w = (None, w)"
| "snoop_configs M d br igmp op ((k, q) # xs) w =
     (case d_param d k q of
        None \<Rightarrow> snoop_configs M d br igmp op xs w
      | Some n \<Rightarrow>
          (case mrun_ok M [''/sbin/ip'', ''link'', ''set'', br, ''type'', ''bridge'', param_name k, param_val k n] w of
             (ok, w1) \<Rightarrow>
               (Some ok, if ok \<and> k = McastSnooping then cps_send M igmp op (enable_event d n) w1 else w1)))"

definition handle_mcast_snoop_configs ::
  "'w mext \<Rightarrow> link_param list \<Rightarrow> mdata \<Rightarrow> string \<Rightarrow> bool \<Rightarrow> string \<Rightarrow> 'w \<Rightarrow> bool option \<times> 'w" where
  "handle_mcast_snoop_configs M ks d br igmp op w =
     (if op = ''delete'' then (None, w) else snoop_configs M d br igmp op (link_items ks) w)"

definition handle_mcast_querier_functionality :: "'w mext \<Rightarrow> string \<Rightarrow> string \<Rightarrow> 'w \<Rightarrow> bool \<times> 'w" where
  "handle_mcast_querier_functionality M op br w =
     mrun_each M (map (\<lambda>path. [''/sbin/ip'', ''link'', ''set'', br, ''type'', ''bridge'', path,
         if turns_on op then ''1'' else ''0'']) [''mcast_querier'', ''mcast_query_use_ifaddr'']) w"

fun static_mrouter_loop ::
  "'w mext \<Rightarrow> string \<Rightarrow> vlan_obj \<Rightarrow> int option \<Rightarrow> string list \<Rightarrow> bool \<Rightarrow> 'w \<Rightarrow> (bool, 'w) outcome" where
  "static_mrouter_loop M op v vid [] ret w = (Inr ret, w)"
| "static_mrouter_loop M op v vid (x # xs) ret w =
     (case vid of
        None \<Rightarrow> (Inl KeyError, w)
      | Some n \<Rightarrow>
          (case get_if_name v x n of
             None \<Rightarrow> (Inr False, w)
           | Some ifn \<Rightarrow>
               (case mrun_ok M [''/sbin/ip'', ''link'', ''set'', ifn, ''type'', ''bridge_slave'', ''mcast_router'',
                   if turns_on op then ''2'' else ''1''] w of
                  (ok, w1) \<Rightarrow> static_mrouter_loop M op v vid xs (ret \<and> ok) w1)))"

definition handle_configs :: "'w mext \<Rightarrow> link_param list \<Rightarrow> mdata \<Rightarrow> string \<Rightarrow> 'w \<Rightarrow> (bool, 'w) outcome" where
  "handle_configs M ks d op w =
     (case either (d_vlan_id d) of
        None \<Rightarrow> (Inr False, w)
      | Some vid \<Rightarrow>
          (case cps_get_vlan M (ById (CInt vid)) w of
             [] \<Rightarrow> (Inr False, w)
           | v # _ \<Rightarrow>
               (case handle_mcast_snoop_configs M ks d (v_name v) (d_vlan_id d Igmp \<noteq> None) op w of
                  (Some ok, w1) \<Rightarrow> (Inr ok, w1)
                | (None, w1) \<Rightarrow>
                    (if d_querier d Igmp \<or> d_querier d Mld
                     then (case handle_mcast_querier_functionality M op (v_name v) w1 of (b, w2) \<Rightarrow> (Inr b, w2))
                     else
                       (case (d_groups d Igmp, d_groups d Mld) of
                          (Some gs, _) \<Rightarrow> handle_static_groups M op v True (d_vlan_id d Igmp) gs w1
                        | (None, Some gs) \<Rightarrow> handle_static_groups M op v False (d_vlan_id d Mld) gs w1
                        | _ \<Rightarrow>
                            (case (d_mrouters d Igmp, d_mrouters d Mld) of
                               (Some xs, _) \<Rightarrow> static_mrouter_loop M op v (d_vlan_id d Igmp) xs True w1
                             | (None, Some xs) \<Rightarrow> static_mrouter_loop M op v (d_vlan_id d Mld) xs True w1
                             | _ \<Rightarrow> (Inr True, w1)))))))"

end
