(* ===== verification/McastGet.thy ===== *)
theory McastGet
  imports McastRoute IpTool
begin

text \<open>
  The answers to get requests: \<open>get_igmp_snooping\<close> and what it reads
  (\<^verbatim>\<open>dn_base_mcast_snoop_utils.py\<close>). Beside the services of \<open>mext\<close> it uses \<open>get_if_details\<close> of
  \<open>IpTool\<close>, hence the second argument \<open>E\<close>.
\<close>

section \<open>Values\<close>

text \<open>\<open>get_vlan_mapping\<close>: the name of the interface of each VLAN.\<close>

fun vlan_mapping_loop :: "vlan_obj list \<Rightarrow> (int \<times> string) list \<Rightarrow> exn + (int \<times> string) list" where
  "vlan_mapping_loop [] m = Inr m"
| "vlan_mapping_loop (v # vs) m =
     (case v_id v of None \<Rightarrow> Inl KeyError | Some i \<Rightarrow> vlan_mapping_loop vs (AList.update i (v_name v) m))"

definition get_vlan_mapping :: "'w mext \<Rightarrow> int option \<Rightarrow> 'w \<Rightarrow> exn + (int \<times> string) list" where
  "get_vlan_mapping M vid w =
     vlan_mapping_loop (cps_get_vlan M (case vid of None \<Rightarrow> AllVlans | Some i \<Rightarrow> ById (CInt i)) w) []"

datatype ip_version = IPv4 | IPv6

text \<open>The type of a kernel attribute: a truth value, a time in ticks, or the querier.\<close>

datatype yang_type = YBoolean | YTick | YQuerier

definition get_yang_attr_value :: "string \<Rightarrow> yang_type \<Rightarrow> exn + cps_val" where
  "get_yang_attr_value v t =
     (case t of
        YBoolean \<Rightarrow> try_bind (py_int v) (\<lambda>n. Inr (CInt (if n \<noteq> 0 then 1 else 0)))
      | YTick \<Rightarrow> try_bind (py_float v) (\<lambda>f. try_bind (int_of_float (map_option (\<lambda>x. x / 100) f)) (\<lambda>n. Inr (CInt n)))
      | YQuerier \<Rightarrow> Inr (CStr v))"

text \<open>
  \<open>get_intf_ip_addr\<close>. The first argument of \<open>get_if_details\<close> is the name of a namespace.
\<close>

definition get_intf_ip_addr :: "'w ext \<Rightarrow> ip_version \<Rightarrow> string \<Rightarrow> 'w \<Rightarrow> (string option, 'w) outcome" where
  "get_intf_ip_addr E v ifn w =
     and_then (get_if_details E (Some ifn) None w) (\<lambda>is w1.
       (case is of
          [] \<Rightarrow> (Inr None, w1)
        | i # _ \<Rightarrow>
            (case find (\<lambda>(af, _, _). af = ''inet'' \<and> v = IPv4 \<or> af = ''inet6'' \<and> v = IPv6) (if_ip i) of
               Some (_, a, _) \<Rightarrow> (Inr (Some a), w1)
             | None \<Rightarrow> (Inr (Some ''''), w1))))"

section \<open>The state of a bridge\<close>

record kernel_attr =
  ka_key :: string
  ka_yang :: string
  ka_type :: yang_type
  ka_file :: string

definition kernel_to_yang_map :: "kernel_attr list" where
  "kernel_to_yang_map =
     [\<lparr>ka_key = ''mcast_snooping'', ka_yang = ''enable'', ka_type = YBoolean, ka_file = ''multicast_snooping''\<rparr>,
      \<lparr>ka_key = ''mcast_querier'', ka_yang = ''querier'', ka_type = YQuerier, ka_file = ''multicast_querier''\<rparr>,
      \<lparr>ka_key = ''mcast_last_member_interval'',
        ka_yang = ''last-member-query-interval/last-member-query-interval-basic/last-member-query-interval-basic'',
        ka_type = YTick, ka_file = ''multicast_last_member_interval''\<rparr>,
      \<lparr>ka_key = ''mcast_query_interval'', ka_yang = ''query-interval/query-interval-basic/query-interval-basic'',
        ka_type = YTick, ka_file = ''multicast_query_interval''\<rparr>,
      \<lparr>ka_key = ''mcast_query_response_interval'',
        ka_yang = ''query-max-response-time/query-max-response-time-basic/query-max-response-time-basic'',
        ka_type = YTick, ka_file = ''multicast_query_response_interval''\<rparr>,
      \<lparr>ka_key = ''mcast_querier_interval'', ka_yang = ''mrouter-aging-time'', ka_type = YTick,
        ka_file = ''multicast_querier_interval''\<rparr>]"

text \<open>The attributes of the line that starts with \<^verbatim>\<open>bridge\<close>: names and values by turns.\<close>

fun pairs_of :: "'a list \<Rightarrow> ('a \<times> 'a) list" where
  "pairs_of (x # y # zs) = (x, y) # pairs_of zs"
| "pairs_of _ = []"

definition iplink_attrs :: "string list \<Rightarrow> (string \<times> string) list option" where
  "iplink_attrs out =
     (case find (\<lambda>l. case split_ws l of w # _ # _ \<Rightarrow> w = ''bridge'' | _ \<Rightarrow> False) out of
        None \<Rightarrow> None
      | Some l \<Rightarrow> (let ts = tl (split_ws l) in if odd (length ts) then None else Some (pairs_of ts)))"

text \<open>The files of the kernel; an empty one is passed over, one that cannot be read ends the function.\<close>

fun file_attrs :: "'w mext \<Rightarrow> string \<Rightarrow> kernel_attr list \<Rightarrow> 'w \<Rightarrow> (string \<times> string) list option" where
  "file_attrs M br [] w = Some []"
| "file_attrs M br (k # ks) w =
     (case m_read M (get_path_per_vlan_configs br (ka_file k)) w of
        None \<Rightarrow> None
      | Some [] \<Rightarrow> file_attrs M br ks w
      | Some (l # _) \<Rightarrow> map_option (Cons (ka_key k, strip l)) (file_attrs M br ks w))"

text \<open>The loop over the attributes that were read.\<close>

fun state_loop ::
  "'w ext \<Rightarrow> ip_version \<Rightarrow> string \<Rightarrow> (string \<times> string) list \<Rightarrow> (string \<times> cps_val) list \<Rightarrow> 'w \<Rightarrow>
   ((string \<times> cps_val) list, 'w) outcome" where
  "state_loop E v br [] acc w = (Inr acc, w)"
| "state_loop E v br ((key, val) # xs) acc w =
     (case find (\<lambda>k. ka_key k = key) kernel_to_yang_map of
        None \<Rightarrow> state_loop E v br xs acc w
      | Some k \<Rightarrow>
          if ka_type k = YQuerier then
            (case py_int val of
               Inl e \<Rightarrow> (Inl e, w)
             | Inr n \<Rightarrow>
                 if n = 0 then state_loop E v br xs acc w
                 else and_then (get_intf_ip_addr E v br w) (\<lambda>r w1.
                   state_loop E v br xs (case r of None \<Rightarrow> acc | Some a \<Rightarrow> AList.update (ka_yang k) (CStr a) acc) w1))
          else
            (case get_yang_attr_value val (ka_type k) of
               Inl e \<Rightarrow> (Inl e, w)
             | Inr x \<Rightarrow> state_loop E v br xs (AList.update (ka_yang k) x acc) w))"

definition get_igmp_snooping_state ::
  "'w mext \<Rightarrow> 'w ext \<Rightarrow> ip_version \<Rightarrow> string \<Rightarrow> bool \<Rightarrow> 'w \<Rightarrow> ((string \<times> cps_val) list option, 'w) outcome" where
  "get_igmp_snooping_state M E v br use_iplink w =
     (case (if use_iplink
            then (case mrun M [''/sbin/ip'', ''-s'', ''-d'', ''link'', ''show'', br] w of
                    ((rc, out), w1) \<Rightarrow> (if rc \<noteq> 0 then None else iplink_attrs out, w1))
            else (file_attrs M br kernel_to_yang_map w, w)) of
        (None, w1) \<Rightarrow> (Inr None, w1)
      | (Some attrs, w1) \<Rightarrow> and_then (state_loop E v br attrs [] w1) (\<lambda>r w2. (Inr (Some r), w2)))"

section \<open>The answer\<close>

text \<open>
  An object of the answer: the VLAN and what is added to it, an attribute or a path of embedded
  attributes. A key with a \<^verbatim>\<open>/\<close> gets the root path of the object (\<open>rpath\<close>) before it.
\<close>

type_synonym get_elem = "int \<times> (string list \<times> cps_val) list"

definition state_elem :: "string \<Rightarrow> (string \<times> cps_val) list \<Rightarrow> (string list \<times> cps_val) list" where
  "state_elem rpath st = map (\<lambda>(k, x). ([if CHR ''/'' \<in> set k then rpath @ k else k], x)) st"

definition group_elems :: "string \<Rightarrow> (string \<times> cps_val) list list \<Rightarrow> (string list \<times> cps_val) list" where
  "group_elems key gs =
     concat (map (\<lambda>(i, g). map (\<lambda>(sub, x). ([key, dec (int i), sub], x)) g) (enumerate 0 gs))"

definition route_elems :: "route_attrs \<Rightarrow> (string list \<times> cps_val) list" where
  "route_elems attrs = concat (map (\<lambda>(key, v).
     (case v of Groups gs \<Rightarrow> group_elems key gs | Names ns \<Rightarrow> [([key], CNames ns)])) attrs)"

text \<open>The loop over the VLANs; \<open>resp\<close> is the list of the request, which keeps what was added to it.\<close>

fun snooping_elems ::
  "'w mext \<Rightarrow> 'w ext \<Rightarrow> string \<Rightarrow> ip_version \<Rightarrow> bool \<Rightarrow> route_map \<Rightarrow> (int \<times> string) list \<Rightarrow> get_elem list \<times> 'w \<Rightarrow>
   (bool, get_elem list \<times> 'w) outcome" where
  "snooping_elems M E rpath v use_iplink routes [] s = (Inr True, s)"
| "snooping_elems M E rpath v use_iplink routes ((vid, ifn) # xs) (resp, w) =
     (case get_igmp_snooping_state M E v ifn use_iplink w of
        (Inl e, w1) \<Rightarrow> (Inl e, (resp, w1))
      | (Inr None, w1) \<Rightarrow> (Inr False, (resp, w1))
      | (Inr (Some st), w1) \<Rightarrow>
          snooping_elems M E rpath v use_iplink routes xs
            (resp @ [(vid, state_elem rpath st @ (case map_of routes ifn of None \<Rightarrow> [] | Some a \<Rightarrow> route_elems a))], w1))"

fun route_type :: "ip_version \<Rightarrow> ip_type" where
  "route_type IPv4 = TypeIPv4"
| "route_type IPv6 = TypeIPv6"

definition get_igmp_snooping_int ::
  "'w mext \<Rightarrow> 'w ext \<Rightarrow> string \<Rightarrow> ip_version \<Rightarrow> bool \<Rightarrow> int option \<Rightarrow> get_elem list \<times> 'w \<Rightarrow>
   (bool, get_elem list \<times> 'w) outcome" where
  "get_igmp_snooping_int M E rpath v use_iplink vid s =
     (case s of (resp, w) \<Rightarrow>
        (case get_vlan_mapping M vid w of
           Inl e \<Rightarrow> (Inl e, s)
         | Inr m \<Rightarrow>
             (if (case vid of None \<Rightarrow> False | Some i \<Rightarrow> map_of m i = None) then (Inr False, s)
              else
                (case get_igmp_snooping_route M (route_type v) (case vid of None \<Rightarrow> None | Some i \<Rightarrow> map_of m i) w of
                   (Inl e, w1) \<Rightarrow> (Inl e, (resp, w1))
                 | (Inr None, w1) \<Rightarrow> (Inr False, (resp, w1))
                 | (Inr (Some routes), w1) \<Rightarrow> snooping_elems M E rpath v use_iplink routes m (resp, w1)))))"

definition get_igmp_snooping ::
  "'w mext \<Rightarrow> 'w ext \<Rightarrow> string \<Rightarrow> ip_version \<Rightarrow> bool \<Rightarrow> int option \<Rightarrow> get_elem list \<times> 'w \<Rightarrow>
   (bool, get_elem list \<times> 'w) outcome" where
  "get_igmp_snooping M E rpath v use_iplink vid s = catch False (get_igmp_snooping_int M E rpath v use_iplink vid s)"

end
