(* ===== verification/Snoop.thy ===== *)
theory Snoop
  imports McastConfig McastGet
begin

text \<open>
  \<^verbatim>\<open>scripts/lib/python/dn_base_mcast_snoop.py\<close>, which serves a snooping application when the kernel
  does not snoop: it publishes what is configured and keeps the rules of \<^verbatim>\<open>ebtables\<close> and \<^verbatim>\<open>iptables\<close>;
  and the callbacks of \<^verbatim>\<open>scripts/bin/base_mcast_snoop.py\<close>.
\<close>

section \<open>Rules of \<^verbatim>\<open>ebtables\<close>\<close>

definition read_ebtable_rules :: "'w mext \<Rightarrow> string \<Rightarrow> string \<Rightarrow> 'w \<Rightarrow> string list \<times> 'w" where
  "read_ebtable_rules M table chain w =
     (case mrun M (split_ws (''ebtables -t '' @ table @ '' -L '' @ chain)) w of ((_, out), w1) \<Rightarrow> (out, w1))"

definition add_ebtable_rules :: "'w mext \<Rightarrow> string \<Rightarrow> string \<Rightarrow> string list \<Rightarrow> 'w \<Rightarrow> bool \<times> 'w" where
  "add_ebtable_rules M table chain rs w =
     (case read_ebtable_rules M table chain w of
        (res, w1) \<Rightarrow> ebt_loop M True (''ebtables -t '' @ table @ '' -I '' @ chain) rs res w1)"

definition remove_ebtables_rules :: "'w mext \<Rightarrow> string \<Rightarrow> string \<Rightarrow> string list \<Rightarrow> 'w \<Rightarrow> bool \<times> 'w" where
  "remove_ebtables_rules M table chain rs w =
     (case read_ebtable_rules M table chain w of
        (res, w1) \<Rightarrow> ebt_loop M False (''ebtables -t '' @ table @ '' -D '' @ chain) rs res w1)"

definition vlan_rule :: "bool \<Rightarrow> string \<Rightarrow> string" where
  "vlan_rule igmp br =
     ''-p '' @ (if igmp then ''IPv4'' else ''IPv6'') @ '' --logical-in '' @ br @
     (if igmp then '' --ip-proto igmp'' else '' --ip6-proto ipv6-icmp'') @
     '' -j mark --mark-set 0x64 --mark-target ACCEPT''"

definition snoop_add_vlan_rules :: "'w mext \<Rightarrow> bool \<Rightarrow> string \<Rightarrow> 'w \<Rightarrow> bool \<times> 'w" where
  "snoop_add_vlan_rules M igmp br w = add_ebtable_rules M '' broute '' '' BROUTING '' [vlan_rule igmp br] w"

definition snoop_remove_vlan_rules :: "'w mext \<Rightarrow> bool \<Rightarrow> string \<Rightarrow> 'w \<Rightarrow> bool \<times> 'w" where
  "snoop_remove_vlan_rules M igmp br w = remove_ebtables_rules M '' broute '' '' BROUTING '' [vlan_rule igmp br] w"

definition snoop_update_vlan_rules :: "'w mext \<Rightarrow> bool \<Rightarrow> string \<Rightarrow> int \<Rightarrow> 'w \<Rightarrow> bool \<times> 'w" where
  "snoop_update_vlan_rules M igmp br n w =
     (if n = 1 then snoop_add_vlan_rules M igmp br w
      else if n = 0 then snoop_remove_vlan_rules M igmp br w
      else (False, w))"

section \<open>Chains of \<^verbatim>\<open>iptables\<close>\<close>

definition igmp_chain :: string where "igmp_chain = ''IGMPSNOOP ''"
definition mld_chain :: string where "mld_chain = '' MLDSNOOP ''"

definition igmp_add_rules :: "string list" where
  "igmp_add_rules = map (\<lambda>r. igmp_chain @ r)
     [''-p igmp -m u32 --u32 0>>22&0x3C@0>>16&0xFF00=0x1200 -j ACCEPT'',
      ''-p igmp -m u32 --u32 0>>22&0x3C@0>>16&0xFF00=0x1600 -j ACCEPT'',
      ''-p igmp -m u32 --u32 0>>22&0x3C@0>>16&0xFF00=0x1700 -j ACCEPT'',
      ''-p igmp -m u32 --u32 0>>22&0x3C@0>>16&0xFF00=0x2200 -j ACCEPT'',
      ''-p igmp -m u32 --u32 0>>22&0x3C@0>>16&0xFF00=0x1100 ! -d 224.0.0.1 -j ACCEPT'',
      ''-j MARK --set-mark 0'']"

definition mld_add_rules :: "string list" where
  "mld_add_rules = map (\<lambda>r. mld_chain @ r)
     [''-p icmpv6 -m icmp6 --icmpv6-type 131 -j ACCEPT'',
      ''-p icmpv6 -m icmp6 --icmpv6-type 132 -j ACCEPT'',
      ''-p icmpv6 -m icmp6 --icmpv6-type 143 -j ACCEPT'',
      ''-p icmpv6 -m icmp6 --icmpv6-type 130 ! -d ff02::01 -j ACCEPT'',
      ''-p icmpv6 -j MARK --set-mark 0'']"

definition preroute_rule :: "bool \<Rightarrow> string" where
  "preroute_rule igmp = '' PREROUTING -m mark --mark 0x64 -j '' @ (if igmp then igmp_chain else mld_chain)"

definition global_ebtable_rule :: "bool \<Rightarrow> string list" where
  "global_ebtable_rule igmp =
     (if igmp then [''-p IPv4 --ip-proto igmp --mark 0x1 -j ACCEPT'']
      else [''-p IPv6 --ip6-proto ipv6-icmp --ip6-icmp-type 132/0:255 --mark 0x1 -j ACCEPT'',
            ''-p IPv6 --ip6-proto ipv6-icmp --ip6-icmp-type 131/0:255 --mark 0x1 -j ACCEPT'',
            ''-p IPv6 --ip6-proto ipv6-icmp --ip6-icmp-type 130/0:255 --mark 0x1 -j ACCEPT'',
            ''-p IPv6 --ip6-proto ipv6-icmp --ip6-icmp-type 143/0:255 --mark 0x1 -j ACCEPT''])"

definition ipt_cmd :: "bool \<Rightarrow> string" where
  "ipt_cmd igmp = (if igmp then ''iptables -t '' else ''ip6tables -t '')"

definition chain_name :: "bool \<Rightarrow> string" where
  "chain_name igmp = (if igmp then igmp_chain else mld_chain)"

text \<open>A rule is appended when the check \<^verbatim>\<open>-C\<close> does not find it.\<close>

definition ensure_rule :: "'w mext \<Rightarrow> string \<Rightarrow> string \<Rightarrow> 'w \<Rightarrow> bool \<times> 'w" where
  "ensure_rule M pre r w =
     (case mrun_ok M (split_ws (pre @ '' -C '' @ r)) w of
        (found, w1) \<Rightarrow> if found then (True, w1) else mrun_ok M (split_ws (pre @ '' -A '' @ r)) w1)"

fun ensure_rules :: "'w mext \<Rightarrow> string \<Rightarrow> string list \<Rightarrow> 'w \<Rightarrow> bool \<times> 'w" where
  "ensure_rules M pre [] w = (True, w)"
| "ensure_rules M pre (r # rs) w =
     (case ensure_rule M pre r w of (ok, w1) \<Rightarrow> (case ensure_rules M pre rs w1 of (oks, w2) \<Rightarrow> (ok \<and> oks, w2)))"

definition snoop_create_iptables_chain :: "'w mext \<Rightarrow> bool \<Rightarrow> string \<Rightarrow> string \<Rightarrow> 'w \<Rightarrow> bool \<times> 'w" where
  "snoop_create_iptables_chain M igmp table chain w =
     (case mrun_ok M (split_ws (ipt_cmd igmp @ table @ '' -N '' @ chain)) w of
        (_, w1) \<Rightarrow> ensure_rules M (ipt_cmd igmp @ table) (if igmp then igmp_add_rules else mld_add_rules) w1)"

definition snoop_delete_iptables_chain :: "'w mext \<Rightarrow> bool \<Rightarrow> string \<Rightarrow> string \<Rightarrow> 'w \<Rightarrow> bool \<times> 'w" where
  "snoop_delete_iptables_chain M igmp table chain w =
     mrun_each M [split_ws (ipt_cmd igmp @ table @ '' -F '' @ chain), split_ws (ipt_cmd igmp @ table @ '' -X '' @ chain)] w"

definition snoop_bridge_nf :: "'w mext \<Rightarrow> bool \<Rightarrow> bool \<Rightarrow> 'w \<Rightarrow> bool \<times> 'w" where
  "snoop_bridge_nf M igmp on w =
     update_file_system M
       (if igmp then ''/proc/sys/net/bridge/bridge-nf-call-iptables'' else ''/proc/sys/net/bridge/bridge-nf-call-ip6tables'')
       (if on then ''1'' else ''0'') w"

definition snoop_add_rule_chain :: "'w mext \<Rightarrow> bool \<Rightarrow> 'w \<Rightarrow> bool \<times> 'w" where
  "snoop_add_rule_chain M igmp w =
     (case snoop_create_iptables_chain M igmp ''raw'' (chain_name igmp) w of
        (ok1, w1) \<Rightarrow> if \<not> ok1 then (False, w1) else
     (case ensure_rule M (ipt_cmd igmp @ ''raw '') (preroute_rule igmp) w1 of
        (ok2, w2) \<Rightarrow> if \<not> ok2 then (False, w2) else
     (case add_ebtable_rules M '' nat '' '' POSTROUTING '' (global_ebtable_rule igmp) w2 of
        (ok3, w3) \<Rightarrow> if \<not> ok3 then (False, w3) else snoop_bridge_nf M igmp True w3)))"

definition snoop_remove_rule_chain :: "'w mext \<Rightarrow> bool \<Rightarrow> 'w \<Rightarrow> bool \<times> 'w" where
  "snoop_remove_rule_chain M igmp w =
     (case mrun_ok M (split_ws (ipt_cmd igmp @ ''raw '' @ '' -C '' @ preroute_rule igmp)) w of
        (found, w1) \<Rightarrow>
     (case (if found then mrun_ok M (split_ws (ipt_cmd igmp @ ''raw '' @ '' -D '' @ preroute_rule igmp)) w1 else (True, w1)) of
        (ok1, w2) \<Rightarrow>
     (case (if ok1 then snoop_delete_iptables_chain M igmp ''raw'' (chain_name igmp) w2 else (False, w2)) of
        (_, w3) \<Rightarrow>
     (case remove_ebtables_rules M '' nat '' '' POSTROUTING '' (global_ebtable_rule igmp) w3 of
        (ok3, w4) \<Rightarrow> if \<not> ok3 then (False, w4) else snoop_bridge_nf M igmp False w4))))"

definition snoop_update_global_rules :: "'w mext \<Rightarrow> bool \<Rightarrow> int \<Rightarrow> 'w \<Rightarrow> bool \<times> 'w" where
  "snoop_update_global_rules M igmp n w =
     (if n = 1 then snoop_add_rule_chain M igmp w
      else if n = 0 then snoop_remove_rule_chain M igmp w
      else (False, w))"

section \<open>VLAN events\<close>

text \<open>
  The body of \<open>monitor_VLAN_interface_event\<close> for an event of one of the two keys: the name and the
  operation, when they are in the event.
\<close>

definition vlan_event :: "'w mext \<Rightarrow> string option \<Rightarrow> string option \<Rightarrow> 'w \<Rightarrow> 'w" where
  "vlan_event M name op w =
     (case (name, op) of
        (Some br, Some t) \<Rightarrow>
          if t = ''create'' then snd (update_file_system M (get_path_per_vlan_configs br ''multicast_snooping'') ''0'' w)
          else if t = ''delete'' then snd (snoop_remove_vlan_rules M False br (snd (snoop_remove_vlan_rules M True br w)))
          else w
      | _ \<Rightarrow> w)"

section \<open>Updates to publish\<close>

type_synonym pub_data = "(string list \<times> cps_val) list"

text \<open>
  \<open>_parse_snoop_routes\<close>; \<open>oif\<close> is \<open>oif_present\<close>. \<open>Inr None\<close> is its \<^verbatim>\<open>return False\<close>.
\<close>

fun parse_snoop_routes ::
  "'w mext \<Rightarrow> vlan_obj \<Rightarrow> int \<Rightarrow> string \<Rightarrow> bool \<Rightarrow> (string \<times> sgroup) list \<Rightarrow> bool \<Rightarrow> pub_data \<Rightarrow> exn + pub_data option" where
  "parse_snoop_routes M v vid op igmp [] oif pub = Inr (Some pub)"
| "parse_snoop_routes M v vid op igmp ((key, g) # gs) oif pub =
     (case sg_group g of
        None \<Rightarrow> parse_snoop_routes M v vid op igmp gs oif pub
      | Some a \<Rightarrow>
          (let oif1 = (oif \<and> sg_if g \<noteq> None);
               stray = (case sg_if g of None \<Rightarrow> False | Some i \<Rightarrow> oif1 \<and> \<not> is_intf_vlan_member v i)
           in if stray then
                (if op \<noteq> ''delete'' then Inr None else parse_snoop_routes M v vid op igmp gs oif1 pub)
              else
                try_bind (addr_text M igmp a) (\<lambda>grp.
                  (let pub1 = (case sg_if g of
                         Some i \<Rightarrow> if oif1 then AList.update [''group'', key, ''interface''] (CStr i)
                                              (AList.update [''vlan-id''] (CInt vid) pub) else pub
                       | None \<Rightarrow> pub);
                       pub2 = AList.update [''group'', key, ''address''] grp (AList.update [''vlan-id''] (CInt vid) pub1)
                   in (case sg_source g of
                         None \<Rightarrow> parse_snoop_routes M v vid op igmp gs oif1 pub2
                       | Some sa \<Rightarrow>
                           try_bind (addr_text M igmp sa) (\<lambda>src.
                             parse_snoop_routes M v vid op igmp gs oif1
                               (AList.update [''group'', key, ''source'', ''0'', ''address''] src pub2)))))))"

definition parse_snoop_mrouter_ports :: "vlan_obj \<Rightarrow> int \<Rightarrow> string \<Rightarrow> string list \<Rightarrow> pub_data option" where
  "parse_snoop_mrouter_ports v vid op ifs =
     (if op \<noteq> ''delete'' \<and> (\<exists>i\<in>set ifs. \<not> is_intf_vlan_member v i) then None
      else Some [([''vlan-id''], CInt vid), ([''mrouter-interface''], CNames ifs)])"

definition parse_snoop_status ::
  "'w mext \<Rightarrow> bool \<Rightarrow> int \<Rightarrow> int \<Rightarrow> string \<Rightarrow> 'w \<Rightarrow> pub_data option \<times> 'w" where
  "parse_snoop_status M igmp vid n br w =
     (case snoop_update_vlan_rules M igmp br n w of
        (ok, w1) \<Rightarrow>
          if \<not> ok then (None, w1)
          else (Some [([''vlan-id''], CInt vid), ([''enable''], CInt n)],
                snd (update_file_system M (get_path_per_vlan_configs br ''multicast_snooping'') ''0'' w1)))"

datatype snoop_obj = ObjStatus | ObjRoute | ObjMrouter

text \<open>
  One path of \<open>_snoop_obj_info\<close>: \<open>Inr None\<close> when the request does not have it, otherwise what is to
  be published, or \<open>None\<close> for a \<^verbatim>\<open>return False\<close>.
\<close>

definition parse_update ::
  "'w mext \<Rightarrow> mdata \<Rightarrow> vlan_obj \<Rightarrow> int \<Rightarrow> bool \<Rightarrow> string \<Rightarrow> snoop_obj \<Rightarrow> protocol \<Rightarrow> 'w \<Rightarrow>
   (pub_data option option, 'w) outcome" where
  "parse_update M d v vid igmp op k q w =
     (case k of
        ObjStatus \<Rightarrow>
          (case d_param d McastSnooping q of
             None \<Rightarrow> (Inr None, w)
           | Some n \<Rightarrow> (case parse_snoop_status M igmp vid n (v_name v) w of (r, w1) \<Rightarrow> (Inr (Some r), w1)))
      | ObjRoute \<Rightarrow>
          (case d_groups d q of
             None \<Rightarrow> (Inr None, w)
           | Some gs \<Rightarrow> (try_bind (parse_snoop_routes M v vid op igmp gs True []) (\<lambda>r. Inr (Some r)), w))
      | ObjMrouter \<Rightarrow>
          (case d_mrouters d q of
             None \<Rightarrow> (Inr None, w)
           | Some ifs \<Rightarrow> (Inr (Some (parse_snoop_mrouter_ports v vid op ifs)), w)))"

text \<open>
  The loops of \<open>_parse_mcast_snoop_updates_and_publish\<close>, in the order \<open>ks\<close> of the dictionary. Its
  \<^verbatim>\<open>except\<close> goes on to \<^verbatim>\<open>return True\<close>.
\<close>

fun publish_updates ::
  "'w mext \<Rightarrow> mdata \<Rightarrow> vlan_obj \<Rightarrow> int \<Rightarrow> bool \<Rightarrow> string \<Rightarrow> (snoop_obj \<times> protocol) list \<Rightarrow> 'w \<Rightarrow> (bool, 'w) outcome" where
  "publish_updates M d v vid igmp op [] w = (Inr True, w)"
| "publish_updates M d v vid igmp op ((k, q) # xs) w =
     (case parse_update M d v vid igmp op k q w of
        (Inl e, w1) \<Rightarrow> (Inl e, w1)
      | (Inr None, w1) \<Rightarrow> publish_updates M d v vid igmp op xs w1
      | (Inr (Some None), w1) \<Rightarrow> (Inr False, w1)
      | (Inr (Some (Some pub)), w1) \<Rightarrow>
          publish_updates M d v vid igmp op xs (if pub = [] then w1 else cps_send M igmp op pub w1))"

definition snoop_items :: "snoop_obj list \<Rightarrow> (snoop_obj \<times> protocol) list" where
  "snoop_items ks = concat (map (\<lambda>k. [(k, Igmp), (k, Mld)]) ks)"

definition handle_snoop_updates ::
  "'w mext \<Rightarrow> snoop_obj list \<Rightarrow> mdata \<Rightarrow> string \<Rightarrow> 'w \<Rightarrow> (bool, 'w) outcome" where
  "handle_snoop_updates M ks d op w =
     (case (d_global d Igmp, d_global d Mld) of
        (Some n, _) \<Rightarrow> (case snoop_update_global_rules M True n w of (b, w1) \<Rightarrow> (Inr b, w1))
      | (None, Some n) \<Rightarrow> (case snoop_update_global_rules M False n w of (b, w1) \<Rightarrow> (Inr b, w1))
      | _ \<Rightarrow>
          (case either (d_vlan_id d) of
             None \<Rightarrow> (Inr False, w)
           | Some vid \<Rightarrow>
               (case cps_get_vlan M (ById (CInt vid)) w of
                  [] \<Rightarrow> (Inr False, w)
                | v # _ \<Rightarrow> catch True (publish_updates M d v vid (d_vlan_id d Igmp \<noteq> None) op (snoop_items ks) w))))"

section \<open>Callbacks\<close>

text \<open>
  \<open>trans_cb\<close> and \<open>get_cb\<close>; \<open>in_kernel\<close> is \<open>kernel_snooping_needed\<close>, \<open>iplink\<close> the answer of
  \<open>_is_ip_link_snoop_cmd_supported\<close>, which is the constant \<^verbatim>\<open>False\<close>.
\<close>

definition is_ip_link_snoop_cmd_supported :: bool where "is_ip_link_snoop_cmd_supported = False"

definition trans_cb ::
  "'w mext \<Rightarrow> link_param list \<Rightarrow> snoop_obj list \<Rightarrow> bool \<Rightarrow> mdata \<Rightarrow> string \<Rightarrow> 'w snoop \<Rightarrow> (bool, 'w snoop) outcome" where
  "trans_cb M ks js in_kernel d op s =
     catch False
       (if in_kernel then
          (if is_ip_link_snoop_cmd_supported then on_world (handle_configs M ks d op) s
           else handle_configs_fs M ks d op s)
        else on_world (handle_snoop_updates M js d op) s)"

definition get_cb ::
  "'w mext \<Rightarrow> 'w ext \<Rightarrow> string \<Rightarrow> ip_version option \<Rightarrow> int option \<Rightarrow> get_elem list \<times> 'w \<Rightarrow> (bool, get_elem list \<times> 'w) outcome" where
  "get_cb M E rpath key vid s =
     (case key of
        None \<Rightarrow> (Inr False, s)
      | Some v \<Rightarrow> get_igmp_snooping M E rpath v is_ip_link_snoop_cmd_supported vid s)"

end
