(* ===== verification/McastSpec.thy ===== *)
theory McastSpec
  imports McastCache
begin

text \<open>
  The cache of the multicast snooping thread against what it stands for: the sets hold the last
  database that was read, the maps by bridge agree with the sets, what is published is the
  difference, and the retried settings leave the queue.
\<close>

section \<open>Maps by bridge\<close>

definition bucket :: "(string \<times> 'a list) list \<Rightarrow> string \<Rightarrow> 'a list" where
  "bucket m br = (case map_of m br of None \<Rightarrow> [] | Some xs \<Rightarrow> xs)"

lemma bucket_update [simp]: "bucket (AList.update k xs m) br = (if br = k then xs else bucket m br)"
  by (simp add: bucket_def update_conv')

lemma bucket_delete [simp]: "bucket (AList.delete k m) br = (if br = k then [] else bucket m br)"
  by (simp add: bucket_def delete_conv')

lemma bucket_Nil [simp]: "bucket [] br = []"
  by (simp add: bucket_def)

lemma case_bucket: "(case map_of m k of None \<Rightarrow> [] | Some xs \<Rightarrow> xs) = bucket m k"
  by (simp add: bucket_def)

lemma drop_groups_keys:
  "mg_key ` set (bucket (drop_groups gs m) br) =
     mg_key ` set (bucket m br) - mg_key ` {g \<in> set gs. mg_br g = br}"
proof (induction gs arbitrary: m)
  case (Cons g gs)
  have "mg_key ` set (bucket (case map_of m (mg_br g) of None \<Rightarrow> m
      | Some xs \<Rightarrow> AList.update (mg_br g) (set_discard mg_key (mg_key g) xs) m) br) =
    mg_key ` set (bucket m br) - (if mg_br g = br then {mg_key g} else {})"
    by (cases "map_of m (mg_br g)") (auto simp: bucket_def update_conv')
  then show ?case
    unfolding drop_groups_def fold_Cons comp_apply Cons.IH [unfolded drop_groups_def] by auto
qed (simp add: drop_groups_def)

lemma put_groups_keys:
  "mg_key ` set (bucket (put_groups gs m) br) =
     mg_key ` set (bucket m br) \<union> mg_key ` {g \<in> set gs. mg_br g = br}"
proof (induction gs arbitrary: m)
  case (Cons g gs)
  show ?case
    unfolding put_groups_def fold_Cons comp_apply Cons.IH [unfolded put_groups_def]
    unfolding case_bucket by auto
qed (simp add: put_groups_def)

lemma drop_routers_keys:
  "set (bucket (drop_routers ms m) br) = set (bucket m br) - mr_if ` {r \<in> set ms. mr_br r = br}"
proof (induction ms arbitrary: m)
  case (Cons r ms)
  have "set (bucket (case map_of m (mr_br r) of None \<Rightarrow> m
      | Some xs \<Rightarrow> AList.update (mr_br r) (set_discard id (mr_if r) xs) m) br) =
    set (bucket m br) - (if mr_br r = br then {mr_if r} else {})"
    by (cases "map_of m (mr_br r)") (auto simp: bucket_def update_conv' set_discard_def)
  then show ?case
    unfolding drop_routers_def fold_Cons comp_apply Cons.IH [unfolded drop_routers_def] by auto
qed (simp add: drop_routers_def)

lemma put_routers_keys:
  "set (bucket (put_routers ms m) br) = set (bucket m br) \<union> mr_if ` {r \<in> set ms. mr_br r = br}"
proof (induction ms arbitrary: m)
  case (Cons r ms)
  show ?case
    unfolding put_routers_def fold_Cons comp_apply Cons.IH [unfolded put_routers_def]
    unfolding case_bucket
    by (auto simp: set_add_def)
qed (simp add: put_routers_def)

section \<open>The invariant\<close>

text \<open>
  The groups of a bridge are those of the set that are on the bridge; while a poll is under way, or
  after one that raised, they are only among them (\<open>groups_within\<close>). Of the router ports of a bridge
  only one direction holds: flushing a bridge can leave some in the set (see \<open>flush_keeps_tagged_router\<close>).
\<close>

definition groups_within :: "snoop_cache \<Rightarrow> bool" where
  "groups_within c \<longleftrightarrow> keyed mg_key (group_set c) \<and>
     (\<forall>br. mg_key ` set (bucket (br_group_map c) br) \<subseteq> mg_key ` {g \<in> set (group_set c). mg_br g = br})"

definition groups_ok :: "snoop_cache \<Rightarrow> bool" where
  "groups_ok c \<longleftrightarrow> keyed mg_key (group_set c) \<and>
     (\<forall>br. mg_key ` set (bucket (br_group_map c) br) = mg_key ` {g \<in> set (group_set c). mg_br g = br})"

definition routers_ok :: "snoop_cache \<Rightarrow> bool" where
  "routers_ok c \<longleftrightarrow> keyed mr_key (mrouter_set c) \<and>
     (\<forall>br i. i \<in> set (bucket (br_mrouter_map c) br) \<longrightarrow> (br, i) \<in> mr_key ` set (mrouter_set c))"

text \<open>Equality for the router ports, too.\<close>

definition routers_exact :: "snoop_cache \<Rightarrow> bool" where
  "routers_exact c \<longleftrightarrow> keyed mr_key (mrouter_set c) \<and>
     (\<forall>br i. i \<in> set (bucket (br_mrouter_map c) br) \<longleftrightarrow> (br, i) \<in> mr_key ` set (mrouter_set c))"

lemma routers_exact_ok: "routers_exact c \<Longrightarrow> routers_ok c"
  by (simp add: routers_exact_def routers_ok_def)

lemma groups_ok_within: "groups_ok c \<Longrightarrow> groups_within c"
  by (simp add: groups_ok_def groups_within_def)

lemma group_key_br: "mg_key g = mg_key h \<Longrightarrow> mg_br g = mg_br h"
  by (simp add: mg_key_def)

lemma br_keys:
  "mg_key ` {g \<in> S. mg_br g = br} = {k \<in> mg_key ` S. fst k = br}"
  "(br, i) \<in> mr_key ` T \<longleftrightarrow> i \<in> mr_if ` {r \<in> T. mr_br r = br}"
  by (auto simp: mg_key_def mr_key_def)

lemma group_frame [simp]:
  "groups_ok (c\<lparr>vlan_map := vm\<rparr>) = groups_ok c" "routers_ok (c\<lparr>vlan_map := vm\<rparr>) = routers_ok c"
  "groups_ok (c\<lparr>snoop_lock := b\<rparr>) = groups_ok c" "routers_ok (c\<lparr>snoop_lock := b\<rparr>) = routers_ok c"
  "groups_ok (c\<lparr>static_mrouter_set := st\<rparr>) = groups_ok c" "routers_ok (c\<lparr>static_mrouter_set := st\<rparr>) = routers_ok c"
  "groups_ok (c\<lparr>hashmax_q := q\<rparr>) = groups_ok c" "routers_ok (c\<lparr>hashmax_q := q\<rparr>) = routers_ok c"
  "groups_ok (c\<lparr>mrouter_set := ms\<rparr>) = groups_ok c" "routers_ok (c\<lparr>group_set := gs\<rparr>) = routers_ok c"
  "groups_ok (c\<lparr>br_mrouter_map := mm\<rparr>) = groups_ok c" "routers_ok (c\<lparr>br_group_map := gm\<rparr>) = routers_ok c"
  "groups_within (c\<lparr>vlan_map := vm\<rparr>) = groups_within c" "groups_within (c\<lparr>snoop_lock := b\<rparr>) = groups_within c"
  "groups_within (c\<lparr>static_mrouter_set := st\<rparr>) = groups_within c" "groups_within (c\<lparr>hashmax_q := q\<rparr>) = groups_within c"
  "groups_within (c\<lparr>mrouter_set := ms\<rparr>) = groups_within c" "groups_within (c\<lparr>br_mrouter_map := mm\<rparr>) = groups_within c"
  by (simp_all add: groups_ok_def routers_ok_def groups_within_def)

lemma get_vlan_id_frame:
  "get_vlan_id M br (c, w) = (x, (c', w')) \<Longrightarrow> w' = w \<and> (\<exists>vm. c' = c\<lparr>vlan_map := vm\<rparr>)"
  by (auto simp: get_vlan_id_def split: option.splits list.splits intro: exI [of _ "vlan_map c"])

lemma publish_event_frame:
  "publish_event M op xs (c, w) = (x, (c', w')) \<Longrightarrow> \<exists>vm. c' = c\<lparr>vlan_map := vm\<rparr>"
proof (induction xs arbitrary: c w)
  case Nil
  then show ?case by (auto intro: exI [of _ "vlan_map c"])
next
  case (Cons p xs)
  obtain y c1 w1 where v: "get_vlan_id M (pub_br p) (c, w) = (y, (c1, w1))"
    by (cases "get_vlan_id M (pub_br p) (c, w)") auto
  from get_vlan_id_frame [OF v] obtain vm where c1: "c1 = c\<lparr>vlan_map := vm\<rparr>" by blast
  show ?case
  proof (cases y)
    case (Inl e)
    with Cons.prems v c1 show ?thesis by auto
  next
    case (Inr r)
    with Cons.prems v have "\<exists>w2. publish_event M op xs (c1, w2) = (x, (c', w'))" by (auto split: option.splits)
    with Cons.IH c1 show ?thesis by fastforce
  qed
qed

text \<open>One update, of the groups and of the router ports.\<close>

lemma update_groups_spec:
  assumes ok: "groups_ok c" and new: "keyed mg_key new" and h: "update_groups M new (c, w) = (x, (c', w'))"
  shows "\<exists>vm gm gs. c' = c\<lparr>vlan_map := vm, br_group_map := gm, group_set := gs\<rparr> \<and>
    (x = Inr True \<and> groups_ok c' \<and> gs = new \<or> (\<exists>e. x = Inl e) \<and> groups_within c')"
proof -
  define gone come where "gone = set_diff mg_key (group_set c) new" and "come = set_diff mg_key new (group_set c)"
  obtain y1 c1 w1 where p1: "publish_event M ''delete'' (map PubGroup gone) (c, w) = (y1, (c1, w1))"
    by (cases "publish_event M ''delete'' (map PubGroup gone) (c, w)") auto
  from publish_event_frame [OF p1] obtain vm where c1: "c1 = c\<lparr>vlan_map := vm\<rparr>" by blast
  define d where "d = c1\<lparr>br_group_map := drop_groups gone (br_group_map c1)\<rparr>"
  obtain y2 c2 w2 where p2: "publish_event M ''create'' (map PubGroup come) (d, w1) = (y2, (c2, w2))"
    by (cases "publish_event M ''create'' (map PubGroup come) (d, w1)") auto
  from publish_event_frame [OF p2] obtain vm2 where c2: "c2 = d\<lparr>vlan_map := vm2\<rparr>" by blast
  have x: "(x, (c', w')) = and_then (y1, (c1, w1)) (\<lambda>_ _. and_then (y2, (c2, w2)) (\<lambda>_ (c2, w2).
      (Inr True, (c2\<lparr>br_group_map := put_groups come (br_group_map c2), group_set := new\<rparr>, w2))))"
    using h unfolding update_groups_def Let_def fst_conv gone_def [symmetric] come_def [symmetric] p1
    by (cases y1) (simp_all add: p2 d_def [symmetric])
  show ?thesis
  proof (cases "\<exists>u v. y1 = Inr u \<and> y2 = Inr v")
    case False
    then have "(\<exists>e. x = Inl e) \<and> (c' = c1 \<or> c' = c2)" using x by (cases y1; cases y2) auto
    moreover have "c1 = c\<lparr>vlan_map := vm, br_group_map := br_group_map c, group_set := group_set c\<rparr>"
      "c2 = c\<lparr>vlan_map := vm2, br_group_map := drop_groups gone (br_group_map c), group_set := group_set c\<rparr>"
      by (simp_all add: c1 c2 d_def)
    moreover have "groups_within c1" using groups_ok_within [OF ok] by (simp add: c1)
    moreover have "groups_within c2"
      using ok unfolding groups_within_def groups_ok_def c2 d_def c1
      by (auto simp: drop_groups_keys)
    ultimately show ?thesis by blast
  next
    case True
    define gm where "gm = put_groups come (drop_groups gone (br_group_map c))"
    have c': "x = Inr True" "c' = c\<lparr>vlan_map := vm2, br_group_map := gm, group_set := new\<rparr>"
      using x True by (auto simp: c1 c2 d_def gm_def)
    have "mg_key ` set (bucket gm br) = mg_key ` {g \<in> set new. mg_br g = br}" for br
      using ok unfolding gm_def put_groups_keys drop_groups_keys groups_ok_def
      by (simp add: br_keys gone_def come_def) blast
    then have "groups_ok c'" using new by (simp add: groups_ok_def c'(2))
    with c' show ?thesis by blast
  qed
qed

lemma update_routers_spec:
  assumes ok: "routers_ok c" and new: "keyed mr_key new" and h: "update_routers M new (c, w) = (x, (c', w'))"
  shows "\<exists>vm mm ms. c' = c\<lparr>vlan_map := vm, br_mrouter_map := mm, mrouter_set := ms\<rparr> \<and>
    (x = Inr True \<and> routers_ok c' \<and> ms = new \<and> (routers_exact c \<longrightarrow> routers_exact c') \<or> (\<exists>e. x = Inl e) \<and> routers_ok c')"
proof -
  define gone come where "gone = set_diff mr_key (mrouter_set c) new" and "come = set_diff mr_key new (mrouter_set c)"
  obtain y1 c1 w1 where p1: "publish_event M ''delete'' (map PubRouter gone) (c, w) = (y1, (c1, w1))"
    by (cases "publish_event M ''delete'' (map PubRouter gone) (c, w)") auto
  from publish_event_frame [OF p1] obtain vm where c1: "c1 = c\<lparr>vlan_map := vm\<rparr>" by blast
  define d where "d = c1\<lparr>br_mrouter_map := drop_routers gone (br_mrouter_map c1)\<rparr>"
  obtain y2 c2 w2 where p2: "publish_event M ''create'' (map PubRouter come) (d, w1) = (y2, (c2, w2))"
    by (cases "publish_event M ''create'' (map PubRouter come) (d, w1)") auto
  from publish_event_frame [OF p2] obtain vm2 where c2: "c2 = d\<lparr>vlan_map := vm2\<rparr>" by blast
  have x: "(x, (c', w')) = and_then (y1, (c1, w1)) (\<lambda>_ _. and_then (y2, (c2, w2)) (\<lambda>_ (c2, w2).
      (Inr True, (c2\<lparr>br_mrouter_map := put_routers come (br_mrouter_map c2), mrouter_set := new\<rparr>, w2))))"
    using h unfolding update_routers_def Let_def fst_conv gone_def [symmetric] come_def [symmetric] p1
    by (cases y1) (simp_all add: p2 d_def [symmetric])
  show ?thesis
  proof (cases "\<exists>u v. y1 = Inr u \<and> y2 = Inr v")
    case False
    then have "(\<exists>e. x = Inl e) \<and> (c' = c1 \<or> c' = c2)" using x by (cases y1; cases y2) auto
    moreover have "c1 = c\<lparr>vlan_map := vm, br_mrouter_map := br_mrouter_map c, mrouter_set := mrouter_set c\<rparr>"
      "c2 = c\<lparr>vlan_map := vm2, br_mrouter_map := drop_routers gone (br_mrouter_map c), mrouter_set := mrouter_set c\<rparr>"
      by (simp_all add: c1 c2 d_def)
    moreover have "routers_ok c1" using ok by (simp add: c1)
    moreover have "routers_ok c2"
      using ok unfolding routers_ok_def c2 d_def c1 by (simp add: drop_routers_keys)
    ultimately show ?thesis by blast
  next
    case True
    define mm where "mm = put_routers come (drop_routers gone (br_mrouter_map c))"
    have c': "x = Inr True" "c' = c\<lparr>vlan_map := vm2, br_mrouter_map := mm, mrouter_set := new\<rparr>"
      using x True by (auto simp: c1 c2 d_def mm_def)
    have mem: "i \<in> set (bucket mm br) \<longleftrightarrow>
        (i \<in> set (bucket (br_mrouter_map c) br) \<and> (br, i) \<notin> mr_key ` set gone) \<or> (br, i) \<in> mr_key ` set come" for br i
      unfolding mm_def put_routers_keys drop_routers_keys br_keys by blast
    have "routers_ok c'" using ok new unfolding routers_ok_def c'(2) by (auto simp: mem gone_def come_def)
    moreover have "routers_exact c \<longrightarrow> routers_exact c'"
      using new unfolding routers_exact_def c'(2) by (auto simp: mem gone_def come_def)
    ultimately show ?thesis using c' by blast
  qed
qed

end
