(* ===== verification/McastPoll.thy ===== *)
theory McastPoll
  imports McastSpec
begin

text \<open>
  A poll of the multicast database: the cache it leaves is the database, and what it publishes is
  the difference.
\<close>

section \<open>A poll of the database\<close>

lemma update_cache_spec:
  assumes ok: "groups_ok c" "routers_ok c" and h: "update_cache M (c, w) = (x, (c', w'))"
  shows "\<exists>vm mm ms gm gs. c' = c\<lparr>vlan_map := vm, br_mrouter_map := mm, mrouter_set := ms,
      br_group_map := gm, group_set := gs\<rparr> \<and>
    (x = Inr () \<and> groups_ok c' \<and> routers_ok c' \<and> (routers_exact c \<longrightarrow> routers_exact c') \<and>
     (case fst (get_snooping_objs M AllTypes None w) of
        Inr (Some (ms', gs')) \<Rightarrow> ms = ms' \<and> gs = gs'
      | _ \<Rightarrow> ms = mrouter_set c \<and> gs = group_set c) \<or>
     (\<exists>e. x = Inl e) \<and> groups_within c' \<and> routers_ok c')"
proof -
  obtain r w1 where g: "get_snooping_objs M AllTypes None w = (r, w1)"
    by (cases "get_snooping_objs M AllTypes None w") auto
  have same: "c\<lparr>vlan_map := []\<rparr> = c\<lparr>vlan_map := [], br_mrouter_map := br_mrouter_map c, mrouter_set := mrouter_set c,
      br_group_map := br_group_map c, group_set := group_set c\<rparr>" by simp
  consider (raise) e where "r = Inl e" | (none) "r = Inr None" | (objs) ms gs where "r = Inr (Some (ms, gs))"
    by (metis sum.exhaust option.exhaust surj_pair)
  then show ?thesis
  proof cases
    case raise
    with h g have "x = Inl e" "c' = c\<lparr>vlan_map := []\<rparr>" by (auto simp: update_cache_def)
    moreover have "groups_within c'" "routers_ok c'"
      using ok groups_ok_within calculation(2) by simp_all
    ultimately show ?thesis using same by blast
  next
    case none
    with h g have x: "x = Inr ()" "c' = c\<lparr>vlan_map := []\<rparr>" by (auto simp: update_cache_def)
    have "routers_exact c \<longrightarrow> routers_exact (c\<lparr>vlan_map := []\<rparr>)" by (simp add: routers_exact_def)
    then show ?thesis using x ok g none same by (intro exI) (fastforce)
  next
    case objs
    note keyed = get_snooping_objs_keyed [OF g [unfolded objs]]
    define d where "d = c\<lparr>vlan_map := []\<rparr>"
    have d: "groups_ok d" "routers_ok d" "routers_exact c \<Longrightarrow> routers_exact d"
      using ok by (simp_all add: d_def routers_exact_def)
    obtain y c1 w2 where u: "update_routers M ms (d, w1) = (y, (c1, w2))"
      by (cases "update_routers M ms (d, w1)") auto
    obtain z c2 w3 where v: "update_groups M gs (c1, w2) = (z, (c2, w3))"
      by (cases "update_groups M gs (c1, w2)") auto
    from update_routers_spec [OF d(2) _ u] keyed obtain vm mm ms' where
      c1: "c1 = d\<lparr>vlan_map := vm, br_mrouter_map := mm, mrouter_set := ms'\<rparr>" and
      y: "y = Inr True \<and> routers_ok c1 \<and> ms' = ms \<and> (routers_exact d \<longrightarrow> routers_exact c1) \<or>
        (\<exists>e. y = Inl e) \<and> routers_ok c1" by blast
    show ?thesis
    proof (cases "\<exists>e. y = Inl e")
      case True
      then have "(\<exists>e. x = Inl e) \<and> c' = c1" using h g u unfolding update_cache_def objs d_def by auto
      moreover have "c1 = c\<lparr>vlan_map := vm, br_mrouter_map := mm, mrouter_set := ms',
        br_group_map := br_group_map c, group_set := group_set c\<rparr>" by (simp add: c1 d_def)
      moreover have "groups_within c1" using groups_ok_within [OF d(1)] by (simp add: c1)
      moreover have "routers_ok c1" using y by blast
      ultimately show ?thesis by blast
    next
      case False
      with y have y: "y = Inr True" "routers_ok c1" "ms' = ms" "routers_exact d \<longrightarrow> routers_exact c1" by blast+
      have "groups_ok c1" using d(1) by (simp add: c1 groups_ok_def)
      from update_groups_spec [OF this _ v] keyed obtain vm2 gm gs' where
        c2: "c2 = c1\<lparr>vlan_map := vm2, br_group_map := gm, group_set := gs'\<rparr>" and
        z: "z = Inr True \<and> groups_ok c2 \<and> gs' = gs \<or> (\<exists>e. z = Inl e) \<and> groups_within c2" by blast
      have x: "c' = c2" "x = (case z of Inl e \<Rightarrow> Inl e | Inr _ \<Rightarrow> Inr ())"
        using h g u v y(1) unfolding update_cache_def objs d_def by (cases z; simp)+
      have "c2 = c\<lparr>vlan_map := vm2, br_mrouter_map := mm, mrouter_set := ms,
        br_group_map := gm, group_set := gs'\<rparr>" by (simp add: c2 c1 d_def y(3))
      moreover have "routers_ok c2" "routers_exact c1 \<Longrightarrow> routers_exact c2"
        using y(2) by (simp_all add: c2 routers_ok_def routers_exact_def)
      ultimately show ?thesis using z y d(3) unfolding g objs x by (cases z) (simp_all, blast+)
    qed
  qed
qed

section \<open>What a poll publishes\<close>

text \<open>
  The events of a poll against the answers of CPS. The first answer for a bridge is remembered for the
  rest of the poll; an object of a bridge that CPS does not know is left out. \<open>announce M evs known w\<close>
  gives what is known at the end and the world after the events that were sent.
\<close>

definition vlan_known :: "'w mext \<Rightarrow> (string \<rightharpoonup> int) \<Rightarrow> string \<Rightarrow> 'w \<Rightarrow> int option" where
  "vlan_known M known br w =
     (case known br of
        Some vid \<Rightarrow> Some vid
      | None \<Rightarrow> (case cps_get_vlan M (ByName br) w of [] \<Rightarrow> None | v # _ \<Rightarrow> v_id v))"

fun announce :: "'w mext \<Rightarrow> (string \<times> pub_item) list \<Rightarrow> (string \<rightharpoonup> int) \<Rightarrow> 'w \<Rightarrow> (string \<rightharpoonup> int) \<times> 'w" where
  "announce M [] known w = (known, w)"
| "announce M ((op, x) # evs) known w =
     (case vlan_known M known (pub_br x) w of
        None \<Rightarrow> announce M evs known w
      | Some vid \<Rightarrow> announce M evs (known(pub_br x \<mapsto> vid)) (cps_send M (pub_igmp x) op (pub_data vid x) w))"

lemma announce_append:
  "announce M (xs @ ys) known w = (case announce M xs known w of (k, w1) \<Rightarrow> announce M ys k w1)"
  by (induction M xs known w rule: announce.induct) (simp_all del: fun_upd_apply split: option.split)

text \<open>Every VLAN object of CPS has its identifier.\<close>

definition vlans_have_ids :: "'w mext \<Rightarrow> bool" where
  "vlans_have_ids M \<longleftrightarrow> (\<forall>q w. \<forall>v\<in>set (cps_get_vlan M q w). v_id v \<noteq> None)"

lemma get_vlan_id_announced:
  assumes "vlans_have_ids M"
  shows "(\<exists>vid vm. get_vlan_id M br (c, w) = (Inr (Some vid), (c\<lparr>vlan_map := vm\<rparr>, w)) \<and>
      map_of vm = (map_of (vlan_map c))(br \<mapsto> vid) \<and>
      vlan_known M (map_of (vlan_map c)) br w = Some vid) \<or>
    get_vlan_id M br (c, w) = (Inr None, (c, w)) \<and>
      vlan_known M (map_of (vlan_map c)) br w = None"
proof (cases "map_of (vlan_map c) br")
  case None
  show ?thesis
  proof (cases "cps_get_vlan M (ByName br) w")
    case (Cons v vs)
    then have "v \<in> set (cps_get_vlan M (ByName br) w)" by simp
    with assms obtain vid where "v_id v = Some vid" unfolding vlans_have_ids_def by blast
    with None Cons show ?thesis
      by (intro disjI1 exI [of _ vid] exI [of _ "AList.update br vid (vlan_map c)"])
        (simp add: get_vlan_id_def vlan_known_def update_conv')
  qed (use None in \<open>simp add: get_vlan_id_def vlan_known_def\<close>)
next
  case (Some n)
  then show ?thesis
    by (intro disjI1 exI [of _ n] exI [of _ "vlan_map c"]) (simp add: get_vlan_id_def vlan_known_def fun_upd_idem)
qed

lemma publish_event_announced:
  assumes "vlans_have_ids M"
  shows "\<exists>vm w'. publish_event M op xs (c, w) = (Inr (), (c\<lparr>vlan_map := vm\<rparr>, w')) \<and>
    announce M (map (Pair op) xs) (map_of (vlan_map c)) w = (map_of vm, w')"
proof (induction xs arbitrary: c w)
  case Nil
  show ?case by (intro exI [of _ "vlan_map c"] exI [of _ w]) simp
next
  case (Cons x xs)
  from get_vlan_id_announced [OF assms, of "pub_br x" c w] show ?case
  proof (elim disjE exE conjE)
    fix vid vm
    assume g: "get_vlan_id M (pub_br x) (c, w) = (Inr (Some vid), (c\<lparr>vlan_map := vm\<rparr>, w))"
      "map_of vm = (map_of (vlan_map c))(pub_br x \<mapsto> vid)"
      "vlan_known M (map_of (vlan_map c)) (pub_br x) w = Some vid"
    from Cons.IH [of "c\<lparr>vlan_map := vm\<rparr>" "cps_send M (pub_igmp x) op (pub_data vid x) w"] g show ?thesis
      by (auto simp del: fun_upd_apply)
  next
    assume "get_vlan_id M (pub_br x) (c, w) = (Inr None, (c, w))"
      "vlan_known M (map_of (vlan_map c)) (pub_br x) w = None"
    with Cons.IH [of c w] show ?thesis by simp
  qed
qed

text \<open>
  The objects a poll takes away and adds, with their operations, in the order they are published:
  \<open>ms\<close> and \<open>gs\<close> are the router ports and groups of the database.
\<close>

definition router_items :: "snoop_cache \<Rightarrow> mrouter list \<Rightarrow> (string \<times> pub_item) list" where
  "router_items c ms =
     map (Pair ''delete'') (map PubRouter (set_diff mr_key (mrouter_set c) ms)) @
     map (Pair ''create'') (map PubRouter (set_diff mr_key ms (mrouter_set c)))"

definition group_items :: "snoop_cache \<Rightarrow> mgroup list \<Rightarrow> (string \<times> pub_item) list" where
  "group_items c gs =
     map (Pair ''delete'') (map PubGroup (set_diff mg_key (group_set c) gs)) @
     map (Pair ''create'') (map PubGroup (set_diff mg_key gs (group_set c)))"

lemma update_routers_publish:
  assumes "vlans_have_ids M"
  shows "\<exists>vm mm w'. update_routers M ms (c, w) = (Inr True, (c\<lparr>vlan_map := vm, br_mrouter_map := mm, mrouter_set := ms\<rparr>, w')) \<and>
    announce M (router_items c ms) (map_of (vlan_map c)) w = (map_of vm, w')"
proof -
  define gone come where "gone = set_diff mr_key (mrouter_set c) ms" and "come = set_diff mr_key ms (mrouter_set c)"
  from publish_event_announced [OF assms] obtain vm w1 where
    p1: "publish_event M ''delete'' (map PubRouter gone) (c, w) = (Inr (), (c\<lparr>vlan_map := vm\<rparr>, w1))"
    "announce M (map (Pair ''delete'') (map PubRouter gone)) (map_of (vlan_map c)) w = (map_of vm, w1)" by blast
  define d where "d = c\<lparr>vlan_map := vm, br_mrouter_map := drop_routers gone (br_mrouter_map c)\<rparr>"
  from publish_event_announced [OF assms, of "''create''" "map PubRouter come" d w1] obtain vm2 w2 where
    p2: "publish_event M ''create'' (map PubRouter come) (d, w1) = (Inr (), (d\<lparr>vlan_map := vm2\<rparr>, w2))"
    "announce M (map (Pair ''create'') (map PubRouter come)) (map_of vm) w1 = (map_of vm2, w2)"
    by (auto simp: d_def)
  from p1 p2 show ?thesis
    by (auto simp: update_routers_def router_items_def announce_append Let_def gone_def [symmetric] come_def [symmetric]
        d_def simp del: map_map)
qed

lemma update_groups_publish:
  assumes "vlans_have_ids M"
  shows "\<exists>vm gm w'. update_groups M gs (c, w) = (Inr True, (c\<lparr>vlan_map := vm, br_group_map := gm, group_set := gs\<rparr>, w')) \<and>
    announce M (group_items c gs) (map_of (vlan_map c)) w = (map_of vm, w')"
proof -
  define gone come where "gone = set_diff mg_key (group_set c) gs" and "come = set_diff mg_key gs (group_set c)"
  from publish_event_announced [OF assms] obtain vm w1 where
    p1: "publish_event M ''delete'' (map PubGroup gone) (c, w) = (Inr (), (c\<lparr>vlan_map := vm\<rparr>, w1))"
    "announce M (map (Pair ''delete'') (map PubGroup gone)) (map_of (vlan_map c)) w = (map_of vm, w1)" by blast
  define d where "d = c\<lparr>vlan_map := vm, br_group_map := drop_groups gone (br_group_map c)\<rparr>"
  from publish_event_announced [OF assms, of "''create''" "map PubGroup come" d w1] obtain vm2 w2 where
    p2: "publish_event M ''create'' (map PubGroup come) (d, w1) = (Inr (), (d\<lparr>vlan_map := vm2\<rparr>, w2))"
    "announce M (map (Pair ''create'') (map PubGroup come)) (map_of vm) w1 = (map_of vm2, w2)"
    by (auto simp: d_def)
  from p1 p2 show ?thesis
    by (auto simp: update_groups_def group_items_def announce_append Let_def gone_def [symmetric] come_def [symmetric]
        d_def simp del: map_map)
qed

definition poll_items :: "snoop_cache \<Rightarrow> mrouter list \<Rightarrow> mgroup list \<Rightarrow> (string \<times> pub_item) list" where
  "poll_items c ms gs = router_items c ms @ group_items c gs"

lemma update_cache_publish:
  assumes ids: "vlans_have_ids M" and g: "get_snooping_objs M AllTypes None w = (Inr (Some (ms, gs)), w1)"
  shows "\<exists>vm mm gm w'. update_cache M (c, w) =
      (Inr (), (c\<lparr>vlan_map := vm, br_mrouter_map := mm, mrouter_set := ms, br_group_map := gm, group_set := gs\<rparr>, w')) \<and>
    announce M (poll_items c ms gs) Map.empty w1 = (map_of vm, w')"
proof -
  define d where "d = c\<lparr>vlan_map := []\<rparr>"
  from update_routers_publish [OF ids, of ms d w1] obtain vm mm w2 where
    u: "update_routers M ms (d, w1) = (Inr True, (d\<lparr>vlan_map := vm, br_mrouter_map := mm, mrouter_set := ms\<rparr>, w2))"
    "announce M (router_items c ms) Map.empty w1 = (map_of vm, w2)"
    by (auto simp: d_def router_items_def)
  define e where "e = d\<lparr>vlan_map := vm, br_mrouter_map := mm, mrouter_set := ms\<rparr>"
  from update_groups_publish [OF ids, of gs e w2] obtain vm2 gm w3 where
    v: "update_groups M gs (e, w2) = (Inr True, (e\<lparr>vlan_map := vm2, br_group_map := gm, group_set := gs\<rparr>, w3))"
    "announce M (group_items c gs) (map_of vm) w2 = (map_of vm2, w3)"
    by (auto simp: e_def d_def group_items_def)
  have "update_cache M (c, w) = (Inr (), (e\<lparr>vlan_map := vm2, br_group_map := gm, group_set := gs\<rparr>, w3))"
    using u(1) v(1) unfolding update_cache_def prod.case g sum.case option.case d_def [symmetric] e_def [symmetric]
    by simp
  with u(2) v(2) show ?thesis
    by (intro exI [of _ vm2] exI [of _ mm] exI [of _ gm] exI [of _ w3]) (simp add: e_def d_def poll_items_def announce_append)
qed

end
