(* ===== verification/McastThread.thy ===== *)
theory McastThread
  imports McastPoll
begin

text \<open>
  The multicast snooping thread as a service: the invariant of its state under every interleaving
  of its loop with the calls of the request handlers, what a flush does, the time-outs, and the
  end of the retries.
\<close>

section \<open>Flushing\<close>

lemma fold_discard_keys:
  "key ` set (fold (\<lambda>x ys. set_discard key (f x) ys) xs ys) = key ` set ys - f ` set xs"
  by (induction xs arbitrary: ys) auto

lemma fold_discard_keyed: "keyed key ys \<Longrightarrow> keyed key (fold (\<lambda>x ys. set_discard key (f x) ys) xs ys)"
  by (induction xs arbitrary: ys) simp_all

text \<open>
  A flush of one bridge forgets its lists by bridge, and exactly the groups of the bridge and
  the router ports whose names, cut once more, are listed for the bridge.
\<close>

lemma flush_bridge_lists:
  "bucket (br_group_map (flush_bridge b c)) br = (if br = b then [] else bucket (br_group_map c) br)"
  "bucket (br_mrouter_map (flush_bridge b c)) br = (if br = b then [] else bucket (br_mrouter_map c) br)"
  by (auto simp: flush_bridge_def Let_def split: option.splits) (auto simp: bucket_def)

lemma flush_bridge_groups:
  "mg_key ` set (group_set (flush_bridge b c)) = mg_key ` set (group_set c) - mg_key ` set (bucket (br_group_map c) b)"
  by (auto simp: flush_bridge_def Let_def bucket_def fold_discard_keys split: option.splits)

lemma mr_key_info [simp]: "mr_key (McastRouterInfo br i ex) = (br, remove_ifname_tag i)"
  by (simp add: mr_key_def McastRouterInfo_def)

lemma flush_bridge_routers:
  "mr_key ` set (mrouter_set (flush_bridge b c)) =
     mr_key ` set (mrouter_set c) - (\<lambda>i. (b, remove_ifname_tag i)) ` set (bucket (br_mrouter_map c) b)"
  by (simp add: flush_bridge_def Let_def bucket_def fold_discard_keys mr_key_info split: option.splits)

lemma flush_bridge_keyed:
  "keyed mg_key (group_set c) \<Longrightarrow> keyed mg_key (group_set (flush_bridge b c))"
  "keyed mr_key (mrouter_set c) \<Longrightarrow> keyed mr_key (mrouter_set (flush_bridge b c))"
  by (simp_all add: flush_bridge_def Let_def fold_discard_keyed split: option.splits)

lemma flush_bridge_frame [simp]:
  "snoop_lock (flush_bridge b c) = snoop_lock c" "hashmax_q (flush_bridge b c) = hashmax_q c"
  "static_mrouter_set (flush_bridge b c) = static_mrouter_set c" "vlan_map (flush_bridge b c) = vlan_map c"
  by (simp_all add: flush_bridge_def Let_def split: option.splits)

lemma flush_bridge_ok:
  assumes "groups_ok c" "routers_ok c"
  shows "groups_ok (flush_bridge b c)" "routers_ok (flush_bridge b c)"
proof -
  show "groups_ok (flush_bridge b c)"
    using assms(1) unfolding groups_ok_def flush_bridge_lists flush_bridge_groups br_keys
    by (auto simp: flush_bridge_keyed)
  show "routers_ok (flush_bridge b c)"
    using assms(2) unfolding routers_ok_def flush_bridge_lists flush_bridge_routers
    by (auto simp: flush_bridge_keyed)
qed

definition flushed :: "string option \<Rightarrow> snoop_cache \<Rightarrow> snoop_cache" where
  "flushed br c = (case br of
     None \<Rightarrow> c\<lparr>mrouter_set := [], br_mrouter_map := [], group_set := [], br_group_map := []\<rparr>
   | Some b \<Rightarrow> flush_bridge b c)"

lemma flush_cache_unlocked: "\<not> snoop_lock c \<Longrightarrow> flush_cache br (c, w) = (Inr (), (flushed br c, w))"
  by (simp add: flush_cache_def with_lock_def flushed_def)

lemma flushed_ok:
  assumes "groups_ok c" "routers_ok c"
  shows "groups_ok (flushed br c)" "routers_ok (flushed br c)"
  using flush_bridge_ok [OF assms] by (auto simp: flushed_def groups_ok_def routers_ok_def split: option.splits)

lemma flushed_frame [simp]:
  "snoop_lock (flushed br c) = snoop_lock c" "hashmax_q (flushed br c) = hashmax_q c"
  "static_mrouter_set (flushed br c) = static_mrouter_set c"
  by (simp_all add: flushed_def split: option.splits)

section \<open>The invariant of the thread\<close>

definition thread_ok :: "poller \<times> 'w snoop \<Rightarrow> bool" where
  "thread_ok ps \<longleftrightarrow> (case ps of (p, (c, w)) \<Rightarrow>
     0 < polling_timeout p \<and> polling_timeout p \<le> mcast_snoop_polling_interval \<and>
     (\<forall>e\<in>set (hashmax_q c). snd (snd e) < max_hashmax_cfg_try_count) \<and>
     keyed mr_key (static_mrouter_set c) \<and> groups_within c \<and> routers_ok c \<and> (\<not> snoop_lock c \<longrightarrow> groups_ok c))"

lemma apply_static_frame:
  "\<exists>st w'. apply_static_mrouter_configs M (c, w) = (c\<lparr>static_mrouter_set := st\<rparr>, w') \<and>
     (keyed mr_key (static_mrouter_set c) \<longrightarrow> keyed mr_key st)"
proof -
  have "\<exists>st w'. fold (\<lambda>(br, i) (c, w).
       (case update_file_system M (brif_path br i) ''2'' w of
          (ok, w1) \<Rightarrow>
            (if ok then c\<lparr>static_mrouter_set :=
                 set_discard mr_key (mr_key (McastRouterInfo br i None)) (static_mrouter_set c)\<rparr> else c, w1))) xs (c, w) =
    (c\<lparr>static_mrouter_set := st\<rparr>, w') \<and> (keyed mr_key (static_mrouter_set c) \<longrightarrow> keyed mr_key st)" for xs
  proof (induction xs arbitrary: c w)
    case Nil
    then show ?case by (intro exI [of _ "static_mrouter_set c"]) simp
  next
    case (Cons x xs)
    obtain br i where x: "x = (br, i)" by (cases x)
    obtain ok w1 where u: "update_file_system M (brif_path br i) ''2'' w = (ok, w1)"
      by (cases "update_file_system M (brif_path br i) ''2'' w")
    show ?case using Cons.IH [of "if ok then c\<lparr>static_mrouter_set :=
        set_discard mr_key (mr_key (McastRouterInfo br i None)) (static_mrouter_set c)\<rparr> else c" w1]
      by (cases ok) (fastforce simp: x u)+
  qed
  then show ?thesis by (simp add: apply_static_mrouter_configs_def)
qed

text \<open>What the polling part leaves, with and without an exception.\<close>

lemma poll_part_spec:
  assumes ok: "thread_ok (p, (c, w))" and h: "poll_part M (p, (c, w)) = (x, (p', (c', w')))"
  shows "thread_ok (p', (c', w')) \<and> polling_timeout p' = polling_timeout p \<and> hashmax_q c' = hashmax_q c \<and>
    (x = Inr () \<and> \<not> do_polling p' \<and> snoop_lock c' = snoop_lock c \<or>
     (\<exists>e. x = Inl e) \<and> do_polling p \<and> p' = p \<and> snoop_lock c')"
proof (cases "do_polling p \<and> \<not> snoop_lock c")
  case False
  with ok h show ?thesis by (auto simp: poll_part_def split: if_splits)
next
  case True
  obtain st w1 where s: "apply_static_mrouter_configs M (c\<lparr>snoop_lock := True\<rparr>, w) =
      (c\<lparr>snoop_lock := True, static_mrouter_set := st\<rparr>, w1)" "keyed mr_key st"
    using apply_static_frame [of M "c\<lparr>snoop_lock := True\<rparr>" w] ok by (auto simp: thread_ok_def)
  define d where "d = c\<lparr>snoop_lock := True, static_mrouter_set := st\<rparr>"
  have d: "groups_ok d" "routers_ok d" using ok True by (simp_all add: thread_ok_def d_def)
  obtain y c2 w2 where u: "update_cache M (d, w1) = (y, (c2, w2))" by (cases "update_cache M (d, w1)") auto
  from update_cache_spec [OF d u] obtain vm mm ms gm gs where
    c2: "c2 = d\<lparr>vlan_map := vm, br_mrouter_map := mm, mrouter_set := ms, br_group_map := gm, group_set := gs\<rparr>" and
    y: "y = Inr () \<and> groups_ok c2 \<and> routers_ok c2 \<or> (\<exists>e. y = Inl e) \<and> groups_within c2 \<and> routers_ok c2" by blast
  have h: "(x, (p', (c', w'))) = (case y of Inl e \<Rightarrow> (Inl e, (p, (c2, w2)))
      | Inr _ \<Rightarrow> (Inr (), (p\<lparr>do_polling := False\<rparr>, (c2\<lparr>snoop_lock := False\<rparr>, w2))))"
    using h True by (cases y) (auto simp: poll_part_def s(1) d_def [symmetric] u)
  from y show ?thesis
  proof (elim disjE exE conjE)
    assume y: "y = Inr ()" "groups_ok c2" "routers_ok c2"
    have "groups_ok (c2\<lparr>snoop_lock := False\<rparr>)" "routers_ok (c2\<lparr>snoop_lock := False\<rparr>)" using y by simp_all
    moreover from this(1) have "groups_within (c2\<lparr>snoop_lock := False\<rparr>)" by (rule groups_ok_within)
    ultimately show ?thesis using h y(1) ok s(2) True by (simp add: thread_ok_def c2 d_def)
  next
    fix e assume "y = Inl e" "groups_within c2" "routers_ok c2"
    with h ok s(2) True show ?thesis by (simp add: thread_ok_def c2 d_def)
  qed
qed

section \<open>The queue of settings\<close>

text \<open>
  How many more writes the settings of the queue can take: a setting that has been tried \<open>k\<close> times
  has \<open>50 - k\<close> left. Each iteration with a setting in the queue uses up one.
\<close>

definition tries_left :: "(string \<times> int \<times> nat) list \<Rightarrow> nat" where
  "tries_left q = sum_list (map (\<lambda>e. max_hashmax_cfg_try_count - snd (snd e)) q)"

lemma tries_left_zero:
  "\<forall>e\<in>set q. snd (snd e) < max_hashmax_cfg_try_count \<Longrightarrow> tries_left q = 0 \<Longrightarrow> q = []"
  by (cases q) (auto simp: tries_left_def)

lemma queue_part_spec:
  assumes ok: "thread_ok (p, (c, w))"
    and h: "queue_part M t0 t1 (p, (c, w)) = (p', (c', w'))"
  shows "thread_ok (p', (c', w')) \<and> (\<exists>q. c' = c\<lparr>hashmax_q := q\<rparr>) \<and>
    (hashmax_q c = [] \<longrightarrow> hashmax_q c' = []) \<and>
    (hashmax_q c \<noteq> [] \<longrightarrow> tries_left (hashmax_q c') < tries_left (hashmax_q c))"
proof (cases "hashmax_q c")
  case Nil
  with ok h show ?thesis
    by (auto simp: queue_part_def thread_ok_def mcast_snoop_polling_interval_def intro: exI [of _ "hashmax_q c"])
next
  case (Cons e q)
  obtain br n k where e: "e = (br, n, k)" by (cases e)
  have k: "k < max_hashmax_cfg_try_count" "\<forall>e\<in>set q. snd (snd e) < max_hashmax_cfg_try_count"
    using ok Cons by (auto simp: thread_ok_def e)
  obtain okw w1 where u: "update_file_system M (get_path_per_vlan_configs br ''hash_max'') (dec n) w = (okw, w1)"
    by (cases "update_file_system M (get_path_per_vlan_configs br ''hash_max'') (dec n) w")
  define q' where "q' = (if okw \<or> max_hashmax_cfg_try_count \<le> k + 1 then q else q @ [(br, n, k + 1)])"
  define left where "left = polling_timeout p - (t1 - t0)"
  have p': "p' = (if t1 < t0 \<or> left \<le> 0 then \<lparr>polling_timeout = mcast_snoop_polling_interval, do_polling = True\<rparr>
      else p\<lparr>polling_timeout := left\<rparr>)" and c': "c' = c\<lparr>hashmax_q := q'\<rparr>"
    using h by (auto simp: queue_part_def Cons e u Let_def left_def q'_def hashmax_cfg_to_queue_def)
  have "0 < polling_timeout p' \<and> polling_timeout p' \<le> mcast_snoop_polling_interval"
    using ok by (auto simp: p' left_def thread_ok_def mcast_snoop_polling_interval_def not_less not_le)
  moreover have "\<forall>e\<in>set q'. snd (snd e) < max_hashmax_cfg_try_count" using k by (auto simp: q'_def)
  moreover have "tries_left q' < tries_left (hashmax_q c)"
    using k(1) by (auto simp: Cons e q'_def tries_left_def)
  ultimately show ?thesis using ok Cons by (auto simp: thread_ok_def c')
qed

lemma run_iter_spec:
  assumes ok: "thread_ok (p, (c, w))" and h: "run_iter M t (p, (c, w)) = (x, (p', (c', w')))"
  shows "thread_ok (p', (c', w')) \<and>
    (x = Inr () \<and> (hashmax_q c = [] \<longrightarrow> hashmax_q c' = []) \<and>
       (hashmax_q c \<noteq> [] \<longrightarrow> tries_left (hashmax_q c') < tries_left (hashmax_q c)) \<and> snoop_lock c' = snoop_lock c \<or>
     (\<exists>e. x = Inl e) \<and> snoop_lock c' \<and> poll_part M (p, (c, w)) = (x, (p', (c', w'))))"
proof -
  obtain y p1 c1 w1 where y: "poll_part M (p, (c, w)) = (y, (p1, (c1, w1)))"
    by (cases "poll_part M (p, (c, w))") auto
  note s = poll_part_spec [OF ok y]
  show ?thesis
  proof (cases y)
    case (Inl e)
    with y h s show ?thesis by (auto simp: run_iter_def)
  next
    case (Inr u)
    with s have ok1: "thread_ok (p1, (c1, w1))" "hashmax_q c1 = hashmax_q c" "snoop_lock c1 = snoop_lock c" by auto
    then have "0 < polling_timeout p1" by (simp add: thread_ok_def)
    then have "queue_part M (fst t) (snd t) (p1, (c1, w1)) = (p', (c', w'))" "x = Inr ()"
      using h y Inr by (auto simp: run_iter_def)
    with queue_part_spec [OF ok1(1) this(1)] ok1(2,3) show ?thesis by auto
  qed
qed

section \<open>Interleavings\<close>

text \<open>
  What may happen between two iterations: a handler flushes, changes the static router ports or
  queues a setting, the rest of the system changes.
\<close>

inductive snoop_step :: "'w mext \<Rightarrow> poller \<times> 'w snoop \<Rightarrow> poller \<times> 'w snoop \<Rightarrow> bool" for M where
  step_iter: "run_iter M t ps = (x, ps') \<Longrightarrow> snoop_step M ps ps'"
| step_flush: "flush_cache br s = (x, s') \<Longrightarrow> snoop_step M (p, s) (p, s')"
| step_static: "update_static_mrouter_cache m s = (x, s') \<Longrightarrow> snoop_step M (p, s) (p, s')"
| step_clear_static: "clear_static_mrouter_cache m s = (x, s') \<Longrightarrow> snoop_step M (p, s) (p, s')"
| step_setting: "snoop_step M (p, (c, w)) (p, (hashmax_cfg_to_queue br n 0 c, w))"
| step_world: "snoop_step M (p, (c, w)) (p, (c, w'))"

inductive_cases snoop_stepE: "snoop_step M ps ps'"

definition snoop_reach :: "'w mext \<Rightarrow> poller \<times> 'w snoop \<Rightarrow> bool" where
  "snoop_reach M = reach (\<lambda>ps. fst ps = poller_init \<and> fst (snd ps) = snoop_init) (snoop_step M)"

lemma thread_ok_init: "thread_ok (poller_init, (snoop_init, w))"
  by (simp add: thread_ok_def poller_init_def snoop_init_def mcast_snoop_polling_interval_def
      groups_ok_def groups_within_def routers_ok_def)

lemma with_lock_cases:
  assumes "with_lock f (c, w) = (x, (c', w'))"
  obtains "snoop_lock c" "c' = c" | "\<not> snoop_lock c" "c' = f c"
  using assms by (auto simp: with_lock_def split: if_splits)

lemma snoop_step_ok: "thread_ok ps \<Longrightarrow> snoop_step M ps ps' \<Longrightarrow> thread_ok ps'"
proof -
  assume ok: "thread_ok ps" and h: "snoop_step M ps ps'"
  obtain p c w p' c' w' where s: "ps = (p, (c, w))" "ps' = (p', (c', w'))" by (cases ps, cases ps') auto
  have "thread_ok (p', (c', w'))" using h unfolding s
  proof cases
    case (step_iter t x)
    with run_iter_spec [of p c w M t x p' c' w'] ok s show ?thesis by simp
  next
    case (step_flush br x)
    from step_flush(2) have "c' = c \<or> \<not> snoop_lock c \<and> c' = flushed br c"
      by (auto simp: flush_cache_def flushed_def elim!: with_lock_cases)
    with ok step_flush(1) flushed_ok [of c br] groups_ok_within [of "flushed br c"] show ?thesis
      by (auto simp: s thread_ok_def)
  next
    case (step_static m x)
    with ok s show ?thesis
      by (auto simp: update_static_mrouter_cache_def thread_ok_def elim!: with_lock_cases)
  next
    case (step_clear_static m x)
    with ok s show ?thesis
      by (auto simp: clear_static_mrouter_cache_def thread_ok_def elim!: with_lock_cases)
  next
    case (step_setting br n)
    with ok s show ?thesis by (auto simp: hashmax_cfg_to_queue_def thread_ok_def max_hashmax_cfg_try_count_def)
  next
    case step_world
    with ok s show ?thesis by (simp add: thread_ok_def)
  qed
  then show ?thesis by (simp add: s)
qed

interpretation snooping:
  service "\<lambda>ps. fst ps = poller_init \<and> fst (snd ps) = snoop_init" "snoop_step M" thread_ok for M
  by unfold_locales (use thread_ok_init in force, rule snoop_step_ok)

lemma snoop_reach_ok: "snoop_reach M ps \<Longrightarrow> thread_ok ps"
  unfolding snoop_reach_def by (rule snooping.reach_inv)

end
