(* ===== verification/McastService.thy ===== *)
theory McastService
  imports Snoop McastThread
begin

text \<open>
  The request handlers of multicast snooping together with its thread: a request is a sequence of
  the steps the thread allows for, and it is always answered when the lock is free.
\<close>

section \<open>Requests as steps\<close>

text \<open>\<open>leads M s s'\<close>: steps of the handlers lead from \<open>s\<close> to \<open>s'\<close> while the thread waits.\<close>

definition leads :: "'w mext \<Rightarrow> 'w snoop \<Rightarrow> 'w snoop \<Rightarrow> bool" where
  "leads M s s' \<longleftrightarrow> (\<forall>p. snoop_reach M (p, s) \<longrightarrow> snoop_reach M (p, s'))"

lemma leads_refl [simp]: "leads M s s"
  by (simp add: leads_def)

lemma leads_trans: "leads M s t \<Longrightarrow> leads M t u \<Longrightarrow> leads M s u"
  by (simp add: leads_def)

lemma leads_step: "(\<And>p. snoop_step M (p, s) (p, s')) \<Longrightarrow> leads M s s'"
  unfolding leads_def snoop_reach_def by (blast intro: reach_step)

lemma leads_world [simp]: "leads M (c, w) (c, w')"
  by (rule leads_step) (rule step_world)

text \<open>
  \<open>answers M s m\<close>: the call \<open>m\<close>, made in \<open>s\<close>, leads to its final state, does not change whether the
  lock is held, and waits for ever only when it is.
\<close>

definition answers :: "'w mext \<Rightarrow> 'w snoop \<Rightarrow> ('a, 'w snoop) outcome \<Rightarrow> bool" where
  "answers M s m \<longleftrightarrow> leads M s (snd m) \<and> snoop_lock (fst (snd m)) = snoop_lock (fst s) \<and>
     (fst m = Inl Blocked \<longrightarrow> snoop_lock (fst s))"

definition calm :: "'w mext \<Rightarrow> 'w snoop \<Rightarrow> 'w snoop \<Rightarrow> bool" where
  "calm M s s' \<longleftrightarrow> leads M s s' \<and> snoop_lock (fst s') = snoop_lock (fst s)"

lemma calm_refl [simp]: "calm M s s"
  by (simp add: calm_def)

lemma calm_trans: "calm M s t \<Longrightarrow> calm M t u \<Longrightarrow> calm M s u"
  unfolding calm_def using leads_trans by fastforce

lemma calm_world [simp]: "calm M (c, w) (c, w')"
  by (simp add: calm_def)

lemma answers_ret: "calm M s s' \<Longrightarrow> x \<noteq> Inl Blocked \<Longrightarrow> answers M s (x, s')"
  by (simp add: answers_def calm_def)

lemma answers_calm: "calm M s t \<Longrightarrow> answers M t m \<Longrightarrow> answers M s m"
  unfolding answers_def calm_def using leads_trans by fastforce

lemma answers_and_then:
  assumes "answers M s m" "\<And>a t. m = (Inr a, t) \<Longrightarrow> answers M t (f a t)"
  shows "answers M s (and_then m f)"
proof -
  obtain x t where m: "m = (x, t)" by (cases m)
  show ?thesis
  proof (cases x)
    case (Inl e)
    with assms(1) m show ?thesis by (simp add: answers_def)
  next
    case (Inr a)
    with assms(1) m have "calm M s t" by (simp add: answers_def calm_def)
    with assms(2) m Inr show ?thesis by (auto intro: answers_calm)
  qed
qed

lemma answers_catch: "answers M s m \<Longrightarrow> answers M s (catch a m)"
  by (cases m; cases "fst m") (auto simp: answers_def catch_def)

lemma calm_on_world: "on_world f s = (x, s') \<Longrightarrow> calm M s s'"
  by (auto simp: on_world_def split: prod.splits)

lemma answers_on_world:
  assumes "\<And>w x w'. f w = (x, w') \<Longrightarrow> x \<noteq> Inl Blocked"
  shows "answers M s (on_world f s)"
proof -
  obtain x s' where o: "on_world f s = (x, s')" by (metis surj_pair)
  then have "x \<noteq> Inl Blocked" using assms by (auto simp: on_world_def split: prod.splits)
  with calm_on_world [OF o, of M] o show ?thesis by (simp add: answers_ret)
qed

lemma answers_lock:
  assumes "\<And>p x s'. with_lock f s = (x, s') \<Longrightarrow> snoop_step M (p, s) (p, s')" "\<And>c. snoop_lock (f c) = snoop_lock c"
  shows "answers M s (with_lock f s)"
proof -
  obtain c w where s: "s = (c, w)" by (cases s)
  show ?thesis
  proof (cases "snoop_lock c")
    case True
    then show ?thesis by (simp add: answers_def with_lock_def s)
  next
    case False
    then have h: "with_lock f s = (Inr (), (f c, w))" by (simp add: with_lock_def s)
    have "leads M s (f c, w)" by (rule leads_step) (rule assms(1) [OF h])
    then show ?thesis unfolding h by (simp add: answers_def s assms(2))
  qed
qed

lemma answers_flush: "answers M s (flush_cache br s)"
  unfolding flush_cache_def
  by (rule answers_lock, rule step_flush [unfolded flush_cache_def], assumption) (auto split: option.split)

lemma answers_update_static: "answers M s (update_static_mrouter_cache m s)"
  unfolding update_static_mrouter_cache_def
  by (rule answers_lock, rule step_static [unfolded update_static_mrouter_cache_def], assumption) simp

lemma answers_clear_static: "answers M s (clear_static_mrouter_cache m s)"
  unfolding clear_static_mrouter_cache_def
  by (rule answers_lock, rule step_clear_static [unfolded clear_static_mrouter_cache_def], assumption) simp

section \<open>Configuration through files\<close>

lemma calm_fs_write: "fs_write M path val ret s = (r, s') \<Longrightarrow> calm N s s'"
  by (auto simp: fs_write_def calm_on_world split: if_splits)

lemma calm_send [simp]: "calm N s (send M igmp op ev s)"
  by (cases s) (simp add: send_def)

lemma calm_queue [simp]: "calm M s (queue_max_grps br ret s)"
proof -
  obtain c w where s: "s = (c, w)" by (cases s)
  have "leads M (c, w) (hashmax_cfg_to_queue br max_grps 0 c, w)" by (rule leads_step) (rule step_setting)
  then show ?thesis by (simp add: s calm_def queue_max_grps_def hashmax_cfg_to_queue_def)
qed

lemma py_int_not_blocked: "py_int t \<noteq> Inl Blocked"
  by (auto simp: py_int_def Let_def split: list.splits option.splits)

lemma answers_intervals: "answers M s (update_intervals M br n ret s)"
proof -
  have "answers M s (case fs_write M f1 v1 ret s of (ret1, s1) \<Rightarrow>
      (case fs_write M f2 v2 ret1 s1 of (ret2, s2) \<Rightarrow> (Inr (Some ret2), s2)))" for f1 v1 f2 v2
    by (auto intro!: answers_ret intro: calm_fs_write calm_trans split: prod.split)
  then show ?thesis
    using py_int_not_blocked by (auto simp: update_intervals_def intro: answers_ret split: option.split sum.split)
qed

lemma answers_snoop_config: "answers M s (snoop_config_fs M d br op k n ret s)"
  unfolding snoop_config_fs_def
proof (rule answers_and_then)
  show "answers M s (if k = McastSnooping \<and> n = 0 then flush_cache (Some br) s else (Inr (), s))"
    by (simp add: answers_flush answers_ret)
next
  fix t :: "'a snoop"
  obtain ret2 s2 where f: "fs_write M (get_path_per_vlan_configs br (param_file k)) (param_val k n) ret t = (ret2, s2)"
    by (metis surj_pair)
  define s3 where "s3 = (if ret2 \<and> k = McastSnooping
     then send M False op (enable_event d n) (send M True op (enable_event d n) s2) else s2)"
  have c3: "calm M t s3" using calm_fs_write [OF f, of M] unfolding s3_def
    by (auto intro: calm_trans [OF _ calm_send])
  obtain ret4 s4 where g: "(if k = McastSnooping \<and> n = 1
     then fs_write M (get_path_per_vlan_configs br ''hash_elasticity'') (dec def_mcast_hash_elasticity) ret2 (queue_max_grps br ret2 s3)
     else (ret2, s3)) = (ret4, s4)" by (metis surj_pair)
  have c4: "calm M t s4"
    using g c3 calm_trans [OF calm_trans [OF c3 calm_queue] calm_fs_write] by (auto split: if_splits)
  show "answers M t (case fs_write M (get_path_per_vlan_configs br (param_file k)) (param_val k n) ret t of
      (ret2, s2) \<Rightarrow>
        let s3 = if ret2 \<and> k = McastSnooping
              then send M False op (enable_event d n) (send M True op (enable_event d n) s2) else s2;
            (ret4, s4) = if k = McastSnooping \<and> n = 1
              then fs_write M (get_path_per_vlan_configs br ''hash_elasticity'') (dec def_mcast_hash_elasticity) ret2 (queue_max_grps br ret2 s3)
              else (ret2, s3)
        in if k = QueryInterval then update_intervals M br n ret4 s4 else (Inr (Some ret4), s4))"
    unfolding f prod.case Let_def s3_def [symmetric] g
    using c4 answers_calm [OF c4 answers_intervals] by (simp add: answers_ret)
qed

lemma answers_snoop_configs: "answers M s (snoop_configs_fs M d br op xs ret s)"
proof (induction xs arbitrary: ret s)
  case (Cons x xs)
  obtain k q where x: "x = (k, q)" by (cases x)
  show ?case
    by (cases "d_param d k q")
      (auto simp: x Cons answers_ret intro!: answers_and_then answers_snoop_config split: option.split)
qed (simp add: answers_ret)

lemma answers_mrouters: "answers M s (mrouters_fs M v vid op xs s)"
proof (induction xs arbitrary: s)
  case (Cons x xs)
  show ?case
  proof (cases "get_if_name v x vid")
    case (Some ifn)
    obtain ok s1 where u: "on_world (update_file_system M (brif_path (v_name v) ifn) (if turns_on op then ''2'' else ''1'')) s = (ok, s1)"
      by (metis surj_pair)
    show ?thesis
      unfolding mrouters_fs.simps Some option.case u prod.case
      by (rule answers_calm [OF calm_on_world [OF u]], rule answers_and_then,
          simp add: answers_update_static answers_ret, rule answers_and_then,
          simp add: answers_clear_static answers_ret, rule Cons.IH)
  qed (simp add: answers_ret)
qed (simp add: answers_ret)

section \<open>Addresses\<close>

text \<open>The functions of \<open>cps_utils\<close> and \<open>bytearray_utils\<close> return or raise; they do not wait.\<close>

definition addresses_return :: "'w mext \<Rightarrow> bool" where
  "addresses_return M \<longleftrightarrow> (\<forall>a. is_ipv4_addr M a \<noteq> Inl Blocked \<and> is_ipv6_addr M a \<noteq> Inl Blocked \<and>
     ba_to_ipv4str M a \<noteq> Inl Blocked \<and> ba_to_ipv6str M a \<noteq> Inl Blocked)"

lemma addr_text_not_blocked: "addresses_return M \<Longrightarrow> addr_text M v4 a \<noteq> Inl Blocked"
  by (auto simp: addr_text_def addresses_return_def is_ip_addr_def try_bind_Inl split: sum.splits if_splits)

lemma static_groups_not_blocked:
  "addresses_return M \<Longrightarrow> fst (static_groups_loop M op v v4 vid gs ret w) \<noteq> Inl Blocked"
proof (induction gs arbitrary: ret w)
  case (Cons g gs)
  show ?case
    using Cons addr_text_not_blocked [OF Cons.prems, of v4 "the (sg_group g)"]
    by (auto split: option.split sum.split prod.split)
qed simp

lemma parse_routes_not_blocked:
  "addresses_return M \<Longrightarrow> parse_snoop_routes M v vid op igmp gs oif pub \<noteq> Inl Blocked"
proof (induction gs arbitrary: oif pub op)
  case (Cons x gs)
  obtain key g where x: "x = (key, g)" by (cases x)
  show ?case
    using addr_text_not_blocked [OF Cons.prems]
    by (auto simp: x Let_def Cons try_bind_Inl split: option.split)
qed simp

lemma publish_updates_not_blocked:
  "addresses_return M \<Longrightarrow> fst (publish_updates M d v vid igmp op xs w) \<noteq> Inl Blocked"
proof (induction xs arbitrary: w)
  case (Cons x xs)
  obtain k q where x: "x = (k, q)" by (cases x)
  have "fst (parse_update M d v vid igmp op k q w) \<noteq> Inl Blocked"
    using parse_routes_not_blocked [OF Cons.prems]
    by (cases k) (auto simp: parse_update_def try_bind_Inl split: option.split prod.split)
  with Cons show ?case by (auto simp: x split: prod.split sum.split option.split)
qed simp

section \<open>Every request is answered\<close>

lemma answers_groups: "addresses_return M \<Longrightarrow> answers M s (groups_fs M d v op ret s)"
proof -
  assume "addresses_return M"
  then have "answers M s (on_world (handle_static_groups M op v v4 vid gs) s)" for v4 vid gs
    unfolding handle_static_groups_def
    by (intro answers_on_world) (erule catch_not_blocked, erule static_groups_not_blocked)
  then show ?thesis by (auto simp: groups_fs_def answers_ret split: option.split)
qed

lemma calm_querier: "querier_fs M br op s = (r, t) \<Longrightarrow> calm N s t"
  by (auto simp: querier_fs_def Let_def split: prod.splits dest!: calm_fs_write intro: calm_trans)

lemma answers_configure: "addresses_return M \<Longrightarrow> answers M s (configure_vlan_fs M ks d op vid v s)"
proof -
  assume m: "addresses_return M"
  obtain r1 s1 where q: "(if d_querier d Igmp \<or> d_querier d Mld then querier_fs M (v_name v) op s else (True, s)) = (r1, s1)"
    by (metis surj_pair)
  then have "calm M s s1" by (auto dest: calm_querier split: if_splits)
  then show ?thesis
    unfolding configure_vlan_fs_def q Let_def prod.case
  proof (rule answers_calm, intro answers_and_then)
    show "answers M s1 (if r1 then snoop_configs_fs M d (v_name v) op (link_items ks) True s1 else (Inr False, s1))"
      by (simp add: answers_snoop_configs answers_ret)
    show "answers M t (groups_fs M d v op a t)" for a t by (rule answers_groups [OF m])
    show "answers M t (case either (d_mrouters d) of None \<Rightarrow> (Inr a, t)
        | Some xs \<Rightarrow> and_then (mrouters_fs M v vid op xs t) (\<lambda>r s4. (Inr (case r of None \<Rightarrow> a | Some b \<Rightarrow> b), s4)))" for a t
    proof (cases "either (d_mrouters d)")
      case (Some xs)
      show ?thesis unfolding Some option.case
        by (rule answers_and_then, rule answers_mrouters) (simp add: answers_ret)
    qed (simp add: answers_ret)
  qed
qed

lemma answers_rules: "answers M s (handle_rules M d s)"
  using calm_on_world [of _ s _ _ M]
  by (auto simp: handle_rules_def intro!: answers_ret split: option.split prod.split)

lemma answers_fs: "addresses_return M \<Longrightarrow> answers M s (handle_configs_fs M ks d op s)"
  using answers_rules [of M s d] answers_configure [of M s ks d op]
  by (auto simp: handle_configs_fs_def intro: answers_ret split: option.split list.split)

lemma updates_not_blocked: "addresses_return M \<Longrightarrow> handle_snoop_updates M js d op w = (x, w') \<Longrightarrow> x \<noteq> Inl Blocked"
  by (auto simp: handle_snoop_updates_def split: option.splits prod.splits list.splits
      dest!: catch_not_blocked [OF _ publish_updates_not_blocked])

lemma answers_trans: "addresses_return M \<Longrightarrow> answers M s (trans_cb M ks js in_kernel d op s)"
  unfolding trans_cb_def is_ip_link_snoop_cmd_supported_def
  by (auto intro!: answers_catch answers_fs answers_on_world dest: updates_not_blocked)

lemma trans_outcome: "\<exists>b. fst (trans_cb M ks js in_kernel d op s) = Inr b \<or> fst (trans_cb M ks js in_kernel d op s) = Inl Blocked"
  by (auto simp: trans_cb_def catch_def split: prod.split sum.split)

end
