(* ===== verification/McastLive.thy ===== *)
theory McastLive
  imports McastThread
begin

text \<open>
  The multicast snooping thread makes progress: when the services it calls answer, its loop never
  stops with an exception, and every setting leaves the queue.
\<close>

lemma and_then_total:
  "\<exists>s'. m = (Inr a, s') \<Longrightarrow> (\<And>c w. \<exists>s'. f a (c, w) = (Inr b, s')) \<Longrightarrow>
     \<exists>s'. and_then m f = (Inr b, s')"
  by auto

section \<open>Services that answer\<close>

text \<open>
  \<open>cps_utils\<close> tells for every string whether it is an address of a family, and every VLAN object of
  CPS has its identifier.
\<close>

definition services_ok :: "'w mext \<Rightarrow> bool" where
  "services_ok M \<longleftrightarrow> (\<forall>v4 grp. \<exists>b. is_addr M v4 grp = Inr b) \<and>
     (\<forall>q w. \<forall>v\<in>set (cps_get_vlan M q w). v_id v \<noteq> None)"

lemma igmp_entry_total: "services_ok M \<Longrightarrow> \<exists>r. igmp_entry M ty grp = Inr r"
proof -
  assume "services_ok M"
  then obtain b4 b6 where "is_addr M True grp = Inr b4" "is_addr M False grp = Inr b6"
    unfolding services_ok_def by blast
  then show ?thesis by (cases ty) (simp_all add: igmp_entry_def)
qed

lemma mdb_objs_loop_total: "services_ok M \<Longrightarrow> \<exists>r. mdb_objs_loop M ty br ls (ms, gs) = Inr r"
proof (induction ls arbitrary: ms gs)
  case (Cons l ls)
  show ?case
  proof (cases "mdb_line_of l")
    case (LEntry dev ifn grp perm ex)
    from igmp_entry_total [OF Cons.prems] obtain r where "igmp_entry M ty grp = Inr r" by blast
    with LEntry Cons show ?thesis by simp
  qed (use Cons in simp_all)
qed simp

lemma get_snooping_objs_total: "services_ok M \<Longrightarrow> \<exists>r w'. get_snooping_objs M ty br w = (Inr r, w')"
  using mdb_objs_loop_total [of M ty br _ "[]" "[]"] by (auto simp: get_snooping_objs_def split: prod.splits)

lemma get_vlan_id_total: "services_ok M \<Longrightarrow> \<exists>r s'. get_vlan_id M br s = (Inr r, s')"
proof -
  assume ok: "services_ok M"
  obtain c w where s: "s = (c, w)" by (cases s)
  show ?thesis
  proof (cases "map_of (vlan_map c) br")
    case None
    show ?thesis
    proof (cases "cps_get_vlan M (ByName br) w")
      case (Cons v vs)
      with ok have "v \<in> set (cps_get_vlan M (ByName br) w)" by simp
      with ok obtain vid where "v_id v = Some vid" unfolding services_ok_def by blast
      with None Cons show ?thesis by (simp add: get_vlan_id_def s)
    qed (use None in \<open>simp add: get_vlan_id_def s\<close>)
  qed (simp add: get_vlan_id_def s)
qed

lemma publish_event_total: "services_ok M \<Longrightarrow> \<exists>s'. publish_event M op xs s = (Inr (), s')"
proof (induction xs arbitrary: s)
  case (Cons x xs)
  from get_vlan_id_total [OF Cons.prems] obtain r c w where "get_vlan_id M (pub_br x) s = (Inr r, (c, w))"
    by (metis surj_pair)
  with Cons show ?case by (cases r) simp_all
qed simp

lemma update_groups_total: "services_ok M \<Longrightarrow> \<exists>s'. update_groups M new s = (Inr True, s')"
  unfolding update_groups_def Let_def
  by (rule and_then_total, erule publish_event_total, unfold prod.case,
      rule and_then_total, erule publish_event_total) simp

lemma update_routers_total: "services_ok M \<Longrightarrow> \<exists>s'. update_routers M new s = (Inr True, s')"
  unfolding update_routers_def Let_def
  by (rule and_then_total, erule publish_event_total, unfold prod.case,
      rule and_then_total, erule publish_event_total) simp

lemma update_cache_total:
  assumes "services_ok M"
  shows "\<exists>s'. update_cache M (c, w) = (Inr (), s')"
proof -
  from get_snooping_objs_total [OF assms] obtain r w1 where g: "get_snooping_objs M AllTypes None w = (Inr r, w1)" by blast
  show ?thesis
  proof (cases r)
    case None
    with g show ?thesis by (simp add: update_cache_def)
  next
    case (Some objs)
    obtain ms gs where o: "objs = (ms, gs)" by (cases objs)
    from update_routers_total [OF assms] obtain s1 where
      u: "update_routers M ms (c\<lparr>vlan_map := []\<rparr>, w1) = (Inr True, s1)" by blast
    from update_groups_total [OF assms] obtain s2 where "update_groups M gs s1 = (Inr True, s2)" by blast
    with g u Some o show ?thesis by (simp add: update_cache_def)
  qed
qed

lemma poll_part_total:
  assumes "services_ok M" "\<not> snoop_lock c"
  shows "\<exists>ps'. poll_part M (p, (c, w)) = (Inr (), ps')"
proof (cases "do_polling p")
  case True
  obtain c1 w1 where a: "apply_static_mrouter_configs M (c\<lparr>snoop_lock := True\<rparr>, w) = (c1, w1)" by (metis surj_pair)
  from update_cache_total [OF assms(1)] obtain c2 w2 where "update_cache M (c1, w1) = (Inr (), (c2, w2))" by (metis surj_pair)
  with True a assms(2) show ?thesis by (simp add: poll_part_def)
qed (simp add: poll_part_def)

lemma run_iter_total:
  assumes m: "services_ok M" and ok: "thread_ok (p, (c, w))" "\<not> snoop_lock c"
  shows "\<exists>p' c' w'. run_iter M t (p, (c, w)) = (Inr (), (p', (c', w'))) \<and> thread_ok (p', (c', w')) \<and> \<not> snoop_lock c' \<and>
    (hashmax_q c = [] \<longrightarrow> hashmax_q c' = []) \<and>
    (hashmax_q c \<noteq> [] \<longrightarrow> tries_left (hashmax_q c') < tries_left (hashmax_q c))"
proof -
  obtain x p' c' w' where h: "run_iter M t (p, (c, w)) = (x, (p', (c', w')))" by (metis surj_pair)
  from poll_part_total [OF m ok(2)] obtain ps where "poll_part M (p, (c, w)) = (Inr (), ps)" by blast
  with run_iter_spec [OF ok(1) h] ok(2) h show ?thesis by fastforce
qed

lemma run_loop_total:
  assumes m: "services_ok M"
  shows "thread_ok (p, (c, w)) \<Longrightarrow> \<not> snoop_lock c \<Longrightarrow> tries_left (hashmax_q c) \<le> length ts \<Longrightarrow>
    \<exists>p' c' w'. run_loop M ts (p, (c, w)) = (Inr (), (p', (c', w'))) \<and> thread_ok (p', (c', w')) \<and>
      \<not> snoop_lock c' \<and> hashmax_q c' = []"
proof (induction ts arbitrary: p c w)
  case Nil
  then have "hashmax_q c = []" using tries_left_zero [of "hashmax_q c"] by (auto simp: thread_ok_def)
  with Nil show ?case by simp
next
  case (Cons t ts)
  from run_iter_total [OF m Cons.prems(1,2), of t] obtain p1 c1 w1 where
    r: "run_iter M t (p, (c, w)) = (Inr (), (p1, (c1, w1)))" "thread_ok (p1, (c1, w1))" "\<not> snoop_lock c1"
    "hashmax_q c = [] \<longrightarrow> hashmax_q c1 = []"
    "hashmax_q c \<noteq> [] \<longrightarrow> tries_left (hashmax_q c1) < tries_left (hashmax_q c)" by blast
  have "tries_left (hashmax_q c1) \<le> length ts"
    using r(4,5) Cons.prems(3) by (cases "hashmax_q c = []") (auto simp: tries_left_def)
  from Cons.IH [OF r(2,3) this] r(1) show ?case by simp
qed

end
