(* ===== verification/Mcast.thy ===== *)
theory Mcast
  imports McastLive
begin

text \<open>
  The properties of the multicast snooping thread, with examples for which their hypotheses hold.
\<close>

section \<open>Static router ports\<close>

text \<open>Names of Linux interfaces: not empty, without white space.\<close>

definition name_ok :: "string \<Rightarrow> bool" where
  "name_ok s \<longleftrightarrow> s \<noteq> '''' \<and> list_all (\<lambda>c. \<not> is_space c) s"

definition static_ok :: "mrouter \<Rightarrow> bool" where
  "static_ok m \<longleftrightarrow> name_ok (mr_br m) \<and> name_ok (mr_raw m) \<and> mr_if m = remove_ifname_tag (mr_raw m)"

lemma raw_str_parsed:
  assumes "name_ok br" "name_ok i"
  shows "\<exists>t. re_search (seqs [lits ''MRouter: bridge'', One Space, Grp (Plus NonSpace), One Space,
               lits ''interface'', One Space, Grp (Plus NonSpace)])
             (''MRouter: bridge '' @ br @ '' interface '' @ i) = Some (t, [br, i])"
proof -
  have sp: "in_class Space CHR '' ''" by (simp add: is_space_def)
  have w: "first_way (Grp (Plus NonSpace)) (t @ s) s [t]" if "name_ok t" "s = [] \<or> is_space (hd s)" for t s
    using that by (intro first_way_word) (auto simp: name_ok_def list_all_iff)
  have "first_way (seqs [lits ''MRouter: bridge'', One Space, Grp (Plus NonSpace), One Space,
               lits ''interface'', One Space, Grp (Plus NonSpace)])
     (''MRouter: bridge'' @ CHR '' '' # br @ CHR '' '' # ''interface'' @ CHR '' '' # i @ '''') ''''
     ([] @ [] @ [br] @ [] @ [] @ [] @ [i] @ [])"
    unfolding seqs.simps
    by (rule first_way_Seq, rule first_way_lits, rule first_way_Seq, rule first_way_One, rule sp,
        rule first_way_Seq, rule w, rule assms, simp add: is_space_def, rule first_way_Seq, rule first_way_One, rule sp,
        rule first_way_Seq, rule first_way_lits, rule first_way_Seq, rule first_way_One, rule sp,
        rule first_way_Seq, rule w, rule assms, simp, rule first_way_Eps)
  from first_way_search [OF this] show ?thesis by simp
qed

lemma static_names:
  assumes "list_all static_ok (static_mrouter_set c)"
  shows "get_all_static_mrouter_cache c = map (\<lambda>m. (mr_br m, mr_raw m)) (static_mrouter_set c)"
proof -
  have "List.map_filter (\<lambda>m. (case re_search (seqs [lits ''MRouter: bridge'', One Space, Grp (Plus NonSpace), One Space,
               lits ''interface'', One Space, Grp (Plus NonSpace)])
             (''MRouter: bridge '' @ mr_br m @ '' interface '' @ mr_raw m) of
          Some (_, [br, i]) \<Rightarrow> Some (br, i)
        | _ \<Rightarrow> None)) ms = map (\<lambda>m. (mr_br m, mr_raw m)) ms" if "list_all static_ok ms" for ms
    using that
  proof (induction ms)
    case (Cons m ms)
    then have "name_ok (mr_br m)" "name_ok (mr_raw m)" by (simp_all add: static_ok_def)
    from raw_str_parsed [OF this] obtain t where
      "re_search (seqs [lits ''MRouter: bridge'', One Space, Grp (Plus NonSpace), One Space,
               lits ''interface'', One Space, Grp (Plus NonSpace)])
             (''MRouter: bridge '' @ mr_br m @ '' interface '' @ mr_raw m) = Some (t, [mr_br m, mr_raw m])" by blast
    with Cons show ?case unfolding List.map_filter_simps by simp
  qed (simp add: List.map_filter_simps)
  then show ?thesis using assms unfolding get_all_static_mrouter_cache_def by blast
qed

text \<open>\<open>good\<close> tells which paths can be written.\<close>

definition write_result :: "'w mext \<Rightarrow> (string \<Rightarrow> bool) \<Rightarrow> bool" where
  "write_result M good \<longleftrightarrow> (\<forall>path val w. fst (m_write M path val w) = good path)"

lemma apply_static_exact:
  assumes m: "write_result M good" and ok: "list_all static_ok (static_mrouter_set c)" "keyed mr_key (static_mrouter_set c)"
  shows "static_mrouter_set (fst (apply_static_mrouter_configs M (c, w))) =
    filter (\<lambda>m. \<not> good (brif_path (mr_br m) (mr_raw m))) (static_mrouter_set c)"
proof -
  have keys: "(mr_br m, remove_ifname_tag (mr_raw m)) = mr_key m" if "static_ok m" for m
    using that by (simp add: static_ok_def mr_key_def [of m])
  have "static_mrouter_set (fst (fold (\<lambda>(br, i) (c, w).
       (case update_file_system M (brif_path br i) ''2'' w of
          (ok, w1) \<Rightarrow>
            (if ok then c\<lparr>static_mrouter_set :=
                 set_discard mr_key (mr_key (McastRouterInfo br i None)) (static_mrouter_set c)\<rparr> else c, w1)))
      (map (\<lambda>m. (mr_br m, mr_raw m)) ms) (c, w))) =
    filter (\<lambda>x. \<forall>m\<in>set ms. good (brif_path (mr_br m) (mr_raw m)) \<longrightarrow> mr_key x \<noteq> mr_key m) (static_mrouter_set c)"
    if "list_all static_ok ms" for ms
    using that
  proof (induction ms arbitrary: c w)
    case (Cons m ms)
    obtain okw w1 where u: "update_file_system M (brif_path (mr_br m) (mr_raw m)) ''2'' w = (okw, w1)"
      by (metis surj_pair)
    then have g: "okw = good (brif_path (mr_br m) (mr_raw m))"
      using m unfolding write_result_def update_file_system_def by (metis fst_conv)
    have "static_ok m" "list_all static_ok ms" using Cons.prems by simp_all
    note IH = Cons.IH [OF this(2)]
    show ?case
      unfolding list.map(2) fold_simps prod.case u IH
      by (auto simp: g keys [OF \<open>static_ok m\<close>] set_discard_def intro: filter_cong)
  qed simp
  moreover have "filter (\<lambda>x. \<forall>m\<in>set ms. good (brif_path (mr_br m) (mr_raw m)) \<longrightarrow> mr_key x \<noteq> mr_key m) ms =
      filter (\<lambda>m. \<not> good (brif_path (mr_br m) (mr_raw m))) ms" if "keyed mr_key ms" for ms
  proof (rule filter_cong [OF refl])
    fix x assume x: "x \<in> set ms"
    have "inj_on mr_key (set ms)" using that by (simp add: keyed_def distinct_map)
    then show "(\<forall>m\<in>set ms. good (brif_path (mr_br m) (mr_raw m)) \<longrightarrow> mr_key x \<noteq> mr_key m) \<longleftrightarrow>
        \<not> good (brif_path (mr_br x) (mr_raw x))"
      using x by (auto dest: inj_onD)
  qed
  ultimately show ?thesis using ok by (simp add: apply_static_mrouter_configs_def static_names)
qed

section \<open>Properties\<close>

text \<open>
  C20: In every state the thread and the request handlers can reach, in any order, the router ports,
  the static router ports and the groups of the cache have no two elements that \<open>__eq__\<close> identifies,
  every group and every router port listed for a bridge is cached, and no queued setting has been tried
  50 times. Whenever the lock is free, the groups listed for a bridge are exactly the cached groups on
  it; a poll that raised has left the lock behind, and may have unlisted groups that are still cached.
\<close>
theorem snoop_cache_reachable:
  assumes "snoop_reach M (p, (c, w))"
  shows "(\<forall>e\<in>set (hashmax_q c). snd (snd e) < max_hashmax_cfg_try_count) \<and>
    keyed mr_key (static_mrouter_set c) \<and> keyed mg_key (group_set c) \<and> keyed mr_key (mrouter_set c) \<and>
    (\<forall>br. mg_key ` set (bucket (br_group_map c) br) \<subseteq> mg_key ` {g \<in> set (group_set c). mg_br g = br}) \<and>
    (\<forall>br i. i \<in> set (bucket (br_mrouter_map c) br) \<longrightarrow> (br, i) \<in> mr_key ` set (mrouter_set c)) \<and>
    (\<not> snoop_lock c \<longrightarrow>
       (\<forall>br. mg_key ` set (bucket (br_group_map c) br) = mg_key ` {g \<in> set (group_set c). mg_br g = br}))"
  using snoop_reach_ok [OF assms] by (simp add: thread_ok_def groups_ok_def groups_within_def routers_ok_def)

text \<open>
  C21: A poll that is due, finds the lock free and can read the database, leaves exactly the router
  ports and groups of the database in the cache, and publishes exactly the difference: the router ports
  that are gone, those that are new, the groups that are gone, those that are new, in this order. Each
  event carries the VLAN that CPS gives for the bridge the first time it is asked in this poll, and is
  left out when CPS does not know the bridge. The groups by bridge agree again, and the lock is given
  back. CPS is assumed to return no VLAN object without an identifier.
\<close>
theorem poll_publishes_difference:
  assumes r: "snoop_reach M (p, (c, w))" and l: "\<not> snoop_lock c" and p: "do_polling p"
    and a: "apply_static_mrouter_configs M (c\<lparr>snoop_lock := True\<rparr>, w) = (c1, w1)"
    and g: "get_snooping_objs M AllTypes None w1 = (Inr (Some (ms, gs)), w2)"
    and v: "vlans_have_ids M"
  shows "\<exists>c' w'. poll_part M (p, (c, w)) = (Inr (), (p\<lparr>do_polling := False\<rparr>, (c', w'))) \<and>
    announce M (poll_items c ms gs) Map.empty w2 = (map_of (vlan_map c'), w') \<and>
    mrouter_set c' = ms \<and> group_set c' = gs \<and> \<not> snoop_lock c' \<and> groups_ok c' \<and> routers_ok c' \<and>
    (routers_exact c \<longrightarrow> routers_exact c')"
proof -
  obtain st where c1: "c1 = c\<lparr>snoop_lock := True, static_mrouter_set := st\<rparr>"
    using apply_static_frame [of M "c\<lparr>snoop_lock := True\<rparr>" w] a by auto
  have same: "poll_items c1 ms gs = poll_items c ms gs"
    by (simp add: c1 poll_items_def router_items_def group_items_def)
  have ok: "groups_ok c1" "routers_ok c1" "routers_exact c \<Longrightarrow> routers_exact c1"
    using snoop_reach_ok [OF r] l by (simp_all add: thread_ok_def c1 routers_exact_def)
  from update_cache_publish [OF v g, of c1] same obtain c2 w3 where
    u: "update_cache M (c1, w1) = (Inr (), (c2, w3))" "mrouter_set c2 = ms" "group_set c2 = gs"
    "announce M (poll_items c ms gs) Map.empty w2 = (map_of (vlan_map c2), w3)" by fastforce
  from update_cache_spec [OF ok(1,2) u(1)] have c2: "groups_ok c2" "routers_ok c2" "routers_exact c1 \<longrightarrow> routers_exact c2"
    by auto
  have "routers_exact (c2\<lparr>snoop_lock := False\<rparr>) = routers_exact c2" by (simp add: routers_exact_def)
  with u c2 ok(3) l p show ?thesis by (simp add: poll_part_def a)
qed

text \<open>
  Polling applies the static router ports again: after the writes exactly those ports are
  still pending whose file could not be written.
\<close>
theorem static_ports_retried:
  assumes "snoop_reach M (p, (c, w))" "write_result M good" "list_all static_ok (static_mrouter_set c)"
  shows "static_mrouter_set (fst (apply_static_mrouter_configs M (c, w))) =
    filter (\<lambda>m. \<not> good (brif_path (mr_br m) (mr_raw m))) (static_mrouter_set c)"
  using snoop_reach_ok [OF assms(1)] by (intro apply_static_exact assms) (simp add: thread_ok_def)

text \<open>
  C25: The time the thread waits for a setting is always positive and at most five seconds, so
  \<^verbatim>\<open>Queue.get\<close> never raises \<open>ValueError\<close>: an iteration is the poll followed by the wait, whatever the
  clock shows.
\<close>
theorem snoop_timeouts_bounded:
  assumes "snoop_reach M ps"
  shows "0 < polling_timeout (fst ps) \<and> polling_timeout (fst ps) \<le> 5 \<and>
    run_iter M t ps = and_then (poll_part M ps) (\<lambda>_ ps1. (Inr (), queue_part M (fst t) (snd t) ps1))"
proof -
  obtain p c w where ps: "ps = (p, (c, w))" by (metis surj_pair)
  have ok: "thread_ok (p, (c, w))" using snoop_reach_ok [OF assms] by (simp add: ps)
  obtain x p1 c1 w1 where x: "poll_part M (p, (c, w)) = (x, (p1, (c1, w1)))" by (metis surj_pair)
  from poll_part_spec [OF ok x] ok have "0 < polling_timeout p1" by (simp add: thread_ok_def)
  then show ?thesis
    using ok by (cases x) (simp_all add: ps run_iter_def x thread_ok_def mcast_snoop_polling_interval_def)
qed

text \<open>
  C23: When the services answer, the thread never stops, and after 50 iterations for each queued
  setting no setting is left in the queue, whether or not the kernel ever accepted it.
\<close>
theorem settings_leave_queue:
  assumes "services_ok M" "snoop_reach M (p, (c, w))" "\<not> snoop_lock c" "50 * length (hashmax_q c) \<le> length ts"
  shows "\<exists>p' c' w'. run_loop M ts (p, (c, w)) = (Inr (), (p', (c', w'))) \<and> hashmax_q c' = [] \<and> \<not> snoop_lock c'"
proof -
  have "tries_left q \<le> 50 * length q" for q
    by (induction q) (auto simp: tries_left_def max_hashmax_cfg_try_count_def)
  with assms(4) have "tries_left (hashmax_q c) \<le> length ts" using le_trans by blast
  from run_loop_total [OF assms(1) snoop_reach_ok [OF assms(2)] assms(3) this] show ?thesis by blast
qed

text \<open>
  Flushing a bridge forgets exactly the groups on it, and both of its lists; the lists of the
  other bridges and their router ports stay.
\<close>
theorem flush_forgets_bridge:
  assumes r: "snoop_reach M (p, (c, w))" and l: "\<not> snoop_lock c"
  shows "\<exists>c'. flush_cache (Some b) (c, w) = (Inr (), (c', w)) \<and>
    mg_key ` set (group_set c') = {k \<in> mg_key ` set (group_set c). fst k \<noteq> b} \<and>
    {k \<in> mr_key ` set (mrouter_set c'). fst k \<noteq> b} = {k \<in> mr_key ` set (mrouter_set c). fst k \<noteq> b} \<and>
    (\<forall>br. bucket (br_group_map c') br = (if br = b then [] else bucket (br_group_map c) br) \<and>
       bucket (br_mrouter_map c') br = (if br = b then [] else bucket (br_mrouter_map c) br))"
proof -
  have "groups_ok c" using snoop_reach_ok [OF r] l by (simp add: thread_ok_def)
  then have "mg_key ` set (group_set (flush_bridge b c)) = {k \<in> mg_key ` set (group_set c). fst k \<noteq> b}"
    by (auto simp: flush_bridge_groups groups_ok_def br_keys)
  moreover have "{k \<in> mr_key ` set (mrouter_set (flush_bridge b c)). fst k \<noteq> b} = {k \<in> mr_key ` set (mrouter_set c). fst k \<noteq> b}"
    unfolding flush_bridge_routers by (auto, metis fst_conv)
  ultimately show ?thesis
    using flush_cache_unlocked [OF l, of "Some b" w]
    by (intro exI [of _ "flush_bridge b c"]) (simp add: flushed_def flush_bridge_lists)
qed

text \<open>
  A flush cuts the VLAN tag off a name that was already cut when it was cached: a router port
  whose cached name still ends with a number stays in the set, although the list of its bridge is
  gone.
\<close>
theorem flush_keeps_tagged_router:
  assumes "snoop_reach M (p, (c, w))" "\<not> snoop_lock c" "(b, i) \<in> mr_key ` set (mrouter_set c)"
    and "\<forall>j\<in>set (bucket (br_mrouter_map c) b). remove_ifname_tag j \<noteq> i"
  shows "\<exists>c'. flush_cache (Some b) (c, w) = (Inr (), (c', w)) \<and>
    (b, i) \<in> mr_key ` set (mrouter_set c') \<and> bucket (br_mrouter_map c') b = []"
  using flush_cache_unlocked [OF assms(2), of "Some b" w] assms(3,4)
  by (intro exI [of _ "flush_bridge b c"]) (auto simp: flushed_def flush_bridge_routers flush_bridge_lists)

text \<open>
  A poll that raises leaves the lock acquired: from then on every flush and every change of the
  static router ports waits for ever.
\<close>
theorem failed_poll_locks_out:
  assumes "snoop_reach M (p, (c, w))" "run_iter M t (p, (c, w)) = (Inl e, (p', (c', w')))"
  shows "flush_cache br (c', w') = (Inl Blocked, (c', w')) \<and>
    update_static_mrouter_cache m (c', w') = (Inl Blocked, (c', w')) \<and>
    clear_static_mrouter_cache m (c', w') = (Inl Blocked, (c', w'))"
proof -
  from run_iter_spec [OF snoop_reach_ok [OF assms(1)] assms(2)] have "snoop_lock c'" by simp
  then show ?thesis
    by (simp add: flush_cache_def update_static_mrouter_cache_def clear_static_mrouter_cache_def with_lock_def)
qed

section \<open>Examples\<close>

text \<open>
  A system with one bridge whose VLAN is 100, whose database shows a router port and whose
  files can be written or not; it records the events and the written paths.
\<close>

definition one_bridge :: "int option \<Rightarrow> string list \<Rightarrow> bool \<Rightarrow> string list mext" where
  "one_bridge vid db writable = \<lparr>m_popen = (\<lambda>_ w. ((0, db), w)),
     m_write = (\<lambda>path _ w. (writable, w @ [path])), m_read = (\<lambda>_ _. None),
     cps_get_vlan = (\<lambda>_ _. [\<lparr>v_name = ''br1'', v_id = vid, v_tagged = None, v_untagged = None\<rparr>]),
     event_send = (\<lambda>_ op _ w. w @ [op]),
     is_ipv4_addr = (\<lambda>_. Inr True), is_ipv6_addr = (\<lambda>_. Inr False),
     ba_to_ipv4str = (\<lambda>_. Inl ValueError), ba_to_ipv6str = (\<lambda>_. Inl ValueError),
     ipv4str_to_ba = map of_char, ipv6str_to_ba = (\<lambda>_. [])\<rparr>"

lemma services_ok_one_bridge: "services_ok (one_bridge (Some vid) db writable)"
  by (simp add: services_ok_def one_bridge_def is_addr_def) metis

lemma snoop_start: "snoop_reach M (poller_init, (snoop_init, w))"
  by (simp add: snoop_reach_def reach_start)

lemma snoop_queued: "snoop_reach M (poller_init, (hashmax_cfg_to_queue br n 0 snoop_init, w))"
  using snoop_start unfolding snoop_reach_def by (rule reach_step) (rule step_setting)

lemma snoop_iterated:
  "snoop_reach M ps \<Longrightarrow> run_iter M t ps = (x, ps') \<Longrightarrow> snoop_reach M ps'"
  unfolding snoop_reach_def by (rule reach_step, assumption, rule step_iter)

lemma settings_leave_queue_witness:
  "\<exists>p' c' w'. run_loop (one_bridge (Some 100) [] False) (replicate 50 (0, 1))
      (poller_init, (hashmax_cfg_to_queue ''br1'' 16384 0 snoop_init, [])) = (Inr (), (p', (c', w'))) \<and>
    hashmax_q c' = [] \<and> \<not> snoop_lock c'"
  by (rule settings_leave_queue [OF services_ok_one_bridge snoop_queued])
    (simp_all add: hashmax_cfg_to_queue_def snoop_init_def)

lemma snoop_timeouts_bounded_witness:
  "polling_timeout poller_init = 5 \<and>
    run_iter (one_bridge (Some 100) [] True) (0, 5) (poller_init, (snoop_init, [])) =
      and_then (poll_part (one_bridge (Some 100) [] True) (poller_init, (snoop_init, [])))
        (\<lambda>_ ps1. (Inr (), queue_part (one_bridge (Some 100) [] True) 0 5 ps1))"
  using snoop_timeouts_bounded [OF snoop_start [of "one_bridge (Some 100) [] True" "[]"], of "(0, 5)"]
  by (simp add: poller_init_def mcast_snoop_polling_interval_def)

text \<open>The database has a port with two tags and a group.\<close>

definition tagged_db :: "string list" where
  "tagged_db = [''router ports on br1: e1.2.3'', ''dev br1 port e2.100 grp 224.1.1.1 temp  0.00'']"

abbreviation tagged_mext :: "string list mext" where "tagged_mext \<equiv> one_bridge (Some 100) tagged_db True"

definition tagged_routers :: "mrouter list" where
  "tagged_routers = [McastRouterInfo ''br1'' ''e1.2.3'' None]"

definition tagged_groups :: "mgroup list" where
  "tagged_groups = [McastGroupInfo tagged_mext ''br1'' ''224.1.1.1'' ''e2.100'' True (Some ''0.00'')]"

definition tagged_cache :: snoop_cache where
  "tagged_cache = snoop_init\<lparr>mrouter_set := tagged_routers, br_mrouter_map := [(''br1'', [''e1.2''])],
     group_set := tagged_groups, br_group_map := [(''br1'', tagged_groups)], vlan_map := [(''br1'', 100)]\<rparr>"

lemma tagged_objs:
  "get_snooping_objs tagged_mext AllTypes None [] = (Inr (Some (tagged_routers, tagged_groups)), [])"
  by code_simp

lemma tagged_run:
  "run_iter tagged_mext (0, 1) (poller_init, (snoop_init, [])) =
    (Inr (), (poller_init, (tagged_cache, [''create'', ''create''])))"
  by code_simp

lemma tagged_reach: "snoop_reach tagged_mext (poller_init, (tagged_cache, [''create'', ''create'']))"
  using snoop_start tagged_run by (rule snoop_iterated)

lemma snoop_cache_reachable_witness:
  "\<not> snoop_lock tagged_cache \<and>
    mg_key ` set (bucket (br_group_map tagged_cache) ''br1'') = mg_key ` {g \<in> set (group_set tagged_cache). mg_br g = ''br1''}"
proof -
  have "\<not> snoop_lock tagged_cache" by code_simp
  with snoop_cache_reachable [OF tagged_reach] show ?thesis by blast
qed

lemma poll_publishes_difference_witness:
  "\<exists>c'. poll_part tagged_mext (poller_init, (snoop_init, [])) =
      (Inr (), (poller_init\<lparr>do_polling := False\<rparr>, (c', [''create'', ''create'']))) \<and>
    mrouter_set c' = tagged_routers \<and> group_set c' = tagged_groups"
proof -
  have s: "apply_static_mrouter_configs tagged_mext (snoop_init\<lparr>snoop_lock := True\<rparr>, []) = (snoop_init\<lparr>snoop_lock := True\<rparr>, [])"
    by (simp add: apply_static_mrouter_configs_def get_all_static_mrouter_cache_def snoop_init_def List.map_filter_simps)
  have v: "vlans_have_ids tagged_mext" by (simp add: vlans_have_ids_def one_bridge_def)
  have e: "snd (announce tagged_mext (poll_items snoop_init tagged_routers tagged_groups) Map.empty []) = [''create'', ''create'']"
    by code_simp
  show ?thesis
    using poll_publishes_difference [OF snoop_start _ _ s tagged_objs v] e
    by (auto simp: snoop_init_def poller_init_def)
qed

lemma flush_forgets_bridge_witness:
  "\<exists>c'. flush_cache (Some ''br1'') (tagged_cache, [''create'', ''create'']) = (Inr (), (c', [''create'', ''create''])) \<and>
    group_set c' = [] \<and> bucket (br_mrouter_map c') ''br1'' = []"
proof -
  have l: "\<not> snoop_lock tagged_cache" by code_simp
  have "{k \<in> mg_key ` set (group_set tagged_cache). fst k \<noteq> ''br1''} = {}"
    by (auto simp: tagged_cache_def tagged_groups_def mg_key_def McastGroupInfo_def)
  with flush_forgets_bridge [OF tagged_reach l, of "''br1''"] show ?thesis by auto
qed

lemma flush_keeps_tagged_router_witness:
  "\<exists>c'. flush_cache (Some ''br1'') (tagged_cache, [''create'', ''create'']) = (Inr (), (c', [''create'', ''create''])) \<and>
    (''br1'', ''e1.2'') \<in> mr_key ` set (mrouter_set c') \<and> bucket (br_mrouter_map c') ''br1'' = []"
proof (rule flush_keeps_tagged_router [OF tagged_reach])
  show "(''br1'', ''e1.2'') \<in> mr_key ` set (mrouter_set tagged_cache)" by code_simp
  show "\<forall>j\<in>set (bucket (br_mrouter_map tagged_cache) ''br1''). remove_ifname_tag j \<noteq> ''e1.2''" by code_simp
  show "\<not> snoop_lock tagged_cache" by code_simp
qed

lemma broken_run:
  "run_iter (one_bridge None tagged_db True) (0, 1) (poller_init, (snoop_init, [])) =
    (Inl KeyError, (poller_init, (snoop_init\<lparr>snoop_lock := True\<rparr>, [])))"
  by code_simp

lemma failed_poll_locks_out_witness:
  "flush_cache None (snoop_init\<lparr>snoop_lock := True\<rparr>, [] :: string list) =
    (Inl Blocked, (snoop_init\<lparr>snoop_lock := True\<rparr>, []))"
  using failed_poll_locks_out [OF snoop_start broken_run] by blast

text \<open>Two static router ports, the file of the second of which cannot be written.\<close>

definition half_writable :: "string list mext" where
  "half_writable = (one_bridge (Some 100) [] True)\<lparr>m_write := \<lambda>path _ w. (path = brif_path ''br1'' ''e1'', w)\<rparr>"

definition two_static :: snoop_cache where
  "two_static = snoop_init\<lparr>static_mrouter_set := [McastRouterInfo ''br1'' ''e1'' None, McastRouterInfo ''br1'' ''e2'' None]\<rparr>"

lemma two_static_reach: "snoop_reach M (poller_init, (two_static, w))"
proof -
  have e: "remove_ifname_tag ''e1'' = ''e1''" "remove_ifname_tag ''e2'' = ''e2''" by code_simp+
  have "snoop_step M (poller_init, (snoop_init, w))
      (poller_init, (snoop_init\<lparr>static_mrouter_set := [McastRouterInfo ''br1'' ''e1'' None]\<rparr>, w))"
    by (rule step_static [of "McastRouterInfo ''br1'' ''e1'' None" _ "Inr ()"])
      (simp add: update_static_mrouter_cache_def with_lock_def snoop_init_def set_add_def)
  with snoop_start have one: "snoop_reach M
      (poller_init, (snoop_init\<lparr>static_mrouter_set := [McastRouterInfo ''br1'' ''e1'' None]\<rparr>, w))"
    unfolding snoop_reach_def by (rule reach_step)
  have "snoop_step M (poller_init, (snoop_init\<lparr>static_mrouter_set := [McastRouterInfo ''br1'' ''e1'' None]\<rparr>, w))
      (poller_init, (two_static, w))"
    by (rule step_static [of "McastRouterInfo ''br1'' ''e2'' None" _ "Inr ()"])
      (simp add: update_static_mrouter_cache_def with_lock_def snoop_init_def set_add_def two_static_def e)
  with one show ?thesis unfolding snoop_reach_def by (rule reach_step)
qed

lemma static_ports_retried_witness:
  "static_mrouter_set (fst (apply_static_mrouter_configs half_writable (two_static, []))) =
    [McastRouterInfo ''br1'' ''e2'' None]"
proof -
  have g: "write_result half_writable (\<lambda>path. path = brif_path ''br1'' ''e1'')"
    by (simp add: write_result_def half_writable_def)
  have s: "list_all static_ok (static_mrouter_set two_static)" by code_simp
  have f: "filter (\<lambda>m. \<not> brif_path (mr_br m) (mr_raw m) = brif_path ''br1'' ''e1'') (static_mrouter_set two_static) =
      [McastRouterInfo ''br1'' ''e2'' None]" by code_simp
  show ?thesis using static_ports_retried [OF two_static_reach g s] f by simp
qed

end
