(* ===== verification/McastRequests.thy ===== *)
theory McastRequests
  imports McastService Mcast
begin

text \<open>
  The properties of the request handlers of multicast snooping, with examples for which their
  hypotheses hold.
\<close>

section \<open>Requests with static router ports only\<close>

definition only_mrouters :: "mdata \<Rightarrow> int \<Rightarrow> string list \<Rightarrow> bool" where
  "only_mrouters d vid xs \<longleftrightarrow> either (d_global d) = None \<and> either (d_vlan_id d) = Some vid \<and>
     (\<forall>k q. d_param d k q = None) \<and> (\<forall>q. d_groups d q = None \<and> \<not> d_querier d q) \<and> either (d_mrouters d) = Some xs"

lemma no_params: "(\<forall>k q. d_param d k q = None) \<Longrightarrow> snoop_configs_fs M d br op items ret s = (Inr ret, s)"
  by (induction items) auto

lemma only_mrouters_fs:
  assumes "only_mrouters d vid xs" "cps_get_vlan M (ById (CInt vid)) (snd s) = v # vs"
  shows "handle_configs_fs M ks d op s =
    and_then (mrouters_fs M v vid op xs s) (\<lambda>r s'. (Inr (case r of None \<Rightarrow> True | Some b \<Rightarrow> b), s'))"
  using assms by (simp add: only_mrouters_def handle_configs_fs_def configure_vlan_fs_def no_params groups_fs_def)

text \<open>
  The files of the ports are written one after the other, each with \<^verbatim>\<open>2\<close>; \<open>write_ports\<close> gives the ports
  whose file could not be written, and the world after all the writes.
\<close>

fun write_ports :: "'w mext \<Rightarrow> string \<Rightarrow> string list \<Rightarrow> 'w \<Rightarrow> string list \<times> 'w" where
  "write_ports M br [] w = ([], w)"
| "write_ports M br (i # ports) w =
     (case m_write M (brif_path br i) ''2'' w of
        (ok, w1) \<Rightarrow> (case write_ports M br ports w1 of (failed, w2) \<Rightarrow> (if ok then failed else i # failed, w2)))"

lemma mrouters_fs_on:
  assumes op: "turns_on op"
  shows "\<not> snoop_lock c \<Longrightarrow> map (\<lambda>x. get_if_name v x vid) xs = map Some ports \<Longrightarrow>
    write_ports M (v_name v) ports w = (failed, w') \<Longrightarrow>
    \<exists>st. mrouters_fs M v vid op xs (c, w) = (Inr None, (c\<lparr>static_mrouter_set := st\<rparr>, w')) \<and>
      mr_key ` set st = mr_key ` set (static_mrouter_set c) \<union> {(v_name v, remove_ifname_tag i) | i. i \<in> set failed}"
proof (induction xs arbitrary: c w ports failed)
  case Nil
  then show ?case by (intro exI [of _ "static_mrouter_set c"]) auto
next
  case (Cons x xs)
  then obtain i rest where i: "ports = i # rest" "get_if_name v x vid = Some i"
    "map (\<lambda>x. get_if_name v x vid) xs = map Some rest" by auto
  obtain ok w1 where u: "m_write M (brif_path (v_name v) i) ''2'' w = (ok, w1)" by (metis surj_pair)
  obtain bad where bad: "write_ports M (v_name v) rest w1 = (bad, w')" "failed = (if ok then bad else i # bad)"
    using Cons.prems(3) by (auto simp: i(1) u split: prod.splits)
  define c1 where "c1 = (if ok then c
    else c\<lparr>static_mrouter_set := set_add mr_key (McastRouterInfo (v_name v) i None) (static_mrouter_set c)\<rparr>)"
  have del: "op \<noteq> ''delete''" using op by (auto simp: turns_on_def)
  have step: "mrouters_fs M v vid op (x # xs) (c, w) = mrouters_fs M v vid op xs (c1, w1)"
    using Cons.prems(1) op del
    by (simp add: i(2) on_world_def update_file_system_def u c1_def update_static_mrouter_cache_def with_lock_def)
  have "\<not> snoop_lock c1" using Cons.prems(1) by (simp add: c1_def)
  from Cons.IH [OF this i(3) bad(1)] obtain st where
    r: "mrouters_fs M v vid op xs (c1, w1) = (Inr None, (c1\<lparr>static_mrouter_set := st\<rparr>, w'))"
    "mr_key ` set st = mr_key ` set (static_mrouter_set c1) \<union> {(v_name v, remove_ifname_tag i) | i. i \<in> set bad}"
    by blast
  have "c1\<lparr>static_mrouter_set := st\<rparr> = c\<lparr>static_mrouter_set := st\<rparr>" by (simp add: c1_def)
  moreover have "mr_key ` set (static_mrouter_set c1) = mr_key ` set (static_mrouter_set c) \<union>
      (if ok then {} else {(v_name v, remove_ifname_tag i)})"
    by (auto simp: c1_def)
  ultimately show ?case using r bad(2) unfolding step by (intro exI [of _ st]) auto
qed

section \<open>Rules\<close>

text \<open>Commands that change the rules print nothing.\<close>

definition quiet :: "'w mext \<Rightarrow> string \<Rightarrow> string list \<Rightarrow> bool" where
  "quiet M pre rs \<longleftrightarrow> (\<forall>r\<in>set rs. \<forall>w. snd (fst (m_popen M (split_ws (pre @ r)) w)) = [])"

lemma ebt_loop_each:
  "quiet M pre rs \<Longrightarrow>
     ebt_loop M add pre rs res w = mrun_each M (map (\<lambda>r. split_ws (pre @ r)) (filter (\<lambda>r. (r \<in> set res) \<noteq> add) rs)) w"
proof (induction rs arbitrary: w)
  case (Cons r rs)
  then have q: "quiet M pre rs" by (simp add: quiet_def)
  have out: "snd (fst (mrun M (split_ws (pre @ r)) w)) = []"
    using Cons.prems by (auto simp: quiet_def mrun_def split: prod.split dest: spec [of _ w])
  obtain rc w1 where r: "mrun M (split_ws (pre @ r)) w = ((rc, []), w1)"
    using out by (metis prod.collapse)
  show ?case using Cons.IH [OF q] by (auto simp: r mrun_ok_def)
qed simp

section \<open>Routes to publish\<close>

lemma routes_without_oif:
  "parse_snoop_routes M v vid op igmp gs False pub = Inr (Some pub') \<Longrightarrow>
     map_of pub' [''group'', k, ''interface''] = map_of pub [''group'', k, ''interface'']"
proof (induction gs arbitrary: pub)
  case (Cons x gs)
  obtain key g where x: "x = (key, g)" by (cases x)
  show ?case
    using Cons.prems
    by (auto simp: x Let_def try_bind_Inr update_conv' dest!: Cons.IH split: option.splits)
qed simp

section \<open>The querier\<close>

text \<open>\<^verbatim>\<open>ip netns exec\<close> fails: there is no namespace of this name.\<close>

definition no_namespace :: "'w ext \<Rightarrow> string \<Rightarrow> bool" where
  "no_namespace E ns \<longleftrightarrow> (\<forall>cmd w. fst (fst (popen E (netns_exec ns cmd) w)) \<noteq> 0)"

lemma no_details:
  assumes "no_namespace E br" "br \<noteq> ''default''"
  shows "\<exists>w'. get_if_details E (Some br) None w = (Inr [], w')"
proof -
  have "fst (fst (popen E (netns_exec br [''ip'', ''addr'', ''show'']) w)) \<noteq> 0"
    using assms(1) by (simp add: no_namespace_def)
  then obtain rc out w' where "popen E (netns_exec br [''ip'', ''addr'', ''show'']) w = ((rc, out), w')" "rc \<noteq> 0"
    by (metis prod.collapse)
  with assms(2) show ?thesis
    by (simp add: get_if_details_def get_if_details_per_vrf_def get_ip_addr_def run_command_def
        group_lines_based_on_position_def)
qed

lemma state_loop_no_querier:
  assumes ns: "no_namespace E br" "br \<noteq> ''default''"
  shows "state_loop E v br attrs acc w = (Inr st, w') \<Longrightarrow> ''querier'' \<notin> fst ` set acc \<Longrightarrow> ''querier'' \<notin> fst ` set st"
proof (induction attrs arbitrary: acc w)
  case (Cons x attrs)
  obtain key val where x: "x = (key, val)" by (cases x)
  show ?case
  proof (cases "find (\<lambda>k. ka_key k = key) kernel_to_yang_map")
    case None
    with Cons x show ?thesis by simp
  next
    case (Some k)
    then have k: "k \<in> set kernel_to_yang_map" by (metis find_Some_iff nth_mem)
    show ?thesis
    proof (cases "ka_type k = YQuerier")
      case True
      obtain w1 where "get_if_details E (Some br) None w = (Inr [], w1)" using no_details [OF ns] by blast
      then have "get_intf_ip_addr E v br w = (Inr None, w1)" by (simp add: get_intf_ip_addr_def)
      with Cons True Some x show ?thesis by (auto split: sum.splits if_splits)
    next
      case False
      with k have "ka_yang k \<noteq> ''querier''" by (auto simp: kernel_to_yang_map_def)
      with Cons.prems(2) have "''querier'' \<notin> fst ` set (AList.update (ka_yang k) y acc)" for y
        by (auto simp: dom_update)
      with Cons.prems(1) Cons.IH False Some x show ?thesis by (auto split: sum.splits)
    qed
  qed
qed simp

section \<open>The answer to a get\<close>

definition reports :: "string \<Rightarrow> route_map \<Rightarrow> int \<times> string \<Rightarrow> get_elem \<Rightarrow> bool" where
  "reports rpath routes v e \<longleftrightarrow> fst e = fst v \<and>
     (\<exists>st. snd e = state_elem rpath st @ (case map_of routes (snd v) of None \<Rightarrow> [] | Some a \<Rightarrow> route_elems a))"

lemma snooping_elems_all:
  "snooping_elems M E rpath v u routes m (resp, w) = (Inr True, (resp', w')) \<Longrightarrow>
     \<exists>es. resp' = resp @ es \<and> list_all2 (reports rpath routes) m es"
proof (induction m arbitrary: resp w)
  case (Cons x m)
  obtain vid ifn where x: "x = (vid, ifn)" by (cases x)
  from Cons.prems obtain st w1 where
    "get_igmp_snooping_state M E v ifn u w = (Inr (Some st), w1)"
    "snooping_elems M E rpath v u routes m (resp @ [(vid, state_elem rpath st @
        (case map_of routes ifn of None \<Rightarrow> [] | Some a \<Rightarrow> route_elems a))], w1) = (Inr True, (resp', w'))"
    by (auto simp: x split: prod.splits sum.splits option.splits)
  from Cons.IH [OF this(2)] show ?case
    by (force simp: x reports_def)
qed simp

section \<open>Properties\<close>

text \<open>
  C22: A request that arrives in a reachable state leads to a reachable state, so all the properties
  of the thread hold with real requests in between; and when the lock is free it is answered with
  a truth value, whatever it contains, and leaves the lock free.
\<close>
theorem requests_answered:
  assumes "addresses_return M" "snoop_reach M (p, (c, w))"
  shows "\<exists>x c' w'. trans_cb M ks js in_kernel d op (c, w) = (x, (c', w')) \<and> snoop_reach M (p, (c', w')) \<and>
    (\<not> snoop_lock c \<longrightarrow> (\<exists>b. x = Inr b) \<and> \<not> snoop_lock c')"
proof -
  obtain x c' w' where t: "trans_cb M ks js in_kernel d op (c, w) = (x, (c', w'))" by (metis surj_pair)
  from answers_trans [OF assms(1), of "(c, w)" ks js in_kernel d op] assms(2)
  have "snoop_reach M (p, (c', w'))" "snoop_lock c' = snoop_lock c" "x = Inl Blocked \<longrightarrow> snoop_lock c"
    by (simp_all add: t answers_def leads_def)
  with trans_outcome [of M ks js in_kernel d op "(c, w)"] t show ?thesis by auto
qed

text \<open>
  C24: A request for a VLAN that does nothing but turn static router ports on, all of them members of
  the VLAN, never loses one: when the lock is free it succeeds and has tried, port by port in their
  order, to write \<^verbatim>\<open>2\<close> to the port's file and nothing else; exactly the ports whose file could not be
  written are added to the cache, where they wait for the next poll.
\<close>
theorem static_ports_not_lost:
  assumes "only_mrouters d vid xs" "cps_get_vlan M (ById (CInt vid)) w = v # vs" "turns_on op"
    and "\<not> snoop_lock c" "map (\<lambda>x. get_if_name v x vid) xs = map Some ports"
    and "write_ports M (v_name v) ports w = (failed, w')"
  shows "\<exists>st. handle_configs_fs M ks d op (c, w) = (Inr True, (c\<lparr>static_mrouter_set := st\<rparr>, w')) \<and>
    mr_key ` set st = mr_key ` set (static_mrouter_set c) \<union> {(v_name v, remove_ifname_tag i) | i. i \<in> set failed}"
  using mrouters_fs_on [OF assms(3-6)] only_mrouters_fs [OF assms(1), of M "(c, w)" v vs ks op] assms(2)
  by fastforce

text \<open>
  Deleting static router ports stops at the first port that is no member of the VLAN and reports
  success: when that is the first port, no file is written and no port is taken out of the cache.
\<close>
theorem delete_stops_at_missing_port:
  assumes "only_mrouters d vid (x # xs)" "cps_get_vlan M (ById (CInt vid)) w = v # vs" "get_if_name v x vid = None"
  shows "handle_configs_fs M ks d ''delete'' (c, w) = (Inr True, (c, w))"
  using only_mrouters_fs [OF assms(1), of M "(c, w)" v vs ks "''delete''"] assms(2,3) by simp

text \<open>
  A request that enables or disables MLD snooping globally, without the attribute of IGMP, is
  refused and does nothing, because the handler reads the attribute of IGMP.
\<close>
theorem mld_global_refused:
  assumes "d_global d Igmp = None" "d_global d Mld = Some n"
  shows "trans_cb M ks js True d op s = (Inr False, s)"
  using assms by (simp add: trans_cb_def is_ip_link_snoop_cmd_supported_def handle_configs_fs_def either_def
      handle_rules_def catch_def)

text \<open>
  Installing or removing the rules of a chain runs exactly the commands for the rules that the
  listing lacks or has, in their order, and succeeds when all of them do.
\<close>
theorem ebtables_exactly_needed:
  assumes "m_popen M (split_ws (''ebtables -t '' @ table @ '' -L '' @ chain)) w = ((rc, out), w1)"
    and "quiet M (''ebtables -t '' @ table @ '' -I '' @ chain) rs" "quiet M (''ebtables -t '' @ table @ '' -D '' @ chain) rs"
  shows "add_ebtable_rules M table chain rs w =
      mrun_each M (map (\<lambda>r. split_ws ((''ebtables -t '' @ table @ '' -I '' @ chain) @ r))
        (filter (\<lambda>r. r \<notin> set (map rstrip out)) rs)) w1 \<and>
    remove_ebtables_rules M table chain rs w =
      mrun_each M (map (\<lambda>r. split_ws ((''ebtables -t '' @ table @ '' -D '' @ chain) @ r))
        (filter (\<lambda>r. r \<in> set (map rstrip out)) rs)) w1"
proof -
  have read: "read_ebtable_rules M table chain w = (map rstrip out, w1)"
    using assms(1) by (simp add: read_ebtable_rules_def mrun_def)
  show ?thesis
    unfolding add_ebtable_rules_def remove_ebtables_rules_def read prod.case
      ebt_loop_each [OF assms(2)] ebt_loop_each [OF assms(3)] by simp
qed

text \<open>
  Once a group without an interface has been seen, no later group of the request has its
  interface published, although it has one.
\<close>
theorem route_interface_lost:
  assumes "sg_group g = Some a" "sg_if g = None"
    and "parse_snoop_routes M v vid op igmp ((key, g) # gs) True pub = Inr (Some pub')"
  shows "map_of pub' [''group'', k, ''interface''] = map_of pub [''group'', k, ''interface'']"
  using assms by (auto simp: Let_def try_bind_Inr update_conv' dest!: routes_without_oif split: option.splits)

text \<open>
  Disabling snooping globally reports success although the rule that redirects the packets is
  still there: the results of the \<^verbatim>\<open>iptables\<close> commands are overwritten.
\<close>
theorem remove_chain_hides_failure:
  assumes "mrun_ok M (split_ws (ipt_cmd igmp @ ''raw '' @ '' -C '' @ preroute_rule igmp)) w = (True, w1)"
    and "mrun_ok M (split_ws (ipt_cmd igmp @ ''raw '' @ '' -D '' @ preroute_rule igmp)) w1 = (False, w2)"
    and "remove_ebtables_rules M '' nat '' '' POSTROUTING '' (global_ebtable_rule igmp) w2 = (True, w3)"
    and "snoop_bridge_nf M igmp False w3 = (True, w4)"
  shows "snoop_update_global_rules M igmp 0 w = (True, w4)"
  using assms by (simp add: snoop_update_global_rules_def snoop_remove_rule_chain_def)

text \<open>
  The address of the querier is looked up in the namespace that is named like the bridge: when
  there is none, the state of a bridge never reports a querier, whatever the kernel says.
\<close>
theorem querier_never_reported:
  assumes "no_namespace E br" "br \<noteq> ''default''"
    and "get_igmp_snooping_state M E v br use_iplink w = (Inr (Some st), w')"
  shows "map_of st ''querier'' = None"
proof -
  obtain attrs w1 where "state_loop E v br attrs [] w1 = (Inr st, w')"
    using assms(3) by (auto simp: get_igmp_snooping_state_def and_then_def split: prod.splits option.splits sum.splits)
  from state_loop_no_querier [OF assms(1,2) this] show ?thesis by (simp add: map_of_eq_None_iff)
qed

text \<open>
  C26: A get that succeeds adds exactly one object for each VLAN, in their order, each with the routes
  of the interface of its VLAN, and keeps what was in the list before.
\<close>
theorem get_reports_every_vlan:
  assumes "get_igmp_snooping M E rpath v use_iplink vid (resp, w) = (Inr True, (resp', w'))"
  shows "\<exists>m routes es. get_vlan_mapping M vid w = Inr m \<and>
    fst (get_igmp_snooping_route M (route_type v) (Option.bind vid (map_of m)) w) = Inr (Some routes) \<and>
    resp' = resp @ es \<and> list_all2 (reports rpath routes) m es"
proof -
  have r: "get_igmp_snooping_int M E rpath v use_iplink vid (resp, w) = (Inr True, (resp', w'))"
    using assms unfolding get_igmp_snooping_def by (rule catch_run) simp_all
  have b: "(case vid of None \<Rightarrow> None | Some i \<Rightarrow> map_of m i) = Option.bind vid (map_of m)" for m :: "(int \<times> string) list"
    by (cases vid) simp_all
  from r obtain m routes w1 where "get_vlan_mapping M vid w = Inr m"
    "get_igmp_snooping_route M (route_type v) (Option.bind vid (map_of m)) w = (Inr (Some routes), w1)"
    "snooping_elems M E rpath v use_iplink routes m (resp, w1) = (Inr True, (resp', w'))"
    unfolding get_igmp_snooping_int_def b by (auto split: sum.splits prod.splits option.splits if_splits)
  then show ?thesis using snooping_elems_all by fastforce
qed

section \<open>Examples\<close>

lemma requests_answered_witness:
  "\<exists>b c' w'. trans_cb (one_bridge (Some 100) [] True) [] [] True no_data ''create'' (snoop_init, []) = (Inr b, (c', w')) \<and>
     \<not> snoop_lock c'"
proof -
  have "addresses_return (one_bridge (Some 100) [] True)" by (simp add: addresses_return_def one_bridge_def)
  from requests_answered [OF this snoop_start [where w = "[]"], where ks = "[]" and js = "[]" and in_kernel = True
      and d = no_data and op = "''create''"]
  show ?thesis by (auto simp: snoop_init_def)
qed

text \<open>A VLAN with two ports, one of which has a file that can be written.\<close>

definition two_ports :: "string list mext" where
  "two_ports = half_writable\<lparr>cps_get_vlan := (\<lambda>_ _. [\<lparr>v_name = ''br1'', v_id = Some 100, v_tagged = None,
     v_untagged = Some [''e1'', ''e2'']\<rparr>]),
     m_write := (\<lambda>path val w. (path = brif_path ''br1'' ''e1'', w @ [val]))\<rparr>"

definition ports_request :: "string list \<Rightarrow> mdata" where
  "ports_request xs = no_data\<lparr>d_vlan_id := (\<lambda>_. Some 100), d_mrouters := (\<lambda>_. Some xs)\<rparr>"

lemma ports_request_only: "only_mrouters (ports_request xs) 100 xs"
  by (simp add: only_mrouters_def ports_request_def no_data_def either_def)

lemma static_ports_not_lost_witness:
  "\<exists>st. handle_configs_fs two_ports [] (ports_request [''e1'', ''e2'']) ''create'' (snoop_init, []) =
      (Inr True, (snoop_init\<lparr>static_mrouter_set := st\<rparr>, [''2'', ''2''])) \<and> mr_key ` set st = {(''br1'', ''e2'')}"
proof -
  define v where "v = \<lparr>v_name = ''br1'', v_id = Some 100, v_tagged = None, v_untagged = Some [''e1'', ''e2'']\<rparr>"
  have vl: "cps_get_vlan two_ports (ById (CInt 100)) [] = v # []" by (simp add: two_ports_def v_def)
  have on: "turns_on ''create''" by (simp add: turns_on_def)
  have lk: "\<not> snoop_lock snoop_init" by (simp add: snoop_init_def)
  have mem: "map (\<lambda>x. get_if_name v x 100) [''e1'', ''e2''] = map Some [''e1'', ''e2'']" unfolding v_def by code_simp
  have wr: "write_ports two_ports (v_name v) [''e1'', ''e2''] [] = ([''e2''], [''2'', ''2''])" unfolding v_def by code_simp
  have "remove_ifname_tag ''e2'' = ''e2''" by code_simp
  with static_ports_not_lost [OF ports_request_only vl on lk mem wr, of "[]"] show ?thesis
    by (simp add: snoop_init_def v_def)
qed

lemma delete_stops_at_missing_port_witness:
  "handle_configs_fs two_ports [] (ports_request [''e9'', ''e1'']) ''delete'' (snoop_init, []) = (Inr True, (snoop_init, []))"
  by (rule delete_stops_at_missing_port [OF ports_request_only, where v = "\<lparr>v_name = ''br1'', v_id = Some 100,
        v_tagged = None, v_untagged = Some [''e1'', ''e2'']\<rparr>" and vs = "[]"])
    (simp_all add: two_ports_def get_if_name_def lists_port_def)

lemma mld_global_refused_witness:
  "trans_cb two_ports [] [] True (no_data\<lparr>d_global := (\<lambda>q. if q = Mld then Some 1 else None)\<rparr>) ''set'' (snoop_init, []) =
    (Inr False, (snoop_init, []))"
  by (rule mld_global_refused) simp_all

lemma ebtables_exactly_needed_witness:
  "add_ebtable_rules (one_bridge (Some 100) [] True) '' nat '' '' POSTROUTING '' [''-j ACCEPT''] [] =
    mrun_each (one_bridge (Some 100) [] True) [[''ebtables'', ''-t'', ''nat'', ''-I'', ''POSTROUTING'', ''-j'', ''ACCEPT'']] []"
proof -
  have l: "m_popen (one_bridge (Some 100) [] True) (split_ws (''ebtables -t '' @ '' nat '' @ '' -L '' @ '' POSTROUTING '')) [] =
    ((0, []), [])" by (simp add: one_bridge_def)
  have q: "quiet (one_bridge (Some 100) [] True) pre rs" for pre rs by (simp add: quiet_def one_bridge_def)
  have s: "split_ws ''ebtables -t  nat  -I  POSTROUTING -j ACCEPT'' =
    [''ebtables'', ''-t'', ''nat'', ''-I'', ''POSTROUTING'', ''-j'', ''ACCEPT'']" by code_simp
  show ?thesis
    using ebtables_exactly_needed [OF l q q, of "[''-j ACCEPT'']"] by (simp add: s)
qed

definition route_request :: "(string \<times> sgroup) list" where
  "route_request = [(''0'', \<lparr>sg_group = Some (CStr ''224.1.1.1''), sg_if = None, sg_source = None\<rparr>),
     (''1'', \<lparr>sg_group = Some (CStr ''224.1.1.2''), sg_if = Some ''e1'', sg_source = None\<rparr>)]"

lemma route_interface_lost_witness:
  "\<exists>pub. parse_snoop_routes two_ports \<lparr>v_name = ''br1'', v_id = Some 100, v_tagged = None, v_untagged = Some [''e1'', ''e2'']\<rparr>
      100 ''create'' True route_request True [] = Inr (Some pub) \<and>
    map_of pub [''group'', ''1'', ''interface''] = None"
proof -
  obtain pub where p: "parse_snoop_routes two_ports \<lparr>v_name = ''br1'', v_id = Some 100, v_tagged = None,
      v_untagged = Some [''e1'', ''e2'']\<rparr> 100 ''create'' True route_request True [] = Inr (Some pub)"
    by (simp add: route_request_def two_ports_def half_writable_def one_bridge_def addr_text_def is_ip_addr_def)
  from route_interface_lost [OF _ _ p [unfolded route_request_def], of "CStr ''224.1.1.1''" "''1''"] p
  show ?thesis by simp
qed

text \<open>A system whose deletions fail.\<close>

definition no_deletion :: "string list mext" where
  "no_deletion = (one_bridge (Some 100) [] True)\<lparr>m_popen := (\<lambda>cmd w. ((if ''-D'' \<in> set cmd then 1 else 0, []), w))\<rparr>"

lemma remove_chain_hides_failure_witness:
  "snoop_update_global_rules no_deletion True 0 [] = (True, [''/proc/sys/net/bridge/bridge-nf-call-iptables''])"
  by (rule remove_chain_hides_failure [where ?w1.0 = "[]" and ?w2.0 = "[]" and ?w3.0 = "[]"]) code_simp+

text \<open>A system without namespaces, whose files all hold \<^verbatim>\<open>1\<close>.\<close>

definition no_netns :: "string list ext" where
  "no_netns = \<lparr>popen = (\<lambda>cmd w. ((if take 3 cmd = [''/sbin/ip'', ''netns'', ''exec''] then 1 else 0, []), w)),
     read_file = (\<lambda>_ _. None), os_unlink = (\<lambda>_ w. (True, w)), os_symlink = (\<lambda>_ _ w. (True, w)),
     os_makedirs = (\<lambda>_ w. (True, w)), rmtree = (\<lambda>_ w. (True, w)),
     cidr_packed = (\<lambda>_. Inl AddrFormatError), broadcast = (\<lambda>_. Inr None),
     getservbyname = (\<lambda>_. None), mgmt_mac = (\<lambda>_. ''''), virtual_network_mac = (\<lambda>_. ''''), vrf_mac = (\<lambda>_. '''')\<rparr>"

definition all_ones :: "string list \<Rightarrow> string list mext" where
  "all_ones db = (one_bridge (Some 100) db True)\<lparr>m_read := (\<lambda>_ _. Some [''1''])\<rparr>"

lemma no_netns_no_namespace: "no_namespace no_netns br"
  by (simp add: no_namespace_def no_netns_def netns_exec_def iplink_cmd_def)

lemma one_state:
  "\<exists>st. get_igmp_snooping_state (all_ones db) no_netns IPv4 ''br1'' False [] = (Inr (Some st), []) \<and>
     map_of st ''enable'' = Some (CInt 1)"
proof -
  have "get_igmp_snooping_state (all_ones []) no_netns IPv4 ''br1'' False [] =
     (Inr (Some [(''enable'', CInt 1),
       (''last-member-query-interval/last-member-query-interval-basic/last-member-query-interval-basic'', CInt 0),
       (''query-interval/query-interval-basic/query-interval-basic'', CInt 0),
       (''query-max-response-time/query-max-response-time-basic/query-max-response-time-basic'', CInt 0),
       (''mrouter-aging-time'', CInt 0)]), [])" by code_simp
  moreover have "get_igmp_snooping_state (all_ones db) no_netns IPv4 ''br1'' False [] =
      get_igmp_snooping_state (all_ones []) no_netns IPv4 ''br1'' False []"
    by (simp add: get_igmp_snooping_state_def kernel_to_yang_map_def all_ones_def)
  ultimately show ?thesis by simp
qed

lemma querier_never_reported_witness:
  "\<exists>st w'. get_igmp_snooping_state (all_ones []) no_netns IPv4 ''br1'' False [] = (Inr (Some st), w') \<and>
     map_of st ''enable'' = Some (CInt 1) \<and> map_of st ''querier'' = None"
proof -
  obtain st where s: "get_igmp_snooping_state (all_ones []) no_netns IPv4 ''br1'' False [] = (Inr (Some st), [])"
    "map_of st ''enable'' = Some (CInt 1)" using one_state by blast
  from querier_never_reported [OF no_netns_no_namespace _ s(1)] s show ?thesis by auto
qed

lemma get_reports_every_vlan_witness:
  "\<exists>es w'. get_igmp_snooping (all_ones tagged_db) no_netns ''root/'' IPv4 False None ([], []) = (Inr True, (es, w')) \<and>
     map fst es = [100]"
proof -
  have "fst (get_igmp_snooping (all_ones tagged_db) no_netns ''root/'' IPv4 False None ([], [])) = Inr True" by code_simp
  then obtain es w' where g: "get_igmp_snooping (all_ones tagged_db) no_netns ''root/'' IPv4 False None ([], []) = (Inr True, (es, w'))"
    by (metis prod.collapse)
  have m: "get_vlan_mapping (all_ones tagged_db) None [] = Inr [(100, ''br1'')]" by code_simp
  from get_reports_every_vlan [OF g] m obtain routes where "list_all2 (reports ''root/'' routes) [(100, ''br1'')] es" by auto
  then have "map fst es = [100]" by (auto simp: list_all2_Cons1 reports_def)
  with g show ?thesis by simp
qed

end
