(* ===== verification/BaseVrf.thy ===== *)
theory BaseVrf
  imports Incoming Outgoing
begin

text \<open>
  \<^verbatim>\<open>scripts/bin/base_vrf.py\<close>, the daemon for namespaces and their IP services: the callbacks it
  registers, the thread for leaked routes, and what its main program does before and after it
  serves requests.

  A request is a record with one optional field for each attribute; a value has the type of its
  YANG leaf. An address is a Python string: either the bytes of the address or their hexadecimal
  digits, so it is a list of bytes here. \<open>_vrf_mutex\<close> is a plain lock: a callback that leaves by
  an exception does not release it, and who finds it locked waits forever, which is the outcome
  \<open>Blocked\<close>. What is only logged is left out, unless the logging itself raises.
\<close>

section \<open>The state of the daemon\<close>

text \<open>
  \<open>_vrf_mutex\<close>, \<open>_vrf_default_rule\<close>, the caches of \<^verbatim>\<open>dn_base_vrf_svcs_config.py\<close> and the state of
  \<^verbatim>\<open>dn_base_vrf_tool.py\<close>.
\<close>

record 'w vrf_svc =
  sv_lock :: bool
  sv_rules :: "(string \<times> int list) list"
  sv_in :: in_cache
  sv_out :: out_cache
  sv_tool :: "'w tool"

definition svc_init :: "'w \<Rightarrow> 'w vrf_svc" where
  "svc_init w = \<lparr>sv_lock = False, sv_rules = [], sv_in = cache_init, sv_out = cache_init, sv_tool = tool_init w\<rparr>"

definition on_in :: "('w in_state \<Rightarrow> ('a, 'w in_state) outcome) \<Rightarrow> 'w vrf_svc \<Rightarrow> ('a, 'w vrf_svc) outcome" where
  "on_in f s = (case f (sv_in s, sv_tool s) of (x, (c, t)) \<Rightarrow> (x, s\<lparr>sv_in := c, sv_tool := t\<rparr>))"

definition on_out :: "('w out_state \<Rightarrow> ('a, 'w out_state) outcome) \<Rightarrow> 'w vrf_svc \<Rightarrow> ('a, 'w vrf_svc) outcome" where
  "on_out f s = (case f (sv_out s, sv_tool s) of (x, (c, t)) \<Rightarrow> (x, s\<lparr>sv_out := c, sv_tool := t\<rparr>))"

definition on_tool :: "('w tool \<Rightarrow> ('a, 'w tool) outcome) \<Rightarrow> 'w vrf_svc \<Rightarrow> ('a, 'w vrf_svc) outcome" where
  "on_tool f s = (case f (sv_tool s) of (x, t) \<Rightarrow> (x, s\<lparr>sv_tool := t\<rparr>))"

text \<open>\<open>acquire\<close>, the body of the callback, \<open>release\<close>.\<close>

definition locked :: "('w vrf_svc \<Rightarrow> ('a, 'w vrf_svc) outcome) \<Rightarrow> 'w vrf_svc \<Rightarrow> ('a, 'w vrf_svc) outcome" where
  "locked f s =
     (if sv_lock s then (Inl Blocked, s)
      else and_then (f (s\<lparr>sv_lock := True\<rparr>)) (\<lambda>a s1. (Inr a, s1\<lparr>sv_lock := False\<rparr>)))"

text \<open>
  What a callback answers: whether it succeeded, and what it makes of \<^verbatim>\<open>params['change']\<close>.
\<close>

datatype reply = Unchanged | Id_added int | New_object "(string \<times> attr_val) list"

type_synonym answer = "bool \<times> reply"

definition refused :: answer where
  "refused = (False, Unchanged)"

definition agreed :: answer where
  "agreed = (True, Unchanged)"

section \<open>Default rules\<close>

definition default_acl_args :: "address_family \<Rightarrow> in_args" where
  "default_acl_args f = in_defaults\<lparr>a_src_ip := Some (any_ip f), a_src_prefix_len := Some 0,
     a_high_prio := True, a_in_intf := Some ''vdst-nsid+''\<rparr>"

text \<open>\<open>create_vrf_default_rules\<close>; the identifiers are appended to the list of the namespace.\<close>

fun create_vrf_default_rules ::
  "'w ext \<Rightarrow> string \<Rightarrow> address_family list \<Rightarrow> 'w vrf_svc \<Rightarrow> (bool, 'w vrf_svc) outcome" where
  "create_vrf_default_rules E vrf [] s = (Inr True, s)"
| "create_vrf_default_rules E vrf (f # fs) s =
     and_then (on_in (process_vrf_svcs_rule_add E (int_of_rule_type RULE_TYPE_ACL) vrf
         (int_of_action RULE_ACTION_ALLOW) (int_of_af f) (default_acl_args f)) s) (\<lambda>k s1.
       (case k of
          None \<Rightarrow> (Inr False, s1)
        | Some i \<Rightarrow>
            create_vrf_default_rules E vrf fs
              (s1\<lparr>sv_rules := AList.update vrf
                 ((case map_of (sv_rules s1) vrf of None \<Rightarrow> [] | Some ids \<Rightarrow> ids) @ [i]) (sv_rules s1)\<rparr>)))"

definition loopback_ip :: packed where
  "loopback_ip = [127, 0, 0, 1]"

definition default_lo_args :: in_args where
  "default_lo_args = in_defaults\<lparr>a_src_ip := Some loopback_ip, a_src_prefix_len := Some 32,
     a_dst_ip := Some loopback_ip, a_dst_prefix_len := Some 32, a_high_prio := True, a_in_intf := Some ''lo''\<rparr>"

definition create_default_lo_pkts_rule :: "'w ext \<Rightarrow> 'w vrf_svc \<Rightarrow> (int option, 'w vrf_svc) outcome" where
  "create_default_lo_pkts_rule E =
     on_in (process_vrf_svcs_rule_add E (int_of_rule_type RULE_TYPE_IP) ''default''
       (int_of_action RULE_ACTION_ALLOW) (int_of_af AF_INET) default_lo_args)"

section \<open>Namespaces\<close>

text \<open>\<^verbatim>\<open>if vrf_name not in _vrf_default_rule: ...\<close>; a failure is only logged.\<close>

definition ensure_default_rules :: "'w ext \<Rightarrow> string \<Rightarrow> 'w vrf_svc \<Rightarrow> (unit, 'w vrf_svc) outcome" where
  "ensure_default_rules E vrf s =
     (if map_of (sv_rules s) vrf \<noteq> None then (Inr (), s)
      else
        and_then (create_vrf_default_rules E vrf [AF_INET, AF_INET6]
            (s\<lparr>sv_rules := AList.update vrf [] (sv_rules s)\<rparr>)) (\<lambda>_ s1. (Inr (), s1)))"

fun delete_rules :: "'w ext \<Rightarrow> int list \<Rightarrow> 'w vrf_svc \<Rightarrow> (unit, 'w vrf_svc) outcome" where
  "delete_rules E [] s = (Inr (), s)"
| "delete_rules E (k # ks) s =
     and_then (on_in (process_vrf_svcs_rule_del_by_id E k) s) (\<lambda>_ s1. delete_rules E ks s1)"

definition drop_default_rules :: "'w ext \<Rightarrow> string \<Rightarrow> 'w vrf_svc \<Rightarrow> (unit, 'w vrf_svc) outcome" where
  "drop_default_rules E vrf s =
     (case map_of (sv_rules s) vrf of
        None \<Rightarrow> (Inr (), s)
      | Some ids \<Rightarrow>
          and_then (delete_rules E ids s) (\<lambda>_ s1. (Inr (), s1\<lparr>sv_rules := AList.delete vrf (sv_rules s1)\<rparr>)))"

definition create_vrf :: "'w ext \<Rightarrow> string \<Rightarrow> int \<Rightarrow> 'w vrf_svc \<Rightarrow> (bool, 'w vrf_svc) outcome" where
  "create_vrf E vrf vrf_id s =
     and_then (on_in (process_vrf_svcs_clear_rules E (Some vrf)) s) (\<lambda>_ s1.
     and_then (on_tool (process_vrf_config E True vrf vrf_id) s1) (\<lambda>ok s2.
       if \<not> ok then (Inr False, s2)
       else
         and_then (ensure_default_rules E vrf s2) (\<lambda>_ s3.
         and_then (ensure_default_rules E ''default'' s3) (\<lambda>_ s4. (Inr True, s4)))))"

definition remove_vrf :: "'w ext \<Rightarrow> string \<Rightarrow> int \<Rightarrow> 'w vrf_svc \<Rightarrow> (bool, 'w vrf_svc) outcome" where
  "remove_vrf E vrf vrf_id s =
     and_then (drop_default_rules E vrf s) (\<lambda>_ s1.
     and_then (if map fst (sv_rules s1) = [''default''] then drop_default_rules E ''default'' s1 else (Inr (), s1))
       (\<lambda>_ s2. on_tool (process_vrf_config E False vrf vrf_id) s2))"

text \<open>
  The handler \<^verbatim>\<open>except Exception\<close> of the two callbacks below builds its message by adding a
  dictionary to a string, so it raises \<open>TypeError\<close> itself.
\<close>

definition failing_handler :: "('a, 's) outcome \<Rightarrow> ('a, 's) outcome" where
  "failing_handler m =
     (case m of (Inl e, s) \<Rightarrow> (Inl (if e = Blocked then Blocked else TypeError), s) | (Inr a, s) \<Rightarrow> (Inr a, s))"

definition set_vrf_cb_int ::
  "'w ext \<Rightarrow> string \<Rightarrow> string option \<Rightarrow> int option \<Rightarrow> 'w vrf_svc \<Rightarrow> (bool, 'w vrf_svc) outcome" where
  "set_vrf_cb_int E operation name ident s =
     (case (name, ident) of
        (Some vrf, Some vrf_id) \<Rightarrow>
          failing_handler
            (if operation = ''create'' then create_vrf E vrf vrf_id s
             else if operation = ''delete'' then remove_vrf E vrf vrf_id s
             else (Inr False, s))
      | _ \<Rightarrow> (Inr False, s))"

definition set_vrf_cb ::
  "'w ext \<Rightarrow> string \<Rightarrow> string option \<Rightarrow> int option \<Rightarrow> 'w vrf_svc \<Rightarrow> (bool, 'w vrf_svc) outcome" where
  "set_vrf_cb E operation name ident = locked (set_vrf_cb_int E operation name ident)"

text \<open>
  Binding an interface. For the management namespace the type is not read, and the variable
  still holds the name of the attribute.
\<close>

definition set_vrf_intf_cb_int ::
  "'w ext \<Rightarrow> string \<Rightarrow> string option \<Rightarrow> string option \<Rightarrow> string option \<Rightarrow> 'w vrf_svc \<Rightarrow>
   (answer, 'w vrf_svc) outcome" where
  "set_vrf_intf_cb_int E operation name vrf_attr type_attr s =
     (case (name, vrf_attr) of
        (Some nm, Some vrf) \<Rightarrow>
          (case (if vrf \<noteq> ''management'' then type_attr else Some ''if/interfaces/interface/type'') of
             None \<Rightarrow> (Inr refused, s)
           | Some ty \<Rightarrow>
               if operation = ''set'' then (Inr refused, s)
               else
                 (let op = (operation \<noteq> ''delete'')
                  in failing_handler
                       (and_then (on_tool (process_vrf_intf_config E op nm vrf (Some ty)) s)
                          (\<lambda>(ok, v_name, v_index, v_mac) s1.
                            (Inr (if \<not> ok then refused
                                  else if \<not> op then agreed
                                  else (True, New_object
                                    [(''if/interfaces/interface/name'', VStr nm),
                                     (''ni/if/interfaces/interface/bind-ni-name'', VStr vrf),
                                     (''vrf-mgmt/ni/if/interfaces/interface/ifname'', VStr v_name),
                                     (''vrf-mgmt/ni/if/interfaces/interface/ifindex'', VInt v_index),
                                     (''vrf-mgmt/ni/if/interfaces/interface/mac-addr'', opt_val VStr v_mac)])), s1)))))
      | _ \<Rightarrow> (Inr refused, s))"

definition set_vrf_intf_cb ::
  "'w ext \<Rightarrow> string \<Rightarrow> string option \<Rightarrow> string option \<Rightarrow> string option \<Rightarrow> 'w vrf_svc \<Rightarrow>
   (answer, 'w vrf_svc) outcome" where
  "set_vrf_intf_cb E operation name vrf_attr type_attr =
     locked (set_vrf_intf_cb_int E operation name vrf_attr type_attr)"

section \<open>Addresses in requests\<close>

definition chars_of :: "packed \<Rightarrow> string" where
  "chars_of bs = map (\<lambda>b. char_of (unat b)) bs"

text \<open>\<open>binascii.unhexlify(ip)\<close>, or \<open>ip\<close> when that is a \<open>TypeError\<close>.\<close>

definition unhexlified :: "packed \<Rightarrow> packed" where
  "unhexlified ip = (case unhexlify (chars_of ip) of Inl _ \<Rightarrow> ip | Inr bs \<Rightarrow> bs)"

text \<open>The loop over the address families: the first one that fits and the text of the address.\<close>

fun fitting_af :: "int list \<Rightarrow> packed \<Rightarrow> (int \<times> string) option" where
  "fitting_af [] ip = None"
| "fitting_af (a # rest) ip =
     (let ip1 = unhexlified ip
      in (case (case af_of_int a of None \<Rightarrow> Inl ValueError | Some f \<Rightarrow> inet_ntop f ip1) of
            Inr s \<Rightarrow> Some (a, s)
          | Inl _ \<Rightarrow> fitting_af rest ip1))"

definition normalize_ip_with_prefix ::
  "(string \<Rightarrow> exn + packed) \<Rightarrow> int option \<Rightarrow> packed \<Rightarrow> int option \<Rightarrow> exn + (int \<times> packed \<times> int) option" where
  "normalize_ip_with_prefix cidr fam ip pfx_len =
     (case fitting_af (case fam of None \<Rightarrow> [2, 10] | Some a \<Rightarrow> [a]) ip of
        None \<Rightarrow> Inr None
      | Some (a, s) \<Rightarrow>
          (let n = (case pfx_len of None \<Rightarrow> if a = 2 then 32 else 128 | Some k \<Rightarrow> k)
           in (case cidr (s @ ''/'' @ dec n) of
                 Inr b \<Rightarrow> Inr (Some (a, b, n))
               | Inl e \<Rightarrow> if e = AddrFormatError then Inr None else Inl e)))"

text \<open>The same for an attribute that may be missing; a missing one is left as it is.\<close>

definition normalize_attr ::
  "(string \<Rightarrow> exn + packed) \<Rightarrow> int option \<Rightarrow> packed option \<Rightarrow> int option \<Rightarrow>
   exn + (int option \<times> packed option \<times> int option) option" where
  "normalize_attr cidr fam ip pfx_len =
     (case ip of
        None \<Rightarrow> Inr (Some (fam, None, pfx_len))
      | Some b \<Rightarrow>
          try_bind (normalize_ip_with_prefix cidr fam b pfx_len) (\<lambda>r.
            Inr (map_option (\<lambda>(a, c, n). (Some a, Some c, Some n)) r)))"

text \<open>\<open>check_attr_list\<close>: whether all attributes have a value, and the ones that have none.\<close>

definition check_attr_list :: "string list \<Rightarrow> (string \<times> attr_val) list \<Rightarrow> bool \<times> string list" where
  "check_attr_list attrs params =
     (let missed = filter (\<lambda>a. case map_of params a of None \<Rightarrow> True | Some v \<Rightarrow> v = VNone) attrs
      in (missed = [], missed))"

section \<open>Requests for incoming services\<close>

record in_req =
  q_af :: "int option"
  q_vrf :: "string option"
  q_protocol :: "int option"
  q_dst_port :: "int option"
  q_low_dst_port :: "int option"
  q_high_dst_port :: "int option"
  q_action :: "int option"
  q_src_ip :: "packed option"
  q_src_prefix_len :: "int option"
  q_dst_ip :: "packed option"
  q_dst_prefix_len :: "int option"
  q_in_intf :: "string option"
  q_seq_num :: "int option"
  q_id :: "int option"

text \<open>\<open>in_param_list\<close>.\<close>

definition in_param_list :: "in_req \<Rightarrow> (string \<times> attr_val) list" where
  "in_param_list q =
     [(''af'', opt_val VInt (q_af q)), (''ni-name'', opt_val VStr (q_vrf q)),
      (''protocol'', opt_val VInt (q_protocol q)), (''dst-port'', opt_val VInt (q_dst_port q)),
      (''lower-dst-port'', opt_val VInt (q_low_dst_port q)),
      (''upper-dst-port'', opt_val VInt (q_high_dst_port q)), (''action'', opt_val VInt (q_action q)),
      (''src-ip'', opt_val VBytes (q_src_ip q)), (''src-prefix-len'', opt_val VInt (q_src_prefix_len q)),
      (''dst-ip'', opt_val VBytes (q_dst_ip q)), (''dst-prefix-len'', opt_val VInt (q_dst_prefix_len q)),
      (''ifname'', opt_val VStr (q_in_intf q)), (''seq-num'', opt_val VInt (q_seq_num q)),
      (''id'', opt_val VInt (q_id q))]"

text \<open>
  The two address checks: the source first, whose address family then holds for the destination.
  \<open>None\<close> when an address is not valid.
\<close>

definition in_normalize :: "(string \<Rightarrow> exn + packed) \<Rightarrow> in_req \<Rightarrow> exn + in_req option" where
  "in_normalize cidr q =
     try_bind (normalize_attr cidr (q_af q) (q_src_ip q) (q_src_prefix_len q)) (\<lambda>r.
       (case r of
          None \<Rightarrow> Inr None
        | Some (fam, src, src_len) \<Rightarrow>
            try_bind (normalize_attr cidr fam (q_dst_ip q) (q_dst_prefix_len q)) (\<lambda>r1.
              Inr (map_option (\<lambda>(fam1, dst, dst_len).
                q\<lparr>q_af := fam1, q_src_ip := src, q_src_prefix_len := src_len,
                  q_dst_ip := dst, q_dst_prefix_len := dst_len\<rparr>) r1))))"

definition in_ports_ok :: "in_req \<Rightarrow> bool" where
  "in_ports_ok q \<longleftrightarrow>
     \<not> (q_low_dst_port q \<noteq> None \<and> q_high_dst_port q = None) \<and>
     \<not> (q_low_dst_port q = None \<and> q_high_dst_port q \<noteq> None) \<and>
     \<not> ((q_low_dst_port q \<noteq> None \<or> q_high_dst_port q \<noteq> None) \<and> q_dst_port q \<noteq> None)"

definition is_vty_acl_config :: "in_req \<Rightarrow> bool" where
  "is_vty_acl_config q \<longleftrightarrow>
     q_dst_port q = None \<or> q_dst_port q = Some 0 \<or> q_src_ip q \<noteq> None \<or>
     (q_low_dst_port q \<noteq> None \<and> q_high_dst_port q \<noteq> None)"

definition in_rule_kind :: "in_req \<Rightarrow> VrfSvcsRuleType" where
  "in_rule_kind q = (if is_vty_acl_config q then RULE_TYPE_ACL else RULE_TYPE_IP)"

definition in_reqd_input :: "in_req \<Rightarrow> string list" where
  "in_reqd_input q =
     (if is_vty_acl_config q then [''ni-name'', ''af'', ''src-ip'', ''src-prefix-len'', ''action'']
      else [''af'', ''ni-name'', ''protocol'', ''dst-port''] @
        (if q_vrf q = Some ''default'' then [''action''] else []))"

definition in_check_rule_input :: "string \<Rightarrow> in_req \<Rightarrow> bool" where
  "in_check_rule_input operation q =
     (if operation = ''delete'' then
        q_id q \<noteq> None \<or> fst (check_attr_list (in_reqd_input q) (in_param_list q))
      else if operation = ''set'' then q_id q \<noteq> None
      else if operation = ''create'' then
        fst (check_attr_list (in_reqd_input q @ [''seq-num'']) (in_param_list q))
      else False)"

text \<open>
  Whether the rule forwards to another namespace: its destination is then the address of the
  \<open>veth\<close> pair and its action DNAT.
\<close>

definition forwards :: "in_req \<Rightarrow> bool" where
  "forwards q \<longleftrightarrow> in_rule_kind q = RULE_TYPE_IP \<and> q_vrf q \<noteq> Some ''default''"

definition veth_target :: "'w ext \<Rightarrow> int \<Rightarrow> string \<Rightarrow> 'w vrf_svc \<Rightarrow> (packed option, 'w vrf_svc) outcome" where
  "veth_target E fam vrf =
     on_tool (\<lambda>t.
       (case af_of_int fam of
          Some f \<Rightarrow> get_veth_ip E f vrf True t
        | None \<Rightarrow> and_then (veth_ip_get E vrf ''default'' True t) (\<lambda>_ t1. (Inr None, t1))))"

definition in_target ::
  "'w ext \<Rightarrow> in_req \<Rightarrow> int \<Rightarrow> string \<Rightarrow> 'w vrf_svc \<Rightarrow> (packed option \<times> int option, 'w vrf_svc) outcome" where
  "in_target E q fam vrf s =
     (if forwards q then
        and_then (veth_target E fam vrf s) (\<lambda>ip s1. (Inr (ip, Some (int_of_action RULE_ACTION_DNAT)), s1))
      else (Inr (q_dst_ip q, q_action q), s))"

text \<open>The keyword arguments of the three calls.\<close>

definition key_args :: "in_req \<Rightarrow> packed option \<Rightarrow> in_args" where
  "key_args q dst = in_defaults\<lparr>a_src_ip := q_src_ip q, a_src_prefix_len := q_src_prefix_len q,
     a_dst_ip := dst, a_dst_prefix_len := q_dst_prefix_len q, a_protocol := q_protocol q,
     a_dst_port := q_dst_port q, a_low_dst_port := q_low_dst_port q,
     a_high_dst_port := q_high_dst_port q, a_in_intf := q_in_intf q\<rparr>"

definition add_args :: "in_req \<Rightarrow> packed option \<Rightarrow> in_args" where
  "add_args q dst =
     (key_args q dst)\<lparr>a_seq_num := (case q_seq_num q of None \<Rightarrow> 0 | Some n \<Rightarrow> n), a_rule_id := q_id q\<rparr>"

definition opt_list :: "('a \<Rightarrow> 'b) \<Rightarrow> 'a option \<Rightarrow> 'b list" where
  "opt_list f x = (case x of None \<Rightarrow> [] | Some a \<Rightarrow> [f a])"

definition set_params :: "in_req \<Rightarrow> param list" where
  "set_params q =
     opt_list P_src_ip (q_src_ip q) @ opt_list P_src_prefix_len (q_src_prefix_len q) @
     opt_list P_protocol (q_protocol q) @ opt_list P_dst_ip (q_dst_ip q) @
     opt_list P_dst_prefix_len (q_dst_prefix_len q) @ opt_list P_dst_port (q_dst_port q) @
     opt_list P_action (q_action q) @ opt_list P_low_dst_port (q_low_dst_port q) @
     opt_list P_high_dst_port (q_high_dst_port q) @ opt_list P_seq_num (q_seq_num q) @
     opt_list P_in_intf (q_in_intf q)"

text \<open>A port needs TCP or UDP; a rule that forwards is not checked.\<close>

definition has_transport :: "in_req \<Rightarrow> bool" where
  "has_transport q \<longleftrightarrow> forwards q \<or> (q_dst_port q = None \<and> q_low_dst_port q = None) \<or>
     q_protocol q = Some (int_of_proto RULE_PROTO_TCP) \<or> q_protocol q = Some (int_of_proto RULE_PROTO_UDP)"

text \<open>
  The operations. The attributes that are matched here are among the required ones; without them
  the rule could not be constructed and the result would be the same. After a failure the code
  formats a message, which may raise a \<open>KeyError\<close>; the callback makes the same answer of it.
\<close>

definition in_create :: "'w ext \<Rightarrow> in_req \<Rightarrow> 'w vrf_svc \<Rightarrow> (answer, 'w vrf_svc) outcome" where
  "in_create E q s =
     (case (q_vrf q, q_af q) of
        (Some vrf, Some fam) \<Rightarrow>
          if \<not> has_transport q then (Inr refused, s)
          else
            and_then (in_target E q fam vrf s) (\<lambda>(dst, act) s1.
              (case act of
                 None \<Rightarrow> (Inr refused, s1)
               | Some a \<Rightarrow>
                   and_then (on_in (process_vrf_svcs_rule_add E (int_of_rule_type (in_rule_kind q)) vrf a fam
                       (add_args q dst)) s1) (\<lambda>k s2.
                     (Inr (case k of None \<Rightarrow> refused | Some i \<Rightarrow> (True, Id_added i)), s2))))
      | _ \<Rightarrow> (Inr refused, s))"

definition in_set :: "'w ext \<Rightarrow> in_req \<Rightarrow> 'w vrf_svc \<Rightarrow> (answer, 'w vrf_svc) outcome" where
  "in_set E q s =
     (case q_id q of
        None \<Rightarrow> (Inr refused, s)
      | Some k \<Rightarrow>
          and_then (on_in (process_vrf_svcs_rule_set E k (set_params q)) s) (\<lambda>ok s1.
            (Inr (if ok then agreed else refused), s1)))"

definition in_delete :: "'w ext \<Rightarrow> in_req \<Rightarrow> 'w vrf_svc \<Rightarrow> (answer, 'w vrf_svc) outcome" where
  "in_delete E q s =
     and_then
       (case q_id q of
          Some k \<Rightarrow> on_in (process_vrf_svcs_rule_del_by_id E k) s
        | None \<Rightarrow>
            (case (q_vrf q, q_af q) of
               (Some vrf, Some fam) \<Rightarrow>
                 and_then (in_target E q fam vrf s) (\<lambda>(dst, act) s1.
                   (case act of
                      None \<Rightarrow> (Inr False, s1)
                    | Some a \<Rightarrow>
                        on_in (process_vrf_svcs_rule_del E (int_of_rule_type (in_rule_kind q)) vrf a fam
                          (key_args q dst)) s1))
             | _ \<Rightarrow> (Inr False, s)))
       (\<lambda>ok s1. (Inr (if ok then agreed else refused), s1))"

definition config_incoming_ip_svcs_int ::
  "'w ext \<Rightarrow> string \<Rightarrow> in_req \<Rightarrow> 'w vrf_svc \<Rightarrow> (answer, 'w vrf_svc) outcome" where
  "config_incoming_ip_svcs_int E operation q0 s =
     (let q1 = (if operation = ''create'' \<and> q_seq_num q0 = None then q0\<lparr>q_seq_num := Some 0\<rparr> else q0)
      in (case in_normalize (cidr_packed E) q1 of
            Inl e \<Rightarrow> (Inl e, s)
          | Inr None \<Rightarrow> (Inr refused, s)
          | Inr (Some q) \<Rightarrow>
              if \<not> in_ports_ok q \<or> \<not> in_check_rule_input operation q then (Inr refused, s)
              else if operation = ''create'' then in_create E q s
              else if operation = ''set'' then in_set E q s
              else if operation = ''delete'' then in_delete E q s
              else (Inr refused, s)))"

definition config_incoming_ip_svcs_cb ::
  "'w ext \<Rightarrow> string \<Rightarrow> in_req \<Rightarrow> 'w vrf_svc \<Rightarrow> (answer, 'w vrf_svc) outcome" where
  "config_incoming_ip_svcs_cb E operation q =
     locked (\<lambda>s. catch refused (config_incoming_ip_svcs_int E operation q s))"

text \<open>
  Reading: every attribute of the filter that has a value is a parameter of the search, with
  normalized addresses.
\<close>

definition in_get_params :: "in_req \<Rightarrow> (attr \<times> attr_val) list" where
  "in_get_params q =
     filter (\<lambda>(_, v). v \<noteq> VNone)
       [(A_af, opt_val VInt (q_af q)), (A_src_ip, opt_val VBytes (q_src_ip q)),
        (A_src_prefix_len, opt_val VInt (q_src_prefix_len q)), (A_dst_ip, opt_val VBytes (q_dst_ip q)),
        (A_dst_prefix_len, opt_val VInt (q_dst_prefix_len q)), (A_protocol, opt_val VInt (q_protocol q)),
        (A_dst_port, opt_val VInt (q_dst_port q)), (A_low_dst_port, opt_val VInt (q_low_dst_port q)),
        (A_high_dst_port, opt_val VInt (q_high_dst_port q)), (A_action, opt_val VInt (q_action q)),
        (A_seq_num, opt_val VInt (q_seq_num q)), (A_in_intf, opt_val VStr (q_in_intf q))]"

definition known_af :: "int option \<Rightarrow> bool" where
  "known_af fam \<longleftrightarrow> fam = None \<or> fam = Some 2 \<or> fam = Some 10"

text \<open>The objects of the answer, or \<open>None\<close> for the answer \<open>False\<close>.\<close>

definition get_incoming_ip_svcs_int ::
  "'w ext \<Rightarrow> in_req \<Rightarrow> 'w vrf_svc \<Rightarrow> ((string \<times> attr_val) list list option, 'w vrf_svc) outcome" where
  "get_incoming_ip_svcs_int E q0 s =
     (if \<not> known_af (q_af q0) then (Inr None, s)
      else
        (case in_normalize (cidr_packed E) q0 of
           Inl e \<Rightarrow> (Inl e, s)
         | Inr None \<Rightarrow> (Inr None, s)
         | Inr (Some q) \<Rightarrow>
             on_in (process_vrf_svcs_rule_get E (q_id q) None (q_vrf q) (in_get_params q)) s))"

definition get_incoming_ip_svcs_cb ::
  "'w ext \<Rightarrow> in_req \<Rightarrow> 'w vrf_svc \<Rightarrow> ((string \<times> attr_val) list list option, 'w vrf_svc) outcome" where
  "get_incoming_ip_svcs_cb E q = locked (\<lambda>s. catch None (get_incoming_ip_svcs_int E q s))"

section \<open>Requests for outgoing services\<close>

record out_req =
  p_vrf :: "string option"
  p_af :: "int option"
  p_public_ip :: "packed option"
  p_source_ip :: "packed option"
  p_protocol :: "int option"
  p_public_port :: "int option"
  p_private_ip :: "packed option"
  p_private_port :: "int option"
  p_id :: "int option"

definition out_param_list :: "out_req \<Rightarrow> (string \<times> attr_val) list" where
  "out_param_list q =
     [(''ni-name'', opt_val VStr (p_vrf q)), (''af'', opt_val VInt (p_af q)),
      (''public-ip'', opt_val VBytes (p_public_ip q)),
      (''outgoing-source-ip'', opt_val VBytes (p_source_ip q)),
      (''protocol'', opt_val VInt (p_protocol q)), (''public-port'', opt_val VInt (p_public_port q)),
      (''private-ip'', opt_val VBytes (p_private_ip q)),
      (''private-port'', opt_val VInt (p_private_port q)), (''id'', opt_val VInt (p_id q))]"

text \<open>The three address checks in their order; the address family of one holds for the next.\<close>

definition out_normalize :: "(string \<Rightarrow> exn + packed) \<Rightarrow> out_req \<Rightarrow> exn + out_req option" where
  "out_normalize cidr q =
     try_bind (normalize_attr cidr (p_af q) (p_public_ip q) None) (\<lambda>r.
       (case r of
          None \<Rightarrow> Inr None
        | Some (f1, public, _) \<Rightarrow>
            try_bind (normalize_attr cidr f1 (p_source_ip q) None) (\<lambda>r1.
              (case r1 of
                 None \<Rightarrow> Inr None
               | Some (f2, source, _) \<Rightarrow>
                   try_bind (normalize_attr cidr f2 (p_private_ip q) None) (\<lambda>r2.
                     Inr (map_option (\<lambda>(f3, private, _).
                       q\<lparr>p_af := f3, p_public_ip := public, p_source_ip := source, p_private_ip := private\<rparr>) r2))))))"

definition out_rule_kind :: "out_req \<Rightarrow> VrfSvcsRuleType" where
  "out_rule_kind q = (if p_source_ip q \<noteq> None then RULE_TYPE_SNAT else RULE_TYPE_OUT_IP)"

definition out_rule_action :: "out_req \<Rightarrow> VrfSvcsRuleAction" where
  "out_rule_action q = (if p_source_ip q \<noteq> None then RULE_ACTION_SNAT else RULE_ACTION_DNAT)"

definition out_reqd_input :: "out_req \<Rightarrow> string list" where
  "out_reqd_input q = [''ni-name'', ''af'', ''public-ip'', ''protocol'', ''public-port''] @
     (if p_source_ip q \<noteq> None then [''outgoing-source-ip''] else [])"

definition out_check_rule_input :: "string \<Rightarrow> out_req \<Rightarrow> bool" where
  "out_check_rule_input operation q =
     (if operation = ''delete'' then
        p_id q \<noteq> None \<or> fst (check_attr_list (out_reqd_input q) (out_param_list q))
      else if operation = ''set'' then False
      else if operation = ''create'' then fst (check_attr_list (out_reqd_input q) (out_param_list q))
      else False)"

text \<open>
  The message that is logged before the operation looks the address family and the protocol up
  in \<open>_af\<close> and \<open>_protocol\<close>, which only knows TCP, UDP and ICMP.
\<close>

definition out_loggable :: "out_req \<Rightarrow> bool" where
  "out_loggable q \<longleftrightarrow> known_af (p_af q) \<and>
     (case p_protocol q of None \<Rightarrow> True | Some p \<Rightarrow> p = 1 \<or> p = 2 \<or> p = 3)"

definition out_args_of :: "out_req \<Rightarrow> out_args" where
  "out_args_of q = out_defaults\<lparr>o_dst_ip := p_public_ip q, o_protocol := p_protocol q,
     o_dst_port := p_public_port q, o_out_src_ip := p_source_ip q, o_private_ip := p_private_ip q,
     o_private_port := p_private_port q\<rparr>"

text \<open>\<open>public\<close> is the attribute as it was given.\<close>

definition out_create :: "'w ext \<Rightarrow> packed option \<Rightarrow> out_req \<Rightarrow> 'w vrf_svc \<Rightarrow> (answer, 'w vrf_svc) outcome" where
  "out_create E public q s =
     (case (p_vrf q, p_af q) of
        (Some vrf, Some fam) \<Rightarrow>
          and_then (on_out (process_vrf_outgoing_svcs_rule_add E (int_of_rule_type (out_rule_kind q)) vrf
              (int_of_action (out_rule_action q)) fam ((out_args_of q)\<lparr>o_rule_id := p_id q\<rparr>)) s)
            (\<lambda>(k, ip, port) s1.
              (Inr (case k of
                      None \<Rightarrow> refused
                    | Some i \<Rightarrow>
                        if out_rule_kind q = RULE_TYPE_SNAT then (True, Id_added i)
                        else
                          (case ip of
                             None \<Rightarrow> refused
                           | Some b \<Rightarrow>
                               (True, New_object
                                 [(''id'', VInt i), (''ni-name'', VStr vrf), (''af'', VInt fam),
                                  (''public-ip'', opt_val VBytes public),
                                  (''protocol'', opt_val VInt (p_protocol q)),
                                  (''public-port'', opt_val VInt (p_public_port q)),
                                  (''private-ip'', VStr (hexlify b)),
                                  (''private-port'', opt_val VInt port)]))), s1))
      | _ \<Rightarrow> (Inr refused, s))"

definition out_delete :: "'w ext \<Rightarrow> out_req \<Rightarrow> 'w vrf_svc \<Rightarrow> (answer, 'w vrf_svc) outcome" where
  "out_delete E q s =
     and_then
       (case p_id q of
          Some k \<Rightarrow> on_out (process_vrf_outgoing_svcs_rule_del_by_id E k) s
        | None \<Rightarrow>
            (case (p_vrf q, p_af q) of
               (Some vrf, Some fam) \<Rightarrow>
                 and_then (on_out (process_vrf_outgoing_svcs_rule_del E (int_of_rule_type (out_rule_kind q)) vrf
                     (int_of_action (out_rule_action q)) fam (out_args_of q)) s)
                   (\<lambda>r s1. (Inr (r = Some True), s1))
             | _ \<Rightarrow> (Inr False, s)))
       (\<lambda>ok s1. (Inr (if ok then agreed else refused), s1))"

definition config_outgoing_ip_svcs_int ::
  "'w ext \<Rightarrow> string \<Rightarrow> out_req \<Rightarrow> 'w vrf_svc \<Rightarrow> (answer, 'w vrf_svc) outcome" where
  "config_outgoing_ip_svcs_int E operation q0 s =
     (case out_normalize (cidr_packed E) q0 of
        Inl e \<Rightarrow> (Inl e, s)
      | Inr None \<Rightarrow> (Inr refused, s)
      | Inr (Some q) \<Rightarrow>
          if \<not> out_check_rule_input operation q then (Inr refused, s)
          else if \<not> out_loggable q then (Inl KeyError, s)
          else if operation = ''create'' then out_create E (p_public_ip q0) q s
          else if operation = ''delete'' then out_delete E q s
          else (Inr refused, s))"

definition config_outgoing_ip_svcs_cb ::
  "'w ext \<Rightarrow> string \<Rightarrow> out_req \<Rightarrow> 'w vrf_svc \<Rightarrow> (answer, 'w vrf_svc) outcome" where
  "config_outgoing_ip_svcs_cb E operation q =
     locked (\<lambda>s. catch refused (config_outgoing_ip_svcs_int E operation q s))"

definition out_get_params :: "out_req \<Rightarrow> (attr \<times> attr_val) list" where
  "out_get_params q =
     filter (\<lambda>(_, v). v \<noteq> VNone)
       [(A_af, opt_val VInt (p_af q)), (A_dst_ip, opt_val VBytes (p_public_ip q)),
        (A_protocol, opt_val VInt (p_protocol q)), (A_dst_port, opt_val VInt (p_public_port q)),
        (A_private_ip, opt_val VBytes (p_private_ip q)),
        (A_private_port, opt_val VInt (p_private_port q)),
        (A_out_src_ip, opt_val VBytes (p_source_ip q))]"

definition get_outgoing_ip_svcs_int ::
  "'w ext \<Rightarrow> out_req \<Rightarrow> 'w vrf_svc \<Rightarrow> ((string \<times> attr_val) list list option, 'w vrf_svc) outcome" where
  "get_outgoing_ip_svcs_int E q0 s =
     (if \<not> known_af (p_af q0) then (Inr None, s)
      else
        (case out_normalize (cidr_packed E) q0 of
           Inl e \<Rightarrow> (Inl e, s)
         | Inr None \<Rightarrow> (Inr None, s)
         | Inr (Some q) \<Rightarrow>
             on_out (process_vrf_outgoing_svcs_rule_get (p_id q) None (p_vrf q) (out_get_params q)) s))"

definition get_outgoing_ip_svcs_cb ::
  "'w ext \<Rightarrow> out_req \<Rightarrow> 'w vrf_svc \<Rightarrow> ((string \<times> attr_val) list list option, 'w vrf_svc) outcome" where
  "get_outgoing_ip_svcs_cb E q = locked (\<lambda>s. catch None (get_outgoing_ip_svcs_int E q s))"

section \<open>Internal bindings and source addresses\<close>

definition get_vrf_intf_cb_int ::
  "string option \<Rightarrow> string option \<Rightarrow> 'w vrf_svc \<Rightarrow> (string option, 'w vrf_svc) outcome" where
  "get_vrf_intf_cb_int src dst s =
     (case (src, dst) of
        (Some v, Some w) \<Rightarrow> (Inr (get_vrf_intf_to_dst_vrf v w (sv_tool s)), s)
      | _ \<Rightarrow> (Inr None, s))"

definition get_vrf_intf_cb ::
  "string option \<Rightarrow> string option \<Rightarrow> 'w vrf_svc \<Rightarrow> (string option, 'w vrf_svc) outcome" where
  "get_vrf_intf_cb src dst = locked (get_vrf_intf_cb_int src dst)"

record src_ip_req =
  r_operation :: "int option"
  r_vrf :: "string option"
  r_af :: "int option"
  r_src_ip :: "packed option"

text \<open>Nothing catches what \<open>unhexlify\<close> and \<open>inet_ntop\<close> raise.\<close>

definition set_vrf_intf_ip_cb_int ::
  "'w ext \<Rightarrow> string \<Rightarrow> src_ip_req \<Rightarrow> 'w vrf_svc \<Rightarrow> (bool, 'w vrf_svc) outcome" where
  "set_vrf_intf_ip_cb_int E operation q s =
     (if operation \<noteq> ''rpc'' then (Inr False, s)
      else
        (case (r_operation q, r_vrf q, r_af q, r_src_ip q) of
           (Some op, Some vrf, Some fam, Some ip) \<Rightarrow>
             if op = 3 then (Inr False, s)
             else
               (case af_of_int fam of
                  None \<Rightarrow> (Inr False, s)
                | Some f \<Rightarrow>
                    and_then (unhexlify (chars_of ip), s) (\<lambda>b s1.
                    and_then (inet_ntop f b, s1) (\<lambda>text s2.
                      on_tool (\<lambda>t. (case process_src_ip_config E vrf (op \<noteq> 2)
                           (case f of AF_INET \<Rightarrow> ''ipv4'' | AF_INET6 \<Rightarrow> ''ipv6'') text t of
                         (ok, t1) \<Rightarrow> (Inr ok, t1))) s2)))
         | _ \<Rightarrow> (Inr False, s)))"

definition set_vrf_intf_ip_cb ::
  "'w ext \<Rightarrow> string \<Rightarrow> src_ip_req \<Rightarrow> 'w vrf_svc \<Rightarrow> (bool, 'w vrf_svc) outcome" where
  "set_vrf_intf_ip_cb E operation q = locked (set_vrf_intf_ip_cb_int E operation q)"

section \<open>Leaked routes\<close>

text \<open>
  One event in the loop of \<open>handle_leaked_rt_event\<close>; \<open>Inl\<close> is an exception that ends the thread.
  Only the lookup of the next hop is done with the lock. An operation that is neither
  \<^verbatim>\<open>create\<close> nor \<^verbatim>\<open>delete\<close> leaves \<^verbatim>\<open>None\<close> in the command, which cannot be run.
\<close>

record leak_event =
  e_operation :: "string option"
  e_dst_vrf :: "string option"
  e_af :: "address_family option"
  e_prefix :: "packed option"
  e_prefix_len :: "int option"
  e_src_vrf :: "string option"

definition handle_leaked_rt_event :: "'w ext \<Rightarrow> leak_event \<Rightarrow> 'w vrf_svc \<Rightarrow> (unit, 'w vrf_svc) outcome" where
  "handle_leaked_rt_event E ev s =
     (case e_operation ev of
        None \<Rightarrow> (Inr (), s)
      | Some operation \<Rightarrow>
          (case (e_dst_vrf ev, e_af ev, e_prefix ev) of
             (Some dst, Some f, Some prefix) \<Rightarrow>
               and_then (unhexlify (chars_of prefix), s) (\<lambda>b s1.
                 (case (e_prefix_len ev, e_src_vrf ev) of
                    (Some len, Some src) \<Rightarrow>
                      and_then (locked (on_tool (veth_ip_get E dst src True)) s1) (\<lambda>r s2.
                        (case r of
                           None \<Rightarrow> (Inr (), s2)
                         | Some (ip4, ip6) \<Rightarrow>
                             if operation \<noteq> ''create'' \<and> operation \<noteq> ''delete'' then (Inl TypeError, s2)
                             else
                               on_tool (\<lambda>t. (Inr (), snd (process_leaked_rt_config E
                                 (if operation = ''create'' then ''add'' else ''del'') f dst
                                 (get_ip_str (Some f) b) len (case f of AF_INET \<Rightarrow> ip4 | AF_INET6 \<Rightarrow> ip6) t))) s2))
                  | _ \<Rightarrow> (Inr (), s1)))
           | _ \<Rightarrow> (Inr (), s)))"

section \<open>Start and stop\<close>

definition daemon_start :: "'w ext \<Rightarrow> 'w vrf_svc \<Rightarrow> (int option, 'w vrf_svc) outcome" where
  "daemon_start E s =
     create_default_lo_pkts_rule E
       (s\<lparr>sv_tool := snd (process_vrf_top_chain_rule E True ''default'' (sv_tool s))\<rparr>)"

definition daemon_stop :: "'w ext \<Rightarrow> int option \<Rightarrow> 'w vrf_svc \<Rightarrow> (unit, 'w vrf_svc) outcome" where
  "daemon_stop E lo_rule s =
     and_then (case lo_rule of
                 None \<Rightarrow> (Inr (), s)
               | Some k \<Rightarrow> and_then (on_in (process_vrf_svcs_rule_del_by_id E k) s) (\<lambda>_ s1. (Inr (), s1)))
       (\<lambda>_ s1. (Inr (), s1\<lparr>sv_tool := snd (process_vrf_top_chain_rule E False ''default'' (sv_tool s1))\<rparr>))"

end
