(* ===== verification/ToolKept.thy ===== *)
theory ToolKept
  imports Incoming Outgoing
begin

text \<open>
  What the operations on the two caches do to the state of the namespace tool they share: whatever
  they call, and whether they answer or raise, the subnet values and the private ports stay unique
  and in their ranges, and the known namespaces stay the same.
\<close>

definition kept :: "'w tool \<Rightarrow> ('a, 'c \<times> 'w tool) outcome \<Rightarrow> bool" where
  "kept t m \<longleftrightarrow> keeps_inv t (snd (snd m))"

named_theorems kept_intros \<open>operations on a cache keep the invariant of the tool\<close>

lemma kept_ret [kept_intros]: "kept t (x, (c, t))"
  by (simp add: kept_def)

lemma kept_and_then [kept_intros]:
  assumes "kept t m" "\<And>a c t1. m = (Inr a, (c, t1)) \<Longrightarrow> kept t1 (f a (c, t1))"
  shows "kept t (and_then m f)"
proof -
  obtain x c t1 where m: "m = (x, (c, t1))" by (metis surj_pair)
  show ?thesis
  proof (cases x)
    case (Inr a)
    with assms(2) [of a c t1] assms(1) m show ?thesis by (auto simp: kept_def intro: keeps_inv_trans)
  qed (use assms(1) m in \<open>simp add: kept_def\<close>)
qed

lemma kept_catch [kept_intros]: "kept t m \<Longrightarrow> kept t (catch a m)"
  by (cases m; cases "fst m") (simp_all add: kept_def catch_def)

lemma kept_world [kept_intros]: "in_world f t = (x, t') \<Longrightarrow> kept t (y, (c, t'))"
  unfolding kept_def by (auto intro: same_maps_keeps in_world_maps)

section \<open>Incoming\<close>

lemma kept_in_proc [kept_intros]: "kept t (in_proc E op r i (c, t))"
  using proc_rule_keeps [of E op "InRule r" i t]
  by (cases "proc_rule E op (InRule r) i t") (simp add: kept_def in_proc_def keeps_portsD)

lemma kept_insert_rule [kept_intros]: "kept t (insert_rule E r (c, t))"
  unfolding insert_rule_def Let_def
  by (auto intro!: kept_intros split: option.splits prod.splits sum.splits)

lemma kept_finish_delete [kept_intros]: "kept t (finish_delete E tb f v d i k (c, t))"
  unfolding finish_delete_def Let_def
  by (auto intro!: kept_intros split: option.splits prod.splits sum.splits)

lemma kept_delete_rule [kept_intros]: "kept t (delete_rule E r (c, t))"
  unfolding delete_rule_def Let_def
  by (auto intro!: kept_intros split: option.splits prod.splits sum.splits)

lemma kept_refresh [kept_intros]: "kept t (refresh E tb f v i (c, t))"
  unfolding refresh_def Let_def
  by (auto intro!: kept_intros split: option.splits prod.splits)

lemma kept_find_rule_by_id [kept_intros]: "kept t (find_rule_by_id E k (c, t))"
  unfolding find_rule_by_id_def Let_def
  by (auto intro!: kept_intros split: option.splits prod.splits)

lemma kept_delete_by_id_obj [kept_intros]: "kept t (delete_by_id_obj E k (c, t))"
  unfolding delete_by_id_obj_def Let_def
  by (auto intro!: kept_intros split: option.splits prod.splits sum.splits)

lemma kept_replace_rule [kept_intros]: "kept t (replace_rule E k r (c, t))"
  unfolding replace_rule_def Let_def
  by (auto intro!: kept_intros split: option.splits prod.splits)

lemma kept_update_found [kept_intros]: "kept t (update_found E k old upd ch (c, t))"
  unfolding update_found_def
  by (auto intro!: kept_intros split: option.splits prod.splits)

lemma kept_update_rule [kept_intros]: "kept t (update_rule E k ps (c, t))"
  unfolding update_rule_def
  by (auto intro!: kept_intros split: option.splits prod.splits sum.splits)

lemma kept_clear_rules [kept_intros]: "kept t (clear_rules E rs (c, t))"
  by (induction rs arbitrary: c t) (auto intro!: kept_intros)

lemma kept_clear_lists [kept_intros]: "kept t (clear_lists E tb f flt ls (c, t))"
  by (induction ls arbitrary: c t) (auto intro!: kept_intros)

lemma kept_clear_tables [kept_intros]: "kept t (clear_tables E flt fam ts (c, t))"
  by (induction ts arbitrary: c t) (auto intro!: kept_intros)

lemma kept_get_rules_loop [kept_intros]: "kept t (get_rules_loop E tb f v ps is (c, t))"
  by (induction "is" arbitrary: c t) (auto simp: Let_def intro!: kept_intros split: option.splits)

lemma kept_get_lists_loop [kept_intros]: "kept t (get_lists_loop E tb f flt ps ls (c, t))"
  by (induction ls arbitrary: c t) (auto intro!: kept_intros)

lemma kept_get_tables_loop [kept_intros]: "kept t (get_tables_loop E rt flt ps ts (c, t))"
  by (induction ts arbitrary: c t) (auto intro!: kept_intros)

lemma kept_in_calls:
  "kept t (process_vrf_svcs_rule_add E rt vrf act fam args (c, t))"
  "kept t (process_vrf_svcs_rule_set E k ps (c, t))"
  "kept t (process_vrf_svcs_rule_del E rt vrf act fam args (c, t))"
  "kept t (process_vrf_svcs_rule_del_by_id E k (c, t))"
  "kept t (process_vrf_svcs_rule_get E i ty nm flt (c, t))"
  "kept t (process_vrf_svcs_clear_rules E nm (c, t))"
  unfolding process_vrf_svcs_rule_add_def process_vrf_svcs_rule_set_def process_vrf_svcs_rule_del_def
    process_vrf_svcs_rule_del_by_id_def delete_rule_by_id_def process_vrf_svcs_rule_get_def
    get_all_rules_def process_vrf_svcs_clear_rules_def clear_all_rules_def
  by (auto intro!: kept_intros split: option.splits)

section \<open>Outgoing\<close>

lemma kept_out_proc [kept_intros]: "kept t (out_proc E op r i (c, t))"
  using proc_rule_keeps [of E op "OutRule r" i t]
  by (cases "proc_rule E op (OutRule r) i t") (simp add: kept_def out_proc_def keeps_portsD)

lemma kept_alias_config [kept_intros]: "kept t (outgoing_ip_svcs_rule_sub_net_config E b r (c, t))"
  using outgoing_config_keeps [of E b "rule_alias r" t]
  by (auto simp: outgoing_ip_svcs_rule_sub_net_config_def kept_def split: prod.splits sum.splits option.splits)

lemma kept_release_alias [kept_intros]: "kept t (release_alias E r (c, t))"
  unfolding release_alias_def by (auto intro!: kept_intros)

lemma kept_out_insert_tail [kept_intros]: "kept t (out_insert_tail E tb f v r (c, t))"
  unfolding out_insert_tail_def
  by (auto intro!: kept_intros split: option.splits prod.splits sum.splits)

lemma kept_out_insert_rule [kept_intros]: "kept t (out_insert_rule E r (c, t))"
  unfolding out_insert_rule_def Let_def
  by (auto intro!: kept_intros split: option.splits prod.splits)

lemma kept_out_finish_delete [kept_intros]: "kept t (out_finish_delete E tb f v d i k (c, t))"
  unfolding out_finish_delete_def Let_def
  by (auto intro!: kept_intros split: option.splits prod.splits)

lemma kept_out_delete_rule [kept_intros]: "kept t (out_delete_rule E r (c, t))"
  unfolding out_delete_rule_def Let_def
  by (auto intro!: kept_intros split: option.splits prod.splits sum.splits)

lemma kept_out_delete_by_id_obj [kept_intros]: "kept t (out_delete_by_id_obj E k (c, t))"
  unfolding out_delete_by_id_obj_def Let_def
  by (auto intro!: kept_intros split: option.splits prod.splits sum.splits)

lemma kept_out_get: "kept t (process_vrf_outgoing_svcs_rule_get i ty nm ps (c, t))"
  unfolding process_vrf_outgoing_svcs_rule_get_def
  by (auto intro!: kept_intros split: option.splits prod.splits sum.splits)

lemma kept_out_calls:
  "kept t (process_vrf_outgoing_svcs_rule_add E rt vrf act fam oargs (c, t))"
  "kept t (process_vrf_outgoing_svcs_rule_del E rt vrf act fam oargs (c, t))"
  "kept t (process_vrf_outgoing_svcs_rule_del_by_id E k (c, t))"
  unfolding process_vrf_outgoing_svcs_rule_add_def process_vrf_outgoing_svcs_rule_del_def
    process_vrf_outgoing_svcs_rule_del_by_id_def out_delete_rule_by_id_def
  by (auto intro!: kept_intros)

end
