(* ===== verification/VrfService.thy ===== *)
theory VrfService
  imports BaseVrf ToolKept
begin

text \<open>
  The daemon of \<open>BaseVrf\<close> as a state machine: its steps are the answered callbacks and the answered
  events of its threads. Every reachable state keeps the invariants of both caches and of the
  namespace tool.
\<close>

section \<open>Steps\<close>

datatype vrf_request =
    R_start
  | R_vrf string "string option" "int option"
  | R_bind string "string option" "string option" "string option"
  | R_in string in_req
  | R_in_get in_req
  | R_out string out_req
  | R_out_get out_req
  | R_binding "string option" "string option"
  | R_src_ip string src_ip_req
  | R_leak leak_event
  | R_addr bool string addr_event

text \<open>An answered request or event, in any state.\<close>

inductive vrf_step :: "'w ext \<Rightarrow> vrf_request \<Rightarrow> 'w vrf_svc \<Rightarrow> 'w vrf_svc \<Rightarrow> bool" for E where
  vs_start: "\<not> sv_lock s \<Longrightarrow> daemon_start E s = (Inr k, s') \<Longrightarrow> vrf_step E R_start s s'"
| vs_vrf: "set_vrf_cb E op nm ident s = (Inr b, s') \<Longrightarrow>
    vrf_step E (R_vrf op nm ident) s s'"
| vs_bind: "set_vrf_intf_cb E op nm vrf ty s = (Inr a, s') \<Longrightarrow> vrf_step E (R_bind op nm vrf ty) s s'"
| vs_in: "config_incoming_ip_svcs_cb E op q s = (Inr a, s') \<Longrightarrow> vrf_step E (R_in op q) s s'"
| vs_in_get: "get_incoming_ip_svcs_cb E q s = (Inr objs, s') \<Longrightarrow> vrf_step E (R_in_get q) s s'"
| vs_out: "config_outgoing_ip_svcs_cb E op oq s = (Inr a, s') \<Longrightarrow> vrf_step E (R_out op oq) s s'"
| vs_out_get: "get_outgoing_ip_svcs_cb E oq s = (Inr objs, s') \<Longrightarrow> vrf_step E (R_out_get oq) s s'"
| vs_binding: "get_vrf_intf_cb v w s = (Inr r, s') \<Longrightarrow> vrf_step E (R_binding v w) s s'"
| vs_src_ip: "set_vrf_intf_ip_cb E op sq s = (Inr b, s') \<Longrightarrow> vrf_step E (R_src_ip op sq) s s'"
| vs_leak: "handle_leaked_rt_event E ev s = (Inr (), s') \<Longrightarrow> vrf_step E (R_leak ev) s s'"
| vs_addr: "on_tool (handle_ip_address_event E v6 op aev) s = (Inr (), s') \<Longrightarrow> vrf_step E (R_addr v6 op aev) s s'"

code_pred vrf_step .

text \<open>
  The creation of a namespace first clears its rules and goes on when that fails. \<open>vrf_fine\<close>: it has not
  failed. \<open>vrf_any_reach\<close> is every state that answered requests and events lead to, \<open>vrf_reach\<close> those that
  they lead to without such a failure.
\<close>

definition vrf_fine :: "'w ext \<Rightarrow> vrf_request \<Rightarrow> 'w vrf_svc \<Rightarrow> bool" where
  "vrf_fine E r s =
     (case r of
        R_vrf op (Some vrf) (Some _) \<Rightarrow>
          op = ''create'' \<longrightarrow> fst (on_in (process_vrf_svcs_clear_rules E (Some vrf)) s) = Inr True
      | _ \<Rightarrow> True)"

definition vrf_any_reach :: "'w ext \<Rightarrow> 'w vrf_svc \<Rightarrow> bool" where
  "vrf_any_reach E = reach (\<lambda>s. \<exists>w. s = svc_init w) (\<lambda>s s'. \<exists>r. vrf_step E r s s')"

definition vrf_reach :: "'w ext \<Rightarrow> 'w vrf_svc \<Rightarrow> bool" where
  "vrf_reach E = reach (\<lambda>s. \<exists>w. s = svc_init w) (\<lambda>s s'. \<exists>r. vrf_step E r s s' \<and> vrf_fine E r s)"

section \<open>The invariant\<close>

lemma and_then_Inr:
  "and_then m f = (Inr b, s') \<longleftrightarrow> (\<exists>a s1. m = (Inr a, s1) \<and> f a s1 = (Inr b, s'))"
  by (cases m; cases "fst m") auto

lemma catch_answers: "catch a m = (x, s) \<Longrightarrow> x \<noteq> Inl Blocked \<Longrightarrow> \<exists>y. x = Inr y"
  by (auto simp: catch_def split: prod.splits sum.splits if_splits)

lemma in_calls_catch:
  "\<exists>a m. process_vrf_svcs_rule_add E rt vrf act fam args s = catch a m"
  "\<exists>a m. process_vrf_svcs_rule_set E k ps s = catch a m"
  "\<exists>a m. process_vrf_svcs_rule_del E rt vrf act fam args s = catch a m"
  "\<exists>a m. process_vrf_svcs_rule_del_by_id E k s = catch a m"
  "\<exists>a m. process_vrf_svcs_rule_get E k' ty nm flt s = catch a m"
  "\<exists>a m. process_vrf_svcs_clear_rules E v s = catch a m"
  unfolding process_vrf_svcs_clear_rules_def process_vrf_svcs_rule_add_def process_vrf_svcs_rule_set_def process_vrf_svcs_rule_del_def
    process_vrf_svcs_rule_del_by_id_def process_vrf_svcs_rule_get_def by blast+

lemma out_calls_catch:
  "\<exists>a m. process_vrf_outgoing_svcs_rule_add E rt vrf act fam oargs s = catch a m"
  "\<exists>a m. process_vrf_outgoing_svcs_rule_del E rt vrf act fam oargs s = catch a m"
  "\<exists>a m. process_vrf_outgoing_svcs_rule_del_by_id E k s = catch a m"
  "\<exists>a m. process_vrf_outgoing_svcs_rule_get i ty nm flt s = catch a m"
  unfolding process_vrf_outgoing_svcs_rule_add_def process_vrf_outgoing_svcs_rule_del_def
    process_vrf_outgoing_svcs_rule_del_by_id_def process_vrf_outgoing_svcs_rule_get_def
  by blast+ (cases s, simp only: prod.case, blast)

lemma out_step_ok: "out_step E call (c, t) (c', t') \<Longrightarrow> \<not> out_clear_failed call \<Longrightarrow> out_ok c \<Longrightarrow> out_ok c'"
  using out_step_inv [of E call "(c, t)" "(c', t')"] by simp

lemma stats_free_filter: "stats_free xs \<Longrightarrow> stats_free (filter P xs)"
  unfolding stats_free_def by auto

lemma stats_free_params: "stats_free (in_get_params q)"
  unfolding in_get_params_def by (rule stats_free_filter) (simp add: stats_free_def)

lemma src_ip_config_inv: "process_src_ip_config E vrf b fam ip t = (ok, t') \<Longrightarrow> tool_inv t \<Longrightarrow> tool_inv t'"
  using process_src_ip_config_maps [of t E vrf b fam ip] by (simp add: same_maps_inv)

named_theorems steady_intros \<open>calls that keep the invariant of the daemon\<close>

text \<open>
  The daemon needs of the incoming cache that its answered calls keep \<open>good\<close>, except perhaps those that
  are not \<open>fine\<close>; only a \<open>Clear\<close> that failed may be none. The outgoing cache is never cleared.
\<close>

locale daemon_inv =
  fixes E :: "'w ext" and good :: "in_cache \<Rightarrow> bool" and fine :: "in_call \<Rightarrow> bool"
  assumes good_init: "good cache_init"
    and good_step: "in_step E call (c, t) (c', t') \<Longrightarrow> fine call \<Longrightarrow> good c \<Longrightarrow> good c'"
    and fine_calls: "\<not> clear_failed call \<Longrightarrow> fine call"
begin

definition svc_ok :: "'w vrf_svc \<Rightarrow> bool" where
  "svc_ok s \<longleftrightarrow> good (sv_in s) \<and> out_ok (sv_out s) \<and> tool_inv (sv_tool s)"

lemma svc_ok_simps [simp]:
  "svc_ok (s\<lparr>sv_lock := b\<rparr>) = svc_ok s"
  "svc_ok (s\<lparr>sv_rules := m\<rparr>) = svc_ok s"
  by (simp_all add: svc_ok_def)

text \<open>
  \<open>steady s m\<close>: the call \<open>m\<close>, made in \<open>s\<close>, leaves the lock as it is and keeps the invariant, also
  when it raises, unless it waits for ever.
\<close>

definition steady :: "'w vrf_svc \<Rightarrow> ('a, 'w vrf_svc) outcome \<Rightarrow> bool" where
  "steady s m \<longleftrightarrow> sv_lock (snd m) = sv_lock s \<and> (svc_ok s \<longrightarrow> fst m \<noteq> Inl Blocked \<longrightarrow> svc_ok (snd m))"

lemma steady_ret [steady_intros]: "steady s (x, s)"
  by (simp add: steady_def)

lemma steady_rules [steady_intros]: "steady s (x, s\<lparr>sv_rules := m\<rparr>)"
  by (simp add: steady_def)

lemma steady_and_then [steady_intros]:
  assumes "steady s m" "\<And>a s1. m = (Inr a, s1) \<Longrightarrow> steady s1 (f a s1)"
  shows "steady s (and_then m f)"
proof -
  obtain x s1 where m: "m = (x, s1)" by (cases m)
  show ?thesis
  proof (cases x)
    case (Inr a)
    with assms(2) [of a s1] assms(1) m show ?thesis by (auto simp: steady_def)
  qed (use assms(1) m in \<open>simp add: steady_def\<close>)
qed

lemma steady_from [simp]: "steady (s\<lparr>sv_rules := m\<rparr>) y = steady s y"
  by (simp add: steady_def)

lemma steady_catch [steady_intros]: "steady s m \<Longrightarrow> steady s (catch a m)"
  by (cases m; cases "fst m") (auto simp: steady_def catch_def)

lemma steady_failing [steady_intros]: "steady s m \<Longrightarrow> steady s (failing_handler m)"
  by (cases m; cases "fst m") (auto simp: steady_def failing_handler_def)

text \<open>The calls of the two caches, from the invariants of their own step relations.\<close>

lemma steady_on_in:
  assumes "\<And>c t. kept t (f (c, t))"
    and "\<And>c t x c' t'. f (c, t) = (x, (c', t')) \<Longrightarrow> x \<noteq> Inl Blocked \<Longrightarrow> good c \<Longrightarrow> good c'"
  shows "steady s (on_in f s)"
proof -
  obtain x c t where h: "f (sv_in s, sv_tool s) = (x, (c, t))" by (metis surj_pair)
  have "keeps_inv (sv_tool s) t" using assms(1) [of "sv_tool s" "sv_in s"] by (simp add: kept_def h)
  with assms(2) [OF h] show ?thesis by (auto simp: on_in_def h steady_def svc_ok_def keeps_inv_def)
qed

lemma steady_on_out:
  assumes "\<And>c t. kept t (f (c, t))"
    and "\<And>c t x c' t'. f (c, t) = (x, (c', t')) \<Longrightarrow> x \<noteq> Inl Blocked \<Longrightarrow> out_ok c \<Longrightarrow> out_ok c'"
  shows "steady s (on_out f s)"
proof -
  obtain x c t where h: "f (sv_out s, sv_tool s) = (x, (c, t))" by (metis surj_pair)
  have "keeps_inv (sv_tool s) t" using assms(1) [of "sv_tool s" "sv_out s"] by (simp add: kept_def h)
  with assms(2) [OF h] show ?thesis by (auto simp: on_out_def h steady_def svc_ok_def keeps_inv_def)
qed

lemma steady_on_tool:
  assumes "\<And>t x t'. f t = (x, t') \<Longrightarrow> tool_inv t \<Longrightarrow> tool_inv t'"
  shows "steady s (on_tool f s)"
  using assms by (auto simp: on_tool_def steady_def svc_ok_def split: prod.split)

lemma steady_in_call:
  assumes "\<And>c t. kept t (f (c, t))" "\<And>s. \<exists>a m. f s = catch a m"
    and "\<And>c t y c' t'. f (c, t) = (Inr y, (c', t')) \<Longrightarrow> \<exists>call. in_step E call (c, t) (c', t') \<and> fine call"
  shows "steady s (on_in f s)"
proof (rule steady_on_in [OF assms(1)])
  fix c t x c' t'
  assume h: "f (c, t) = (x, (c', t'))" "x \<noteq> Inl Blocked" and ok: "good c"
  from assms(2) [of "(c, t)"] obtain a m where "f (c, t) = catch a m" by blast
  with h obtain y where "x = Inr y" using catch_answers by fastforce
  with assms(3) h(1) obtain call where "in_step E call (c, t) (c', t')" "fine call" by blast
  then show "good c'" using ok by (rule good_step)
qed

lemma steady_out_call:
  assumes "\<And>c t. kept t (f (c, t))" "\<And>s. \<exists>a m. f s = catch a m"
    and "\<And>c t y c' t'. f (c, t) = (Inr y, (c', t')) \<Longrightarrow> \<exists>call. out_step E call (c, t) (c', t') \<and> \<not> out_clear_failed call"
  shows "steady s (on_out f s)"
proof (rule steady_on_out [OF assms(1)])
  fix c t x c' t'
  assume h: "f (c, t) = (x, (c', t'))" "x \<noteq> Inl Blocked" and ok: "out_ok c"
  from assms(2) [of "(c, t)"] obtain a m where "f (c, t) = catch a m" by blast
  with h obtain y where "x = Inr y" using catch_answers by fastforce
  with assms(3) h(1) obtain call where "out_step E call (c, t) (c', t')" "\<not> out_clear_failed call" by blast
  then show "out_ok c'" using ok by (rule out_step_ok)
qed

lemma fine_step: "in_step E call s s' \<Longrightarrow> \<not> clear_failed call \<Longrightarrow> \<exists>call. in_step E call s s' \<and> fine call"
  by (blast intro: fine_calls)

lemma steady_in_calls [steady_intros]:
  "steady s (on_in (process_vrf_svcs_rule_add E rt vrf act fam args) s)"
  "steady s (on_in (process_vrf_svcs_rule_set E k ps) s)"
  "steady s (on_in (process_vrf_svcs_rule_del E rt vrf act fam args) s)"
  "steady s (on_in (process_vrf_svcs_rule_del_by_id E k) s)"
  "steady s (on_in (process_vrf_svcs_rule_get E k' ty nm flt) s)"
  by (rule steady_in_call [OF kept_in_calls(1) in_calls_catch(1)], erule fine_step [OF step_add], simp)
    (rule steady_in_call [OF kept_in_calls(2) in_calls_catch(2)], erule fine_step [OF step_set], simp,
     rule steady_in_call [OF kept_in_calls(3) in_calls_catch(3)], erule fine_step [OF step_del], simp,
     rule steady_in_call [OF kept_in_calls(4) in_calls_catch(4)], erule fine_step [OF step_del_by_id], simp,
     rule steady_in_call [OF kept_in_calls(5) in_calls_catch(5)], erule fine_step [OF step_get], simp)

lemma steady_out_calls [steady_intros]:
  "steady s (on_out (process_vrf_outgoing_svcs_rule_add E rt vrf act fam oargs) s)"
  "steady s (on_out (process_vrf_outgoing_svcs_rule_del E rt vrf act fam oargs) s)"
  "steady s (on_out (process_vrf_outgoing_svcs_rule_del_by_id E k) s)"
  "steady s (on_out (process_vrf_outgoing_svcs_rule_get i ty nm flt) s)"
  by (rule steady_out_call [OF kept_out_calls(1) out_calls_catch(1)], intro exI conjI, erule ostep_add, simp)
    (rule steady_out_call [OF kept_out_calls(2) out_calls_catch(2)], intro exI conjI, erule ostep_del, simp,
     rule steady_out_call [OF kept_out_calls(3) out_calls_catch(3)], intro exI conjI, erule ostep_del_by_id, simp,
     rule steady_out_call [OF kept_out_get out_calls_catch(4)], intro exI conjI, erule ostep_get, simp)

lemma steady_tool_calls [steady_intros]:
  "steady s (on_tool (process_vrf_config E b vrf i) s)"
  "steady s (on_tool (process_vrf_intf_config E b nm vrf ty) s)"
  "steady s (on_tool (veth_ip_get E src dst p) s)"
  "steady s (on_tool (handle_ip_address_event E v6 op ev) s)"
  using veth_ip_get_keeps [of E src dst p]
  by (auto intro!: steady_on_tool dest: process_vrf_config_inv intf_config_inv address_event_inv
      simp: keeps_ports_def keeps_inv_def)

section \<open>The callbacks\<close>

lemma steady_default_rules [steady_intros]: "steady s (create_vrf_default_rules E vrf fs s)"
proof (induction fs arbitrary: s)
  case (Cons f fs)
  have "steady s (create_vrf_default_rules E vrf fs (s\<lparr>sv_rules := m\<rparr>))" for s :: "'w vrf_svc" and m
    using Cons [of "s\<lparr>sv_rules := m\<rparr>"] by simp
  then show ?case by (auto intro!: steady_intros split: option.splits)
qed (simp add: steady_ret)

lemma steady_ensure [steady_intros]: "steady s (ensure_default_rules E vrf s)"
proof -
  have "steady s (create_vrf_default_rules E vrf fs (s\<lparr>sv_rules := m\<rparr>))" for fs m
    using steady_default_rules [of "s\<lparr>sv_rules := m\<rparr>" vrf fs] by simp
  then show ?thesis
    unfolding ensure_default_rules_def by (auto intro!: steady_intros simp del: create_vrf_default_rules.simps)
qed

lemma steady_delete_rules [steady_intros]: "steady s (delete_rules E ks s)"
  by (induction ks arbitrary: s) (auto intro!: steady_intros)

lemma steady_drop [steady_intros]: "steady s (drop_default_rules E vrf s)"
  unfolding drop_default_rules_def by (auto intro!: steady_intros split: option.splits)

lemma steady_remove_vrf [steady_intros]: "steady s (remove_vrf E vrf i s)"
  unfolding remove_vrf_def by (auto intro!: steady_intros)

lemma steady_intf [steady_intros]: "steady s (set_vrf_intf_cb_int E op nm vrf ty s)"
  unfolding set_vrf_intf_cb_int_def Let_def by (auto intro!: steady_intros split: option.splits)

lemma steady_veth_target [steady_intros]: "steady s (veth_target E fam vrf s)"
  unfolding veth_target_def
proof (rule steady_on_tool)
  fix t x t'
  assume h: "(case af_of_int fam of None \<Rightarrow> and_then (veth_ip_get E vrf ''default'' True t) (\<lambda>_ t1. (Inr None, t1))
      | Some f \<Rightarrow> get_veth_ip E f vrf True t) = (x, t')" and "tool_inv t"
  moreover obtain y t1 where y: "veth_ip_get E vrf ''default'' True t = (y, t1)" by force
  moreover have "keeps_ports t t'"
  proof (cases "af_of_int fam")
    case None
    with h y have "t' = t1" by (cases y) auto
    with veth_ip_get_keeps [OF y] show ?thesis by simp
  next
    case (Some f)
    with h show ?thesis by (auto dest: get_veth_ip_keeps)
  qed
  ultimately show "tool_inv t'" by (simp add: keeps_ports_def keeps_inv_def)
qed

lemma steady_in_target [steady_intros]: "steady s (in_target E q fam vrf s)"
  unfolding in_target_def by (auto intro!: steady_intros)

lemma steady_in_create [steady_intros]: "steady s (in_create E q s)"
  unfolding in_create_def by (auto intro!: steady_intros split: option.splits)

lemma steady_in_set [steady_intros]: "steady s (in_set E q s)"
  unfolding in_set_def by (auto intro!: steady_intros split: option.splits)

lemma steady_in_delete [steady_intros]: "steady s (in_delete E q s)"
  unfolding in_delete_def by (auto intro!: steady_intros split: option.splits)

lemma steady_config_incoming [steady_intros]: "steady s (config_incoming_ip_svcs_int E op q s)"
  unfolding config_incoming_ip_svcs_int_def Let_def
  by (simp add: steady_intros split: option.split sum.split)

lemma steady_get_incoming [steady_intros]: "steady s (get_incoming_ip_svcs_int E q s)"
  unfolding get_incoming_ip_svcs_int_def
  by (simp add: steady_intros split: option.split sum.split)

lemma steady_out_create [steady_intros]: "steady s (out_create E public q s)"
  unfolding out_create_def by (auto intro!: steady_intros split: option.splits)

lemma steady_out_delete [steady_intros]: "steady s (out_delete E q s)"
  unfolding out_delete_def by (auto intro!: steady_intros split: option.splits)

lemma steady_config_outgoing [steady_intros]: "steady s (config_outgoing_ip_svcs_int E op q s)"
  unfolding config_outgoing_ip_svcs_int_def
  by (simp add: steady_intros split: option.split sum.split)

lemma steady_get_outgoing [steady_intros]: "steady s (get_outgoing_ip_svcs_int E q s)"
  unfolding get_outgoing_ip_svcs_int_def
  by (simp add: steady_intros split: option.split sum.split)

lemma steady_binding [steady_intros]: "steady s (get_vrf_intf_cb_int v w s)"
  unfolding get_vrf_intf_cb_int_def by (auto intro!: steady_intros split: option.splits)

lemma steady_src_ip_config [steady_intros]:
  "steady s (on_tool (\<lambda>t. case process_src_ip_config E vrf b fam ip t of (ok, t1) \<Rightarrow> (Inr ok, t1)) s)"
  by (rule steady_on_tool) (auto dest: src_ip_config_inv split: prod.splits)

lemma steady_src_ip [steady_intros]: "steady s (set_vrf_intf_ip_cb_int E op q s)"
proof -
  have raise: "steady s (and_then (x, s) f)" if "\<And>a. x = Inr a \<Longrightarrow> steady s (f a s)"
    for x :: "exn + 'b" and f and s :: "'w vrf_svc"
    using that by (cases x) (auto intro: steady_ret)
  show ?thesis
    unfolding set_vrf_intf_ip_cb_int_def
    by (auto intro!: steady_intros split: option.splits)
qed

section \<open>Steps keep the invariant\<close>

definition idle_ok :: "'w vrf_svc \<Rightarrow> bool" where
  "idle_ok s \<longleftrightarrow> \<not> sv_lock s \<and> svc_ok s"

lemma locked_step:
  assumes "locked f s = (Inr a, s')" "\<And>s. steady s (f s)" "idle_ok s"
  shows "idle_ok s'"
proof -
  obtain x s1 where f: "f (s\<lparr>sv_lock := True\<rparr>) = (x, s1)" by (metis surj_pair)
  with assms(1,3) have "x = Inr a" "s' = s1\<lparr>sv_lock := False\<rparr>"
    by (auto simp: locked_def idle_ok_def and_then_def split: sum.splits)
  with assms(2) [of "s\<lparr>sv_lock := True\<rparr>"] assms(3) f show ?thesis by (simp add: steady_def idle_ok_def)
qed

lemma steady_step: "m = (Inr a, s') \<Longrightarrow> steady s m \<Longrightarrow> idle_ok s \<Longrightarrow> idle_ok s'"
  by (auto simp: steady_def idle_ok_def)

text \<open>The creation of a namespace, whose rules are cleared first.\<close>

lemma steady_clear:
  assumes "\<And>b. fst (on_in (process_vrf_svcs_clear_rules E (Some vrf)) s) = Inr b \<Longrightarrow> fine (Clear (Some vrf) b)"
  shows "steady s (on_in (process_vrf_svcs_clear_rules E (Some vrf)) s)"
proof -
  obtain x c t where h: "process_vrf_svcs_clear_rules E (Some vrf) (sv_in s, sv_tool s) = (x, (c, t))" by (metis surj_pair)
  have "keeps_inv (sv_tool s) t" using kept_in_calls(6) [of "sv_tool s" E "Some vrf" "sv_in s"] by (simp add: kept_def h)
  moreover have "good c" if ok: "good (sv_in s)" and "x \<noteq> Inl Blocked"
  proof -
    obtain a m where "process_vrf_svcs_clear_rules E (Some vrf) (sv_in s, sv_tool s) = catch a m"
      using in_calls_catch(6) by blast
    with h that(2) obtain b where b: "x = Inr b" using catch_answers [of a m x "(c, t)"] by auto
    with assms h have "fine (Clear (Some vrf) b)" by (simp add: on_in_def)
    from good_step [OF step_clear [OF h [unfolded b]] this ok] show ?thesis .
  qed
  ultimately show ?thesis by (auto simp: on_in_def h steady_def svc_ok_def keeps_inv_def)
qed

lemma steady_create_vrf:
  assumes "\<And>b. fst (on_in (process_vrf_svcs_clear_rules E (Some vrf)) s) = Inr b \<Longrightarrow> fine (Clear (Some vrf) b)"
  shows "steady s (create_vrf E vrf i s)"
  unfolding create_vrf_def by (rule steady_and_then [OF steady_clear [OF assms]]) (auto intro!: steady_intros)

text \<open>The lookup for a leaked route is the one part of an event that takes the lock.\<close>

lemma leak_ok:
  assumes "handle_leaked_rt_event E ev s = (Inr (), s')" "idle_ok s"
  shows "idle_ok s'"
proof -
  have get: "idle_ok s1" if "locked (on_tool (veth_ip_get E v w True)) s = (Inr r, s1)" for v w r s1
    using locked_step [OF that steady_tool_calls(3) assms(2)] .
  have run: "idle_ok s2" if "on_tool (\<lambda>t. (Inr (), snd (process_leaked_rt_config E b f v p n nh t))) s1 = (x, s2)"
    "idle_ok s1" for b f v p n nh s1 s2 and x :: "exn + unit"
  proof -
    obtain ok t where t: "process_leaked_rt_config E b f v p n nh (sv_tool s1) = (ok, t)" by (metis surj_pair)
    then have "same_maps (sv_tool s1) t"
      unfolding process_leaked_rt_config_def Let_def by (rule in_world_maps)
    with that t show ?thesis by (auto simp: on_tool_def idle_ok_def svc_ok_def intro: same_maps_inv)
  qed
  have look: "idle_ok s'"
    if "and_then (locked (on_tool (veth_ip_get E v w True)) s) (\<lambda>r s2. case r of None \<Rightarrow> (Inr (), s2)
        | Some (ip4, ip6) \<Rightarrow> if c then (Inl TypeError, s2)
            else on_tool (\<lambda>t. (Inr (), snd (process_leaked_rt_config E b f v p n (g ip4 ip6) t))) s2) = (Inr (), s')"
    for v w c b f p n g
    using that unfolding and_then_Inr by (auto split: option.splits if_splits dest: get run)
  show ?thesis
    using assms unfolding handle_leaked_rt_event_def
    by (cases "unhexlify (chars_of (the (e_prefix ev)))")
      (auto split: option.splits if_splits dest!: look)
qed

lemma vrf_step_inv:
  assumes "vrf_step E r s s'" "idle_ok s"
    and fine: "\<And>vrf i b. r = R_vrf ''create'' (Some vrf) (Some i) \<Longrightarrow>
      fst (on_in (process_vrf_svcs_clear_rules E (Some vrf)) s) = Inr b \<Longrightarrow> fine (Clear (Some vrf) b)"
  shows "idle_ok s'"
  using assms(1)
proof cases
  case (vs_start k)
  have "tool_inv (snd (process_vrf_top_chain_rule E True ''default'' (sv_tool s))) = tool_inv (sv_tool s)" by simp
  then have "idle_ok (s\<lparr>sv_tool := snd (process_vrf_top_chain_rule E True ''default'' (sv_tool s))\<rparr>)"
    using assms(2) by (simp add: idle_ok_def svc_ok_def)
  then show ?thesis
    using steady_step [OF vs_start(3)] steady_in_calls(1)
    unfolding daemon_start_def create_default_lo_pkts_rule_def by blast
next
  case (vs_vrf op nm ident b)
  have "steady (s\<lparr>sv_lock := True\<rparr>) (set_vrf_cb_int E op nm ident (s\<lparr>sv_lock := True\<rparr>))"
  proof (cases "op = ''create'' \<and> (\<exists>vrf i. nm = Some vrf \<and> ident = Some i)")
    case True
    then obtain vrf i where v: "op = ''create''" "nm = Some vrf" "ident = Some i" by blast
    have "fst (on_in f (s\<lparr>sv_lock := True\<rparr>)) = fst (on_in f s)" for f :: "'w in_state \<Rightarrow> (bool, 'w in_state) outcome"
      by (simp add: on_in_def split: prod.split)
    with fine vs_vrf(1) v have "steady (s\<lparr>sv_lock := True\<rparr>) (create_vrf E vrf i (s\<lparr>sv_lock := True\<rparr>))"
      by (intro steady_create_vrf) auto
    with v show ?thesis by (simp add: set_vrf_cb_int_def steady_failing)
  next
    case False
    then show ?thesis unfolding set_vrf_cb_int_def by (auto intro!: steady_intros split: option.splits)
  qed
  then show ?thesis
    using vs_vrf(2) assms(2)
    by (cases "set_vrf_cb_int E op nm ident (s\<lparr>sv_lock := True\<rparr>)"; cases "fst (set_vrf_cb_int E op nm ident (s\<lparr>sv_lock := True\<rparr>))")
      (auto simp: set_vrf_cb_def locked_def idle_ok_def steady_def)
next
  case (vs_leak ev)
  then show ?thesis using assms(2) by (auto intro: leak_ok)
next
  case (vs_addr v6 op aev)
  then show ?thesis using steady_step [OF vs_addr(2) steady_tool_calls(4) assms(2)] by simp
qed (use assms(2) in \<open>auto intro: locked_step [OF _ _ assms(2)] steady_intros
  simp: set_vrf_intf_cb_def config_incoming_ip_svcs_cb_def get_incoming_ip_svcs_cb_def config_outgoing_ip_svcs_cb_def
    get_outgoing_ip_svcs_cb_def get_vrf_intf_cb_def set_vrf_intf_ip_cb_def\<close>)

lemma idle_init: "idle_ok (svc_init w)"
  by (simp add: idle_ok_def svc_ok_def svc_init_def good_init out_ok_init tool_init_def
      tool_inv_def uniq_vals_def)

end

section \<open>The reachable states\<close>

interpretation exact: daemon_inv E cache_ok "\<lambda>call. \<not> clear_failed call" for E
  using in_step_inv by unfold_locales (auto simp: cache_ok_init, fastforce)

interpretation safe: daemon_inv E in_safe "\<lambda>_. True" for E
  using in_step_safe by unfold_locales (auto simp: in_safe_def [of cache_init] cache_ok_init, fastforce)

interpretation vrf_daemon:
  service "\<lambda>s. \<exists>w. s = svc_init w" "\<lambda>s s'. \<exists>r. vrf_step E r s s' \<and> vrf_fine E r s" exact.idle_ok for E
  by unfold_locales (blast intro: exact.idle_init,
    elim exE conjE, rule exact.vrf_step_inv, assumption, assumption, auto simp: vrf_fine_def)

interpretation vrf_daemon_any:
  service "\<lambda>s. \<exists>w. s = svc_init w" "\<lambda>s s'. \<exists>r. vrf_step E r s s'" safe.idle_ok for E
  by unfold_locales (blast intro: safe.idle_init safe.vrf_step_inv)+

lemma vrf_reach_ok: "vrf_reach E s \<Longrightarrow> \<not> sv_lock s \<and> cache_ok (sv_in s) \<and> out_ok (sv_out s) \<and> tool_inv (sv_tool s)"
  using vrf_daemon.reach_inv [of E s] by (simp add: vrf_reach_def exact.idle_ok_def exact.svc_ok_def)

lemma vrf_any_reach_ok:
  "vrf_any_reach E s \<Longrightarrow> \<not> sv_lock s \<and> in_safe (sv_in s) \<and> out_ok (sv_out s) \<and> tool_inv (sv_tool s)"
  using vrf_daemon_any.reach_inv [of E s] by (simp add: vrf_any_reach_def safe.idle_ok_def safe.svc_ok_def)

lemma vrf_reach_step: "vrf_reach E s \<Longrightarrow> vrf_step E r s s' \<Longrightarrow> vrf_fine E r s \<Longrightarrow> vrf_reach E s'"
  unfolding vrf_reach_def by (blast intro: reach_step)

lemma vrf_reach_any: "vrf_reach E s \<Longrightarrow> vrf_any_reach E s"
  unfolding vrf_reach_def vrf_any_reach_def by (induction rule: reach.induct) (auto intro: reach_start reach_step)

end
