(* ===== verification/VrfRequests.thy ===== *)
theory VrfRequests
  imports VrfService
begin

text \<open>
  The properties of the daemon of \<open>BaseVrf\<close>: what its callbacks promise in every reachable state,
  and which requests they cannot serve.
\<close>

section \<open>Callbacks under the lock\<close>

lemma locked_Inr:
  assumes "locked f s = (Inr a, s')"
  obtains s1 where "f (s\<lparr>sv_lock := True\<rparr>) = (Inr a, s1)" "s' = s1\<lparr>sv_lock := False\<rparr>" "\<not> sv_lock s"
  using assms by (auto simp: locked_def and_then_Inr split: if_splits)

lemma locked_held: "sv_lock s \<Longrightarrow> locked f s = (Inl Blocked, s)"
  by (simp add: locked_def)

lemma on_in_Inr:
  assumes "on_in f s = (Inr a, s')"
  obtains c t where "f (sv_in s, sv_tool s) = (Inr a, (c, t))" "s' = s\<lparr>sv_in := c, sv_tool := t\<rparr>"
  using assms by (auto simp: on_in_def split: prod.splits)

lemma on_out_Inr:
  assumes "on_out f s = (Inr a, s')"
  obtains c t where "f (sv_out s, sv_tool s) = (Inr a, (c, t))" "s' = s\<lparr>sv_out := c, sv_tool := t\<rparr>"
  using assms by (auto simp: on_out_def split: prod.splits)

lemma catch_agrees: "catch refused m = (Inr (True, rep), s') \<longleftrightarrow> m = (Inr (True, rep), s')"
  by (auto simp: catch_def refused_def split: prod.splits sum.splits if_splits)

lemma on_tool_caches: "on_tool f s = (x, s') \<Longrightarrow> sv_in s' = sv_in s \<and> sv_out s' = sv_out s \<and> sv_rules s' = sv_rules s"
  by (auto simp: on_tool_def split: prod.splits)

lemma in_target_caches:
  "in_target E q fam vrf s = (x, s') \<Longrightarrow> sv_in s' = sv_in s \<and> sv_out s' = sv_out s \<and> sv_rules s' = sv_rules s"
  unfolding in_target_def veth_target_def
  by (cases "forwards q") (auto simp: and_then_def split: prod.splits sum.splits dest: on_tool_caches)

lemma in_target_veth:
  "in_target E q fam vrf s = (Inr (dst, Some a), s') \<Longrightarrow> forwards q \<Longrightarrow>
   a = int_of_action RULE_ACTION_DNAT \<and> fst (veth_target E fam vrf s) = Inr dst"
  by (auto simp: in_target_def and_then_Inr)

lemma in_target_given:
  "in_target E q fam vrf s = (Inr (dst, act), s') \<Longrightarrow> \<not> forwards q \<Longrightarrow> dst = q_dst_ip q \<and> act = q_action q"
  by (simp add: in_target_def)

text \<open>The request with the sequence number a creation assumes.\<close>

definition with_seq :: "in_req \<Rightarrow> in_req" where
  "with_seq q = (if q_seq_num q = None then q\<lparr>q_seq_num := Some 0\<rparr> else q)"

lemma normalize_frame:
  assumes "in_normalize c q = Inr (Some n)"
  shows "q_seq_num n = q_seq_num q" "q_id n = q_id q" "q_vrf n = q_vrf q" "q_dst_port n = q_dst_port q"
    "q_protocol n = q_protocol q" "q_action n = q_action q"
  using assms by (auto simp: in_normalize_def try_bind_Inr split: option.splits)

lemma normalize_seq: "in_normalize c (with_seq q) = Inr (Some n) \<Longrightarrow> \<exists>m. q_seq_num n = Some m"
  by (auto dest!: normalize_frame(1) simp: with_seq_def)

lemma create_runs:
  assumes "config_incoming_ip_svcs_cb E ''create'' q s = (Inr (True, rep), s')"
  obtains n s1 where "in_normalize (cidr_packed E) (with_seq q) = Inr (Some n)"
    "in_create E n (s\<lparr>sv_lock := True\<rparr>) = (Inr (True, rep), s1)" "s' = s1\<lparr>sv_lock := False\<rparr>"
proof -
  from assms obtain s1 where c: "config_incoming_ip_svcs_int E ''create'' q (s\<lparr>sv_lock := True\<rparr>) = (Inr (True, rep), s1)"
    "s' = s1\<lparr>sv_lock := False\<rparr>"
    unfolding config_incoming_ip_svcs_cb_def by (auto simp: catch_agrees elim: locked_Inr)
  then show thesis
    using that unfolding config_incoming_ip_svcs_int_def with_seq_def Let_def
    by (auto simp: refused_def split: sum.splits option.splits if_splits)
qed

lemma in_create_answer:
  assumes "in_create E n s = (Inr (True, rep), s')" "cache_ok (sv_in s)"
  obtains k vrf fam a dst r where "rep = Id_added k" "q_vrf n = Some vrf" "q_af n = Some fam" "has_transport n"
    "VrfIncomingSvcsRule_init (cidr_packed E) (int_of_rule_type (in_rule_kind n)) vrf a fam (add_args n dst) = Inr r"
    "forwards n \<Longrightarrow> a = int_of_action RULE_ACTION_DNAT \<and> fst (veth_target E fam vrf s) = Inr dst"
    "\<not> forwards n \<Longrightarrow> Some a = q_action n \<and> dst = q_dst_ip n"
    "abs_rules (sv_in s) k = None"
    "abs_rules (sv_in s') = (abs_rules (sv_in s))(k \<mapsto> nostats (r\<lparr>rule_id := Some k\<rparr>))" "sv_out s' = sv_out s"
proof -
  from assms(1) obtain vrf fam where v: "q_vrf n = Some vrf" "q_af n = Some fam" "has_transport n"
    by (auto simp: in_create_def refused_def split: option.splits if_splits)
  with assms(1) obtain dst a s1 y where t: "in_target E n fam vrf s = (Inr (dst, Some a), s1)"
    "on_in (process_vrf_svcs_rule_add E (int_of_rule_type (in_rule_kind n)) vrf a fam (add_args n dst)) s1 = (Inr y, s')"
    "(case y of None \<Rightarrow> refused | Some i \<Rightarrow> (True, Id_added i)) = (True, rep)"
    by (auto simp: in_create_def refused_def and_then_Inr split: option.splits)
  from t(3) obtain k where k: "y = Some k" "rep = Id_added k" by (auto simp: refused_def split: option.splits)
  from t(2) obtain c u where add: "process_vrf_svcs_rule_add E (int_of_rule_type (in_rule_kind n)) vrf a fam
      (add_args n dst) (sv_in s1, sv_tool s1) = (Inr (Some k), (c, u))" "s' = s1\<lparr>sv_in := c, sv_tool := u\<rparr>"
    unfolding k by (rule on_in_Inr)
  note same = in_target_caches [OF t(1)]
  from add_answer [OF _ add(1)] assms(2) same obtain r where r:
    "VrfIncomingSvcsRule_init (cidr_packed E) (int_of_rule_type (in_rule_kind n)) vrf a fam (add_args n dst) = Inr r"
    "abs_rules (sv_in s) k = None" "abs_rules c = (abs_rules (sv_in s))(k \<mapsto> nostats (r\<lparr>rule_id := Some k\<rparr>))" by auto
  show thesis
    by (rule that [OF k(2) v r(1) _ _ r(2)])
      (use t(1) r(3) add(2) same in \<open>auto dest: in_target_veth in_target_given\<close>)
qed

text \<open>The fields of the rule a request describes.\<close>

lemma int_of_known:
  "af_of_int n = Some f \<Longrightarrow> int_of_af f = n" "proto_of_int n = Some p \<Longrightarrow> int_of_proto p = n"
  "rule_type_of_int n = Some t \<Longrightarrow> int_of_rule_type t = n" "action_of_int n = Some ac \<Longrightarrow> int_of_action ac = n"
  by (auto simp: af_of_int_def int_of_af_def proto_of_int_def rule_type_of_int_def action_of_int_def
      split: if_splits)

lemma request_rule:
  assumes "VrfIncomingSvcsRule_init c (int_of_rule_type (in_rule_kind n)) vrf a fam (add_args n dst) = Inr r"
  shows "rule_type r = in_rule_kind n" "vrf_name r = vrf" "int_of_af (af r) = fam"
    "dst_port r = q_dst_port n" "low_dst_port r = q_low_dst_port n" "high_dst_port r = q_high_dst_port n"
    "map_option int_of_proto (protocol r) = q_protocol n" "q_seq_num n = Some m \<Longrightarrow> seq_num r = m"
    "rule_id r = q_id n" "grp_priority r = DEFAULT_GRP_PRIO" "in_set_intf (q_in_intf n) r = r"
    "normalize_ip_prefix c (af r) (q_src_ip n) (q_src_prefix_len n) = Inr (src_ip r, src_prefix_len r)"
    "normalize_ip_prefix c (af r) dst (q_dst_prefix_len n) = Inr (dst_ip r, dst_prefix_len r)"
    "\<exists>ac. a = int_of_action ac \<and>
       action r = (if ac = RULE_ACTION_DENY \<and> in_rule_kind n = RULE_TYPE_ACL then RULE_ACTION_REJECT else ac)"
proof -
  from assms obtain t f p ac src dst' where c: "rule_type_of_int (int_of_rule_type (in_rule_kind n)) = Some t"
    "af_of_int fam = Some f" "checked_opt proto_of_int in_proto_name (a_protocol (add_args n dst)) = Inr p"
    "action_of_int a = Some ac"
    "normalize_ip_prefix c f (a_src_ip (add_args n dst)) (a_src_prefix_len (add_args n dst)) = Inr src"
    "normalize_ip_prefix c f (a_dst_ip (add_args n dst)) (a_dst_prefix_len (add_args n dst)) = Inr dst'"
    and r: "r = in_new t vrf f p ac (add_args n dst) src dst'"
    by (rule in_init_cases)
  note new = r in_new_def frame_simps add_args_def key_args_def
  from c(1) show "rule_type r = in_rule_kind n" by (simp add: new)
  from c(2) show "int_of_af (af r) = fam" by (simp add: new int_of_known)
  from c(3) show "map_option int_of_proto (protocol r) = q_protocol n"
    unfolding checked_opt_Inr by (auto simp: new int_of_known)
  show "\<exists>ac. a = int_of_action ac \<and>
      action r = (if ac = RULE_ACTION_DENY \<and> in_rule_kind n = RULE_TYPE_ACL then RULE_ACTION_REJECT else ac)"
    using c(1) int_of_known(4) [OF c(4)] by (intro exI [of _ ac]) (simp add: r in_new_frame)
  show "normalize_ip_prefix c (af r) (q_src_ip n) (q_src_prefix_len n) = Inr (src_ip r, src_prefix_len r)"
    "normalize_ip_prefix c (af r) dst (q_dst_prefix_len n) = Inr (dst_ip r, dst_prefix_len r)"
    using c(5,6) by (simp_all add: r in_new_frame add_args_def key_args_def)
  show "grp_priority r = DEFAULT_GRP_PRIO" by (simp add: new prio_of_bool_def in_defaults_def)
  show "in_set_intf (q_in_intf n) r = r"
    by (simp add: r in_new_def add_args_def key_args_def in_set_intf_def split: option.split)
  show "vrf_name r = vrf" "dst_port r = q_dst_port n" "low_dst_port r = q_low_dst_port n"
    "high_dst_port r = q_high_dst_port n" "rule_id r = q_id n"
    by (simp_all add: new)
  show "seq_num r = m" if "q_seq_num n = Some m" using that by (simp add: new)
qed

definition own_ids :: "('tb, 'r svcs_rule_scheme) rule_cache \<Rightarrow> bool" where
  "own_ids c \<longleftrightarrow> (\<forall>r. holds c r \<longrightarrow> (\<exists>k. rule_id r = Some k \<and> is_id_used k (c_ids c))) \<and>
     (\<forall>r r'. holds c r \<longrightarrow> holds c r' \<longrightarrow> rule_id r = rule_id r' \<longrightarrow> r = r')"

text \<open>A request that has nothing but an identifier.\<close>

definition only_id :: "int \<Rightarrow> in_req" where
  "only_id k = \<lparr>q_af = None, q_vrf = None, q_protocol = None, q_dst_port = None, q_low_dst_port = None,
     q_high_dst_port = None, q_action = None, q_src_ip = None, q_src_prefix_len = None, q_dst_ip = None,
     q_dst_prefix_len = None, q_in_intf = None, q_seq_num = None, q_id = Some k\<rparr>"

lemma delete_by_id_cb:
  assumes "config_incoming_ip_svcs_cb E ''delete'' (only_id k) s = (Inr (True, rep), s')" "cache_ok (sv_in s)"
  shows "abs_rules (sv_in s') = (abs_rules (sv_in s))(k := None) \<and> \<not> is_id_used k (c_ids (sv_in s')) \<and> \<not> sv_lock s'"
proof -
  have n: "in_normalize c (only_id k) = Inr (Some (only_id k))" for c
    by (simp add: in_normalize_def normalize_attr_def only_id_def)
  have k: "q_id (only_id k) = Some k" by (simp add: only_id_def)
  from assms(1) obtain s1 where
    c: "config_incoming_ip_svcs_int E ''delete'' (only_id k) (s\<lparr>sv_lock := True\<rparr>) = (Inr (True, rep), s1)"
    and s': "s' = s1\<lparr>sv_lock := False\<rparr>"
    unfolding config_incoming_ip_svcs_cb_def by (auto simp: catch_agrees elim: locked_Inr)
  have "on_in (process_vrf_svcs_rule_del_by_id E k) (s\<lparr>sv_lock := True\<rparr>) = (Inr True, s1)"
    using c by (auto simp: config_incoming_ip_svcs_int_def n in_delete_def and_then_Inr refused_def k
        split: if_splits)
  then obtain cc t where d: "process_vrf_svcs_rule_del_by_id E k (sv_in s, sv_tool s) = (Inr True, (cc, t))"
    "sv_in s1 = cc"
    by (auto elim: on_in_Inr)
  from del_by_id_answer [OF assms(2) d(1)] d(2) s' show ?thesis by simp
qed

text \<open>A granted creation.\<close>

lemma create_cb:
  assumes "config_incoming_ip_svcs_cb E ''create'' q s = (Inr (True, rep), s')" "cache_ok (sv_in s)"
  shows "\<exists>k n r dst. rep = Id_added k \<and> in_normalize (cidr_packed E) (with_seq q) = Inr (Some n) \<and>
    abs_rules (sv_in s) k = None \<and> abs_rules (sv_in s') = (abs_rules (sv_in s))(k \<mapsto> r) \<and>
    sv_out s' = sv_out s \<and> \<not> sv_lock s' \<and>
    rule_type r = in_rule_kind n \<and> Some (vrf_name r) = q_vrf n \<and> Some (int_of_af (af r)) = q_af n \<and>
    normalize_ip_prefix (cidr_packed E) (af r) (q_src_ip n) (q_src_prefix_len n) = Inr (src_ip r, src_prefix_len r) \<and>
    normalize_ip_prefix (cidr_packed E) (af r) dst (q_dst_prefix_len n) = Inr (dst_ip r, dst_prefix_len r) \<and>
    dst_port r = q_dst_port n \<and> low_dst_port r = q_low_dst_port n \<and> high_dst_port r = q_high_dst_port n \<and>
    map_option int_of_proto (protocol r) = q_protocol n \<and> Some (seq_num r) = q_seq_num n \<and>
    in_set_intf (q_in_intf n) r = r \<and> grp_priority r = DEFAULT_GRP_PRIO \<and> has_transport n \<and>
    (if forwards n
     then action r = RULE_ACTION_DNAT \<and>
       fst (veth_target E (int_of_af (af r)) (vrf_name r) (s\<lparr>sv_lock := True\<rparr>)) = Inr dst
     else dst = q_dst_ip n \<and> (\<exists>a. q_action n = Some (int_of_action a) \<and>
       action r = (if a = RULE_ACTION_DENY \<and> rule_type r = RULE_TYPE_ACL then RULE_ACTION_REJECT else a)))"
proof -
  from assms(1) obtain n s1 where n: "in_normalize (cidr_packed E) (with_seq q) = Inr (Some n)"
    and c: "in_create E n (s\<lparr>sv_lock := True\<rparr>) = (Inr (True, rep), s1)" and s': "s' = s1\<lparr>sv_lock := False\<rparr>"
    by (rule create_runs)
  have ok: "cache_ok (sv_in (s\<lparr>sv_lock := True\<rparr>))" using assms(2) by simp
  from c ok obtain k vrf fam a dst r where r: "rep = Id_added k" "q_vrf n = Some vrf" "q_af n = Some fam" "has_transport n"
    "VrfIncomingSvcsRule_init (cidr_packed E) (int_of_rule_type (in_rule_kind n)) vrf a fam (add_args n dst) = Inr r"
    "forwards n \<Longrightarrow> a = int_of_action RULE_ACTION_DNAT \<and> fst (veth_target E fam vrf (s\<lparr>sv_lock := True\<rparr>)) = Inr dst"
    "\<not> forwards n \<Longrightarrow> Some a = q_action n \<and> dst = q_dst_ip n"
    "abs_rules (sv_in s) k = None"
    "abs_rules (sv_in s1) = (abs_rules (sv_in s))(k \<mapsto> nostats (r\<lparr>rule_id := Some k\<rparr>))" "sv_out s1 = sv_out s"
    by (rule in_create_answer) auto
  obtain m where m: "q_seq_num n = Some m" using n by (auto dest: normalize_seq)
  note f = request_rule [OF r(5)]
  define r1 where "r1 = nostats (r\<lparr>rule_id := Some k\<rparr>)"
  have same: "rule_type r1 = rule_type r" "vrf_name r1 = vrf_name r" "af r1 = af r" "src_ip r1 = src_ip r"
    "src_prefix_len r1 = src_prefix_len r" "dst_ip r1 = dst_ip r" "dst_prefix_len r1 = dst_prefix_len r"
    "dst_port r1 = dst_port r" "low_dst_port r1 = low_dst_port r" "high_dst_port r1 = high_dst_port r"
    "protocol r1 = protocol r" "seq_num r1 = seq_num r" "grp_priority r1 = grp_priority r" "action r1 = action r"
    by (simp_all add: r1_def nostats_def)
  have "in_set_intf v r1 = nostats ((in_set_intf v r)\<lparr>rule_id := Some k\<rparr>)" for v
    by (simp add: in_set_intf_def r1_def nostats_def split: option.split)
  with f(11) have intf: "in_set_intf (q_in_intf n) r1 = r1" by (simp add: r1_def)
  from f(14) obtain ac where ac: "a = int_of_action ac"
    "action r = (if ac = RULE_ACTION_DENY \<and> in_rule_kind n = RULE_TYPE_ACL then RULE_ACTION_REJECT else ac)" by blast
  have act: "if forwards n
     then action r1 = RULE_ACTION_DNAT \<and>
       fst (veth_target E (int_of_af (af r1)) (vrf_name r1) (s\<lparr>sv_lock := True\<rparr>)) = Inr dst
     else dst = q_dst_ip n \<and> (\<exists>a. q_action n = Some (int_of_action a) \<and>
       action r1 = (if a = RULE_ACTION_DENY \<and> rule_type r1 = RULE_TYPE_ACL then RULE_ACTION_REJECT else a))"
  proof (cases "forwards n")
    case True
    with r(6) ac(1) have "ac = RULE_ACTION_DNAT" by (metis action_of_int_inverse option.inject)
    with True r(6) ac(2) f(2,3) show ?thesis by (simp add: same)
  next
    case False
    from r(7) [OF False] have "q_action n = Some (int_of_action ac)" "dst = q_dst_ip n" by (simp_all add: ac(1))
    moreover have "action r1 = (if ac = RULE_ACTION_DENY \<and> rule_type r1 = RULE_TYPE_ACL then RULE_ACTION_REJECT else ac)"
      unfolding same f(1) by (rule ac(2))
    ultimately show ?thesis using False by (simp only: if_False) blast
  qed
  have new: "abs_rules (sv_in s') = (abs_rules (sv_in s))(k \<mapsto> r1)" "sv_out s' = sv_out s" "\<not> sv_lock s'"
    using r(9,10) by (simp_all add: s' r1_def)
  have fields: "rule_type r1 = in_rule_kind n \<and> Some (vrf_name r1) = q_vrf n \<and> Some (int_of_af (af r1)) = q_af n \<and>
    dst_port r1 = q_dst_port n \<and> low_dst_port r1 = q_low_dst_port n \<and> high_dst_port r1 = q_high_dst_port n \<and>
    map_option int_of_proto (protocol r1) = q_protocol n \<and> Some (seq_num r1) = q_seq_num n"
    by (simp add: same f(1-7) f(8) [OF m] r(2,3) m)
  have nets: "normalize_ip_prefix (cidr_packed E) (af r1) (q_src_ip n) (q_src_prefix_len n) = Inr (src_ip r1, src_prefix_len r1)"
    "normalize_ip_prefix (cidr_packed E) (af r1) dst (q_dst_prefix_len n) = Inr (dst_ip r1, dst_prefix_len r1)"
    "grp_priority r1 = DEFAULT_GRP_PRIO"
    using f(10,12,13) by (simp_all add: same)
  show ?thesis
    by (rule exI [of _ k], rule exI [of _ n], rule exI [of _ r1], rule exI [of _ dst])
      (intro conjI act r(1,4,8) n new nets intf, use fields in simp_all)
qed


lemma opt_val_None [simp]: "opt_val VInt x = VNone \<longleftrightarrow> x = None" "opt_val VBytes y = VNone \<longleftrightarrow> y = None"
  "opt_val VStr z = VNone \<longleftrightarrow> z = None"
  by (auto simp: opt_val_def split: option.splits)

lemma opt_val_VInt [simp]: "opt_val VInt x = VInt i \<longleftrightarrow> x = Some i" "VInt i = opt_val VInt x \<longleftrightarrow> x = Some i"
  by (auto simp: opt_val_def split: option.splits)


text \<open>The same for an outgoing rule.\<close>

lemma out_rule_fields:
  assumes "VrfOutgoingSvcsRule_init (int_of_rule_type ty) vrf (int_of_action a) fam args = Inr r"
  shows "rule_type r = ty \<and> action r = a \<and> dst_ip r = o_dst_ip args \<and> vrf_name r = vrf"
  using assms by (auto simp: VrfOutgoingSvcsRule_init_def try_bind_Inr checked_Inr split: if_splits)

lemma out_create_answer:
  assumes "out_create E public n s = (Inr (True, rep), s')" "out_ok (sv_out s)"
  shows "\<exists>k r. out_abs (sv_out s) k = None \<and> out_abs (sv_out s') = (out_abs (sv_out s))(k \<mapsto> r) \<and>
    sv_in s' = sv_in s \<and> rule_type r = out_rule_kind n \<and> action r = out_rule_action n \<and> dst_ip r = p_public_ip n \<and>
    (if p_source_ip n \<noteq> None then rep = Id_added k \<and> ports (sv_tool s') = ports (sv_tool s)
     else \<exists>obj b p. rep = New_object obj \<and> map_of obj ''id'' = Some (VInt k) \<and>
       map_of obj ''private-ip'' = Some (VStr (hexlify b)) \<and> map_of obj ''private-port'' = Some (VInt p) \<and>
       private_ip r = Some b \<and> private_port r = Some p \<and> p \<in> set private_port_range \<and>
       (\<forall>key. ports (sv_tool s) key \<noteq> Some p) \<and> ports (sv_tool s') (rule_alias r) = Some p)"
proof -
  define args where "args = (out_args_of n)\<lparr>o_rule_id := p_id n\<rparr>"
  from assms(1) obtain vrf fam where v: "p_vrf n = Some vrf" "p_af n = Some fam"
    by (auto simp: out_create_def refused_def split: option.splits)
  with assms(1) obtain y where
    a: "on_out (process_vrf_outgoing_svcs_rule_add E (int_of_rule_type (out_rule_kind n)) vrf
      (int_of_action (out_rule_action n)) fam args) s = (Inr y, s')"
    and y: "(case y of (k, ip, port) \<Rightarrow> (case k of None \<Rightarrow> refused
      | Some i \<Rightarrow> if out_rule_kind n = RULE_TYPE_SNAT then (True, Id_added i)
          else (case ip of None \<Rightarrow> refused
                | Some b \<Rightarrow> (True, New_object
         [(''id'', VInt i), (''ni-name'', VStr vrf), (''af'', VInt fam), (''public-ip'', opt_val VBytes public),
          (''protocol'', opt_val VInt (p_protocol n)), (''public-port'', opt_val VInt (p_public_port n)),
          (''private-ip'', VStr (hexlify b)), (''private-port'', opt_val VInt port)])))) = (True, rep)"
    unfolding out_create_def args_def by (auto simp: and_then_Inr)
  obtain k ip port where k: "y = (Some k, ip, port)" and rep: "out_rule_kind n = RULE_TYPE_SNAT \<Longrightarrow> rep = Id_added k"
      "out_rule_kind n \<noteq> RULE_TYPE_SNAT \<Longrightarrow> \<exists>b. ip = Some b \<and> rep = New_object
         [(''id'', VInt k), (''ni-name'', VStr vrf), (''af'', VInt fam), (''public-ip'', opt_val VBytes public),
          (''protocol'', opt_val VInt (p_protocol n)), (''public-port'', opt_val VInt (p_public_port n)),
          (''private-ip'', VStr (hexlify b)), (''private-port'', opt_val VInt port)]"
    using y by (cases y) (auto simp: refused_def split: option.splits if_splits)
  from a obtain c t where add: "process_vrf_outgoing_svcs_rule_add E (int_of_rule_type (out_rule_kind n)) vrf
      (int_of_action (out_rule_action n)) fam args (sv_out s, sv_tool s) = (Inr (Some k, ip, port), (c, t))"
    and s': "s' = s\<lparr>sv_out := c, sv_tool := t\<rparr>"
    unfolding k by (rule on_out_Inr)
  from out_add_answer [OF assms(2) add] obtain r where
    r: "VrfOutgoingSvcsRule_init (int_of_rule_type (out_rule_kind n)) vrf (int_of_action (out_rule_action n)) fam args = Inr r"
    and new: "out_abs (sv_out s) k = None"
      "out_abs c = (out_abs (sv_out s))(k \<mapsto> r\<lparr>rule_id := Some k, private_ip := ip, private_port := port\<rparr>)"
    and pr: "if rule_type r = RULE_TYPE_OUT_IP
       then \<exists>p. port = Some p \<and> ip \<noteq> None \<and> p \<in> set private_port_range \<and> (\<forall>key. ports (sv_tool s) key \<noteq> Some p) \<and>
         ports (sv_tool s) (rule_alias r) = None \<and> ports t = (ports (sv_tool s))(rule_alias r \<mapsto> p)
       else ports t = ports (sv_tool s)"
    by auto
  from out_rule_fields [OF r] have f: "rule_type r = out_rule_kind n" "action r = out_rule_action n" "dst_ip r = p_public_ip n"
    by (auto simp: args_def out_args_of_def)
  define r1 where "r1 = r\<lparr>rule_id := Some k, private_ip := ip, private_port := port\<rparr>"
  have "rule_alias r1 = rule_alias r" by (simp add: r1_def rule_alias_def)
  then show ?thesis
    using rep pr f new s'
    by (intro exI [of _ k] exI [of _ r1]) (cases "p_source_ip n"; auto simp: out_rule_kind_def r1_def opt_val_def)
qed

section \<open>Properties\<close>

text \<open>
  C12: whatever requests and events the daemon has answered, its lock is free, every outgoing rule has
  an identifier that is reserved and that no other outgoing rule has, and the subnet values and private
  ports are unique and in their ranges. The same holds of the incoming rules unless the clearing of a
  namespace has failed: the code logs that and goes on, and leaves the lock of the incoming cache held,
  so it also holds in every state in which that lock is free.
\<close>

theorem vrf_service_reachable:
  assumes "vrf_any_reach E s"
  shows "\<not> sv_lock s \<and> own_ids (sv_out s) \<and>
    uniq_vals sub_net_range (vrf_sub_net_map (sv_tool s)) \<and>
    uniq_vals private_port_range (outgoing_ip_svcs_map (sv_tool s)) \<and>
    (vrf_reach E s \<or> c_mutex (sv_in s) = 0 \<longrightarrow> own_ids (sv_in s))"
proof -
  from vrf_any_reach_ok [OF assms] have lock: "\<not> sv_lock s" and safe: "in_safe (sv_in s)"
    and out: "out_ok (sv_out s)" and t: "tool_inv (sv_tool s)" by auto
  have "own_ids (sv_in s)" if i: "cache_ok (sv_in s)"
    unfolding own_ids_def using ins.holds_home [OF i] ins.cache_okD(6) [OF i] by (metis homed_def)
  moreover have "own_ids (sv_out s)"
    unfolding own_ids_def using outs.holds_home [OF out] outs.cache_okD(6) [OF out] by (metis homed_def)
  moreover have "cache_ok (sv_in s)" if "vrf_reach E s \<or> c_mutex (sv_in s) = 0"
    using that safe vrf_reach_ok by (auto simp: in_safe_def)
  ultimately show ?thesis using lock t by (simp add: tool_inv_def)
qed

text \<open>
  C13: a creation that is granted has added exactly one incoming rule, under the identifier that
  is answered: with the type the request stands for, its source and destination as networks, its
  protocol, ports, interface and sequence number (0 when none is given). A rule that forwards into a
  namespace has the action DNAT and the address of the \<open>veth\<close> pair as its destination; any other the
  destination and the action of the request, where a DENY of an ACL rule becomes a REJECT.
\<close>

theorem incoming_create_refines:
  assumes "vrf_reach E s" "config_incoming_ip_svcs_cb E ''create'' q s = (Inr (True, rep), s')"
  shows "\<exists>k n r dst. rep = Id_added k \<and> in_normalize (cidr_packed E) (with_seq q) = Inr (Some n) \<and>
    abs_rules (sv_in s) k = None \<and> abs_rules (sv_in s') = (abs_rules (sv_in s))(k \<mapsto> r) \<and>
    sv_out s' = sv_out s \<and> \<not> sv_lock s' \<and>
    rule_type r = in_rule_kind n \<and> Some (vrf_name r) = q_vrf n \<and> Some (int_of_af (af r)) = q_af n \<and>
    normalize_ip_prefix (cidr_packed E) (af r) (q_src_ip n) (q_src_prefix_len n) = Inr (src_ip r, src_prefix_len r) \<and>
    normalize_ip_prefix (cidr_packed E) (af r) dst (q_dst_prefix_len n) = Inr (dst_ip r, dst_prefix_len r) \<and>
    dst_port r = q_dst_port n \<and> low_dst_port r = q_low_dst_port n \<and> high_dst_port r = q_high_dst_port n \<and>
    map_option int_of_proto (protocol r) = q_protocol n \<and> Some (seq_num r) = q_seq_num n \<and>
    in_set_intf (q_in_intf n) r = r \<and> grp_priority r = DEFAULT_GRP_PRIO \<and> has_transport n \<and>
    (if forwards n
     then action r = RULE_ACTION_DNAT \<and>
       fst (veth_target E (int_of_af (af r)) (vrf_name r) (s\<lparr>sv_lock := True\<rparr>)) = Inr dst
     else dst = q_dst_ip n \<and> (\<exists>a. q_action n = Some (int_of_action a) \<and>
       action r = (if a = RULE_ACTION_DENY \<and> rule_type r = RULE_TYPE_ACL then RULE_ACTION_REJECT else a)))"
  using create_cb [OF assms(2)] vrf_reach_ok [OF assms(1)] by simp

text \<open>
  C14: a rule that is created and then deleted by the identifier that was answered leaves the rules
  as they were, and the identifier is free.
\<close>

theorem created_rule_deleted:
  assumes "vrf_reach E s" "config_incoming_ip_svcs_cb E ''create'' q s = (Inr (True, Id_added k), s1)"
    and "config_incoming_ip_svcs_cb E ''delete'' (only_id k) s1 = (Inr (True, rep), s2)"
  shows "abs_rules (sv_in s2) = abs_rules (sv_in s) \<and> \<not> is_id_used k (c_ids (sv_in s2)) \<and> \<not> sv_lock s2"
proof -
  have "vrf_step E (R_in ''create'' q) s s1" using assms(2) by (rule vs_in)
  with assms(1) have "vrf_reach E s1" by (rule vrf_reach_step) (simp add: vrf_fine_def)
  from delete_by_id_cb [OF assms(3)] vrf_reach_ok [OF this] create_cb [OF assms(2)] vrf_reach_ok [OF assms(1)]
  show ?thesis by auto
qed




text \<open>
  C16: a creation of an outgoing rule that is granted has added exactly one rule under a new
  identifier. For a service it answers the private address and port of the rule, and the port is one
  no other alias has; a rule for the source address takes no port.
\<close>

theorem outgoing_create_refines:
  assumes "vrf_reach E s" "config_outgoing_ip_svcs_cb E ''create'' q s = (Inr (True, rep), s')"
  shows "\<exists>k n r. out_normalize (cidr_packed E) q = Inr (Some n) \<and> out_abs (sv_out s) k = None \<and>
    out_abs (sv_out s') = (out_abs (sv_out s))(k \<mapsto> r) \<and> sv_in s' = sv_in s \<and> \<not> sv_lock s' \<and>
    rule_type r = out_rule_kind n \<and> action r = out_rule_action n \<and> dst_ip r = p_public_ip n \<and>
    (if p_source_ip n \<noteq> None then rep = Id_added k \<and> ports (sv_tool s') = ports (sv_tool s)
     else \<exists>obj b p. rep = New_object obj \<and> map_of obj ''id'' = Some (VInt k) \<and>
       map_of obj ''private-ip'' = Some (VStr (hexlify b)) \<and> map_of obj ''private-port'' = Some (VInt p) \<and>
       private_ip r = Some b \<and> private_port r = Some p \<and> p \<in> set private_port_range \<and>
       (\<forall>key. ports (sv_tool s) key \<noteq> Some p) \<and> ports (sv_tool s') (rule_alias r) = Some p)"
proof -
  from assms(2) obtain s1 where c: "config_outgoing_ip_svcs_int E ''create'' q (s\<lparr>sv_lock := True\<rparr>) = (Inr (True, rep), s1)"
    "s' = s1\<lparr>sv_lock := False\<rparr>"
    unfolding config_outgoing_ip_svcs_cb_def by (auto simp: catch_agrees elim: locked_Inr)
  then obtain n where n: "out_normalize (cidr_packed E) q = Inr (Some n)"
    "out_create E (p_public_ip q) n (s\<lparr>sv_lock := True\<rparr>) = (Inr (True, rep), s1)"
    by (auto simp: config_outgoing_ip_svcs_int_def refused_def split: if_splits sum.splits option.splits)
  have ok: "out_ok (sv_out (s\<lparr>sv_lock := True\<rparr>))" using vrf_reach_ok [OF assms(1)] by simp
  from out_create_answer [OF n(2) ok] show ?thesis using n(1) c(2) by fastforce
qed

text \<open>
  ICMPv6 is a protocol outgoing rules know, but every request that names it is refused and has
  no effect, because the message that is logged first does not know its number.
\<close>

theorem outgoing_icmpv6_refused:
  assumes "p_protocol q = Some (int_of_proto RULE_PROTO_ICMPV6)"
    and "config_outgoing_ip_svcs_cb E op q s = (Inr a, s')"
  shows "a = refused \<and> s' = s \<and> out_proto_name RULE_PROTO_ICMPV6 \<noteq> None"
proof -
  have norm: "p_protocol n = p_protocol q" if "out_normalize c q = Inr (Some n)" for c n
    using that by (auto simp: out_normalize_def try_bind_Inr split: option.splits)
  have "snd (config_outgoing_ip_svcs_int E op q s0) = s0 \<and>
      (fst (config_outgoing_ip_svcs_int E op q s0) = Inr refused \<or>
       (\<exists>e. fst (config_outgoing_ip_svcs_int E op q s0) = Inl e))" for s0
    using assms(1) norm
    by (auto simp: config_outgoing_ip_svcs_int_def out_loggable_def split: sum.split option.split)
  note int = this
  from assms(2) obtain s1 where c: "catch refused (config_outgoing_ip_svcs_int E op q (s\<lparr>sv_lock := True\<rparr>)) = (Inr a, s1)"
    and s': "s' = s1\<lparr>sv_lock := False\<rparr>" and lock: "\<not> sv_lock s"
    unfolding config_outgoing_ip_svcs_cb_def by (rule locked_Inr)
  have "a = refused \<and> s1 = s\<lparr>sv_lock := True\<rparr>"
    using c int [of "s\<lparr>sv_lock := True\<rparr>"] by (elim catch_run) auto
  with s' lock show ?thesis by simp
qed

text \<open>
  C18: a source address whose hexadecimal digits or length are wrong is answered by an exception
  that leaves the lock acquired: from then on each of the eight callbacks that take the lock waits for
  ever.
\<close>

theorem malformed_source_locks_out:
  assumes "\<not> sv_lock s" "r_operation q = Some opn" "opn \<noteq> 3" "r_vrf q = Some vrf" "r_af q = Some fam"
    and "af_of_int fam = Some f" "r_src_ip q = Some ip"
    and "case unhexlify (chars_of ip) of Inl _ \<Rightarrow> True | Inr b \<Rightarrow> length b \<noteq> addr_len f"
  shows "\<exists>e. set_vrf_intf_ip_cb E ''rpc'' q s = (Inl e, s\<lparr>sv_lock := True\<rparr>) \<and>
    fst (set_vrf_cb E op1 nm ident (s\<lparr>sv_lock := True\<rparr>)) = Inl Blocked \<and>
    fst (set_vrf_intf_cb E op2 nm v ty (s\<lparr>sv_lock := True\<rparr>)) = Inl Blocked \<and>
    fst (config_incoming_ip_svcs_cb E op3 q3 (s\<lparr>sv_lock := True\<rparr>)) = Inl Blocked \<and>
    fst (get_incoming_ip_svcs_cb E q3 (s\<lparr>sv_lock := True\<rparr>)) = Inl Blocked \<and>
    fst (config_outgoing_ip_svcs_cb E op4 q4 (s\<lparr>sv_lock := True\<rparr>)) = Inl Blocked \<and>
    fst (get_outgoing_ip_svcs_cb E q4 (s\<lparr>sv_lock := True\<rparr>)) = Inl Blocked \<and>
    fst (get_vrf_intf_cb v5 nm5 (s\<lparr>sv_lock := True\<rparr>)) = Inl Blocked \<and>
    fst (set_vrf_intf_ip_cb E op6 q6 (s\<lparr>sv_lock := True\<rparr>)) = Inl Blocked"
proof -
  have "\<exists>e. set_vrf_intf_ip_cb_int E ''rpc'' q (s\<lparr>sv_lock := True\<rparr>) = (Inl e, s\<lparr>sv_lock := True\<rparr>)"
    using assms by (auto simp: set_vrf_intf_ip_cb_int_def inet_ntop_def split: sum.splits)
  then obtain e where "set_vrf_intf_ip_cb E ''rpc'' q s = (Inl e, s\<lparr>sv_lock := True\<rparr>)"
    using assms(1) by (auto simp: set_vrf_intf_ip_cb_def locked_def)
  then show ?thesis
    by (simp add: set_vrf_cb_def set_vrf_intf_cb_def config_incoming_ip_svcs_cb_def get_incoming_ip_svcs_cb_def
        config_outgoing_ip_svcs_cb_def get_outgoing_ip_svcs_cb_def get_vrf_intf_cb_def set_vrf_intf_ip_cb_def
        locked_held)
qed

text \<open>
  C17: the creation of a namespace that is refused, for example because it exists, has removed all
  incoming rules of that namespace all the same, its default rules included, while the daemon still
  counts those as installed.
\<close>

theorem refused_vrf_clears_rules:
  assumes "vrf_reach E s" "set_vrf_cb E ''create'' (Some vrf) (Some i) s = (Inr False, s')"
    and "fst (on_in (process_vrf_svcs_clear_rules E (Some vrf)) s) = Inr True"
  shows "sv_rules s' = sv_rules s \<and> sv_out s' = sv_out s \<and>
    abs_rules (sv_in s') k = (case abs_rules (sv_in s) k of None \<Rightarrow> None
      | Some r \<Rightarrow> if vrf_name r = vrf then None else Some r)"
proof -
  define s0 where "s0 = s\<lparr>sv_lock := True\<rparr>"
  from assms(2) obtain s4 where c: "create_vrf E vrf i s0 = (Inr False, s4)" "s' = s4\<lparr>sv_lock := False\<rparr>"
    unfolding set_vrf_cb_def s0_def
    by (auto simp: set_vrf_cb_int_def failing_handler_def elim!: locked_Inr split: prod.splits sum.splits)
  then obtain b s1 where b: "on_in (process_vrf_svcs_clear_rules E (Some vrf)) s0 = (Inr b, s1)"
    "on_tool (process_vrf_config E True vrf i) s1 = (Inr False, s4)"
    by (auto simp: create_vrf_def and_then_Inr split: if_splits)
  have "b = True" using assms(3) b(1) by (auto simp: on_in_def s0_def split: prod.splits)
  with b(1) obtain cc t where cl: "process_vrf_svcs_clear_rules E (Some vrf) (sv_in s, sv_tool s) = (Inr True, (cc, t))"
    "s1 = s0\<lparr>sv_in := cc, sv_tool := t\<rparr>"
    by (auto simp: s0_def elim: on_in_Inr)
  have "cache_ok (sv_in s)" using vrf_reach_ok [OF assms(1)] by simp
  from clear_answer [OF this cl(1)] on_tool_caches [OF b(2)] c(2) cl(2) show ?thesis
    by (auto simp: s0_def split: option.splits)
qed

text \<open>The bytes of a string.\<close>

definition bytes_of :: "string \<Rightarrow> packed" where
  "bytes_of = map of_char"

lemma chars_of_bytes [simp]: "chars_of (bytes_of s) = s"
proof -
  have "char_of (unat (of_char c :: 8 word)) = c" for c
  proof -
    have "(of_char c :: 8 word) = of_nat (of_char c)" by (simp only: of_nat_of_char)
    then show ?thesis by (simp add: unat_of_nat)
  qed
  then show ?thesis by (simp add: chars_of_def bytes_of_def comp_def)
qed

text \<open>
  The hexadecimal form in which addresses are reported is accepted as an address again and means
  the same one; without a family an IPv6 address is too, unless its bytes happen to be hexadecimal
  digits themselves.
\<close>

theorem reported_address_accepted:
  assumes "inet_ntop f b = Inr text"
    and "fam = Some (int_of_af f) \<or> (fam = None \<and> (f = AF_INET \<or> unhexlify (chars_of b) = Inl TypeError))"
  shows "fitting_af (case fam of None \<Rightarrow> [2, 10] | Some a \<Rightarrow> [a]) (bytes_of (hexlify b)) = Some (int_of_af f, text)"
proof -
  have h: "unhexlified (bytes_of (hexlify b)) = b" by (simp add: unhexlified_def unhexlify_hexlify)
  have len: "length b = addr_len f" using assms(1) by (auto simp: inet_ntop_def split: if_splits)
  have af: "af_of_int 2 = Some AF_INET" "af_of_int 10 = Some AF_INET6" by (simp_all add: af_of_int_def)
  from assms(2) show ?thesis
  proof (elim disjE conjE)
    assume "fam = Some (int_of_af f)"
    then show ?thesis using assms(1) by (simp add: h)
  next
    assume "fam = None" "f = AF_INET"
    then show ?thesis using assms(1) by (simp add: h af int_of_af_def)
  next
    assume f: "fam = None" "unhexlify (chars_of b) = Inl TypeError"
    then have "unhexlified b = b" by (simp add: unhexlified_def)
    then show ?thesis
      using assms(1) f(1) len by (cases f) (simp_all add: h af int_of_af_def inet_ntop_def addr_len_def)
  qed
qed

text \<open>
  An IPv4 address that is given in binary and whose four bytes are ASCII hexadecimal digits, such
  as 49.50.51.52, is taken for a shorter address and refused.
\<close>

theorem digit_address_refused:
  assumes "length b = 4" "list_all (\<lambda>x. hex_val (char_of (unat x)) \<noteq> None) b" "fam = None \<or> fam = Some 2"
  shows "normalize_ip_with_prefix cidr fam b n = Inr None \<and> inet_ntop AF_INET b = Inr (inet_ntop4 b)"
proof -
  obtain x1 x2 x3 x4 where b: "b = [x1, x2, x3, x4]"
    using assms(1) by (auto simp: numeral_eq_Suc length_Suc_conv)
  obtain u v where u: "unhexlified b = [u, v]"
    using assms(2) by (auto simp: b unhexlified_def chars_of_def)
  have "length (unhexlified [u, v]) \<le> 2"
    by (auto simp: unhexlified_def chars_of_def split: option.splits)
  then have "fitting_af (case fam of None \<Rightarrow> [2, 10] | Some a \<Rightarrow> [a]) b = None"
    using assms(3) by (auto simp: u af_of_int_def inet_ntop_def addr_len_def)
  then show ?thesis using assms(1) by (simp add: normalize_ip_with_prefix_def inet_ntop_def addr_len_def)
qed

section \<open>An example\<close>

text \<open>
  Every command succeeds and is remembered, but a namespace cannot be added twice; a network is
  given by its own address.
\<close>

definition host_cidr :: "string \<Rightarrow> exn + packed" where
  "host_cidr s =
     (let t = takeWhile (\<lambda>c. c \<noteq> CHR ''/'') s
      in (case inet_pton4 t of
            Some b \<Rightarrow> Inr b
          | None \<Rightarrow> (case inet_pton6 t of Some b \<Rightarrow> Inr b | None \<Rightarrow> Inl AddrFormatError)))"

definition svc_env :: "string list list ext" where
  "svc_env = recorder\<lparr>cidr_packed := host_cidr,
     popen := (\<lambda>c w. if take 3 c = [iplink_cmd, ''netns'', ''add''] \<and> c \<in> set w then ((1, []), w)
                     else ((0, []), w @ [c]))\<rparr>"

text \<open>The namespace \<open>blue\<close>, an incoming rule for it, and a service it reaches.\<close>

definition blue_svc :: "string list list vrf_svc" where
  "blue_svc = snd (set_vrf_cb svc_env ''create'' (Some ''blue'') (Some 5) (svc_init []))"

definition ssh_req :: in_req where
  "ssh_req = (only_id 0)\<lparr>q_id := None, q_vrf := Some ''blue'', q_af := Some 2, q_protocol := Some 1,
     q_dst_port := Some 22\<rparr>"

definition ssh_svc :: "string list list vrf_svc" where
  "ssh_svc = snd (config_incoming_ip_svcs_cb svc_env ''create'' ssh_req blue_svc)"

definition dns_req :: out_req where
  "dns_req = \<lparr>p_vrf = Some ''blue'', p_af = None, p_public_ip = Some (bytes_of ''0a010203''), p_source_ip = None,
     p_protocol = Some 2, p_public_port = Some 53, p_private_ip = None, p_private_port = None, p_id = None\<rparr>"

definition dns_run :: "(exn + answer) \<times> string list list vrf_svc" where
  "dns_run = config_outgoing_ip_svcs_cb svc_env ''create'' dns_req blue_svc"

lemma blue_run: "set_vrf_cb svc_env ''create'' (Some ''blue'') (Some 5) (svc_init []) = (Inr True, blue_svc)"
proof -
  have "fst (set_vrf_cb svc_env ''create'' (Some ''blue'') (Some 5) (svc_init [])) = Inr True" by code_simp
  then show ?thesis by (simp add: blue_svc_def prod_eq_iff)
qed

lemma reach_blue: "vrf_reach svc_env blue_svc"
proof -
  have "fst (on_in (process_vrf_svcs_clear_rules svc_env (Some ''blue'')) (svc_init [])) = Inr True" by code_simp
  then have "vrf_fine svc_env (R_vrf ''create'' (Some ''blue'') (Some 5)) (svc_init [])" by (simp add: vrf_fine_def)
  with vs_vrf [OF blue_run] show ?thesis unfolding vrf_reach_def by (blast intro: reach_start reach_step)
qed

lemma ssh_run: "config_incoming_ip_svcs_cb svc_env ''create'' ssh_req blue_svc = (Inr (True, Id_added 5), ssh_svc)"
proof -
  have "fst (config_incoming_ip_svcs_cb svc_env ''create'' ssh_req blue_svc) = Inr (True, Id_added 5)" by code_simp
  then show ?thesis by (simp add: ssh_svc_def prod_eq_iff)
qed

lemma reach_ssh_svc: "vrf_reach svc_env ssh_svc"
  by (rule vrf_reach_step [OF reach_blue vs_in [OF ssh_run]]) (simp add: vrf_fine_def)

theorem vrf_service_reachable_witness:
  "own_ids (sv_in ssh_svc) \<and> \<not> sv_lock ssh_svc"
  using vrf_service_reachable [OF vrf_reach_any [OF reach_ssh_svc]] reach_ssh_svc by simp

theorem incoming_create_refines_witness:
  "abs_rules (sv_in blue_svc) 5 = None \<and> map_option dst_port (abs_rules (sv_in ssh_svc) 5) = Some (Some 22) \<and>
   map_option action (abs_rules (sv_in ssh_svc) 5) = Some RULE_ACTION_DNAT"
proof -
  have n: "in_normalize (cidr_packed svc_env) (with_seq ssh_req) = Inr (Some (with_seq ssh_req))" by code_simp
  have "forwards (with_seq ssh_req)" "q_dst_port (with_seq ssh_req) = Some 22" by code_simp+
  with incoming_create_refines [OF reach_blue ssh_run, unfolded n] show ?thesis by auto
qed

definition ssh_deleted :: "string list list vrf_svc" where
  "ssh_deleted = snd (config_incoming_ip_svcs_cb svc_env ''delete'' (only_id 5) ssh_svc)"

theorem created_rule_deleted_witness:
  "abs_rules (sv_in ssh_deleted) = abs_rules (sv_in blue_svc) \<and> \<not> is_id_used 5 (c_ids (sv_in ssh_deleted))"
proof -
  have "fst (config_incoming_ip_svcs_cb svc_env ''delete'' (only_id 5) ssh_svc) = Inr (True, Unchanged)" by code_simp
  then have "config_incoming_ip_svcs_cb svc_env ''delete'' (only_id 5) ssh_svc = (Inr (True, Unchanged), ssh_deleted)"
    by (simp add: ssh_deleted_def prod_eq_iff)
  from created_rule_deleted [OF reach_blue ssh_run this] show ?thesis by simp
qed




theorem outgoing_create_refines_witness:
  "\<exists>k. map_option private_port (out_abs (sv_out (snd dns_run)) k) = Some (Some 62000)"
proof -
  define obj where "obj = [(''id'', VInt 1), (''ni-name'', VStr ''blue''), (''af'', VInt 2),
    (''public-ip'', VBytes (bytes_of ''0a010203'')), (''protocol'', VInt 2), (''public-port'', VInt 53),
    (''private-ip'', VStr ''7f646401''), (''private-port'', VInt 62000)]"
  have "fst dns_run = Inr (True, New_object obj)" unfolding obj_def by code_simp
  then have r: "config_outgoing_ip_svcs_cb svc_env ''create'' dns_req blue_svc = (Inr (True, New_object obj), snd dns_run)"
    by (simp add: dns_run_def prod_eq_iff)
  have "map_of obj ''private-port'' = Some (VInt 62000)" by (simp add: obj_def)
  with outgoing_create_refines [OF reach_blue r] show ?thesis by (auto split: if_splits)
qed

theorem outgoing_icmpv6_refused_witness:
  "\<exists>s'. config_outgoing_ip_svcs_cb svc_env ''create'' (dns_req\<lparr>p_protocol := Some 5\<rparr>) blue_svc = (Inr refused, s') \<and>
     s' = blue_svc"
proof -
  have "fst (config_outgoing_ip_svcs_cb svc_env ''create'' (dns_req\<lparr>p_protocol := Some 5\<rparr>) blue_svc) = Inr refused"
    by code_simp
  then obtain s' where r: "config_outgoing_ip_svcs_cb svc_env ''create'' (dns_req\<lparr>p_protocol := Some 5\<rparr>) blue_svc = (Inr refused, s')"
    by (metis prod.collapse)
  with outgoing_icmpv6_refused [OF _ r] show ?thesis by simp
qed

definition short_address :: src_ip_req where
  "short_address = \<lparr>r_operation = Some 1, r_vrf = Some ''blue'', r_af = Some 2, r_src_ip = Some (bytes_of ''0a0102'')\<rparr>"

theorem malformed_source_locks_out_witness:
  "fst (config_incoming_ip_svcs_cb svc_env ''create'' ssh_req (blue_svc\<lparr>sv_lock := True\<rparr>)) = Inl Blocked"
proof -
  have l: "\<not> sv_lock blue_svc" using vrf_reach_ok [OF reach_blue] by simp
  have "case unhexlify (chars_of (bytes_of ''0a0102'')) of Inl _ \<Rightarrow> True | Inr b \<Rightarrow> length b \<noteq> addr_len AF_INET"
    by code_simp
  from malformed_source_locks_out [OF l _ _ _ _ _ _ this, of short_address 1 "''blue''" 2] show ?thesis
    by (auto simp: short_address_def af_of_int_def)
qed

definition twice_svc :: "string list list vrf_svc" where
  "twice_svc = snd (set_vrf_cb svc_env ''create'' (Some ''blue'') (Some 5) ssh_svc)"

theorem refused_vrf_clears_rules_witness:
  "abs_rules (sv_in ssh_svc) 5 \<noteq> None \<and> abs_rules (sv_in twice_svc) 5 = None \<and> sv_rules twice_svc = sv_rules ssh_svc"
proof -
  have "fst (set_vrf_cb svc_env ''create'' (Some ''blue'') (Some 5) ssh_svc) = Inr False" by code_simp
  then have r: "set_vrf_cb svc_env ''create'' (Some ''blue'') (Some 5) ssh_svc = (Inr False, twice_svc)"
    by (simp add: twice_svc_def prod_eq_iff)
  have c: "fst (on_in (process_vrf_svcs_clear_rules svc_env (Some ''blue'')) ssh_svc) = Inr True" by code_simp
  have n: "in_normalize (cidr_packed svc_env) (with_seq ssh_req) = Inr (Some (with_seq ssh_req))" by code_simp
  have "q_vrf (with_seq ssh_req) = Some ''blue''" by code_simp
  with create_cb [OF ssh_run, unfolded n] vrf_reach_ok [OF reach_blue] obtain r where
    "abs_rules (sv_in ssh_svc) 5 = Some r" "vrf_name r = ''blue''" by auto
  with refused_vrf_clears_rules [OF reach_ssh_svc r c, of 5] show ?thesis by simp
qed

theorem reported_address_accepted_witness:
  "fitting_af [2, 10] (bytes_of ''0a010203'') = Some (2, ''10.1.2.3'')"
proof -
  have "inet_ntop AF_INET [10, 1, 2, 3] = Inr ''10.1.2.3''" by code_simp
  moreover have "hexlify [10, 1, 2, 3] = ''0a010203''" by code_simp
  ultimately show ?thesis
    using reported_address_accepted [of AF_INET "[10, 1, 2, 3]" "''10.1.2.3''" None] by (simp add: int_of_af_def)
qed

theorem digit_address_refused_witness:
  "normalize_ip_with_prefix host_cidr None [49, 50, 51, 52] None = Inr None \<and>
   host_cidr ''49.50.51.52/32'' = Inr [49, 50, 51, 52]"
proof -
  have "host_cidr ''49.50.51.52/32'' = Inr [49, 50, 51, 52]"
    "list_all (\<lambda>x. hex_val (char_of (unat x)) \<noteq> None) [49 :: 8 word, 50, 51, 52]" by code_simp+
  with digit_address_refused [of "[49, 50, 51, 52]" None host_cidr None] show ?thesis by simp
qed

end
