(* ===== verification/CpsObj.thy ===== *)
theory CpsObj
  imports Prelude
begin

text \<open>
  The objects of \<^verbatim>\<open>cps_object\<close> as the handlers of the IP services see them: a key and attributes
  under their full names. A value has the type of the YANG leaf of its attribute, so each
  attribute is read with the getter of its type; a getter raises \<open>ValueError\<close> when the object has
  no such attribute. An event also says for which operation it was sent, if it does.
\<close>

datatype cps_val = CInt int | CStr string | CStrs "string list"

record cps_obj =
  o_key :: string
  o_attrs :: "(string \<times> cps_val) list"

type_synonym cps_event = "string option \<times> cps_obj"

definition get_int :: "cps_obj \<Rightarrow> string \<Rightarrow> exn + int" where
  "get_int obj a = (case map_of (o_attrs obj) a of Some (CInt n) \<Rightarrow> Inr n | _ \<Rightarrow> Inl ValueError)"

definition get_str :: "cps_obj \<Rightarrow> string \<Rightarrow> exn + string" where
  "get_str obj a = (case map_of (o_attrs obj) a of Some (CStr s) \<Rightarrow> Inr s | _ \<Rightarrow> Inl ValueError)"

definition get_strs :: "cps_obj \<Rightarrow> string \<Rightarrow> exn + string list" where
  "get_strs obj a = (case map_of (o_attrs obj) a of Some (CStrs xs) \<Rightarrow> Inr xs | _ \<Rightarrow> Inl ValueError)"

definition add_attr :: "string \<Rightarrow> cps_val \<Rightarrow> cps_obj \<Rightarrow> cps_obj" where
  "add_attr a v obj = obj\<lparr>o_attrs := AList.update a v (o_attrs obj)\<rparr>"

text \<open>\<open>try: x = obj.get_attr_data(a)\<close> with an \<^verbatim>\<open>except\<close> that gives \<open>x\<close> another value.\<close>

definition attr_or :: "'a \<Rightarrow> exn + 'a \<Rightarrow> 'a" where
  "attr_or d x = (case x of Inl _ \<Rightarrow> d | Inr a \<Rightarrow> a)"

definition attr_opt :: "exn + 'a \<Rightarrow> 'a option" where
  "attr_opt x = (case x of Inl _ \<Rightarrow> None | Inr a \<Rightarrow> Some a)"

lemma attr_simps [simp]:
  "attr_or d (Inl e) = d" "attr_or d (Inr a) = a" "attr_opt (Inl e) = None" "attr_opt (Inr a) = Some a"
  by (simp_all add: attr_or_def attr_opt_def)

lemma get_attr_cases:
  "get_int obj a = Inl ValueError \<or> (\<exists>n. get_int obj a = Inr n)"
  "get_str obj a = Inl ValueError \<or> (\<exists>s. get_str obj a = Inr s)"
  by (auto simp: get_int_def get_str_def split: option.splits cps_val.splits)

lemma get_add_attr [simp]:
  "get_int (add_attr a v obj) b = (if a = b then (case v of CInt n \<Rightarrow> Inr n | _ \<Rightarrow> Inl ValueError) else get_int obj b)"
  "get_str (add_attr a v obj) b = (if a = b then (case v of CStr s \<Rightarrow> Inr s | _ \<Rightarrow> Inl ValueError) else get_str obj b)"
  "o_key (add_attr a v obj) = o_key obj"
  by (auto simp: get_int_def get_str_def add_attr_def update_conv' split: cps_val.splits)

end
