(* ===== verification/AddrEvents.thy ===== *)
theory AddrEvents
  imports IpTool CpsObj
begin

unbundle bit_operations_syntax

text \<open>
  \<^verbatim>\<open>scripts/lib/python/dn_base_ip_tool.py\<close>, the two threads of the IP address daemon: the one that
  gives an enabled interface its link-local address, and the one that tries again with an IPv6
  address whose duplicate address detection failed.
\<close>

section \<open>Link-local addresses\<close>

text \<open>\<open>int(s, 16)\<close>, and \<open>hex(n)\<close> with the suffix of a long integer.\<close>

definition py_int16 :: "string \<Rightarrow> exn + int" where
  "py_int16 s =
     (let t = strip s;
          (neg, u) = (case t of c # cs \<Rightarrow> if c = CHR ''-'' then (True, cs)
                                           else if c = CHR ''+'' then (False, cs) else (False, t)
                      | [] \<Rightarrow> (False, t));
          ds = (case u of c # d # cs \<Rightarrow> if c = CHR ''0'' \<and> d \<in> set ''xX'' then cs else u | _ \<Rightarrow> u)
      in if ds = [] then Inl ValueError
         else (case num_val 16 hex_val 0 ds of
                 None \<Rightarrow> Inl ValueError
               | Some n \<Rightarrow> Inr (if neg then - int n else int n)))"

definition py_hex :: "int \<Rightarrow> string" where
  "py_hex n =
     (if n < 0 then ''-0x'' @ nat_hex (nat (- n)) else ''0x'' @ nat_hex (nat n)) @
     (if - (2 ^ 63) \<le> n \<and> n < 2 ^ 63 then '''' else ''L'')"

text \<open>The address made of the MAC address of the interface.\<close>

definition lla_addr :: "string \<Rightarrow> exn + string" where
  "lla_addr intf_mac =
     (case split_on CHR '':'' intf_mac of
        m0 # rest \<Rightarrow>
          try_bind (py_int16 m0) (\<lambda>n.
            (case rest of
               m1 # m2 # m3 # m4 # m5 # _ \<Rightarrow>
                 Inr (''fe80::'' @ drop 2 (py_hex (n XOR 2)) @ m1 @ '':'' @ m2 @ ''ff:fe'' @ m3 @ '':'' @ m4 @ m5)
             | _ \<Rightarrow> Inl IndexError))
      | [] \<Rightarrow> Inl IndexError)"

text \<open>
  One event of \<open>handle_interface_event_for_lla_cfg\<close>. A missing attribute and an interface that is
  not enabled end the turn; an exception of the construction of the address ends the thread.
\<close>

definition lla_attrs :: "cps_obj \<Rightarrow> exn + (string \<times> string \<times> string \<times> int)" where
  "lla_attrs obj =
     try_bind (get_str obj ''ni/if/interfaces/interface/bind-ni-name'') (\<lambda>vrf.
     try_bind (get_str obj ''if/interfaces/interface/name'') (\<lambda>name.
     try_bind (get_str obj ''dell-if/if/interfaces/interface/phys-address'') (\<lambda>mac.
     try_bind (get_int obj ''if/interfaces/interface/enabled'') (\<lambda>status.
       Inr (vrf, name, mac, status)))))"

definition handle_lla_event :: "'w ext \<Rightarrow> cps_event \<Rightarrow> 'w \<Rightarrow> (unit, 'w) outcome" where
  "handle_lla_event E ev w =
     (case fst ev of
        None \<Rightarrow> (Inr (), w)
      | Some operation \<Rightarrow>
          if operation \<noteq> ''create'' \<and> operation \<noteq> ''set'' then (Inr (), w)
          else
            (case lla_attrs (snd ev) of
               Inl _ \<Rightarrow> (Inr (), w)
             | Inr (vrf, name, mac, status) \<Rightarrow>
                 if status \<noteq> 1 then (Inr (), w)
                 else
                   (case lla_addr mac of
                      Inl e \<Rightarrow> (Inl e, w)
                    | Inr a \<Rightarrow> (Inr (), snd (add_ip_addr E (a @ ''/64'') name ''ipv6'' vrf w)))))"

text \<open>The loop, over the events that arrive.\<close>

fun handle_interface_event_for_lla_cfg :: "'w ext \<Rightarrow> cps_event list \<Rightarrow> 'w \<Rightarrow> (unit, 'w) outcome" where
  "handle_interface_event_for_lla_cfg E [] w = (Inr (), w)"
| "handle_interface_event_for_lla_cfg E (ev # evs) w =
     and_then (handle_lla_event E ev w) (\<lambda>_ w. handle_interface_event_for_lla_cfg E evs w)"

section \<open>Failed duplicate address detection\<close>

text \<open>
  \<open>_intf_addr_dad_failed_list\<close> is a dictionary whose values are all \<open>1\<close>: only its keys are kept.
  \<open>dad_timers\<close> counts the started timers that have not expired, \<open>dad_mutex\<close> is \<open>_addr_mutex\<close>.
\<close>

record 'w dad_state =
  dad_world :: 'w
  dad_failed :: "string list"
  dad_timers :: nat
  dad_mutex :: bool

definition dad_key :: "string \<Rightarrow> string \<Rightarrow> string \<Rightarrow> string" where
  "dad_key vrf name addr = ''*'' @ vrf @ ''*'' @ name @ ''*'' @ addr @ ''*''"

definition pop_key :: "string option \<Rightarrow> string list \<Rightarrow> string list" where
  "pop_key k ks = (case k of None \<Rightarrow> ks | Some x \<Rightarrow> filter (\<lambda>y. y \<noteq> x) ks)"

text \<open>
  The loop of \<open>handle_dad_failure_timer\<close> over \<open>keys()\<close>, a copy of the keys; \<open>tmp\<close> is
  \<open>temp_del_key\<close>, the key of the previous turn.
\<close>

fun dad_timer_loop :: "'w ext \<Rightarrow> string list \<Rightarrow> string option \<Rightarrow> 'w dad_state \<Rightarrow> (unit, 'w dad_state) outcome" where
  "dad_timer_loop E [] tmp st = (Inr (), st\<lparr>dad_failed := pop_key tmp (dad_failed st)\<rparr>)"
| "dad_timer_loop E (k # ks) tmp st =
     (let st = st\<lparr>dad_failed := pop_key tmp (dad_failed st)\<rparr>
      in (case split_on CHR ''*'' k of
            _ # vrf # name # addr # _ \<Rightarrow>
              (case del_ip_addr E addr name vrf (dad_world st) of
                 (ok, w) \<Rightarrow>
                   dad_timer_loop E ks (Some k)
                     (st\<lparr>dad_world := (if ok then snd (add_ip_addr E addr name ''ipv6'' vrf w) else w)\<rparr>))
          | _ \<Rightarrow> (Inl IndexError, st)))"

text \<open>\<open>ks\<close> is the order in which the dictionary lists its keys.\<close>

definition handle_dad_failure_timer ::
  "'w ext \<Rightarrow> string list \<Rightarrow> 'w dad_state \<Rightarrow> (unit, 'w dad_state) outcome" where
  "handle_dad_failure_timer E ks st =
     (if dad_mutex st then (Inl Blocked, st)
      else and_then (dad_timer_loop E ks None (st\<lparr>dad_mutex := True\<rparr>)) (\<lambda>_ st.
        (Inr (), st\<lparr>dad_mutex := False\<rparr>)))"

text \<open>
  One event of \<open>handle_addr_event\<close>. \<open>ValueError\<close> ends the turn; the \<open>TypeError\<close> of a malformed
  hexadecimal address does not, it ends the thread. \<open>dad_attrs\<close> gives nothing when the detection
  did not fail.
\<close>

definition dad_attrs :: "cps_obj \<Rightarrow> exn + (string \<times> string \<times> string) option" where
  "dad_attrs obj =
     try_bind (get_int obj ''base-ip/ipv6/dad-failed'') (\<lambda>dad_failed.
       if dad_failed = 0 then Inr None
       else
         try_bind (get_str obj ''base-ip/ipv6/vrf-name'') (\<lambda>vrf.
         try_bind (get_str obj ''base-ip/ipv6/name'') (\<lambda>name.
         try_bind (get_str obj ''base-ip/ipv6/address/ip'') (\<lambda>ip.
         try_bind (unhexlify ip) (\<lambda>packed.
         try_bind (inet_ntop AF_INET6 packed) (\<lambda>addr.
         try_bind (get_int obj ''base-ip/ipv6/address/prefix-length'') (\<lambda>plen.
           Inr (Some (vrf, name, addr @ ''/'' @ dec plen)))))))))"

text \<open>What the event does to the dictionary and its timer.\<close>

definition dad_update :: "string \<Rightarrow> string \<Rightarrow> 'w dad_state \<Rightarrow> 'w dad_state" where
  "dad_update operation key st =
     (if operation = ''create'' \<or> operation = ''set'' then
        (if key \<in> set (dad_failed st) then st
         else
           (let st = st\<lparr>dad_failed := dad_failed st @ [key]\<rparr>
            in if length (dad_failed st) = 1 then st\<lparr>dad_timers := dad_timers st + 1\<rparr> else st))
      else if operation = ''delete'' then
        (if key \<in> set (dad_failed st) then st\<lparr>dad_failed := removeAll key (dad_failed st)\<rparr> else st)
      else st)"

definition handle_addr_event :: "cps_event \<Rightarrow> 'w dad_state \<Rightarrow> (unit, 'w dad_state) outcome" where
  "handle_addr_event ev st =
     (case fst ev of
        None \<Rightarrow> (Inr (), st)
      | Some operation \<Rightarrow>
          (case dad_attrs (snd ev) of
             Inl e \<Rightarrow> if e = ValueError then (Inr (), st) else (Inl e, st)
           | Inr None \<Rightarrow> (Inr (), st)
           | Inr (Some (vrf, name, addr)) \<Rightarrow>
               if dad_mutex st then (Inl Blocked, st)
               else (Inr (), dad_update operation (dad_key vrf name addr) st)))"

end
