(* ===== verification/AddrThreads.thy ===== *)
theory AddrThreads
  imports AddrEvents
begin

text \<open>
  The properties of the two threads of \<open>AddrEvents\<close>: the link-local address is the modified EUI-64
  address of the interface; the addresses whose detection failed always have a timer, and an
  expiring timer tries each of them again.
\<close>

section \<open>The text of the address means its bytes\<close>

definition hex2 :: "8 word \<Rightarrow> string" where
  "hex2 b = [hex_digits ! (unat b div 16), hex_digits ! (unat b mod 16)]"

text \<open>\<open>phys-address\<close> of an interface: its six bytes in hexadecimal, with colons.\<close>

definition mac_text :: "8 word list \<Rightarrow> string" where
  "mac_text bs = join '':'' (map hex2 bs)"

text \<open>RFC 4291: the prefix fe80::/64 and the MAC address with the universal bit inverted and FFFE in the middle.\<close>

definition eui64_lla :: "8 word \<Rightarrow> 8 word \<Rightarrow> 8 word \<Rightarrow> 8 word \<Rightarrow> 8 word \<Rightarrow> 8 word \<Rightarrow> packed" where
  "eui64_lla a b c d e f =
     [0xfe, 0x80, 0, 0, 0, 0, 0, 0, a XOR 2, b, c, 0xff, 0xfe, d, e, f]"

lemma hex_digit_facts:
  assumes "k < 16"
  shows "hex_val (hex_digits ! k) = Some k \<and> hex_digits ! k \<notin> set '':.-+xX*'' \<and> \<not> is_space (hex_digits ! k)"
proof -
  have "\<forall>k\<in>set [0..<16]. hex_val (hex_digits ! k) = Some k \<and> hex_digits ! k \<notin> set '':.-+xX*'' \<and>
      \<not> is_space (hex_digits ! k)"
    by code_simp
  with assms show ?thesis by auto
qed

lemma byte_less: "unat (b :: 8 word) < 256"
  by (rule order_less_le_trans [OF unsigned_less]) simp

lemma byte_div: "unat (b :: 8 word) div 16 < 16"
  using byte_less [of b] by (simp add: less_mult_imp_div_less)

lemma hex2_chars: "c \<in> set (hex2 b) \<Longrightarrow> c \<notin> set '':.-+xX*'' \<and> \<not> is_space c"
  using hex_digit_facts [of "unat b div 16"] hex_digit_facts [of "unat b mod 16"] byte_div [of b]
  by (auto simp: hex2_def)

lemma hex2_plain [simp]: "hex2 b \<noteq> []" "length (hex2 b) = 2" "CHR '':'' \<notin> set (hex2 b)" "CHR ''.'' \<notin> set (hex2 b)"
  using hex2_chars [of "CHR '':''" b] hex2_chars [of "CHR ''.''" b] by (auto simp: hex2_def)

lemma hex2_value: "num_val 16 hex_val acc (hex2 b) = Some (256 * acc + unat b)"
  using hex_digit_facts [of "unat b div 16"] hex_digit_facts [of "unat b mod 16"] byte_div [of b]
  by (simp add: hex2_def)

lemma nat_hex_chars: "c \<in> set (nat_hex n) \<Longrightarrow> c \<notin> set '':.-+xX*''"
proof (induction n rule: nat_hex.induct)
  case (1 n)
  then show ?case
    using hex_digit_facts [of n] hex_digit_facts [of "n mod 16"]
    by (cases "n < 16") (auto simp: nat_hex.simps [of n])
qed

lemma nat_hex_plain [simp]: "CHR '':'' \<notin> set (nat_hex n)"
  using nat_hex_chars [of "CHR '':''" n] by auto

lemma nat_hex_value: "num_val 16 hex_val 0 (nat_hex n) = Some n"
proof (induction n rule: nat_hex.induct)
  case (1 n)
  then show ?case
    using hex_digit_facts [of n] hex_digit_facts [of "n mod 16"]
    by (cases "n < 16") (simp_all add: nat_hex.simps [of n] num_val_append)
qed

lemma nat_hex_length: "n < 256 \<Longrightarrow> length (nat_hex n) \<le> 2 \<and> nat_hex n \<noteq> []"
proof -
  assume "n < 256"
  then have "n div 16 < 16" by (simp add: less_mult_imp_div_less)
  then show ?thesis by (simp add: nat_hex.simps [of n] nat_hex.simps [of "n div 16"])
qed

lemma strip_plain: "\<forall>c\<in>set s. \<not> is_space c \<Longrightarrow> strip s = s"
proof -
  assume s: "\<forall>c\<in>set s. \<not> is_space c"
  then have "dropWhile is_space s = s" "dropWhile is_space (rev s) = rev s"
    by (auto simp: dropWhile_eq_self_iff hd_rev)
  then show ?thesis by (simp add: strip_def lstrip_def rstrip_def)
qed

lemma py_int16_hex2: "py_int16 (hex2 a) = Inr (uint a)"
proof -
  have "strip (hex2 a) = hex2 a" by (rule strip_plain) (use hex2_chars in blast)
  moreover obtain x y where xy: "hex2 a = [x, y]" by (simp add: hex2_def)
  moreover have "x \<noteq> CHR ''-''" "x \<noteq> CHR ''+''" "y \<noteq> CHR ''x''" "y \<noteq> CHR ''X''"
    using hex2_chars [of x a] hex2_chars [of y a] xy by auto
  ultimately show ?thesis using hex2_value [of 0 a] by (simp add: py_int16_def Let_def)
qed

lemma py_hex_byte: "drop 2 (py_hex (uint (a :: 8 word) XOR 2)) = nat_hex (unat (a XOR 2))"
proof -
  have "uint a XOR 2 = uint (a XOR 2)" by (simp only: unsigned_xor_eq) simp
  moreover have "py_hex (int n) = ''0x'' @ nat_hex n" if "n < 256" for n
    using that by (simp add: py_hex_def)
  then have "py_hex (uint (a XOR 2)) = ''0x'' @ nat_hex (unat (a XOR 2))"
    using byte_less [of "a XOR 2"] by (simp only: uint_nat)
  ultimately show ?thesis by simp
qed

lemma lla_text:
  "lla_addr (mac_text [a, b, c, d, e, f]) =
     Inr (''fe80::'' @ join '':'' [nat_hex (unat (a XOR 2)) @ hex2 b, hex2 c @ ''ff'', ''fe'' @ hex2 d, hex2 e @ hex2 f])"
proof -
  have "split_on CHR '':'' (mac_text [a, b, c, d, e, f]) = map hex2 [a, b, c, d, e, f]"
    unfolding mac_text_def by (rule split_on_join) auto
  then show ?thesis by (simp add: lla_addr_def py_int16_hex2 py_hex_byte)
qed

lemma hex_group_bytes:
  assumes "num_val 16 hex_val 0 g = Some (256 * unat (x :: 8 word) + unat (y :: 8 word))" "g \<noteq> []" "length g \<le> 4"
  shows "hex_group g = Some [x, y]"
  using assms byte_less [of y] by (simp add: hex_group_def)

lemma lla_pton:
  "inet_pton6 (''fe80::'' @ join '':'' [nat_hex (unat x) @ hex2 b, hex2 c @ ''ff'', ''fe'' @ hex2 d, hex2 e @ hex2 f]) =
     Some [0xfe, 0x80, 0, 0, 0, 0, 0, 0, x, b, c, 0xff, 0xfe, d, e, f]"
proof -
  define gs where "gs = [nat_hex (unat x) @ hex2 b, hex2 c @ ''ff'', ''fe'' @ hex2 d, hex2 e @ hex2 f]"
  have split: "split_on CHR '':'' (join '':'' gs) = gs"
    by (rule split_on_join) (auto simp: gs_def)
  have g1: "hex_group (nat_hex (unat x) @ hex2 b) = Some [x, b]"
    using nat_hex_length [OF byte_less, of x] by (intro hex_group_bytes) (auto simp: num_val_append nat_hex_value hex2_value)
  have g2: "hex_group (hex2 c @ ''ff'') = Some [c, 0xff]"
    by (intro hex_group_bytes) (auto simp: num_val_append hex2_value hex_val_def is_digit_def)
  have g3: "hex_group (''fe'' @ hex2 d) = Some [0xfe, d]"
    by (intro hex_group_bytes) (auto simp: num_val_append hex2_value hex_val_def is_digit_def)
  have g4: "hex_group (hex2 e @ hex2 f) = Some [e, f]"
    by (intro hex_group_bytes) (auto simp: num_val_append hex2_value)
  have "hex_groups True gs = Some [x, b, c, 0xff, 0xfe, d, e, f]"
    by (simp add: gs_def g1 g2 g3 [simplified] g4)
  moreover have "join '':'' gs \<noteq> []" using nat_hex_length [OF byte_less, of x] by (simp add: gs_def)
  ultimately have "part_groups True (join '':'' gs) = Some [x, b, c, 0xff, 0xfe, d, e, f]"
    by (simp add: part_groups_def split)
  moreover have "part_groups False ''fe80'' = Some [0xfe, 0x80]"
    by (simp add: part_groups_def hex_group_def hex_val_def is_digit_def)
  ultimately show ?thesis
    unfolding gs_def [symmetric] by (simp add: inet_pton6_def numeral_eq_Suc)
qed

lemma lla_addr_short: "length (split_on CHR '':'' mac) < 6 \<Longrightarrow> \<exists>e. lla_addr mac = Inl e"
  by (cases "py_int16 (hd (split_on CHR '':'' mac))") (auto simp: lla_addr_def split: list.split)

section \<open>The waiting addresses\<close>

inductive dad_step :: "'w ext \<Rightarrow> 'w dad_state \<Rightarrow> 'w dad_state \<Rightarrow> bool" for E where
  dad_event: "handle_addr_event ev st = (Inr (), st') \<Longrightarrow> dad_step E st st'"
| dad_expired: "0 < dad_timers st \<Longrightarrow> distinct ks \<Longrightarrow> set ks = set (dad_failed st) \<Longrightarrow>
    handle_dad_failure_timer E ks (st\<lparr>dad_timers := dad_timers st - 1\<rparr>) = (Inr (), st') \<Longrightarrow> dad_step E st st'"
| dad_others: "dad_step E st (st\<lparr>dad_world := w\<rparr>)"

definition dad_start :: "'w dad_state \<Rightarrow> bool" where
  "dad_start st \<longleftrightarrow> dad_failed st = [] \<and> dad_timers st = 0 \<and> \<not> dad_mutex st"

definition dad_reach :: "'w ext \<Rightarrow> 'w dad_state \<Rightarrow> bool" where
  "dad_reach E = reach dad_start (dad_step E)"

definition has_parts :: "string \<Rightarrow> bool" where
  "has_parts k \<longleftrightarrow> 4 \<le> length (split_on CHR ''*'' k)"

definition dad_ok :: "'w dad_state \<Rightarrow> bool" where
  "dad_ok st \<longleftrightarrow> \<not> dad_mutex st \<and> distinct (dad_failed st) \<and> list_all has_parts (dad_failed st) \<and>
     (dad_failed st \<noteq> [] \<longrightarrow> 0 < dad_timers st)"

text \<open>One more attempt: the address is removed, and added again if it was there.\<close>

definition retry_addr :: "'w ext \<Rightarrow> string \<times> string \<times> string \<Rightarrow> 'w \<Rightarrow> 'w" where
  "retry_addr E = (\<lambda>(vrf, name, addr) w.
     case del_ip_addr E addr name vrf w of
       (ok, w) \<Rightarrow> if ok then snd (add_ip_addr E addr name ''ipv6'' vrf w) else w)"

definition retry_key :: "'w ext \<Rightarrow> string \<Rightarrow> 'w \<Rightarrow> 'w" where
  "retry_key E k =
     (let ps = split_on CHR ''*'' k in retry_addr E (ps ! 1, ps ! 2, ps ! 3))"

lemma split_on_length: "length (split_on c s) = Suc (length (filter ((=) c) s))"
  by (induction s) (auto split: list.splits)

lemma dad_key_parts: "has_parts (dad_key vrf name addr)"
  by (simp add: has_parts_def dad_key_def split_on_length)

lemma dad_timer_loop_spec:
  "list_all has_parts ks \<Longrightarrow>
   dad_timer_loop E ks tmp st =
     (Inr (), st\<lparr>dad_world := fold (retry_key E) ks (dad_world st),
        dad_failed := filter (\<lambda>x. x \<notin> set ks \<and> Some x \<noteq> tmp) (dad_failed st)\<rparr>)"
proof (induction ks arbitrary: tmp st)
  case Nil
  then show ?case by (auto simp: pop_key_def split: option.splits intro: filter_cong)
next
  case (Cons k ks)
  from Cons.prems obtain p vrf name addr ps where k: "split_on CHR ''*'' k = p # vrf # name # addr # ps"
    by (auto simp: has_parts_def numeral_eq_Suc Suc_le_length_iff)
  have pop: "filter (\<lambda>x. x \<notin> set ks \<and> x \<noteq> k) (pop_key tmp xs) = filter (\<lambda>x. x \<noteq> k \<and> x \<notin> set ks \<and> Some x \<noteq> tmp) xs" for xs
    by (auto simp: pop_key_def split: option.splits intro: filter_cong)
  show ?case
    using Cons by (simp add: k pop retry_key_def retry_addr_def Let_def split: prod.split)
qed

lemma timer_fires:
  assumes "\<not> dad_mutex st" "list_all has_parts ks" "set ks = set (dad_failed st)"
  shows "handle_dad_failure_timer E ks st =
    (Inr (), st\<lparr>dad_world := fold (retry_key E) ks (dad_world st), dad_failed := []\<rparr>)"
  using assms by (simp add: handle_dad_failure_timer_def dad_timer_loop_spec)

lemma dad_update_ok: "dad_ok st \<Longrightarrow> has_parts k \<Longrightarrow> dad_ok (dad_update operation k st)"
  by (auto simp: dad_ok_def dad_update_def Let_def list_all_iff distinct_removeAll length_Suc_conv)

lemma addr_event_ok:
  assumes "handle_addr_event ev st = (Inr (), st')" "dad_ok st"
  shows "dad_ok st'"
  using assms dad_update_ok [OF _ dad_key_parts]
  by (auto simp: handle_addr_event_def split: option.splits sum.splits if_splits prod.splits)

lemma dad_step_ok: "dad_step E st st' \<Longrightarrow> dad_ok st \<Longrightarrow> dad_ok st'"
proof (induction rule: dad_step.induct)
  case (dad_event ev st st')
  then show ?case by (rule addr_event_ok)
next
  case (dad_expired st ks st')
  then have "list_all has_parts ks" by (simp add: dad_ok_def list_all_iff)
  with dad_expired show ?case by (auto simp: timer_fires dad_ok_def)
qed (simp add: dad_ok_def)

interpretation dad_thread: service dad_start "dad_step E" dad_ok for E
  by unfold_locales (simp add: dad_start_def dad_ok_def, rule dad_step_ok)

lemma dad_reach_ok: "dad_reach E st \<Longrightarrow> dad_ok st"
  unfolding dad_reach_def by (rule dad_thread.reach_inv)

lemma retry_dad_key:
  assumes "CHR ''*'' \<notin> set vrf" "CHR ''*'' \<notin> set name" "CHR ''*'' \<notin> set addr"
  shows "retry_key E (dad_key vrf name addr) = retry_addr E (vrf, name, addr)"
proof -
  have "split_on CHR ''*'' (dad_key vrf name addr) = [[], vrf, name, addr, []]"
    using assms by (simp add: dad_key_def split_on_append)
  then show ?thesis by (simp add: retry_key_def)
qed

lemma fold_retry:
  assumes "\<And>v n a. (v, n, a) \<in> set waiting \<Longrightarrow> CHR ''*'' \<notin> set (v @ n @ a)"
  shows "fold (retry_key E) (map (\<lambda>(v, n, a). dad_key v n a) waiting) w = fold (retry_addr E) waiting w"
  using assms
proof (induction waiting arbitrary: w)
  case (Cons x waiting)
  obtain v n a where "x = (v, n, a)" by (cases x)
  moreover from this Cons.prems [of v n a] have "retry_key E (dad_key v n a) = retry_addr E (v, n, a)"
    by (simp add: retry_dad_key)
  moreover have "\<And>w. fold (retry_key E) (map (\<lambda>(v, n, a). dad_key v n a) waiting) w = fold (retry_addr E) waiting w"
    by (rule Cons.IH) (use Cons.prems in auto)
  ultimately show ?case by simp
qed simp

section \<open>Properties\<close>

text \<open>
  C33: An enabled interface gets exactly one command, which adds to it, in its own namespace, the
  link-local address that RFC 4291 derives from its MAC address, with a prefix length of 64.
\<close>
theorem lla_is_eui64:
  assumes "operation \<in> {''create'', ''set''}"
    and "lla_attrs obj = Inr (vrf, name, mac_text [a, b, c, d, e, f], 1)"
  shows "\<exists>addr. inet_pton6 addr = Some (eui64_lla a b c d e f) \<and>
    handle_lla_event E (Some operation, obj) w =
      (Inr (), snd (run_ok E ((if vrf = ''default'' then [iplink_cmd] else netns_exec vrf [''ip'']) @
         [''addr'', ''add'', addr @ ''/64'', ''dev'', name]) w))"
proof -
  define addr where "addr = ''fe80::'' @ join '':'' [nat_hex (unat (a XOR 2)) @ hex2 b, hex2 c @ ''ff'', ''fe'' @ hex2 d, hex2 e @ hex2 f]"
  have "inet_pton6 addr = Some (eui64_lla a b c d e f)"
    unfolding addr_def eui64_lla_def by (rule lla_pton)
  moreover have "lla_addr (mac_text [a, b, c, d, e, f]) = Inr addr" unfolding addr_def by (rule lla_text)
  ultimately show ?thesis
    using assms by (intro exI [of _ addr]) (auto simp: handle_lla_event_def add_ip_addr_def)
qed

text \<open>
  C39: An interface whose MAC address does not have six parts ends the thread: no later event is
  handled, so no interface that comes up afterwards gets its link-local address.
\<close>
theorem short_mac_ends_lla_thread:
  assumes "handle_interface_event_for_lla_cfg E evs w = (Inr (), w')"
    and "operation \<in> {''create'', ''set''}" "lla_attrs obj = Inr (vrf, name, mac, 1)"
    and "length (split_on CHR '':'' mac) < 6"
  shows "\<exists>e. handle_interface_event_for_lla_cfg E (evs @ (Some operation, obj) # later) w = (Inl e, w')"
proof -
  obtain e where "lla_addr mac = Inl e"
    using lla_addr_short [OF assms(4)] by blast
  then have "handle_lla_event E (Some operation, obj) w' = (Inl e, w')"
    using assms(2,3) by (auto simp: handle_lla_event_def)
  then show ?thesis
    using assms(1) by (induction evs arbitrary: w) (auto simp: and_then_def split: prod.splits sum.splits)
qed

text \<open>
  C32: Whatever events arrive, whenever the timers expire and in whatever order the dictionary
  lists its keys, no address waits twice, a timer runs while one waits, and the mutex is free.
\<close>
theorem waiting_addresses_have_timer:
  assumes "dad_reach E st"
  shows "dad_ok st"
  using assms by (rule dad_reach_ok)

text \<open>
  C31: While an address waits there is a timer, and when it expires it answers: every waiting
  address is removed from its interface and added again, in the namespace the event named, and
  none waits any more.
\<close>
theorem waiting_addresses_retried:
  assumes "dad_reach E st" "dad_failed st \<noteq> []"
    and "set (map (\<lambda>(v, n, a). dad_key v n a) waiting) = set (dad_failed st)"
    and "\<And>v n a. (v, n, a) \<in> set waiting \<Longrightarrow> CHR ''*'' \<notin> set (v @ n @ a)"
  shows "0 < dad_timers st \<and>
    handle_dad_failure_timer E (map (\<lambda>(v, n, a). dad_key v n a) waiting) (st\<lparr>dad_timers := dad_timers st - 1\<rparr>) =
      (Inr (), st\<lparr>dad_timers := dad_timers st - 1, dad_world := fold (retry_addr E) waiting (dad_world st), dad_failed := []\<rparr>)"
proof -
  have ok: "dad_ok st" by (rule dad_reach_ok) (rule assms(1))
  have parts: "list_all has_parts (map (\<lambda>(v, n, a). dad_key v n a) waiting)"
    by (auto simp: list_all_iff dad_key_parts)
  have "fold (retry_key E) (map (\<lambda>(v, n, a). dad_key v n a) waiting) (dad_world st) =
      fold (retry_addr E) waiting (dad_world st)"
    by (rule fold_retry) (rule assms(4))
  then show ?thesis
    using ok assms(2,3) parts by (simp add: timer_fires dad_ok_def)
qed

section \<open>Examples\<close>

definition lla_obj :: "string \<Rightarrow> string \<Rightarrow> cps_obj" where
  "lla_obj name mac = \<lparr>o_key = '''', o_attrs =
     [(''ni/if/interfaces/interface/bind-ni-name'', CStr ''default''),
      (''if/interfaces/interface/name'', CStr name),
      (''dell-if/if/interfaces/interface/phys-address'', CStr mac),
      (''if/interfaces/interface/enabled'', CInt 1)]\<rparr>"

lemma lla_is_eui64_witness:
  "\<exists>addr. inet_pton6 addr = Some (eui64_lla 0x90 0xb1 0x1c 0xf4 0xa8 0x01) \<and>
    handle_lla_event recorder (Some ''set'', lla_obj ''e101-001-0'' ''90:b1:1c:f4:a8:01'') [] =
      (Inr (), snd (run_ok recorder
        ((if ''default'' = ''default'' then [iplink_cmd] else netns_exec ''default'' [''ip'']) @
         [''addr'', ''add'', addr @ ''/64'', ''dev'', ''e101-001-0'']) []))"
proof (rule lla_is_eui64)
  show "lla_attrs (lla_obj ''e101-001-0'' ''90:b1:1c:f4:a8:01'') =
      Inr (''default'', ''e101-001-0'', mac_text [0x90, 0xb1, 0x1c, 0xf4, 0xa8, 0x01], 1)"
    by (simp add: lla_attrs_def get_str_def get_int_def lla_obj_def mac_text_def hex2_def hex_digits_def)
qed simp

lemma short_mac_ends_lla_thread_witness:
  "\<exists>e. handle_interface_event_for_lla_cfg recorder
     ([] @ (Some ''create'', lla_obj ''tun0'' '''') # [(Some ''set'', lla_obj ''e101-001-0'' ''90:b1:1c:f4:a8:01'')]) [] =
     (Inl e, [])"
proof (rule short_mac_ends_lla_thread)
  show "lla_attrs (lla_obj ''tun0'' '''') = Inr (''default'', ''tun0'', '''', 1)" by code_simp
qed simp_all

definition dad_obj :: cps_obj where
  "dad_obj = \<lparr>o_key = '''', o_attrs =
     [(''base-ip/ipv6/dad-failed'', CInt 1), (''base-ip/ipv6/vrf-name'', CStr ''default''),
      (''base-ip/ipv6/name'', CStr ''br10''),
      (''base-ip/ipv6/address/ip'', CStr ''20010db8000000000000000000000001''),
      (''base-ip/ipv6/address/prefix-length'', CInt 64)]\<rparr>"

lemma dad_obj_attrs: "dad_attrs dad_obj = Inr (Some (''default'', ''br10'', ''2001:db8::1/64''))"
proof -
  have "unhexlify ''20010db8000000000000000000000001'' =
      Inr [0x20, 0x01, 0x0d, 0xb8, 0, 0, 0, 0, 0, 0, 0, 0, 0, 0, 0, 1]"
    by (simp add: hex_val_def is_digit_def)
  moreover have "inet_ntop AF_INET6 [0x20, 0x01, 0x0d, 0xb8, 0, 0, 0, 0, 0, 0, 0, 0, 0, 0, 0, 1] = Inr ''2001:db8::1''"
    by (simp add: inet_ntop_def addr_len_def inet_ntop6_def best_run_def zero_run_def upt_rec nat_hex.simps hex_digits_def)
  moreover have "dec 64 = ''64''" by code_simp
  ultimately show ?thesis by (simp add: dad_attrs_def dad_obj_def get_int_def get_str_def)
qed

definition dad_waiting :: "string list list dad_state" where
  "dad_waiting = \<lparr>dad_world = [], dad_failed = [dad_key ''default'' ''br10'' ''2001:db8::1/64''],
     dad_timers = 1, dad_mutex = False\<rparr>"

lemma dad_waiting_reach: "dad_reach recorder dad_waiting"
  unfolding dad_reach_def
proof (rule reach_step)
  show "reach dad_start (dad_step recorder) \<lparr>dad_world = [], dad_failed = [], dad_timers = 0, dad_mutex = False\<rparr>"
    by (rule reach_start) (simp add: dad_start_def)
  show "dad_step recorder \<lparr>dad_world = [], dad_failed = [], dad_timers = 0, dad_mutex = False\<rparr> dad_waiting"
    by (rule dad_event [of "(Some ''create'', dad_obj)"])
      (simp add: handle_addr_event_def dad_obj_attrs dad_update_def dad_waiting_def)
qed

lemma waiting_addresses_have_timer_witness: "dad_ok dad_waiting"
  by (rule waiting_addresses_have_timer) (rule dad_waiting_reach)

lemma waiting_addresses_retried_witness:
  "0 < dad_timers dad_waiting \<and>
    handle_dad_failure_timer recorder (map (\<lambda>(v, n, a). dad_key v n a) [(''default'', ''br10'', ''2001:db8::1/64'')])
      (dad_waiting\<lparr>dad_timers := dad_timers dad_waiting - 1\<rparr>) =
      (Inr (), dad_waiting\<lparr>dad_timers := dad_timers dad_waiting - 1,
        dad_world := fold (retry_addr recorder) [(''default'', ''br10'', ''2001:db8::1/64'')] (dad_world dad_waiting),
        dad_failed := []\<rparr>)"
proof (rule waiting_addresses_retried)
  show "dad_reach recorder dad_waiting" by (rule dad_waiting_reach)
qed (simp_all add: dad_waiting_def)

end
