(* ===== verification/IpService.thy ===== *)
theory IpService
  imports IpTool CpsObj
begin

text \<open>
  \<^verbatim>\<open>scripts/bin/base_ip.py\<close>, the daemon for the IP attributes of interfaces: what it reports,
  what a \<open>set\<close> writes, and the requests for unreachable messages, neighbour flushes and proxy ARP,
  with \<^verbatim>\<open>dn_base_ip_tbl_tool.py\<close>. A file below \<^verbatim>\<open>/proc\<close> is read and written as a whole.
\<close>

record 'w ip_ext =
  ip_cmds :: "'w ext"
  key_from_name :: "string \<Rightarrow> string"
  if_indextoname :: "int \<Rightarrow> 'w \<Rightarrow> string option"
  key_compare :: "cps_obj \<Rightarrow> (string \<times> cps_val) list \<Rightarrow> bool"
  to_data :: "string \<Rightarrow> cps_val \<Rightarrow> cps_val"
  proc_read :: "string \<Rightarrow> 'w \<Rightarrow> string option"
  proc_write :: "string \<Rightarrow> string \<Rightarrow> 'w \<Rightarrow> bool \<times> 'w"
  cps_transaction :: "cps_obj \<Rightarrow> string \<Rightarrow> 'w \<Rightarrow> bool \<times> 'w"

record 'w ip_svc =
  ip_world :: 'w
  ipv6_enable_status :: "string \<rightharpoonup> int"

section \<open>Names and keys\<close>

definition ip_keys :: "'w ip_ext \<Rightarrow> string \<rightharpoonup> string" where
  "ip_keys E = [''base-ip/ipv4'' \<mapsto> key_from_name E ''base-ip/ipv4'',
     ''base-ip/ipv6'' \<mapsto> key_from_name E ''base-ip/ipv6'',
     key_from_name E ''base-ip/ipv4'' \<mapsto> ''base-ip/ipv4'',
     key_from_name E ''base-ip/ipv6'' \<mapsto> ''base-ip/ipv6'']"

definition get_af_from_name :: "string \<Rightarrow> string" where
  "get_af_from_name name = (if str_in ''ipv4'' name then ''ipv4'' else ''ipv6'')"

definition get_af_from_obj :: "'w ip_ext \<Rightarrow> cps_obj \<Rightarrow> exn + string" where
  "get_af_from_obj E obj = try_bind (or_raise KeyError (ip_keys E (o_key obj))) (\<lambda>n. Inr (get_af_from_name n))"

text \<open>\<open>'base-ip/' + af + '/' + a\<close>.\<close>

definition ip_attr :: "string \<Rightarrow> string \<Rightarrow> string" where
  "ip_attr af a = ''base-ip/'' @ af @ ''/'' @ a"

definition get_key_from_obj :: "'w ip_ext \<Rightarrow> string \<Rightarrow> cps_obj \<Rightarrow> 'w \<Rightarrow> string option" where
  "get_key_from_obj E af obj w =
     (case (case get_int obj (ip_attr af ''ifindex'') of Inl _ \<Rightarrow> None | Inr i \<Rightarrow> if_indextoname E i w) of
        Some n \<Rightarrow> Some n
      | None \<Rightarrow> attr_opt (get_str obj (ip_attr af ''name'')))"

section \<open>Kernel variables\<close>

definition proc_path :: "string list \<Rightarrow> string" where
  "proc_path path = ''/'' @ join ''/'' path"

definition proc_fwd_entry :: "string \<Rightarrow> string \<Rightarrow> string list" where
  "proc_fwd_entry dev iptype = [''proc'', ''sys'', ''net'', iptype, ''conf'', dev, ''forwarding'']"

definition proc_disable_ipv6_entry :: "string \<Rightarrow> string list" where
  "proc_disable_ipv6_entry dev = [''proc'', ''sys'', ''net'', ''ipv6'', ''conf'', dev, ''disable_ipv6'']"

definition proc_ipv6_autoconf_entry :: "string \<Rightarrow> string list" where
  "proc_ipv6_autoconf_entry dev = [''proc'', ''sys'', ''net'', ''ipv6'', ''conf'', dev, ''autoconf'']"

definition proc_ipv6_accept_dad_entry :: "string \<Rightarrow> string list" where
  "proc_ipv6_accept_dad_entry dev = [''proc'', ''sys'', ''net'', ''ipv6'', ''conf'', dev, ''accept_dad'']"

definition proc_ipv4_arp_accept_entry :: "string \<Rightarrow> string list" where
  "proc_ipv4_arp_accept_entry dev = [''proc'', ''sys'', ''net'', ''ipv4'', ''conf'', dev, ''arp_accept'']"

text \<open>\<open>_get_proc_variable\<close>: \<open>-1\<close> for a file that cannot be read or holds no number.\<close>

definition get_proc_variable :: "'w ip_ext \<Rightarrow> string list \<Rightarrow> 'w \<Rightarrow> int" where
  "get_proc_variable E path w =
     (case proc_read E (proc_path path) w of None \<Rightarrow> -1 | Some d \<Rightarrow> attr_or (-1) (py_int d))"

text \<open>\<open>_set_proc_variable\<close>: false stands for the \<open>-1\<close> of a failed write.\<close>

definition set_proc_variable :: "'w ip_ext \<Rightarrow> string list \<Rightarrow> string \<Rightarrow> 'w \<Rightarrow> bool \<times> 'w" where
  "set_proc_variable E path v w = proc_write E (proc_path path) v w"

section \<open>What is reported\<close>

text \<open>An object with the attribute \<open>base-ip/AF/address\<close>, a dictionary of addresses by index.\<close>

record ip_report =
  rep_obj :: cps_obj
  rep_addresses :: "(string \<times> (string \<times> cps_val) list) list option"

lemma inj_nat_dec: "inj nat_dec"
  by (rule injI) (metis nat_dec_val option.inject)

function next_index_loop :: "string list \<Rightarrow> nat \<Rightarrow> nat" where
  "next_index_loop d count = (if nat_dec count \<in> set d then next_index_loop d (Suc count) else count)"
  by auto

termination
proof (relation "measure (\<lambda>(d, count). card {n. count \<le> n \<and> nat_dec n \<in> set d})", simp)
  fix d :: "string list" and count
  assume "nat_dec count \<in> set d"
  moreover have "finite {n. count \<le> n \<and> nat_dec n \<in> set d}"
    by (rule finite_subset [OF _ finite_vimageI [OF finite_set inj_nat_dec]]) auto
  moreover have "{n. count \<le> n \<and> nat_dec n \<in> set d} = insert count {n. Suc count \<le> n \<and> nat_dec n \<in> set d}"
    using \<open>nat_dec count \<in> set d\<close> by (auto simp: le_eq_less_or_eq)
  ultimately have "card {n. Suc count \<le> n \<and> nat_dec n \<in> set d} < card {n. count \<le> n \<and> nat_dec n \<in> set d}"
    by simp
  then show "((d, Suc count), d, count) \<in> measure (\<lambda>(d, count). card {n. count \<le> n \<and> nat_dec n \<in> set d})"
    by simp
qed

declare next_index_loop.simps [simp del]

definition get_next_index :: "string list \<Rightarrow> nat" where
  "get_next_index d = next_index_loop d 0"

definition create_obj_from_line :: "'w ip_ext \<Rightarrow> string \<Rightarrow> nat \<Rightarrow> string \<Rightarrow> string \<Rightarrow> cps_obj" where
  "create_obj_from_line E obj_type ix name vrf =
     (let af = get_af_from_name obj_type
      in \<lparr>o_key = key_from_name E obj_type,
          o_attrs = [(ip_attr af ''vrf-id'', CInt 0), (ip_attr af ''ifindex'', CInt (int ix)),
            (ip_attr af ''name'', CStr name), (ip_attr af ''vrf-name'', CStr vrf)]\<rparr>)"

text \<open>
  \<open>process_ip_line\<close>: the address and the prefix length of a line of the wanted family. Its
  exception handler prints a variable that does not exist.
\<close>

definition addr_entry :: "'w ip_ext \<Rightarrow> string \<Rightarrow> string \<times> string \<times> string \<Rightarrow> exn + (string \<times> cps_val) list" where
  "addr_entry E af ip =
     (case ip of (line_af, addr, prefix) \<Rightarrow>
        if af \<noteq> ''ipv4'' \<and> af \<noteq> ''ipv6'' then Inr []
        else if line_af \<noteq> (if af = ''ipv4'' then ''inet'' else ''inet6'') then Inr []
        else
          (case try_bind (inet_pton (if af = ''ipv4'' then AF_INET else AF_INET6) addr) (\<lambda>a.
                  try_bind (py_int prefix) (\<lambda>n. Inr (a, n))) of
             Inl _ \<Rightarrow> Inl NameError
           | Inr (a, n) \<Rightarrow>
               Inr [(ip_attr af ''address/ip'', to_data E (ip_attr af ''address/ip'') (CStr (hexlify a))),
                    (ip_attr af ''address/prefix-length'',
                     to_data E (ip_attr af ''address/prefix-length'') (CInt n))]))"

definition add_ip_info :: "'w ip_ext \<Rightarrow> string \<Rightarrow> string \<times> string \<times> string \<Rightarrow> ip_report \<Rightarrow> exn + ip_report" where
  "add_ip_info E af ip rep =
     (let v = (case rep_addresses rep of None \<Rightarrow> [] | Some v \<Rightarrow> v)
      in try_bind (addr_entry E af ip) (\<lambda>d.
           Inr (rep\<lparr>rep_addresses :=
             Some (if d = [] then v else v @ [(nat_dec (get_next_index (map fst v)), d)])\<rparr>)))"

fun add_ip_infos :: "'w ip_ext \<Rightarrow> string \<Rightarrow> (string \<times> string \<times> string) list \<Rightarrow> ip_report \<Rightarrow> exn + ip_report" where
  "add_ip_infos E af [] rep = Inr rep"
| "add_ip_infos E af (ip # ips) rep = try_bind (add_ip_info E af ip rep) (add_ip_infos E af ips)"

text \<open>The attributes from the kernel variables, and for IPv6 from the remembered setting.\<close>

definition reported_forwarding :: "'w ip_ext \<Rightarrow> string \<Rightarrow> string \<Rightarrow> 'w \<Rightarrow> int" where
  "reported_forwarding E af name w =
     (let fwd = get_proc_variable E (proc_fwd_entry name af) w in if fwd = -1 then 0 else fwd)"

definition reported_enabled :: "'w ip_ext \<Rightarrow> (string \<rightharpoonup> int) \<Rightarrow> string \<Rightarrow> 'w \<Rightarrow> int" where
  "reported_enabled E status name w =
     (case status name of
        Some enabled \<Rightarrow> enabled
      | None \<Rightarrow>
          (let disable = get_proc_variable E (proc_disable_ipv6_entry name) w
           in if disable = -1 \<or> disable = 1 then 0 else 1))"

definition ipv6_attrs :: "'w ip_ext \<Rightarrow> (string \<rightharpoonup> int) \<Rightarrow> string \<Rightarrow> 'w \<Rightarrow> cps_obj \<Rightarrow> cps_obj" where
  "ipv6_attrs E status name w obj =
     (let autoconf = get_proc_variable E (proc_ipv6_autoconf_entry name) w;
          accept_dad = get_proc_variable E (proc_ipv6_accept_dad_entry name) w;
          obj = add_attr (ip_attr ''ipv6'' ''enabled'') (CInt (reported_enabled E status name w)) obj;
          obj = add_attr (ip_attr ''ipv6'' ''autoconf'') (CInt (if autoconf = -1 then 0 else autoconf)) obj
      in if accept_dad \<noteq> 1 \<and> accept_dad \<noteq> -1
         then add_attr (ip_attr ''ipv6'' ''accept-dad'') (CInt (accept_dad + 1)) obj else obj)"

definition if_report :: "'w ip_ext \<Rightarrow> (string \<rightharpoonup> int) \<Rightarrow> string \<Rightarrow> interface \<Rightarrow> 'w \<Rightarrow> exn + ip_report" where
  "if_report E status af i w =
     (let obj = create_obj_from_line E (''base-ip/'' @ af) (ifix i) (ifname i) (if_vrf_name i);
          obj = add_attr (ip_attr af ''forwarding'') (CInt (reported_forwarding E af (ifname i) w)) obj;
          obj = (if af = ''ipv6'' then ipv6_attrs E status (ifname i) w obj else obj)
      in add_ip_infos E af (if_ip i) \<lparr>rep_obj = obj, rep_addresses = None\<rparr>)"

text \<open>The loop over the interfaces, with the filter.\<close>

fun report_loop ::
  "'w ip_ext \<Rightarrow> (string \<rightharpoonup> int) \<Rightarrow> string \<Rightarrow> cps_obj \<Rightarrow> 'w \<Rightarrow> interface list \<Rightarrow> exn + ip_report list" where
  "report_loop E status af filt w [] = Inr []"
| "report_loop E status af filt w (i # is) =
     (if \<not> key_compare E filt [(ip_attr af ''name'', CStr (ifname i)), (ip_attr af ''ifindex'', CInt (int (ifix i)))]
      then report_loop E status af filt w is
      else try_bind (if_report E status af i w) (\<lambda>r.
             try_bind (report_loop E status af filt w is) (\<lambda>rs. Inr (r # rs))))"

text \<open>\<open>_get_ip_objs\<close>: the reports; it answers \<open>True\<close> whenever it returns.\<close>

definition get_ip_objs :: "'w ip_ext \<Rightarrow> cps_obj \<Rightarrow> 'w ip_svc \<Rightarrow> (ip_report list, 'w ip_svc) outcome" where
  "get_ip_objs E filt st =
     (case get_af_from_obj E filt of
        Inl e \<Rightarrow> (Inl e, st)
      | Inr af \<Rightarrow>
          (let name = get_key_from_obj E af filt (ip_world st);
               given = attr_opt (get_str filt (ip_attr af ''vrf-name''));
               vrf = (if given = None \<and> name \<noteq> None then Some ''default'' else given)
           in case get_if_details (ip_cmds E) vrf name (ip_world st) of
                (Inl e, w) \<Rightarrow> (Inl e, st\<lparr>ip_world := w\<rparr>)
              | (Inr is, w) \<Rightarrow>
                  (report_loop E (ipv6_enable_status st) af filt w is, st\<lparr>ip_world := w\<rparr>)))"

text \<open>\<open>get_cb\<close>: \<open>None\<close> stands for the answer \<open>False\<close>.\<close>

definition ip_get_cb :: "'w ip_ext \<Rightarrow> cps_obj \<Rightarrow> 'w ip_svc \<Rightarrow> (ip_report list option, 'w ip_svc) outcome" where
  "ip_get_cb E filt st =
     (if Some (o_key filt) = ip_keys E ''base-ip/ipv4'' \<or> Some (o_key filt) = ip_keys E ''base-ip/ipv6''
      then and_then (get_ip_objs E filt st) (\<lambda>rs st. (Inr (Some rs), st))
      else (Inr None, st))"

end
