(* ===== verification/IpConfig.thy ===== *)
theory IpConfig
  imports IpService
begin

text \<open>
  \<^verbatim>\<open>scripts/bin/base_ip.py\<close>, continued: \<open>trans_cb\<close>, which sets the attributes of an interface, and
  the callbacks for ICMP unreachable messages (with \<^verbatim>\<open>dn_base_ip_tbl_tool.py\<close>), for the flush of
  neighbours and for proxy ARP.
\<close>

section \<open>Setting the attributes of an interface\<close>

text \<open>
  Each attribute is set in a \<^verbatim>\<open>try\<close> of its own: a missing one is passed over, and a
  \<^verbatim>\<open>return False\<close> ends the request. \<open>blocks\<close> runs them in turn; false stands for that return.
\<close>

fun blocks :: "('s \<Rightarrow> bool \<times> 's) list \<Rightarrow> 's \<Rightarrow> bool \<times> 's" where
  "blocks [] st = (True, st)"
| "blocks (b # bs) st = (case b st of (ok, st') \<Rightarrow> if ok then blocks bs st' else (False, st'))"

definition int_block :: "cps_obj \<Rightarrow> string \<Rightarrow> (int \<Rightarrow> 's \<Rightarrow> bool \<times> 's) \<Rightarrow> 's \<Rightarrow> bool \<times> 's" where
  "int_block obj a f st = (case get_int obj a of Inl _ \<Rightarrow> (True, st) | Inr n \<Rightarrow> f n st)"

text \<open>
  The write itself: to the file in the default namespace, with a command in another one. Only the
  \<open>-1\<close> of a failed file is a failure; the command's \<open>False\<close> is not.
\<close>

definition set_variable ::
  "'w ip_ext \<Rightarrow> string \<Rightarrow> string list \<Rightarrow> string \<Rightarrow> ('w \<Rightarrow> bool \<times> 'w) \<Rightarrow> 'w ip_svc \<Rightarrow> bool \<times> 'w ip_svc" where
  "set_variable E vrf path v cmd st =
     (if vrf = ''default'' then
        (case set_proc_variable E path v (ip_world st) of (ok, w) \<Rightarrow> (ok, st\<lparr>ip_world := w\<rparr>))
      else (True, st\<lparr>ip_world := snd (cmd (ip_world st))\<rparr>))"

definition set_enabled :: "'w ip_ext \<Rightarrow> string \<Rightarrow> string \<Rightarrow> int \<Rightarrow> 'w ip_svc \<Rightarrow> bool \<times> 'w ip_svc" where
  "set_enabled E vrf name enabled st =
     (let disable_ipv6 = dec (if enabled = 1 then 0 else 1)
      in set_variable E vrf (proc_disable_ipv6_entry name) disable_ipv6
           (disable_ipv6_config (ip_cmds E) name disable_ipv6 vrf)
           (st\<lparr>ipv6_enable_status := (ipv6_enable_status st)(name \<mapsto> enabled)\<rparr>))"

definition set_autoconf :: "'w ip_ext \<Rightarrow> string \<Rightarrow> string \<Rightarrow> int \<Rightarrow> 'w ip_svc \<Rightarrow> bool \<times> 'w ip_svc" where
  "set_autoconf E vrf name autoconf st =
     set_variable E vrf (proc_ipv6_autoconf_entry name) (dec autoconf)
       (ipv6_autoconf_config (ip_cmds E) name autoconf vrf) st"

definition set_accept_dad :: "'w ip_ext \<Rightarrow> string \<Rightarrow> string \<Rightarrow> int \<Rightarrow> 'w ip_svc \<Rightarrow> bool \<times> 'w ip_svc" where
  "set_accept_dad E vrf name accept_dad st =
     (if accept_dad \<notin> {1, 2, 3} then (False, st)
      else set_variable E vrf (proc_ipv6_accept_dad_entry name) (dec (accept_dad - 1))
             (ipv6_accept_dad_config (ip_cmds E) name (dec (accept_dad - 1)) vrf) st)"

definition set_arp_accept :: "'w ip_ext \<Rightarrow> string \<Rightarrow> string \<Rightarrow> int \<Rightarrow> 'w ip_svc \<Rightarrow> bool \<times> 'w ip_svc" where
  "set_arp_accept E vrf name arp_accept st =
     (let v = dec (if arp_accept = 1 then 0 else 1)
      in set_variable E vrf (proc_ipv4_arp_accept_entry name) v (ipv4_arp_accept_config (ip_cmds E) name v vrf) st)"

definition set_forwarding :: "'w ip_ext \<Rightarrow> string \<Rightarrow> string \<Rightarrow> string \<Rightarrow> int \<Rightarrow> 'w ip_svc \<Rightarrow> bool \<times> 'w ip_svc" where
  "set_forwarding E af vrf name fwd st =
     set_variable E vrf (proc_fwd_entry name af) (dec fwd) (ip_forwarding_config (ip_cmds E) af name (dec fwd) vrf) st"

definition set_attributes :: "'w ip_ext \<Rightarrow> string \<Rightarrow> string \<Rightarrow> string \<Rightarrow> cps_obj \<Rightarrow> 'w ip_svc \<Rightarrow> bool \<times> 'w ip_svc" where
  "set_attributes E af vrf name obj st =
     blocks
       ((if af = ''ipv6'' then
           [int_block obj (ip_attr af ''enabled'') (set_enabled E vrf name),
            int_block obj (ip_attr af ''autoconf'') (set_autoconf E vrf name),
            int_block obj (ip_attr af ''accept-dad'') (set_accept_dad E vrf name)]
         else if af = ''ipv4'' then [int_block obj (ip_attr af ''arp-accept'') (set_arp_accept E vrf name)]
         else []) @
        [int_block obj (ip_attr af ''forwarding'') (set_forwarding E af vrf name)]) st"

definition ip_trans_cb :: "'w ip_ext \<Rightarrow> cps_obj \<Rightarrow> string \<Rightarrow> 'w ip_svc \<Rightarrow> (bool, 'w ip_svc) outcome" where
  "ip_trans_cb E obj operation st =
     (case get_af_from_obj E obj of
        Inl e \<Rightarrow> (Inl e, st)
      | Inr af \<Rightarrow>
          (case get_key_from_obj E af obj (ip_world st) of
             None \<Rightarrow> (Inr False, st)
           | Some name \<Rightarrow>
               (let vrf = attr_or ''default'' (get_str obj (ip_attr af ''vrf-name''))
                in if operation = ''set'' \<and> Some (o_key obj) = ip_keys E (''base-ip/'' @ af)
                   then (case set_attributes E af vrf name obj st of (ok, st') \<Rightarrow> (Inr ok, st'))
                   else (Inr False, st))))"

section \<open>ICMP unreachable messages\<close>

text \<open>\<open>ip_tables_unreach_rule\<close> of \<^verbatim>\<open>dn_base_ip_tbl_tool.py\<close>.\<close>

definition ip_tables_unreach_rule ::
  "'w ext \<Rightarrow> string \<Rightarrow> bool \<Rightarrow> int \<Rightarrow> int \<Rightarrow> string option \<Rightarrow> 'w \<Rightarrow> bool \<times> 'w" where
  "ip_tables_unreach_rule E vrf is_add enable family dev w =
     (let v4 = (family = 2);
          ip_table = (if v4 then ''/sbin/iptables'' else ''/sbin/ip6tables'');
          proto = (if v4 then ''icmp'' else ''icmpv6'');
          proto_type = (if v4 then ''--icmp-type'' else ''--icmpv6-type'');
          operation = (if is_add then ''-I'' else ''-D'');
          action = (if enable = 1 then ''ACCEPT'' else ''DROP'')
      in run_ok E
           ((if vrf = ''default'' then [] else [iplink_cmd, ''netns'', ''exec'', vrf]) @
            [ip_table, operation, ''OUTPUT''] @ (case dev of None \<Rightarrow> [] | Some d \<Rightarrow> [''-o'', d]) @
            [''-p'', proto, proto_type, ''destination-unreachable'', ''-j'', action]) w)"

definition unreach_attr :: "string \<Rightarrow> string" where
  "unreach_attr t = ''os-icmp-cfg/ip-unreachables-config/input/'' @ t"

text \<open>The three mandatory attributes: operation, address family, enable.\<close>

definition unreach_mandatory :: "cps_obj \<Rightarrow> exn + (int \<times> int \<times> int)" where
  "unreach_mandatory obj =
     try_bind (get_int obj (unreach_attr ''operation'')) (\<lambda>operation.
     try_bind (get_int obj (unreach_attr ''af'')) (\<lambda>af.
     try_bind (get_int obj (unreach_attr ''enable'')) (\<lambda>enable. Inr (operation, af, enable))))"

definition set_ip_unreach_cb :: "'w ext \<Rightarrow> cps_obj \<Rightarrow> string \<Rightarrow> 'w \<Rightarrow> bool \<times> 'w" where
  "set_ip_unreach_cb E obj operation w =
     (if operation \<noteq> ''rpc'' then (False, w)
      else
        (case unreach_mandatory obj of
           Inl _ \<Rightarrow> (False, w)
         | Inr (oper, af, enable) \<Rightarrow>
             (let vrf = attr_or ''default'' (get_str obj (unreach_attr ''vrf-name''))
              in if oper = 3 then (False, w)
                 else if af_of_int af = None then (False, w)
                 else ip_tables_unreach_rule E vrf (oper \<noteq> 2) enable af
                        (attr_opt (get_str obj (unreach_attr ''ifname''))) w)))"

section \<open>Flushing neighbours\<close>

definition flush_attr :: "string \<Rightarrow> string" where
  "flush_attr t = ''base-neighbor/flush/input/'' @ t"

definition neigh_flush_ip_and_prefix :: "string \<Rightarrow> int option \<Rightarrow> address_family \<Rightarrow> exn + string" where
  "neigh_flush_ip_and_prefix ip_addr prefix_len af =
     try_bind (unhexlify ip_addr) (\<lambda>b.
     try_bind (inet_ntop af b) (\<lambda>addr.
       Inr (case prefix_len of None \<Rightarrow> addr | Some n \<Rightarrow> addr @ ''/'' @ dec n)))"

definition nbr_flush_obj :: "'w ip_ext \<Rightarrow> string \<Rightarrow> address_family \<Rightarrow> string option \<Rightarrow> cps_obj" where
  "nbr_flush_obj E vrf af dev =
     \<lparr>o_key = key_from_name E ''base-route/nbr-flush'',
      o_attrs = [(''base-route/nbr-flush/input/vrf-name'', CStr vrf),
          (''base-route/nbr-flush/input/af'', CInt (int_of_af af))] @
        (case dev of None \<Rightarrow> [] | Some d \<Rightarrow> [(''base-route/nbr-flush/input/ifname'', CStr d)])\<rparr>"

definition nbr_flush_handle ::
  "'w ip_ext \<Rightarrow> string \<Rightarrow> address_family \<Rightarrow> string option \<Rightarrow> 'w \<Rightarrow> bool \<times> 'w" where
  "nbr_flush_handle E vrf af dev w = cps_transaction E (nbr_flush_obj E vrf af dev) ''rpc'' w"

text \<open>\<open>_ip_af\<close>.\<close>

definition ip_af :: "address_family \<Rightarrow> string" where
  "ip_af af = (case af of AF_INET \<Rightarrow> ''ipv4'' | AF_INET6 \<Rightarrow> ''ipv6'')"

text \<open>The loop over the interfaces; \<open>val\<close> is the variable it leaves, unbound before the first turn.\<close>

definition flush_one ::
  "'w ip_ext \<Rightarrow> string \<Rightarrow> address_family \<Rightarrow> string option \<Rightarrow> string \<Rightarrow> 'w \<Rightarrow> bool \<times> 'w" where
  "flush_one E vrf af addr dev w =
     (case is_intf_exist_in_vrf (ip_cmds E) vrf dev w of
        (there, w) \<Rightarrow>
          if there then flush_ip_neigh (ip_cmds E) (ip_af af) (Some dev) addr vrf w
          else nbr_flush_handle E vrf af (Some dev) w)"

fun flush_loop ::
  "'w ip_ext \<Rightarrow> string \<Rightarrow> address_family \<Rightarrow> string option \<Rightarrow> string list \<Rightarrow> bool option \<Rightarrow> 'w \<Rightarrow> bool option \<times> 'w" where
  "flush_loop E vrf af addr [] val w = (val, w)"
| "flush_loop E vrf af addr (dev # devs) val w =
     (case flush_one E vrf af addr dev w of (v, w) \<Rightarrow> flush_loop E vrf af addr devs (Some v) w)"

definition flush_ip_neigh_cb :: "'w ip_ext \<Rightarrow> cps_obj \<Rightarrow> string \<Rightarrow> 'w \<Rightarrow> (bool, 'w) outcome" where
  "flush_ip_neigh_cb E obj operation w =
     (if operation \<noteq> ''rpc'' then (Inr False, w)
      else
        (case get_str obj (flush_attr ''vrf-name'') of
           Inl _ \<Rightarrow> (Inr False, w)
         | Inr vrf \<Rightarrow>
             (case af_of_int (attr_or 2 (get_int obj (flush_attr ''af''))) of
                None \<Rightarrow> (Inr False, w)
              | Some af \<Rightarrow>
                  (case (case get_str obj (flush_attr ''ip'') of
                           Inl _ \<Rightarrow> Inr None
                         | Inr ip \<Rightarrow>
                             try_bind (neigh_flush_ip_and_prefix ip
                               (attr_opt (get_int obj (flush_attr ''prefix-len''))) af) (\<lambda>a. Inr (Some a))) of
                     Inl e \<Rightarrow> (Inl e, w)
                   | Inr addr \<Rightarrow>
                       (case attr_opt (get_strs obj (flush_attr ''ifname'')) of
                          Some devs \<Rightarrow>
                            (case flush_loop E vrf af addr devs None w of
                               (None, w) \<Rightarrow> (Inl NameError, w)
                             | (Some val, w) \<Rightarrow> (Inr val, w))
                        | None \<Rightarrow>
                            (case flush_ip_neigh (ip_cmds E) (ip_af af) None addr vrf w of
                               (val, w) \<Rightarrow>
                                 (case nbr_flush_handle E vrf af None w of (val, w) \<Rightarrow> (Inr val, w))))))))"

section \<open>Proxy ARP\<close>

definition proxy_attr :: "string \<Rightarrow> string" where
  "proxy_attr t = ''base-route/proxy-arp-config/'' @ t"

definition set_proxy_arp_cb :: "'w ext \<Rightarrow> cps_obj \<Rightarrow> string \<Rightarrow> 'w \<Rightarrow> bool \<times> 'w" where
  "set_proxy_arp_cb E obj operation w =
     (case try_bind (get_str obj (proxy_attr ''vrf-name'')) (\<lambda>vrf.
             try_bind (get_str obj (proxy_attr ''ifname'')) (\<lambda>dev. Inr (vrf, dev))) of
        Inl _ \<Rightarrow> (False, w)
      | Inr (vrf, dev) \<Rightarrow>
          (if operation = ''create'' then proxy_arp_config E dev 1 vrf w
           else if operation = ''delete'' then proxy_arp_config E dev 0 vrf w
           else (False, w)))"

end
