(* ===== verification/IpRequests.thy ===== *)
theory IpRequests
  imports IpConfig
begin

text \<open>
  The properties of the IP address daemon of \<open>IpService\<close> and \<open>IpConfig\<close>, with examples for which
  their hypotheses hold.
\<close>

section \<open>The reported addresses\<close>

definition addr_entries :: "'w ip_ext \<Rightarrow> string \<Rightarrow> (string \<times> string \<times> string) list \<Rightarrow> (string \<times> cps_val) list list" where
  "addr_entries E af ips = filter (\<lambda>d. d \<noteq> []) (map (\<lambda>ip. attr_or [] (addr_entry E af ip)) ips)"

text \<open>The dictionary of addresses as an enumeration.\<close>

definition numbered :: "'a list \<Rightarrow> (string \<times> 'a) list" where
  "numbered xs = zip (map nat_dec [0..<length xs]) xs"

lemma next_index_numbered: "k \<le> n \<Longrightarrow> next_index_loop (map nat_dec [0..<n]) k = n"
proof (induction "n - k" arbitrary: k)
  case 0
  then show ?case by (subst next_index_loop.simps) (auto simp: inj_eq [OF inj_nat_dec])
next
  case (Suc m)
  then have "next_index_loop (map nat_dec [0..<n]) (Suc k) = n" by simp
  then show ?case using Suc.hyps(2) by (subst next_index_loop.simps) auto
qed

lemma numbered_snoc: "numbered xs @ [(nat_dec (get_next_index (map fst (numbered xs))), x)] = numbered (xs @ [x])"
  by (simp add: numbered_def get_next_index_def next_index_numbered)

lemma add_ip_infos_spec:
  assumes "add_ip_infos E af ips rep = Inr r" "rep_addresses rep = Some (numbered es)"
  shows "rep_obj r = rep_obj rep \<and> rep_addresses r = Some (numbered (es @ addr_entries E af ips))"
  using assms
proof (induction ips arbitrary: rep es)
  case (Cons ip ips)
  from Cons.prems(1) obtain d where d: "addr_entry E af ip = Inr d"
    by (auto simp: add_ip_info_def try_bind_Inr Let_def)
  show ?case
  proof (cases "d = []")
    case True
    with Cons.IH [of _ es] Cons.prems d show ?thesis by (simp add: add_ip_info_def addr_entries_def)
  next
    case False
    with Cons.IH [of _ "es @ [d]"] Cons.prems d show ?thesis
      by (simp add: add_ip_info_def addr_entries_def numbered_snoc)
  qed
qed (simp add: addr_entries_def)

lemma add_ip_infos_first:
  assumes "add_ip_infos E af ips rep = Inr r" "rep_addresses rep = None"
  shows "rep_obj r = rep_obj rep \<and>
    rep_addresses r = (if ips = [] then None else Some (numbered (addr_entries E af ips)))"
proof (cases ips)
  case (Cons ip rest)
  have "add_ip_infos E af ips (rep\<lparr>rep_addresses := Some (numbered [])\<rparr>) = Inr r"
    using assms Cons by (simp add: add_ip_info_def numbered_def)
  from add_ip_infos_spec [OF this, of "[]"] Cons show ?thesis by simp
qed (use assms in simp)

section \<open>What a set leaves in the kernel variables\<close>

text \<open>
  The variables of a device that a report reads, and what the kernel documents of them (\<^verbatim>\<open>sysctl\<close> and
  \<^verbatim>\<open>ip-sysctl\<close>): a natural number of a C \<^verbatim>\<open>int\<close> that was written to one of them is read back, followed
  by a newline, and the other variables of the same device stay. \<^verbatim>\<open>all\<close> and \<^verbatim>\<open>default\<close> are no devices: what
  is written there may change every device, and nothing is said of them.
\<close>

definition conf_vars :: "string \<Rightarrow> string list list" where
  "conf_vars dev = [proc_fwd_entry dev ''ipv4'', proc_fwd_entry dev ''ipv6'', proc_disable_ipv6_entry dev,
     proc_ipv6_autoconf_entry dev, proc_ipv6_accept_dad_entry dev]"

definition sysctl_law :: "'w ip_ext \<Rightarrow> bool" where
  "sysctl_law E \<longleftrightarrow> (\<forall>dev n w w'. \<forall>p\<in>set (conf_vars dev). dev \<notin> {''all'', ''default''} \<longrightarrow> 0 \<le> n \<longrightarrow> n < 2 ^ 31 \<longrightarrow>
     proc_write E (proc_path p) (dec n) w = (True, w') \<longrightarrow>
     proc_read E (proc_path p) w' = Some (dec n @ [CHR 0x0A]) \<and>
     (\<forall>q\<in>set (conf_vars dev). q \<noteq> p \<longrightarrow> proc_read E (proc_path q) w' = proc_read E (proc_path q) w))"

text \<open>Two worlds with the same variables of a device.\<close>

definition same_conf :: "'w ip_ext \<Rightarrow> string \<Rightarrow> 'w \<Rightarrow> 'w \<Rightarrow> bool" where
  "same_conf E dev w w' \<longleftrightarrow> (\<forall>q\<in>set (conf_vars dev). proc_read E (proc_path q) w' = proc_read E (proc_path q) w)"

lemma py_int_dec_line: "0 \<le> n \<Longrightarrow> py_int (dec n @ [CHR 0x0A]) = Inr n"
proof -
  assume "0 \<le> n"
  have digit: "\<not> is_space c \<and> c \<noteq> CHR ''-'' \<and> c \<noteq> CHR ''+''" if "is_digit c" for c
    using that by (auto simp: is_digit_def is_space_def)
  have plain: "\<forall>c\<in>set (nat_dec m). \<not> is_space c \<and> c \<noteq> CHR ''-'' \<and> c \<noteq> CHR ''+''" for m
    using digit nat_dec_digits by blast
  have "dropWhile is_space (nat_dec m @ [CHR 0x0A]) = nat_dec m @ [CHR 0x0A]" for m
    using plain [of m] by (cases "nat_dec m") auto
  moreover have "dropWhile is_space (rev (nat_dec m)) = rev (nat_dec m)" for m
    using plain [of m] by (auto simp: dropWhile_eq_self_iff hd_rev)
  ultimately have stripped: "strip (nat_dec m @ [CHR 0x0A]) = nat_dec m" for m
    by (simp add: strip_def lstrip_def rstrip_def is_space_def)
  obtain c cs where nd: "nat_dec (nat n) = c # cs" by (cases "nat_dec (nat n)") auto
  have "strip (dec n @ [CHR 0x0A]) = c # cs"
    using \<open>0 \<le> n\<close> stripped [of "nat n"] nd by (simp add: dec_def)
  moreover have "c \<noteq> CHR ''-''" "c \<noteq> CHR ''+''" using plain [of "nat n"] nd by auto
  moreover have "num_val 10 digit_val 0 (c # cs) = Some (nat n)" using nat_dec_val [of "nat n"] nd by simp
  ultimately show ?thesis using \<open>0 \<le> n\<close> by (simp add: py_int_def Let_def del: num_val.simps)
qed

text \<open>A step that writes one variable of the device, or leaves all of them when it has no value.\<close>

definition wrote :: "'w ip_ext \<Rightarrow> string \<Rightarrow> string list \<Rightarrow> int option \<Rightarrow> 'w ip_svc \<Rightarrow> 'w ip_svc \<Rightarrow> bool" where
  "wrote E dev path m st st' \<longleftrightarrow>
     (\<forall>q\<in>set (conf_vars dev). q \<noteq> path \<longrightarrow>
        proc_read E (proc_path q) (ip_world st') = proc_read E (proc_path q) (ip_world st)) \<and>
     (\<forall>n. m = Some n \<longrightarrow> get_proc_variable E path (ip_world st') = n)"

lemma set_variable_wrote:
  assumes "set_variable E ''default'' path (dec n) cmd st = (True, st')" "sysctl_law E"
    and "dev \<notin> {''all'', ''default''}" "path \<in> set (conf_vars dev)" "0 \<le> n" "n < 2 ^ 31"
  shows "wrote E dev path (Some n) st st' \<and> ipv6_enable_status st' = ipv6_enable_status st"
proof -
  from assms(1) obtain w where w: "proc_write E (proc_path path) (dec n) (ip_world st) = (True, w)" "st' = st\<lparr>ip_world := w\<rparr>"
    by (auto simp: set_variable_def set_proc_variable_def split: prod.splits)
  with assms(2-6) have "proc_read E (proc_path path) w = Some (dec n @ [CHR 0x0A])"
    "\<forall>q\<in>set (conf_vars dev). q \<noteq> path \<longrightarrow> proc_read E (proc_path q) w = proc_read E (proc_path q) (ip_world st)"
    unfolding sysctl_law_def by blast+
  with w(2) assms(5) show ?thesis by (simp add: wrote_def get_proc_variable_def py_int_dec_line)
qed

lemma wrote_refl: "wrote E dev path None st st"
  by (simp add: wrote_def)

lemma wrote_keeps:
  assumes "wrote E dev path m st st'" "other \<in> set (conf_vars dev)" "other \<noteq> path"
  shows "get_proc_variable E other (ip_world st') = get_proc_variable E other (ip_world st)"
  using assms by (simp add: wrote_def get_proc_variable_def)

lemma entries_in_conf [simp]:
  "proc_ipv6_autoconf_entry dev \<in> set (conf_vars dev)" "proc_ipv6_accept_dad_entry dev \<in> set (conf_vars dev)"
  "proc_fwd_entry dev ''ipv6'' \<in> set (conf_vars dev)" "proc_disable_ipv6_entry dev \<in> set (conf_vars dev)"
  "af \<in> {''ipv4'', ''ipv6''} \<Longrightarrow> proc_fwd_entry dev af \<in> set (conf_vars dev)"
  by (auto simp: conf_vars_def)

lemma entries_differ [simp]:
  "proc_ipv6_autoconf_entry dev \<noteq> proc_ipv6_accept_dad_entry dev" "proc_ipv6_autoconf_entry dev \<noteq> proc_fwd_entry dev af"
  "proc_ipv6_accept_dad_entry dev \<noteq> proc_fwd_entry dev af"
  by (simp_all add: proc_fwd_entry_def proc_ipv6_autoconf_entry_def proc_ipv6_accept_dad_entry_def)

lemma same_conf_variable:
  "same_conf E dev w w' \<Longrightarrow> path \<in> set (conf_vars dev) \<Longrightarrow> get_proc_variable E path w' = get_proc_variable E path w"
  by (simp add: same_conf_def get_proc_variable_def)

text \<open>The two attributes that are written as they are given: natural numbers of a C \<^verbatim>\<open>int\<close>.\<close>

definition natural_attrs :: "cps_obj \<Rightarrow> string \<Rightarrow> bool" where
  "natural_attrs obj af \<longleftrightarrow>
     (\<forall>a\<in>{''autoconf'', ''forwarding''}. attr_or 0 (get_int obj (ip_attr af a)) \<in> {0..<2 ^ 31})"

lemma int_block_wrote:
  assumes "int_block obj a f st = (True, st')"
    and "\<And>n. get_int obj a = Inr n \<Longrightarrow> f n st = (True, st') \<Longrightarrow>
      wrote E dev path (Some (g n)) st st' \<and> ipv6_enable_status st' = ipv6_enable_status st"
  shows "wrote E dev path (map_option g (attr_opt (get_int obj a))) st st' \<and>
    ipv6_enable_status st' = ipv6_enable_status st"
  using assms by (cases "get_int obj a") (auto simp: int_block_def wrote_refl)

lemma forwarding_wrote:
  assumes "int_block obj (ip_attr af ''forwarding'') (set_forwarding E af ''default'' name) st = (True, st')"
    and "sysctl_law E" "name \<notin> {''all'', ''default''}" "natural_attrs obj af" "af \<in> {''ipv4'', ''ipv6''}"
  shows "wrote E name (proc_fwd_entry name af) (map_option id (attr_opt (get_int obj (ip_attr af ''forwarding'')))) st st' \<and>
    ipv6_enable_status st' = ipv6_enable_status st"
proof (rule int_block_wrote [OF assms(1)])
  fix n assume "get_int obj (ip_attr af ''forwarding'') = Inr n" "set_forwarding E af ''default'' name n st = (True, st')"
  with assms(2-5) show "wrote E name (proc_fwd_entry name af) (Some (id n)) st st' \<and>
      ipv6_enable_status st' = ipv6_enable_status st"
    unfolding set_forwarding_def id_apply
    by (intro set_variable_wrote) (auto simp: natural_attrs_def intro: entries_in_conf)
qed

lemma autoconf_wrote:
  assumes "int_block obj (ip_attr af ''autoconf'') (set_autoconf E ''default'' name) st = (True, st')"
    and "sysctl_law E" "name \<notin> {''all'', ''default''}" "natural_attrs obj af"
  shows "wrote E name (proc_ipv6_autoconf_entry name) (map_option id (attr_opt (get_int obj (ip_attr af ''autoconf'')))) st st' \<and>
    ipv6_enable_status st' = ipv6_enable_status st"
proof (rule int_block_wrote [OF assms(1)])
  fix n assume "get_int obj (ip_attr af ''autoconf'') = Inr n" "set_autoconf E ''default'' name n st = (True, st')"
  with assms(2-4) show "wrote E name (proc_ipv6_autoconf_entry name) (Some (id n)) st st' \<and>
      ipv6_enable_status st' = ipv6_enable_status st"
    unfolding set_autoconf_def id_apply by (intro set_variable_wrote) (auto simp: natural_attrs_def)
qed

lemma accept_dad_wrote:
  assumes "int_block obj a (set_accept_dad E ''default'' name) st = (True, st')" "sysctl_law E"
    and "name \<notin> {''all'', ''default''}"
  shows "wrote E name (proc_ipv6_accept_dad_entry name) (map_option (\<lambda>n. n - 1) (attr_opt (get_int obj a))) st st' \<and>
    ipv6_enable_status st' = ipv6_enable_status st"
proof (rule int_block_wrote [OF assms(1)])
  fix n assume "set_accept_dad E ''default'' name n st = (True, st')"
  with assms(2,3) show "wrote E name (proc_ipv6_accept_dad_entry name) (Some (n - 1)) st st' \<and>
      ipv6_enable_status st' = ipv6_enable_status st"
    unfolding set_accept_dad_def by (intro set_variable_wrote) (auto split: if_splits)
qed

lemma accept_dad_range:
  "int_block obj a (set_accept_dad E vrf name) st = (True, st') \<Longrightarrow> get_int obj a = Inr n \<Longrightarrow> n \<in> {1, 2, 3}"
  by (auto simp: int_block_def set_accept_dad_def split: if_splits)

lemma enabled_status:
  assumes "int_block obj a (set_enabled E ''default'' name) st = (True, st')"
  shows "\<forall>n. get_int obj a = Inr n \<longrightarrow> ipv6_enable_status st' name = Some n"
proof (intro allI impI)
  fix n assume "get_int obj a = Inr n"
  with assms have "set_enabled E ''default'' name n st = (True, st')" by (simp add: int_block_def)
  then show "ipv6_enable_status st' name = Some n"
    by (auto simp: set_enabled_def set_variable_def Let_def split: prod.splits)
qed

lemma blocks_True:
  "blocks (b # bs) st = (True, st') \<longleftrightarrow> (\<exists>s. b st = (True, s) \<and> blocks bs s = (True, st'))"
  "blocks [] st = (True, st') \<longleftrightarrow> st' = st"
  by (auto split: prod.splits if_splits)

lemma ip_attr_inject [simp]: "ip_attr af a = ip_attr af b \<longleftrightarrow> a = b"
  by (simp add: ip_attr_def)

lemma set_request_blocks:
  assumes "ip_trans_cb E obj ''set'' st = (Inr True, st')"
    and "get_af_from_obj E obj = Inr af" "get_key_from_obj E af obj (ip_world st) = Some name"
    and "attr_or ''default'' (get_str obj (ip_attr af ''vrf-name'')) = vrf"
  shows "set_attributes E af vrf name obj st = (True, st')"
  using assms by (auto simp: ip_trans_cb_def Let_def split: if_splits prod.splits)

text \<open>The last block, in both families, and the three before it for IPv6.\<close>

lemma set_forwarding_last:
  assumes "set_attributes E af ''default'' name obj st = (True, st')"
  obtains s where "int_block obj (ip_attr af ''forwarding'') (set_forwarding E af ''default'' name) s = (True, st')"
  using assms by (auto simp: set_attributes_def blocks_True simp del: blocks.simps split: if_splits)

lemma set_ipv6_blocks:
  assumes "set_attributes E ''ipv6'' ''default'' name obj st = (True, st')"
  obtains s1 s2 s3 where
    "int_block obj (ip_attr ''ipv6'' ''enabled'') (set_enabled E ''default'' name) st = (True, s1)"
    "int_block obj (ip_attr ''ipv6'' ''autoconf'') (set_autoconf E ''default'' name) s1 = (True, s2)"
    "int_block obj (ip_attr ''ipv6'' ''accept-dad'') (set_accept_dad E ''default'' name) s2 = (True, s3)"
    "int_block obj (ip_attr ''ipv6'' ''forwarding'') (set_forwarding E ''ipv6'' ''default'' name) s3 = (True, st')"
  using assms by (auto simp: set_attributes_def blocks_True simp del: blocks.simps)

lemma ipv6_set_effect:
  assumes "set_attributes E ''ipv6'' ''default'' name obj st = (True, st')"
    and "sysctl_law E" "name \<notin> {''all'', ''default''}" "natural_attrs obj ''ipv6''"
  shows "(\<forall>n. get_int obj (ip_attr ''ipv6'' ''enabled'') = Inr n \<longrightarrow> ipv6_enable_status st' name = Some n) \<and>
    (\<forall>n. get_int obj (ip_attr ''ipv6'' ''autoconf'') = Inr n \<longrightarrow> 0 \<le> n \<and>
       get_proc_variable E (proc_ipv6_autoconf_entry name) (ip_world st') = n) \<and>
    (\<forall>n. get_int obj (ip_attr ''ipv6'' ''accept-dad'') = Inr n \<longrightarrow> n \<in> {1, 2, 3} \<and>
       get_proc_variable E (proc_ipv6_accept_dad_entry name) (ip_world st') = n - 1)"
proof -
  obtain s1 s2 s3 where b:
    "int_block obj (ip_attr ''ipv6'' ''enabled'') (set_enabled E ''default'' name) st = (True, s1)"
    "int_block obj (ip_attr ''ipv6'' ''autoconf'') (set_autoconf E ''default'' name) s1 = (True, s2)"
    "int_block obj (ip_attr ''ipv6'' ''accept-dad'') (set_accept_dad E ''default'' name) s2 = (True, s3)"
    "int_block obj (ip_attr ''ipv6'' ''forwarding'') (set_forwarding E ''ipv6'' ''default'' name) s3 = (True, st')"
    by (rule set_ipv6_blocks [OF assms(1)])
  note e = enabled_status [OF b(1)]
  note a = autoconf_wrote [OF b(2) assms(2-4)]
  note d = accept_dad_wrote [OF b(3) assms(2,3)] accept_dad_range [OF b(3)]
  have f: "wrote E name (proc_fwd_entry name ''ipv6'') (map_option id (attr_opt (get_int obj (ip_attr ''ipv6'' ''forwarding'')))) s3 st' \<and>
      ipv6_enable_status st' = ipv6_enable_status s3"
    by (rule forwarding_wrote [OF b(4) assms(2-4)]) simp
  have "get_proc_variable E (proc_ipv6_autoconf_entry name) (ip_world st') =
      get_proc_variable E (proc_ipv6_autoconf_entry name) (ip_world s2)"
    and "get_proc_variable E (proc_ipv6_accept_dad_entry name) (ip_world st') =
      get_proc_variable E (proc_ipv6_accept_dad_entry name) (ip_world s3)"
    using wrote_keeps [OF conjunct1 [OF d(1)]] wrote_keeps [OF conjunct1 [OF f]] by simp_all
  moreover have "get_int obj (ip_attr ''ipv6'' ''autoconf'') = Inr n \<Longrightarrow> 0 \<le> n" for n
    using assms(4) by (auto simp: natural_attrs_def)
  ultimately show ?thesis using e a d f by (auto simp: wrote_def)
qed

text \<open>What the object of a report says.\<close>

lemma new_obj_attrs:
  assumes "af \<in> {''ipv4'', ''ipv6''}"
  shows "get_int (create_obj_from_line E (''base-ip/'' @ af) ix name vrf) (ip_attr af a) =
      (if a = ''vrf-id'' then Inr 0 else if a = ''ifindex'' then Inr (int ix) else Inl ValueError)"
    and "get_str (create_obj_from_line E (''base-ip/'' @ af) ix name vrf) (ip_attr af ''name'') = Inr name"
proof -
  have "get_af_from_name ''base-ip/ipv4'' = ''ipv4''" "get_af_from_name ''base-ip/ipv6'' = ''ipv6''" by code_simp+
  with assms have "get_af_from_name (''base-ip/'' @ af) = af" by auto
  then show "get_int (create_obj_from_line E (''base-ip/'' @ af) ix name vrf) (ip_attr af a) =
      (if a = ''vrf-id'' then Inr 0 else if a = ''ifindex'' then Inr (int ix) else Inl ValueError)"
    "get_str (create_obj_from_line E (''base-ip/'' @ af) ix name vrf) (ip_attr af ''name'') = Inr name"
    by (auto simp: create_obj_from_line_def Let_def get_int_def get_str_def)
qed

lemma reported_attrs:
  assumes "if_report E status af i w = Inr r"
  shows "get_int (rep_obj r) (ip_attr af ''forwarding'') = Inr (reported_forwarding E af (ifname i) w)"
    and "af = ''ipv6'' \<Longrightarrow> get_int (rep_obj r) (ip_attr af ''enabled'') = Inr (reported_enabled E status (ifname i) w)"
    and "af = ''ipv6'' \<Longrightarrow> 0 \<le> get_proc_variable E (proc_ipv6_autoconf_entry (ifname i)) w \<Longrightarrow>
      get_int (rep_obj r) (ip_attr af ''autoconf'') = Inr (get_proc_variable E (proc_ipv6_autoconf_entry (ifname i)) w)"
    and "af = ''ipv6'' \<Longrightarrow> get_proc_variable E (proc_ipv6_accept_dad_entry (ifname i)) w \<in> {0, 2} \<Longrightarrow>
      get_int (rep_obj r) (ip_attr af ''accept-dad'') = Inr (get_proc_variable E (proc_ipv6_accept_dad_entry (ifname i)) w + 1)"
    and "af = ''ipv6'' \<Longrightarrow> get_proc_variable E (proc_ipv6_accept_dad_entry (ifname i)) w = 1 \<Longrightarrow>
      get_int (rep_obj r) (ip_attr af ''accept-dad'') = Inl ValueError"
    and "af \<in> {''ipv4'', ''ipv6''} \<Longrightarrow> get_int (rep_obj r) (ip_attr af ''arp-accept'') = Inl ValueError"
    and "af \<in> {''ipv4'', ''ipv6''} \<Longrightarrow> get_str (rep_obj r) (ip_attr af ''name'') = Inr (ifname i)"
proof -
  have obj: "rep_obj r = (let obj = create_obj_from_line E (''base-ip/'' @ af) (ifix i) (ifname i) (if_vrf_name i);
          obj = add_attr (ip_attr af ''forwarding'') (CInt (reported_forwarding E af (ifname i) w)) obj
      in if af = ''ipv6'' then ipv6_attrs E status (ifname i) w obj else obj)"
    using add_ip_infos_first assms by (fastforce simp: if_report_def Let_def)
  then show "get_int (rep_obj r) (ip_attr af ''forwarding'') = Inr (reported_forwarding E af (ifname i) w)"
    "af = ''ipv6'' \<Longrightarrow> get_int (rep_obj r) (ip_attr af ''enabled'') = Inr (reported_enabled E status (ifname i) w)"
    "af = ''ipv6'' \<Longrightarrow> 0 \<le> get_proc_variable E (proc_ipv6_autoconf_entry (ifname i)) w \<Longrightarrow>
      get_int (rep_obj r) (ip_attr af ''autoconf'') = Inr (get_proc_variable E (proc_ipv6_autoconf_entry (ifname i)) w)"
    "af = ''ipv6'' \<Longrightarrow> get_proc_variable E (proc_ipv6_accept_dad_entry (ifname i)) w \<in> {0, 2} \<Longrightarrow>
      get_int (rep_obj r) (ip_attr af ''accept-dad'') = Inr (get_proc_variable E (proc_ipv6_accept_dad_entry (ifname i)) w + 1)"
    by (auto simp: ipv6_attrs_def Let_def)
  define o0 where "o0 = create_obj_from_line E (''base-ip/'' @ af) (ifix i) (ifname i) (if_vrf_name i)"
  note obj = obj [folded o0_def]
  have new: "get_int o0 (ip_attr af ''arp-accept'') = Inl ValueError" "get_int o0 (ip_attr af ''accept-dad'') = Inl ValueError"
    "get_str o0 (ip_attr af ''name'') = Inr (ifname i)" if "af \<in> {''ipv4'', ''ipv6''}"
    unfolding o0_def new_obj_attrs [OF that] by simp_all
  show "get_int (rep_obj r) (ip_attr af ''arp-accept'') = Inl ValueError" if "af \<in> {''ipv4'', ''ipv6''}"
    using new(1) [OF that] by (cases "af = ''ipv6''") (simp_all add: obj ipv6_attrs_def Let_def)
  show "get_int (rep_obj r) (ip_attr af ''accept-dad'') = Inl ValueError"
    if "af = ''ipv6''" "get_proc_variable E (proc_ipv6_accept_dad_entry (ifname i)) w = 1"
    using new(2) that by (simp add: obj ipv6_attrs_def Let_def)
  show "get_str (rep_obj r) (ip_attr af ''name'') = Inr (ifname i)" if "af \<in> {''ipv4'', ''ipv6''}"
    using new(3) [OF that] by (cases "af = ''ipv6''") (simp_all add: obj ipv6_attrs_def Let_def)
qed

lemma forwarding_effect:
  assumes "set_attributes E af ''default'' name obj st = (True, st')" "sysctl_law E" "name \<notin> {''all'', ''default''}"
    and "natural_attrs obj af" "af \<in> {''ipv4'', ''ipv6''}" "get_int obj (ip_attr af ''forwarding'') = Inr n"
  shows "get_proc_variable E (proc_fwd_entry name af) (ip_world st') = n \<and> 0 \<le> n"
proof -
  obtain s where "int_block obj (ip_attr af ''forwarding'') (set_forwarding E af ''default'' name) s = (True, st')"
    by (rule set_forwarding_last [OF assms(1)])
  from forwarding_wrote [OF this assms(2-5)] assms(4,6) show ?thesis
    by (auto simp: wrote_def natural_attrs_def)
qed

text \<open>A report of a get is made from the variables in the world its listing leaves.\<close>

lemma report_loop_mem:
  "report_loop E status af filt w is = Inr rs \<Longrightarrow> r \<in> set rs \<Longrightarrow> \<exists>i. if_report E status af i w = Inr r"
  by (induction "is" arbitrary: rs) (auto simp: try_bind_Inr split: if_splits)

lemma get_reports:
  assumes "ip_get_cb E filt st = (Inr (Some rs), st')" "r \<in> set rs" "get_af_from_obj E filt = Inr af"
  shows "\<exists>i. if_report E (ipv6_enable_status st) af i (ip_world st') = Inr r"
proof -
  have "get_ip_objs E filt st = (Inr rs, st')"
    using assms(1) by (cases "get_ip_objs E filt st"; cases "fst (get_ip_objs E filt st)")
      (auto simp: ip_get_cb_def split: if_splits)
  with assms(2,3) show ?thesis
    by (auto simp: get_ip_objs_def Let_def dest: report_loop_mem split: prod.splits sum.splits)
qed

lemma af_of_obj: "get_af_from_obj E obj = Inr af \<Longrightarrow> af \<in> {''ipv4'', ''ipv6''}"
  by (auto simp: get_af_from_obj_def try_bind_Inr get_af_from_name_def split: if_splits)


lemma blocks_granted: "\<forall>b\<in>set bs. \<forall>st. fst (b st) \<Longrightarrow> fst (blocks bs st)"
  by (induction bs arbitrary: st) (auto split: prod.split, metis fst_conv)

lemma set_variable_vrf: "vrf \<noteq> ''default'' \<Longrightarrow> fst (set_variable E vrf path v cmd st)"
  by (simp add: set_variable_def)

section \<open>Properties\<close>

text \<open>
  C30: What an answered \<open>set\<close> asked for in the default namespace is what every report of that interface
  in a following \<open>get\<close> of the family says: forwarding in both families, and for IPv6 whether it is
  enabled, the autoconfiguration, and the duplicate address detection when that was 1 or 3. A value
  of 2 is not reported, and the acceptance of gratuitous ARP never is. The numbers for
  autoconfiguration and forwarding are natural ones of a C \<^verbatim>\<open>int\<close>, the interface is not \<^verbatim>\<open>all\<close> or
  \<^verbatim>\<open>default\<close>, its variables behave as \<open>sysctl_law\<close> says, and the commands that list the interfaces
  leave them alone.
\<close>
theorem set_is_reported:
  assumes "ip_trans_cb E obj ''set'' st = (Inr True, st1)"
    and "get_af_from_obj E obj = Inr af" "get_key_from_obj E af obj (ip_world st) = Some name"
    and "attr_or ''default'' (get_str obj (ip_attr af ''vrf-name'')) = ''default''"
    and "sysctl_law E" "name \<notin> {''all'', ''default''}" "natural_attrs obj af"
    and "ip_get_cb E filt st1 = (Inr (Some rs), st2)" "get_af_from_obj E filt = Inr af"
    and "same_conf E name (ip_world st1) (ip_world st2)"
    and "r \<in> set rs" "get_str (rep_obj r) (ip_attr af ''name'') = Inr name"
    and "get_int obj (ip_attr af a) = Inr n"
  shows "(a = ''forwarding'' \<or> af = ''ipv6'' \<and> (a \<in> {''enabled'', ''autoconf''} \<or> a = ''accept-dad'' \<and> n \<noteq> 2) \<longrightarrow>
      get_int (rep_obj r) (ip_attr af a) = Inr n) \<and>
    (af = ''ipv6'' \<and> a = ''accept-dad'' \<and> n = 2 \<longrightarrow> get_int (rep_obj r) (ip_attr af a) = Inl ValueError) \<and>
    get_int (rep_obj r) (ip_attr af ''arp-accept'') = Inl ValueError"
proof -
  from get_reports [OF assms(8,11,9)] obtain i where rep: "if_report E (ipv6_enable_status st1) af i (ip_world st2) = Inr r"
    by blast
  have af: "af \<in> {''ipv4'', ''ipv6''}" using assms(2) by (rule af_of_obj)
  note says = reported_attrs [OF rep]
  have i: "ifname i = name" using says(7) [OF af] assms(12) by simp
  note same = same_conf_variable [OF assms(10)]
  have set: "set_attributes E af ''default'' name obj st = (True, st1)"
    by (rule set_request_blocks) (use assms(1-4) in auto)
  have fwd: "get_int (rep_obj r) (ip_attr af a) = Inr n" if "a = ''forwarding''"
  proof -
    from forwarding_effect [OF set assms(5-7) af] assms(13) that
    have "get_proc_variable E (proc_fwd_entry name af) (ip_world st2) = n" "0 \<le> n" by (auto simp: same entries_in_conf(5) [OF af])
    then show ?thesis using says(1) that by (simp add: i reported_forwarding_def Let_def)
  qed
  have v6: "if a = ''accept-dad'' \<and> n = 2 then get_int (rep_obj r) (ip_attr af a) = Inl ValueError
    else get_int (rep_obj r) (ip_attr af a) = Inr n" if "af = ''ipv6''" "a \<in> {''enabled'', ''autoconf'', ''accept-dad''}"
  proof -
    note eff = ipv6_set_effect [OF set [unfolded that(1)] assms(5,6) assms(7) [unfolded that(1)]]
    show ?thesis
      using that(2) eff assms(13) says(2-5) that(1)
      by (auto simp: i same reported_enabled_def)
  qed
  show ?thesis using fwd v6 says(6) [OF af] by auto
qed

text \<open>
  C37: When the kernel refuses to change whether IPv6 is enabled, the request answers \<open>False\<close>, but
  the setting is remembered and every later report says what was refused.
\<close>
theorem refused_enable_reported:
  assumes "get_af_from_obj E obj = Inr ''ipv6''" "get_key_from_obj E ''ipv6'' obj (ip_world st) = Some name"
    and "ip_keys E ''base-ip/ipv6'' = Some (o_key obj)"
    and "attr_or ''default'' (get_str obj (ip_attr ''ipv6'' ''vrf-name'')) = ''default''"
    and "get_int obj (ip_attr ''ipv6'' ''enabled'') = Inr n"
    and "\<And>v. \<not> fst (proc_write E (proc_path (proc_disable_ipv6_entry name)) v (ip_world st))"
  shows "\<exists>st'. ip_trans_cb E obj ''set'' st = (Inr False, st') \<and>
    (\<forall>w. reported_enabled E (ipv6_enable_status st') name w = n)"
proof -
  define st1 where "st1 = st\<lparr>ipv6_enable_status := (ipv6_enable_status st)(name \<mapsto> n)\<rparr>"
  obtain w where "set_variable E ''default'' (proc_disable_ipv6_entry name) (dec (if n = 1 then 0 else 1))
      (disable_ipv6_config (ip_cmds E) name (dec (if n = 1 then 0 else 1)) ''default'') st1 = (False, st1\<lparr>ip_world := w\<rparr>)"
    using assms(6) [of "dec (if n = 1 then 0 else 1)"]
    by (cases "proc_write E (proc_path (proc_disable_ipv6_entry name)) (dec (if n = 1 then 0 else 1)) (ip_world st)")
      (simp add: set_variable_def set_proc_variable_def st1_def)
  then have "set_attributes E ''ipv6'' ''default'' name obj st = (False, st1\<lparr>ip_world := w\<rparr>)"
    using assms(5) by (simp add: set_attributes_def int_block_def set_enabled_def st1_def)
  then show ?thesis
    using assms(1-4) by (intro exI [of _ "st1\<lparr>ip_world := w\<rparr>"])
      (simp add: ip_trans_cb_def reported_enabled_def st1_def)
qed

text \<open>
  The addresses of a report are exactly the lines of its family, numbered from zero in their
  order, although each number is searched for; a report without any line has no addresses.
\<close>
theorem addresses_numbered:
  assumes "if_report E status af i w = Inr r"
  shows "rep_addresses r = (if if_ip i = [] then None else Some (numbered (addr_entries E af (if_ip i))))"
  using add_ip_infos_first [OF assms [unfolded if_report_def Let_def]] by simp

text \<open>
  C38: In a namespace other than the default one a \<open>set\<close> is granted whatever its commands answer,
  and the forwarding of an interface that the daemon's own namespace lacks is then reported as off.
\<close>
theorem vrf_set_always_granted:
  assumes "get_af_from_obj E obj = Inr af" "get_key_from_obj E af obj (ip_world st) = Some name"
    and "ip_keys E (''base-ip/'' @ af) = Some (o_key obj)"
    and "get_str obj (ip_attr af ''vrf-name'') = Inr vrf" "vrf \<noteq> ''default''"
    and "attr_or 1 (get_int obj (ip_attr af ''accept-dad'')) \<in> {1, 2, 3}"
    and "\<And>w. proc_read E (proc_path (proc_fwd_entry name af)) w = None"
  shows "\<exists>st'. ip_trans_cb E obj ''set'' st = (Inr True, st') \<and>
    reported_forwarding E af name (ip_world st') = 0"
proof -
  have "fst (set_attributes E af vrf name obj st)"
    unfolding set_attributes_def
    by (rule blocks_granted) (use assms(6) in \<open>auto simp: int_block_def set_enabled_def set_autoconf_def
      set_accept_dad_def set_arp_accept_def set_forwarding_def set_variable_vrf [OF assms(5)] Let_def split: sum.split\<close>)
  then obtain st' where "set_attributes E af vrf name obj st = (True, st')"
    by (cases "set_attributes E af vrf name obj st") auto
  with assms show ?thesis
    by (auto simp: ip_trans_cb_def reported_forwarding_def get_proc_variable_def)
qed

lemma flush_loop_spec:
  "flush_loop E vrf af addr (devs @ [dev]) val w =
     (case flush_one E vrf af addr dev (snd (flush_loop E vrf af addr devs val w)) of (v, w) \<Rightarrow> (Some v, w))"
  by (induction devs arbitrary: val w) (auto split: prod.split)

text \<open>
  A flush of several interfaces goes through all of them, but its answer is that of the last
  one: the failures of the others are not reported.
\<close>
theorem flush_answers_for_last:
  assumes "get_str obj (flush_attr ''vrf-name'') = Inr vrf"
    and "af_of_int (attr_or 2 (get_int obj (flush_attr ''af''))) = Some af"
    and "get_str obj (flush_attr ''ip'') = Inl ValueError"
    and "get_strs obj (flush_attr ''ifname'') = Inr (devs @ [dev])"
  shows "flush_ip_neigh_cb E obj ''rpc'' w =
    (case flush_one E vrf af None dev (snd (flush_loop E vrf af None devs None w)) of (v, w) \<Rightarrow> (Inr v, w))"
  using assms by (simp add: flush_ip_neigh_cb_def flush_loop_spec split: prod.split)

section \<open>Examples\<close>

text \<open>A kernel whose variables can all be written; every command fails.\<close>

definition quiet_ext :: "'w ext" where
  "quiet_ext = \<lparr>popen = (\<lambda>_ w. ((1, []), w)), read_file = (\<lambda>_ _. None),
     os_unlink = (\<lambda>_ w. (True, w)), os_symlink = (\<lambda>_ _ w. (True, w)),
     os_makedirs = (\<lambda>_ w. (True, w)), rmtree = (\<lambda>_ w. (True, w)),
     cidr_packed = (\<lambda>_. Inl AddrFormatError), broadcast = (\<lambda>_. Inr None),
     getservbyname = (\<lambda>_. None), mgmt_mac = (\<lambda>_. ''00:00:00:00:00:00''),
     virtual_network_mac = (\<lambda>_. ''00:00:00:00:00:01''), vrf_mac = (\<lambda>_. ''00:00:00:00:00:02'')\<rparr>"

definition proc_env :: "(string \<rightharpoonup> string) ip_ext" where
  "proc_env = \<lparr>ip_cmds = quiet_ext, key_from_name = (\<lambda>n. ''1.'' @ n), if_indextoname = (\<lambda>_ _. None),
     key_compare = (\<lambda>_ _. True), to_data = (\<lambda>_ v. v), proc_read = (\<lambda>p w. w p),
     proc_write = (\<lambda>p v w. (True, w(p \<mapsto> v @ [CHR 0x0A]))), cps_transaction = (\<lambda>_ _ w. (False, w))\<rparr>"

definition v6_request :: "string \<Rightarrow> cps_obj" where
  "v6_request vrf = \<lparr>o_key = ''1.base-ip/ipv6'', o_attrs =
     [(''base-ip/ipv6/name'', CStr ''br10''), (''base-ip/ipv6/vrf-name'', CStr vrf),
      (''base-ip/ipv6/enabled'', CInt 1), (''base-ip/ipv6/accept-dad'', CInt 3)]\<rparr>"

definition br10 :: interface where
  "br10 = \<lparr>if_vrf_name = ''default'', ifix = 7, ifname = ''br10'', if_flags = ''UP'', if_state = 1,
     if_mtu = None, oper_state = 1, if_mac = None, if_type = 0,
     if_ip = [(''inet'', ''10.0.0.1'', ''24''), (''inet6'', ''2001:db8::1'', ''64'')]\<rparr>"

definition boot_svc :: "(string \<rightharpoonup> string) ip_svc" where
  "boot_svc = \<lparr>ip_world = Map.empty, ipv6_enable_status = Map.empty\<rparr>"

lemma v6_request_target:
  assumes "key_from_name E = (\<lambda>n. ''1.'' @ n)"
  shows "get_af_from_obj E (v6_request vrf) = Inr ''ipv6''"
    "get_key_from_obj E ''ipv6'' (v6_request vrf) w = Some ''br10''"
    "ip_keys E ''base-ip/ipv6'' = Some ''1.base-ip/ipv6''"
  using assms by (simp_all add: get_af_from_obj_def ip_keys_def v6_request_def get_af_from_name_def
      get_key_from_obj_def get_int_def get_str_def ip_attr_def)

lemma v6_request_attrs:
  "o_key (v6_request vrf) = ''1.base-ip/ipv6''"
  "get_str (v6_request vrf) (ip_attr ''ipv6'' ''vrf-name'') = Inr vrf"
  "get_int (v6_request vrf) (ip_attr ''ipv6'' a) =
     (if a = ''enabled'' then Inr 1 else if a = ''accept-dad'' then Inr 3 else Inl ValueError)"
  by (simp_all add: v6_request_def get_int_def get_str_def ip_attr_def)

lemma addresses_numbered_witness:
  "\<exists>r :: ip_report. if_report proc_env Map.empty ''ipv4'' br10 Map.empty = Inr r \<and>
    rep_addresses r = (if if_ip br10 = [] then None else Some (numbered (addr_entries proc_env ''ipv4'' (if_ip br10))))"
proof -
  have pton: "inet_pton AF_INET ''10.0.0.1'' = Inr [10, 0, 0, 1]"
    by (simp add: inet_pton_def inet_pton4_def octet_def digit_val_def is_digit_def)
  have "py_int ''24'' = Inr 24" by code_simp
  then obtain r where "if_report proc_env Map.empty ''ipv4'' br10 Map.empty = Inr r"
    using pton by (auto simp: if_report_def br10_def add_ip_info_def addr_entry_def)
  with addresses_numbered [OF this] show ?thesis by blast
qed

lemma proc_env_law: "sysctl_law proc_env"
  by (auto simp: sysctl_law_def proc_env_def conf_vars_def proc_path_def proc_fwd_entry_def proc_disable_ipv6_entry_def
      proc_ipv6_autoconf_entry_def proc_ipv6_accept_dad_entry_def)

lemma proc_env_keys: "key_from_name proc_env = (\<lambda>n. ''1.'' @ n)"
  by (simp add: proc_env_def)

lemma proc_env_write [simp]: "set_proc_variable proc_env path v w = (True, w(proc_path path \<mapsto> v @ [CHR 0x0A]))"
  by (simp add: set_proc_variable_def proc_env_def)

text \<open>The listing of the interfaces, which changes nothing.\<close>

definition listing :: "string list" where
  "listing = [''7: br10: <BROADCAST,UP> mtu 1500 state UP'', ''    link/ether 00:00:00:00:00:01 brd'',
     ''    inet6 2001:db8::1/64 scope global'']"

definition listed_env :: "(string \<rightharpoonup> string) ip_ext" where
  "listed_env = proc_env\<lparr>ip_cmds := quiet_ext\<lparr>popen := (\<lambda>_ w. ((0, listing), w))\<rparr>\<rparr>"

lemma listed_env_law: "sysctl_law listed_env"
  using proc_env_law by (simp add: sysctl_law_def listed_env_def)

definition set_svc :: "(string \<rightharpoonup> string) ip_svc" where
  "set_svc = snd (ip_trans_cb listed_env (v6_request ''default'') ''set'' boot_svc)"

definition listed_get :: "(exn + ip_report list option) \<times> (string \<rightharpoonup> string) ip_svc" where
  "listed_get = ip_get_cb listed_env (v6_request ''default'') set_svc"

lemma listed_keys: "key_from_name listed_env = (\<lambda>n. ''1.'' @ n)"
  by (simp add: listed_env_def proc_env_def)

lemma listed_get_world: "ip_world (snd listed_get) = ip_world set_svc"
proof -
  have listing: "\<exists>x. get_if_details (ip_cmds listed_env) (Some v) d w = (x, w)" for v d w
    by (simp add: get_if_details_def get_if_details_per_vrf_def get_ip_addr_def run_command_def listed_env_def Let_def)
  obtain x st where o: "get_ip_objs listed_env (v6_request ''default'') set_svc = (x, st)" by force
  with listing [of "''default''" "Some ''br10''" "ip_world set_svc"] have "ip_world st = ip_world set_svc"
    by (auto simp: get_ip_objs_def v6_request_target [OF listed_keys] v6_request_attrs split: sum.splits)
  with o show ?thesis by (cases x) (auto simp: listed_get_def ip_get_cb_def)
qed

lemma set_is_reported_witness:
  "\<exists>r rs. fst (ip_trans_cb listed_env (v6_request ''default'') ''set'' boot_svc) = Inr True \<and>
    fst listed_get = Inr (Some (r # rs)) \<and> get_int (rep_obj r) (ip_attr ''ipv6'' ''accept-dad'') = Inr 3"
proof -
  have ok: "fst (ip_trans_cb listed_env (v6_request ''default'') ''set'' boot_svc) = Inr True" by code_simp
  have "case fst listed_get of Inr (Some (r # _)) \<Rightarrow> get_str (rep_obj r) (ip_attr ''ipv6'' ''name'') = Inr ''br10'' | _ \<Rightarrow> False"
    by code_simp
  then obtain r rs where r: "fst listed_get = Inr (Some (r # rs))" "get_str (rep_obj r) (ip_attr ''ipv6'' ''name'') = Inr ''br10''"
    by (auto split: sum.splits option.splits list.splits)
  note run = v6_request_target [OF listed_keys] v6_request_attrs
  have set: "ip_trans_cb listed_env (v6_request ''default'') ''set'' boot_svc = (Inr True, set_svc)"
    using ok by (simp add: set_svc_def prod_eq_iff)
  have got: "ip_get_cb listed_env (v6_request ''default'') set_svc = (Inr (Some (r # rs)), snd listed_get)"
    using r(1) by (simp add: listed_get_def prod_eq_iff)
  have "same_conf listed_env ''br10'' (ip_world set_svc) (ip_world (snd listed_get))"
    by (simp add: same_conf_def listed_get_world)
  from set_is_reported [OF set _ _ _ listed_env_law _ _ got _ this _ r(2), of "''accept-dad''" 3] ok r(1)
  show ?thesis by (auto simp: run natural_attrs_def)
qed

definition stuck_env :: "(string \<rightharpoonup> string) ip_ext" where
  "stuck_env = proc_env\<lparr>proc_write := (\<lambda>_ _ w. (False, w))\<rparr>"

lemma stuck_env_keys: "key_from_name stuck_env = (\<lambda>n. ''1.'' @ n)"
  by (simp add: stuck_env_def proc_env_def)

lemma refused_enable_reported_witness:
  "\<exists>st'. ip_trans_cb stuck_env (v6_request ''default'') ''set'' boot_svc = (Inr False, st') \<and>
    (\<forall>w. reported_enabled stuck_env (ipv6_enable_status st') ''br10'' w = 1)"
  by (rule refused_enable_reported) (simp_all add: v6_request_target [OF stuck_env_keys] v6_request_attrs, simp add: stuck_env_def)

definition hidden_env :: "(string \<rightharpoonup> string) ip_ext" where
  "hidden_env = proc_env\<lparr>proc_read := (\<lambda>_ _. None)\<rparr>"

lemma hidden_env_keys: "key_from_name hidden_env = (\<lambda>n. ''1.'' @ n)"
  by (simp add: hidden_env_def proc_env_def)

lemma vrf_set_always_granted_witness:
  "\<exists>st'. ip_trans_cb hidden_env (v6_request ''blue'') ''set'' boot_svc = (Inr True, st') \<and>
    reported_forwarding hidden_env ''ipv6'' ''br10'' (ip_world st') = 0"
  by (rule vrf_set_always_granted [where vrf = "''blue''"])
    (simp_all add: v6_request_target [OF hidden_env_keys] v6_request_attrs, simp add: hidden_env_def)

definition flush_request :: cps_obj where
  "flush_request = \<lparr>o_key = '''', o_attrs =
     [(''base-neighbor/flush/input/vrf-name'', CStr ''blue''),
      (''base-neighbor/flush/input/ifname'', CStrs [''br10'', ''br20''])]\<rparr>"

lemma flush_answers_for_last_witness:
  "flush_ip_neigh_cb proc_env flush_request ''rpc'' Map.empty =
    (case flush_one proc_env ''blue'' AF_INET None ''br20''
       (snd (flush_loop proc_env ''blue'' AF_INET None [''br10''] None Map.empty)) of (v, w) \<Rightarrow> (Inr v, w))"
  by (rule flush_answers_for_last)
    (simp_all add: flush_request_def get_str_def get_int_def get_strs_def flush_attr_def af_of_int_def)

end
