(* ===== verification/Ipsec.thy ===== *)
theory Ipsec
  imports Prelude
begin

text \<open>
  \<^verbatim>\<open>scripts/lib/python/dn_base_ipsec_utils.py\<close>: from the attributes of a CPS object to the
  \<^verbatim>\<open>ip xfrm\<close> command for the security association and the security policy database.

  The attributes of these objects are numbers and strings. The tables of the module are
  dictionaries, so the order of the words of a command depends on the order in which the
  interpreter lists their keys: that order is a parameter, and so are the start of a command,
  which gives no return code when it raises, and \<^verbatim>\<open>cps.key_from_name\<close>.
\<close>

datatype xfrm_val = XInt int | XStr string

type_synonym xfrm_data = "(string \<times> xfrm_val) list"

record xfrm_change =
  ch_key :: string
  ch_operation :: string
  ch_data :: xfrm_data

record 'w xfrm_env =
  xfrm_popen :: "string list \<Rightarrow> 'w \<Rightarrow> int option \<times> 'w"
  dict_order :: "string list \<Rightarrow> string list"
  xfrm_key :: "string \<Rightarrow> string"

text \<open>\<open>d.items()\<close> of a dictionary written as the list of its items.\<close>

definition items_of :: "(string list \<Rightarrow> string list) \<Rightarrow> (string \<times> 'a) list \<Rightarrow> (string \<times> 'a) list" where
  "items_of ord d = concat (map (\<lambda>k. case map_of d k of None \<Rightarrow> [] | Some v \<Rightarrow> [(k, v)]) (ord (map fst d)))"

text \<open>
  \<open>run_command\<close> returns \<open>False\<close> when the start of the command raises; its callers compare the
  result with \<open>0\<close>, and \<open>False == 0\<close> holds.
\<close>

definition xfrm_command :: "'w xfrm_env \<Rightarrow> string list \<Rightarrow> 'w \<Rightarrow> bool \<times> 'w" where
  "xfrm_command E cmd w =
     (case xfrm_popen E cmd w of (retval, w') \<Rightarrow> (case retval of None \<Rightarrow> True | Some rc \<Rightarrow> rc = 0, w'))"

section \<open>The tables\<close>

definition config_sad_key_prefix :: string where
  "config_sad_key_prefix = ''eipsec/ipsec/sad/sad-entries''"

definition config_sad_options_key_prefix :: string where
  "config_sad_options_key_prefix = ''ipsec-sad/eipsec/ipsec/sad/sad-entries''"

definition config_spd_key_prefix :: string where
  "config_spd_key_prefix = ''spd/eipsec/ipsec/spd/spd-entries''"

definition cps_to_xfrm_op :: "string \<rightharpoonup> string" where
  "cps_to_xfrm_op = [''create'' \<mapsto> ''add'', ''set'' \<mapsto> ''update'', ''delete'' \<mapsto> ''delete'']"

definition ipsec_enum_map :: "string \<rightharpoonup> (int \<rightharpoonup> string)" where
  "ipsec_enum_map =
     [''sec-proto'' \<mapsto> [0 \<mapsto> ''ah'', 1 \<mapsto> ''esp''], ''mode'' \<mapsto> [0 \<mapsto> ''transport'', 1 \<mapsto> ''tunnel''],
      ''direction'' \<mapsto> [0 \<mapsto> ''in'', 1 \<mapsto> ''out''], ''level'' \<mapsto> [1 \<mapsto> ''required'', 2 \<mapsto> ''use'']]"

text \<open>An entry of a table: the attribute in each of the two databases, and the word of the command.\<close>

record xfrm_entry =
  sad_path :: "string option"
  spd_path :: "string option"
  xfrm_cmd :: string

definition id_obj_map :: "(string \<times> xfrm_entry) list" where
  "id_obj_map =
     [(''src'', \<lparr>sad_path = Some (config_sad_key_prefix @ ''/source-address/ip-address/ipv6-address/ipv6-address''),
         spd_path = Some (config_spd_key_prefix @ ''/source-address/ip-address/ipv6-address/ipv6-address''),
         xfrm_cmd = ''src''\<rparr>),
      (''dst'', \<lparr>sad_path = Some (config_sad_key_prefix @ ''/destination-address/ip-address/ipv6-address/ipv6-address''),
         spd_path = Some (config_spd_key_prefix @ ''/destination-address/ip-address/ipv6-address/ipv6-address''),
         xfrm_cmd = ''dst''\<rparr>),
      (''sec-proto'', \<lparr>sad_path = Some (config_sad_key_prefix @ ''/security-protocol''),
         spd_path = Some (config_spd_key_prefix @ ''/security-protocol''), xfrm_cmd = ''proto''\<rparr>),
      (''spi'', \<lparr>sad_path = Some (config_sad_key_prefix @ ''/spi''),
         spd_path = Some (config_spd_key_prefix @ ''/spi''), xfrm_cmd = ''spi''\<rparr>)]"

definition sad_options_obj_map :: "(string \<times> xfrm_entry) list" where
  "sad_options_obj_map =
     [(''mode'', \<lparr>sad_path = Some (config_sad_key_prefix @ ''/sa-mode''),
         spd_path = Some (config_spd_key_prefix @ ''/sa-mode''), xfrm_cmd = ''mode''\<rparr>)]"

definition selector_obj_map :: "(string \<times> xfrm_entry) list" where
  "selector_obj_map =
     [(''src'', \<lparr>sad_path = Some (config_sad_options_key_prefix @ ''/source-ip-address''),
         spd_path = Some (config_spd_key_prefix @ ''/source-ip-address''), xfrm_cmd = ''src''\<rparr>),
      (''dst'', \<lparr>sad_path = Some (config_sad_options_key_prefix @ ''/destination-ip-address''),
         spd_path = Some (config_spd_key_prefix @ ''/destination-ip-address''), xfrm_cmd = ''dst''\<rparr>),
      (''dev'', \<lparr>sad_path = Some (config_sad_options_key_prefix @ ''/ifname''),
         spd_path = Some (config_spd_key_prefix @ ''/ifname''), xfrm_cmd = ''dev''\<rparr>),
      (''upper-proto'', \<lparr>sad_path = Some (config_sad_key_prefix @ ''/upper-protocol''),
         spd_path = Some (config_spd_key_prefix @ ''/upper-protocol''), xfrm_cmd = ''proto''\<rparr>)]"

definition spd_cmd_obj_map :: "(string \<times> xfrm_entry) list" where
  "spd_cmd_obj_map =
     [(''direction'', \<lparr>sad_path = None, spd_path = Some (config_spd_key_prefix @ ''/direction''), xfrm_cmd = ''dir''\<rparr>)]"

definition spd_options_obj_map :: "(string \<times> xfrm_entry) list" where
  "spd_options_obj_map =
     [(''priority'', \<lparr>sad_path = None, spd_path = Some (config_spd_key_prefix @ ''/priority''), xfrm_cmd = ''priority''\<rparr>)]"

definition spd_tmpl_list_obj_map :: "(string \<times> xfrm_entry) list" where
  "spd_tmpl_list_obj_map =
     [(''mode'', \<lparr>sad_path = None, spd_path = Some (config_spd_key_prefix @ ''/sa-mode''), xfrm_cmd = ''mode''\<rparr>),
      (''level'', \<lparr>sad_path = None, spd_path = Some (config_spd_key_prefix @ ''/policy-level''), xfrm_cmd = ''level''\<rparr>)]"

record algo =
  algo_paths :: "string list"
  key_str :: nat
  key_hex_str :: nat
  algo_cmd :: string

definition auth_paths :: "string \<Rightarrow> string list" where
  "auth_paths name =
     [config_sad_key_prefix @ ''/ah/authentication-algorithm/'' @ name @ ''/'' @ name @ ''/key-str'',
      config_sad_key_prefix @ ''/esp/authentication/authentication-algorithm/'' @ name @ ''/'' @ name @ ''/key-str'']"

definition enc_path :: "string \<Rightarrow> string \<Rightarrow> string list" where
  "enc_path a b = [config_sad_key_prefix @ ''/esp/encryption/encryption-algorithm/'' @ a @ ''/'' @ b @ ''/key-str'']"

definition sad_algo_map :: "(string \<times> (string \<times> algo) list) list" where
  "sad_algo_map =
     [(''auth'',
       [(''hmac(sha1)'', \<lparr>algo_paths = auth_paths ''hmac-sha1-96'', key_str = 20, key_hex_str = 40, algo_cmd = ''hmac(sha1)''\<rparr>),
        (''hmac(md5)'', \<lparr>algo_paths = auth_paths ''hmac-md5-96'', key_str = 16, key_hex_str = 32, algo_cmd = ''hmac(md5)''\<rparr>),
        (''hmac(aes)'', \<lparr>algo_paths = auth_paths ''hmac-aes-xcbc'', key_str = 16, key_hex_str = 32, algo_cmd = ''hmac(aes)''\<rparr>)]),
      (''enc'',
       [(''cbc(des3)'', \<lparr>algo_paths = enc_path ''des3-cbc'' ''des3-cbd'', key_str = 24, key_hex_str = 48, algo_cmd = ''cbc(des3_ede)''\<rparr>),
        (''cbc(des)'', \<lparr>algo_paths = enc_path ''des-cbc'' ''des-cbc'', key_str = 8, key_hex_str = 16, algo_cmd = ''cbc(des)''\<rparr>),
        (''cbc(aes-128)'', \<lparr>algo_paths = enc_path ''aes-128-cbc'' ''aes-128-cbc'', key_str = 16, key_hex_str = 32, algo_cmd = ''cbc(aes)''\<rparr>),
        (''cbc(aes-192)'', \<lparr>algo_paths = enc_path ''aes-192-cbc'' ''aes-192-cbc'', key_str = 24, key_hex_str = 48, algo_cmd = ''cbc(aes)''\<rparr>),
        (''cbc(aes-256)'', \<lparr>algo_paths = enc_path ''aes-256-cbc'' ''aes-256-cbc'', key_str = 32, key_hex_str = 64, algo_cmd = ''cbc(aes)''\<rparr>)])]"

section \<open>The words of a command\<close>

text \<open>
  What ends the construction of a command early: an exception, or a \<^verbatim>\<open>return False\<close> (\<open>None\<close>).
  \<open>collect\<close> is a loop that appends words.
\<close>

type_synonym words = "exn option + string list"

fun collect :: "('a \<Rightarrow> words) \<Rightarrow> 'a list \<Rightarrow> words" where
  "collect f [] = Inr []"
| "collect f (x # xs) =
     (case f x of
        Inl e \<Rightarrow> Inl e
      | Inr ws \<Rightarrow> (case collect f xs of Inl e \<Rightarrow> Inl e | Inr vs \<Rightarrow> Inr (ws @ vs)))"

text \<open>\<open>str(v)\<close>, or the name of an enumeration value.\<close>

definition xfrm_word :: "string \<Rightarrow> xfrm_val \<Rightarrow> exn option + string" where
  "xfrm_word name v =
     (case ipsec_enum_map name of
        None \<Rightarrow> Inr (case v of XInt n \<Rightarrow> dec n | XStr s \<Rightarrow> s)
      | Some f \<Rightarrow>
          (case v of
             XStr s \<Rightarrow> Inl (Some KeyError)
           | XInt n \<Rightarrow> (case f n of None \<Rightarrow> Inl (Some KeyError) | Some s \<Rightarrow> Inr s)))"

definition entry_words :: "xfrm_data \<Rightarrow> (xfrm_entry \<Rightarrow> string option) \<Rightarrow> string \<times> xfrm_entry \<Rightarrow> words" where
  "entry_words data key = (\<lambda>(name, e).
     case key e of
       None \<Rightarrow> Inl (Some KeyError)
     | Some path \<Rightarrow>
         (case map_of data path of
            None \<Rightarrow> Inr []
          | Some v \<Rightarrow> (case xfrm_word name v of Inl e' \<Rightarrow> Inl e' | Inr s \<Rightarrow> Inr [xfrm_cmd e, s])))"

text \<open>\<open>_cmd_from_map\<close>: the words it appends.\<close>

definition cmd_from_map ::
  "(string list \<Rightarrow> string list) \<Rightarrow> (string \<times> xfrm_entry) list \<Rightarrow> (xfrm_entry \<Rightarrow> string option) \<Rightarrow> xfrm_data \<Rightarrow> words" where
  "cmd_from_map ord m key data = collect (entry_words data key) (items_of ord m)"

text \<open>Whether one of the attributes of a table is there.\<close>

definition some_attr :: "(string \<times> xfrm_entry) list \<Rightarrow> (xfrm_entry \<Rightarrow> string option) \<Rightarrow> xfrm_data \<Rightarrow> bool" where
  "some_attr m key data \<longleftrightarrow>
     (\<exists>(name, e)\<in>set m. (case key e of None \<Rightarrow> False | Some path \<Rightarrow> path \<in> set (map fst data)))"

definition key_words :: "string \<Rightarrow> algo \<Rightarrow> xfrm_data \<Rightarrow> string \<Rightarrow> words" where
  "key_words kind a data path =
     (case map_of data path of
        None \<Rightarrow> Inr []
      | Some (XInt n) \<Rightarrow> Inl (Some TypeError)
      | Some (XStr s) \<Rightarrow>
          (if key_str a = length s then Inr [kind, algo_cmd a, s]
           else if key_hex_str a = length s then Inr [kind, algo_cmd a, ''0x'' @ s]
           else Inl None))"

definition algo_words :: "(string list \<Rightarrow> string list) \<Rightarrow> xfrm_data \<Rightarrow> words" where
  "algo_words ord data =
     collect (\<lambda>(kind, names). collect (\<lambda>(_, a). collect (key_words kind a data) (algo_paths a)) (items_of ord names))
       (items_of ord sad_algo_map)"

definition null_encryption :: "xfrm_data \<Rightarrow> string list" where
  "null_encryption data =
     (if (\<exists>k\<in>set (map fst data). str_in ''/esp/authentication'' k) \<and>
         (\<forall>k\<in>set (map fst data). \<not> str_in ''/esp/encryption'' k)
      then [''enc'', ''ecb(cipher_null)'', ''''] else [])"

text \<open>
  The start of a command. An unknown operation is caught, but then the variable \<open>cmd\<close> has no value.
\<close>

definition xfrm_head :: "string \<Rightarrow> string \<Rightarrow> xfrm_data \<Rightarrow> string \<Rightarrow> words" where
  "xfrm_head db vrf_key data operation =
     (case cps_to_xfrm_op operation of
        None \<Rightarrow> Inl (Some NameError)
      | Some oper \<Rightarrow>
          Inr ((case map_of data vrf_key of
                  Some (XStr vrf) \<Rightarrow> [''/sbin/ip'', ''netns'', ''exec'', vrf, ''ip'']
                | _ \<Rightarrow> [''/sbin/ip'']) @ [''xfrm'', db, oper]))"

definition sad_cmd :: "(string list \<Rightarrow> string list) \<Rightarrow> xfrm_change \<Rightarrow> words" where
  "sad_cmd ord change =
     (let data = ch_data change
      in collect id
           [xfrm_head ''state'' (config_sad_options_key_prefix @ ''/vrf-name'') data (ch_operation change),
            cmd_from_map ord id_obj_map sad_path data, cmd_from_map ord sad_options_obj_map sad_path data,
            if some_attr selector_obj_map sad_path data
            then collect id [Inr [''sel''], cmd_from_map ord selector_obj_map sad_path data] else Inr [],
            algo_words ord data, Inr (null_encryption data)])"

text \<open>
  For a policy the template list starts with the word \<open>tmpl\<close> unless the command has that word
  already; it is added when an attribute of the template is there.
\<close>

definition spd_first :: "(string list \<Rightarrow> string list) \<Rightarrow> xfrm_change \<Rightarrow> words" where
  "spd_first ord change =
     (let data = ch_data change
      in collect id
           [xfrm_head ''policy'' (config_spd_key_prefix @ ''/vrf-name'') data (ch_operation change),
            cmd_from_map ord selector_obj_map spd_path data, cmd_from_map ord spd_cmd_obj_map spd_path data,
            cmd_from_map ord spd_options_obj_map spd_path data,
            Inr (if some_attr id_obj_map spd_path data then [''tmpl''] else [])])"

definition spd_tmpl :: "xfrm_data \<Rightarrow> string list \<Rightarrow> string list" where
  "spd_tmpl data cmd =
     (if ''tmpl'' \<notin> set cmd \<and> some_attr spd_tmpl_list_obj_map spd_path data then cmd @ [''tmpl''] else cmd)"

definition spd_cmd :: "(string list \<Rightarrow> string list) \<Rightarrow> xfrm_change \<Rightarrow> words" where
  "spd_cmd ord change =
     (case spd_first ord change of
        Inl e \<Rightarrow> Inl e
      | Inr cmd \<Rightarrow>
          (let data = ch_data change; cmd = spd_tmpl data cmd
           in if ''tmpl'' \<in> set cmd
              then collect id [Inr cmd, cmd_from_map ord id_obj_map spd_path data,
                     cmd_from_map ord spd_tmpl_list_obj_map spd_path data]
              else Inr cmd))"

section \<open>The callback\<close>

definition config_db :: "'w xfrm_env \<Rightarrow> words \<Rightarrow> 'w \<Rightarrow> (bool, 'w) outcome" where
  "config_db E cmd w =
     (case cmd of
        Inl (Some e) \<Rightarrow> (Inl e, w)
      | Inl None \<Rightarrow> (Inr False, w)
      | Inr c \<Rightarrow> (case xfrm_command E c w of (ok, w') \<Rightarrow> (Inr ok, w')))"

definition config_sad :: "'w xfrm_env \<Rightarrow> xfrm_change \<Rightarrow> 'w \<Rightarrow> (bool, 'w) outcome" where
  "config_sad E change w = config_db E (sad_cmd (dict_order E) change) w"

definition config_spd :: "'w xfrm_env \<Rightarrow> xfrm_change \<Rightarrow> 'w \<Rightarrow> (bool, 'w) outcome" where
  "config_spd E change w = config_db E (spd_cmd (dict_order E) change) w"

definition ipsec_get_cb :: "'w \<Rightarrow> bool \<times> 'w" where
  "ipsec_get_cb w = (True, w)"

definition ipsec_trans_cb :: "'w xfrm_env \<Rightarrow> xfrm_change \<Rightarrow> 'w \<Rightarrow> (bool, 'w) outcome" where
  "ipsec_trans_cb E change w =
     (if xfrm_key E config_sad_key_prefix = ch_key change
      then and_then (config_sad E change w) (\<lambda>_ w. (Inr True, w))
      else if xfrm_key E config_spd_key_prefix = ch_key change
      then and_then (config_spd E change w) (\<lambda>_ w. (Inr True, w))
      else (Inr False, w))"

end
