(* ===== verification/IpsecCommands.thy ===== *)
theory IpsecCommands
  imports Ipsec "HOL-Library.Multiset" "HOL-Library.Sublist"
begin

text \<open>
  The properties of \<open>Ipsec\<close>: the order of the dictionaries only permutes the words of a command,
  every attribute of a request is in it with its value, and a request that cannot be carried out
  is answered like one that was.
\<close>

section \<open>Loops that collect words\<close>

text \<open>The order in which a dictionary lists its keys, whatever it is.\<close>

definition permuting :: "(string list \<Rightarrow> string list) \<Rightarrow> bool" where
  "permuting ord \<longleftrightarrow> (\<forall>ks. mset (ord ks) = mset ks)"

lemma collect_all: "\<forall>x\<in>set xs. \<exists>vs. f x = Inr vs \<Longrightarrow> collect f xs = Inr (concat (map (projr \<circ> f) xs))"
  by (induction xs) auto

lemma collect_each: "collect f xs = Inr ws \<Longrightarrow> \<forall>x\<in>set xs. \<exists>vs. f x = Inr vs"
  by (induction xs arbitrary: ws) (auto split: sum.splits)

lemma collect_Inr:
  "collect f xs = Inr ws \<longleftrightarrow> (\<forall>x\<in>set xs. \<exists>vs. f x = Inr vs) \<and> ws = concat (map (projr \<circ> f) xs)"
  using collect_all [of xs f] collect_each [of f xs ws] by auto

lemma collect_None:
  assumes "x \<in> set xs" "f x = Inl None" "\<forall>y\<in>set xs. \<forall>e. f y \<noteq> Inl (Some e)"
  shows "collect f xs = Inl None"
  using assms
proof (induction xs)
  case (Cons y ys)
  show ?case
  proof (cases "f y")
    case (Inl e)
    with Cons.prems(3) show ?thesis by (cases e) auto
  next
    case (Inr vs)
    with Cons have "collect f ys = Inl None" by auto
    with Inr show ?thesis by simp
  qed
qed simp

lemma collect_no_exn:
  "\<forall>y\<in>set xs. \<forall>e. f y \<noteq> Inl (Some e) \<Longrightarrow> collect f xs \<noteq> Inl (Some e)"
  by (induction xs) (auto split: sum.split)

lemma collect_sublist: "collect f xs = Inr ws \<Longrightarrow> x \<in> set xs \<Longrightarrow> f x = Inr vs \<Longrightarrow> sublist vs ws"
proof (induction xs arbitrary: ws)
  case (Cons y ys)
  then obtain us rest where r: "f y = Inr us" "collect f ys = Inr rest" "ws = us @ rest"
    by (auto split: sum.splits)
  with Cons show ?case by (auto simp: sublist_append_leftI sublist_append_rightI intro: sublist_order.order.trans)
qed simp

lemma mset_concat_map: "mset (concat (map f xs)) = (\<Sum>x\<in>#mset xs. mset (f x))"
  by (induction xs) auto

lemma collect_perm:
  assumes "mset xs = mset ys" "collect f xs = Inr ws"
    and "\<And>x vs. x \<in> set xs \<Longrightarrow> f x = Inr vs \<Longrightarrow> \<exists>us. g x = Inr us \<and> mset us = mset vs"
  shows "\<exists>us. collect g ys = Inr us \<and> mset us = mset ws"
proof -
  have f: "\<forall>x\<in>set xs. \<exists>vs. f x = Inr vs" "ws = concat (map (projr \<circ> f) xs)"
    using assms(2) by (auto simp: collect_Inr)
  have set: "set ys = set xs" using assms(1) by (metis set_mset_mset)
  have g: "\<exists>us. g x = Inr us \<and> mset us = mset (projr (f x))" if "x \<in> set xs" for x
    using assms(3) [OF that] f(1) that by fastforce
  have "mset (concat (map (projr \<circ> g) ys)) = (\<Sum>x\<in>#mset xs. mset ((projr \<circ> g) x))"
    by (simp only: mset_concat_map assms(1))
  also have "\<dots> = (\<Sum>x\<in>#mset xs. mset ((projr \<circ> f) x))"
    by (rule arg_cong [where f = sum_mset], rule image_mset_cong) (use g in fastforce)
  finally have "mset (concat (map (projr \<circ> g) ys)) = mset ws"
    by (simp only: mset_concat_map f(2))
  moreover have "\<forall>x\<in>set ys. \<exists>us. g x = Inr us" using g set by blast
  ultimately show ?thesis by (auto simp: collect_Inr)
qed

lemma items_perm:
  assumes "permuting ord" "distinct (map fst d)"
  shows "mset (items_of ord d) = mset d"
proof -
  have "map (\<lambda>k. case map_of d k of None \<Rightarrow> [] | Some v \<Rightarrow> [(k, v)]) (map fst d) = map (\<lambda>p. [p]) d"
    using assms(2) by (auto simp: map_of_is_SomeI)
  moreover have "concat (map (\<lambda>p. [p]) d) = d" by (induction d) auto
  ultimately have "items_of id d = d" by (simp only: items_of_def id_apply)
  moreover have "mset (items_of ord d) = mset (items_of id d)"
    unfolding items_of_def mset_concat_map using assms(1) by (simp only: permuting_def id_apply)
  ultimately show ?thesis by simp
qed

section \<open>Commands up to the order of their words\<close>

definition same_words :: "words \<Rightarrow> words \<Rightarrow> bool" where
  "same_words x y \<longleftrightarrow> (\<forall>vs. x = Inr vs \<longrightarrow> (\<exists>us. y = Inr us \<and> mset us = mset vs))"

lemma same_words_refl: "same_words x x"
  by (simp add: same_words_def)

lemma permuting_id: "permuting id"
  by (simp add: permuting_def)

lemma items_same: "permuting ord \<Longrightarrow> distinct (map fst d) \<Longrightarrow> mset (items_of ord d) = mset (items_of id d)"
  by (simp only: items_perm permuting_id)

lemma items_set: "permuting ord \<Longrightarrow> distinct (map fst d) \<Longrightarrow> set (items_of ord d) = set d"
  using items_perm by (metis set_mset_mset)

lemma same_collect:
  assumes "mset xs = mset ys" "\<And>x. x \<in> set xs \<Longrightarrow> same_words (f x) (g x)"
  shows "same_words (collect f xs) (collect g ys)"
  unfolding same_words_def
proof (intro allI impI)
  fix ws assume "collect f xs = Inr ws"
  then show "\<exists>us. collect g ys = Inr us \<and> mset us = mset ws"
    by (rule collect_perm [OF assms(1)]) (use assms(2) in \<open>simp add: same_words_def\<close>)
qed

lemma same_parts: "list_all2 same_words xs ys \<Longrightarrow> same_words (collect id xs) (collect id ys)"
proof (induction rule: list_all2_induct)
  case (Cons x xs y ys)
  show ?case unfolding same_words_def
  proof (intro allI impI)
    fix ws assume "collect id (x # xs) = Inr ws"
    then obtain a b where "x = Inr a" "collect id xs = Inr b" "ws = a @ b" by (auto split: sum.splits)
    moreover from this Cons obtain a' b' where
      "y = Inr a'" "mset a' = mset a" "collect id ys = Inr b'" "mset b' = mset b"
      unfolding same_words_def by metis
    ultimately show "\<exists>us. collect id (y # ys) = Inr us \<and> mset us = mset ws" by simp
  qed
qed (rule same_words_refl)

lemma tables_distinct:
  "distinct (map fst id_obj_map)" "distinct (map fst sad_options_obj_map)" "distinct (map fst selector_obj_map)"
  "distinct (map fst sad_algo_map)" "(kind, names) \<in> set sad_algo_map \<Longrightarrow> distinct (map fst names)"
  by (auto simp: id_obj_map_def sad_options_obj_map_def selector_obj_map_def sad_algo_map_def)

lemma same_cmd_from_map:
  "permuting ord \<Longrightarrow> distinct (map fst m) \<Longrightarrow> same_words (cmd_from_map ord m key data) (cmd_from_map id m key data)"
  unfolding cmd_from_map_def by (intro same_collect items_same same_words_refl)

lemma same_algo_words: "permuting ord \<Longrightarrow> same_words (algo_words ord data) (algo_words id data)"
  unfolding algo_words_def
  by (intro same_collect items_same tables_distinct)
    (auto simp: items_set tables_distinct intro!: same_collect items_same same_words_refl tables_distinct(5))

text \<open>The command without its head.\<close>

definition sad_parts :: "(string list \<Rightarrow> string list) \<Rightarrow> xfrm_data \<Rightarrow> words list" where
  "sad_parts ord data =
     [cmd_from_map ord id_obj_map sad_path data, cmd_from_map ord sad_options_obj_map sad_path data,
      if some_attr selector_obj_map sad_path data
      then collect id [Inr [''sel''], cmd_from_map ord selector_obj_map sad_path data] else Inr [],
      algo_words ord data, Inr (null_encryption data)]"

definition sad_head :: "xfrm_change \<Rightarrow> words" where
  "sad_head change =
     xfrm_head ''state'' (config_sad_options_key_prefix @ ''/vrf-name'') (ch_data change) (ch_operation change)"

lemma sad_cmd_parts: "sad_cmd ord change = collect id (sad_head change # sad_parts ord (ch_data change))"
  by (simp add: sad_cmd_def sad_head_def sad_parts_def Let_def)

lemma same_sad_parts: "permuting ord \<Longrightarrow> list_all2 same_words (sad_parts ord data) (sad_parts id data)"
  by (auto simp: sad_parts_def simp del: collect.simps
      intro!: same_cmd_from_map same_algo_words same_words_refl same_parts tables_distinct)

lemma sad_cmd_Inr:
  assumes "sad_cmd ord change = Inr ws"
  obtains h vs where "sad_head change = Inr h" "collect id (sad_parts ord (ch_data change)) = Inr vs" "ws = h @ vs"
  using assms unfolding sad_cmd_parts by (auto split: sum.splits)

lemma sad_part_sublist:
  assumes "sad_cmd ord change = Inr ws" "Inr vs \<in> set (sad_parts ord (ch_data change))"
  shows "sublist vs ws"
proof -
  obtain h us where "collect id (sad_parts ord (ch_data change)) = Inr us" "ws = h @ us"
    using assms(1) by (rule sad_cmd_Inr)
  with collect_sublist [of id _ us "Inr vs" vs] assms(2) show ?thesis
    by (auto intro: sublist_order.order.trans)
qed

lemma attr_in_map:
  assumes "cmd_from_map ord m key data = Inr ws" "permuting ord" "distinct (map fst m)"
    and "(name, e) \<in> set m" "key e = Some path" "map_of data path = Some v"
  shows "\<exists>val. xfrm_word name v = Inr val \<and> sublist [xfrm_cmd e, val] ws"
proof -
  have mem: "(name, e) \<in> set (items_of ord m)" using assms(2-4) by (simp add: items_set)
  with assms(1) obtain vs where vs: "entry_words data key (name, e) = Inr vs"
    unfolding cmd_from_map_def using collect_each by blast
  with assms(5,6) obtain val where "xfrm_word name v = Inr val" "vs = [xfrm_cmd e, val]"
    by (auto simp: entry_words_def split: sum.splits)
  with collect_sublist [OF assms(1) [unfolded cmd_from_map_def] mem vs] show ?thesis by blast
qed

section \<open>Properties\<close>

text \<open>
  C34: In whatever order the interpreter lists the keys of its dictionaries, the command for a
  security association has the same head and, after it, the same words the same number of times.
\<close>
theorem sad_order_irrelevant:
  assumes "permuting ord" "sad_cmd ord change = Inr ws"
  shows "\<exists>h vs us. sad_head change = Inr h \<and> ws = h @ vs \<and> sad_cmd id change = Inr (h @ us) \<and> mset us = mset vs"
proof -
  obtain h vs where h: "sad_head change = Inr h" "collect id (sad_parts ord (ch_data change)) = Inr vs" "ws = h @ vs"
    using assms(2) by (rule sad_cmd_Inr)
  have "same_words (collect id (sad_parts ord (ch_data change))) (collect id (sad_parts id (ch_data change)))"
    by (intro same_parts same_sad_parts assms(1))
  then obtain us where "collect id (sad_parts id (ch_data change)) = Inr us" "mset us = mset vs"
    using h(2) by (auto simp: same_words_def)
  with h show ?thesis by (intro exI [of _ h] exI [of _ vs] exI [of _ us]) (simp add: sad_cmd_parts)
qed

text \<open>
  C35: Every attribute of the request that one of the tables knows stands in the command, its
  value (the name of it for an enumeration) right after its option.
\<close>
theorem sad_attributes_in_command:
  assumes "permuting ord" "sad_cmd ord change = Inr ws"
    and "(name, e) \<in> set id_obj_map \<union> set sad_options_obj_map \<union> set selector_obj_map"
    and "sad_path e = Some path" "map_of (ch_data change) path = Some v"
  shows "\<exists>val. xfrm_word name v = Inr val \<and> sublist [xfrm_cmd e, val] ws"
proof -
  obtain h vs where parts: "collect id (sad_parts ord (ch_data change)) = Inr vs"
    using assms(2) by (rule sad_cmd_Inr)
  have "\<exists>us m. cmd_from_map ord m sad_path (ch_data change) = Inr us \<and> distinct (map fst m) \<and> (name, e) \<in> set m \<and> sublist us ws"
  proof (cases "(name, e) \<in> set selector_obj_map")
    case True
    then have "some_attr selector_obj_map sad_path (ch_data change)"
      using assms(4,5) by (force simp: some_attr_def dest: map_of_SomeD)
    with collect_each [OF parts] obtain us where
      us: "cmd_from_map ord selector_obj_map sad_path (ch_data change) = Inr us" "Inr (''sel'' # us) \<in> set (sad_parts ord (ch_data change))"
      by (auto simp: sad_parts_def split: sum.splits)
    have "sublist us (''sel'' # us)" by (simp add: sublist_Cons_right)
    with sad_part_sublist [OF assms(2) us(2)] us(1) True tables_distinct(3) show ?thesis
      by (blast intro: sublist_order.order.trans)
  next
    case False
    with assms(3) obtain m where m: "m = id_obj_map \<or> m = sad_options_obj_map" "(name, e) \<in> set m" by blast
    then have part: "cmd_from_map ord m sad_path (ch_data change) \<in> set (sad_parts ord (ch_data change))"
      by (auto simp: sad_parts_def)
    then obtain us where "cmd_from_map ord m sad_path (ch_data change) = Inr us"
      using collect_each [OF parts] by auto
    with part m tables_distinct(1,2) sad_part_sublist [OF assms(2)] show ?thesis by metis
  qed
  then obtain us m where us: "cmd_from_map ord m sad_path (ch_data change) = Inr us" "distinct (map fst m)"
      "(name, e) \<in> set m" "sublist us ws"
    by blast
  obtain val where "xfrm_word name v = Inr val" "sublist [xfrm_cmd e, val] us"
    using attr_in_map [OF us(1) assms(1) us(2,3) assms(4,5)] by blast
  with us(4) show ?thesis by (blast intro: sublist_order.order.trans)
qed

text \<open>The rest of the request is in order: its operation, its enumerations, and its keys are strings.\<close>

definition otherwise_fine :: "xfrm_change \<Rightarrow> bool" where
  "otherwise_fine change \<longleftrightarrow>
     cps_to_xfrm_op (ch_operation change) \<noteq> None \<and>
     (\<forall>(name, e)\<in>set id_obj_map \<union> set sad_options_obj_map \<union> set selector_obj_map.
        case sad_path e of
          None \<Rightarrow> True
        | Some path \<Rightarrow>
            (case map_of (ch_data change) path of
               None \<Rightarrow> True
             | Some v \<Rightarrow> (case xfrm_word name v of Inl e' \<Rightarrow> False | Inr s \<Rightarrow> True))) \<and>
     (\<forall>(kind, names)\<in>set sad_algo_map. \<forall>(name, a)\<in>set names. \<forall>path\<in>set (algo_paths a).
        case map_of (ch_data change) path of Some (XInt n) \<Rightarrow> False | _ \<Rightarrow> True)"

definition bad_length :: "algo \<Rightarrow> xfrm_val option \<Rightarrow> bool" where
  "bad_length a x =
     (case x of Some (XStr s) \<Rightarrow> length s \<noteq> key_str a \<and> length s \<noteq> key_hex_str a | _ \<Rightarrow> False)"

definition wrong_key :: "xfrm_data \<Rightarrow> bool" where
  "wrong_key data \<longleftrightarrow>
     (\<exists>(kind, names)\<in>set sad_algo_map. \<exists>(name, a)\<in>set names. \<exists>path\<in>set (algo_paths a).
        bad_length a (map_of data path))"

lemma bad_lengthD: "bad_length a x \<Longrightarrow> \<exists>s. x = Some (XStr s) \<and> length s \<notin> {key_str a, key_hex_str a}"
  by (auto simp: bad_length_def split: option.splits xfrm_val.splits)

lemma sad_paths_given: "(name, e) \<in> set id_obj_map \<union> set sad_options_obj_map \<union> set selector_obj_map \<Longrightarrow> sad_path e \<noteq> None"
  by (auto simp: id_obj_map_def sad_options_obj_map_def selector_obj_map_def)

lemma fine_entry:
  assumes "otherwise_fine change" "(name, e) \<in> set id_obj_map \<union> set sad_options_obj_map \<union> set selector_obj_map"
    and "sad_path e = Some path" "map_of (ch_data change) path = Some v"
  shows "\<exists>s. xfrm_word name v = Inr s"
  using bspec [OF conjunct1 [OF conjunct2 [OF assms(1) [unfolded otherwise_fine_def]]] assms(2)] assms(3,4)
  by (auto split: sum.splits)

lemma fine_key:
  assumes "otherwise_fine change" "(kind, names) \<in> set sad_algo_map" "(name, a) \<in> set names" "path \<in> set (algo_paths a)"
  shows "map_of (ch_data change) path \<noteq> Some (XInt n)"
proof -
  have "\<forall>(name, a)\<in>set names. \<forall>path\<in>set (algo_paths a).
      case map_of (ch_data change) path of Some (XInt n) \<Rightarrow> False | _ \<Rightarrow> True"
    using bspec [OF conjunct2 [OF conjunct2 [OF assms(1) [unfolded otherwise_fine_def]]] assms(2)] by simp
  from bspec [OF this assms(3)] assms(4) show ?thesis by (auto split: option.splits)
qed

lemma fine_map:
  assumes "otherwise_fine change" "permuting ord" "distinct (map fst m)"
    and "set m \<subseteq> set id_obj_map \<union> set sad_options_obj_map \<union> set selector_obj_map"
  shows "\<exists>ws. cmd_from_map ord m sad_path (ch_data change) = Inr ws"
proof -
  have "\<exists>vs. entry_words (ch_data change) sad_path x = Inr vs" if "x \<in> set m" for x
  proof -
    obtain name e where x: "x = (name, e)" by (cases x)
    with that assms(4) have mem: "(name, e) \<in> set id_obj_map \<union> set sad_options_obj_map \<union> set selector_obj_map" by blast
    then obtain path where path: "sad_path e = Some path" using sad_paths_given by blast
    show ?thesis
    proof (cases "map_of (ch_data change) path")
      case (Some v)
      with fine_entry [OF assms(1) mem path] obtain s where "xfrm_word name v = Inr s" by blast
      with Some path x show ?thesis by (simp add: entry_words_def)
    qed (use path x in \<open>simp add: entry_words_def\<close>)
  qed
  then show ?thesis
    using assms(2,3) by (auto simp: cmd_from_map_def collect_Inr items_set)
qed

lemma wrong_key_stops:
  assumes "otherwise_fine change" "permuting ord" "wrong_key (ch_data change)"
  shows "algo_words ord (ch_data change) = Inl None"
proof -
  from assms(3) obtain kind names name a path where
    k: "(kind, names) \<in> set sad_algo_map" "(name, a) \<in> set names" "path \<in> set (algo_paths a)"
    and "bad_length a (map_of (ch_data change) path)"
    unfolding wrong_key_def by blast
  then obtain s where bad: "map_of (ch_data change) path = Some (XStr s)" "length s \<notin> {key_str a, key_hex_str a}"
    using bad_lengthD by blast
  have fine: "key_words kind' a' (ch_data change) p \<noteq> Inl (Some e)"
    if "(kind', names') \<in> set sad_algo_map" "(name', a') \<in> set names'" "p \<in> set (algo_paths a')"
    for kind' names' name' a' p e
    using fine_key [OF assms(1) that] by (auto simp: key_words_def split: option.split xfrm_val.split)
  have paths: "collect (key_words kind' a' (ch_data change)) (algo_paths a') \<noteq> Inl (Some e)"
    if "(kind', names') \<in> set sad_algo_map" "(name', a') \<in> set names'" for kind' names' name' a' e
    using fine [OF that] by (intro collect_no_exn) blast
  have inner: "collect (\<lambda>(_, a). collect (key_words kind' a (ch_data change)) (algo_paths a)) (items_of ord names') \<noteq> Inl (Some e)"
    if "(kind', names') \<in> set sad_algo_map" for kind' names' e
    using tables_distinct(5) [OF that] assms(2) paths [OF that]
    by (intro collect_no_exn) (auto simp: items_set)
  have "key_words kind a (ch_data change) path = Inl None" using bad by (auto simp: key_words_def)
  then have "collect (key_words kind a (ch_data change)) (algo_paths a) = Inl None"
    using k fine by (intro collect_None) auto
  then have "collect (\<lambda>(_, a). collect (key_words kind a (ch_data change)) (algo_paths a)) (items_of ord names) = Inl None"
    using k tables_distinct(5) [OF k(1)] assms(2) paths [OF k(1)]
    by (intro collect_None [of "(name, a)"]) (auto simp: items_set)
  then show ?thesis
    using k tables_distinct(4) assms(2) inner unfolding algo_words_def
    by (intro collect_None [of "(kind, names)"]) (auto simp: items_set)
qed

text \<open>
  C36: A security association with a key of a wrong length is not configured, no command runs, and
  the request is granted all the same.
\<close>
theorem wrong_key_granted:
  assumes "permuting (dict_order E)" "xfrm_key E config_sad_key_prefix = ch_key change"
    and "otherwise_fine change" "wrong_key (ch_data change)"
  shows "config_sad E change w = (Inr False, w) \<and> ipsec_trans_cb E change w = (Inr True, w)"
proof -
  note m = fine_map [OF assms(3,1)] tables_distinct(1-3)
  obtain h a b c where parts: "sad_head change = Inr h"
    "cmd_from_map (dict_order E) id_obj_map sad_path (ch_data change) = Inr a"
    "cmd_from_map (dict_order E) sad_options_obj_map sad_path (ch_data change) = Inr b"
    "cmd_from_map (dict_order E) selector_obj_map sad_path (ch_data change) = Inr c"
    using m(1) [OF m(2)] m(1) [OF m(3)] m(1) [OF m(4)] assms(3)
    by (fastforce simp: sad_head_def xfrm_head_def otherwise_fine_def)
  have "sad_cmd (dict_order E) change = Inl None"
    unfolding sad_cmd_parts sad_parts_def by (simp add: parts wrong_key_stops [OF assms(3,1,4)])
  then have "config_sad E change w = (Inr False, w)" by (simp add: config_sad_def config_db_def)
  then show ?thesis using assms(2) by (simp add: ipsec_trans_cb_def)
qed

section \<open>Examples\<close>

text \<open>An association for ESP with a key for its authentication, and the dictionaries in the reverse order.\<close>

definition esp_request :: "string \<Rightarrow> xfrm_change" where
  "esp_request key = \<lparr>ch_key = config_sad_key_prefix, ch_operation = ''create'', ch_data =
     [(config_sad_key_prefix @ ''/security-protocol'', XInt 1), (config_sad_key_prefix @ ''/spi'', XInt 256),
      (config_sad_options_key_prefix @ ''/ifname'', XStr ''br10''),
      (config_sad_key_prefix @ ''/esp/authentication/authentication-algorithm/hmac-md5-96/hmac-md5-96/key-str'', XStr key)]\<rparr>"

definition xfrm_recorder :: "string list list xfrm_env" where
  "xfrm_recorder = \<lparr>xfrm_popen = (\<lambda>c w. (Some 0, w @ [c])), dict_order = rev, xfrm_key = id\<rparr>"

definition esp_words :: "string list" where
  "esp_words = [''/sbin/ip'', ''xfrm'', ''state'', ''add'', ''spi'', ''256'', ''proto'', ''esp'',
     ''sel'', ''dev'', ''br10'', ''auth'', ''hmac(md5)'', ''0123456789abcdef'', ''enc'', ''ecb(cipher_null)'', '''']"

lemma permuting_rev: "permuting rev"
  by (simp add: permuting_def)

lemma esp_run: "sad_cmd rev (esp_request ''0123456789abcdef'') = Inr esp_words"
  by code_simp

lemma sad_order_irrelevant_witness:
  "\<exists>h vs us. sad_head (esp_request ''0123456789abcdef'') = Inr h \<and> esp_words = h @ vs \<and>
    sad_cmd id (esp_request ''0123456789abcdef'') = Inr (h @ us) \<and> mset us = mset vs"
  by (rule sad_order_irrelevant) (rule permuting_rev esp_run)+

lemma sad_attributes_in_command_witness:
  "\<exists>val. xfrm_word ''sec-proto'' (XInt 1) = Inr val \<and> sublist [''proto'', val] esp_words"
  using sad_attributes_in_command [OF permuting_rev esp_run, of "''sec-proto''" _ "config_sad_key_prefix @ ''/security-protocol''" "XInt 1"]
  by (fastforce simp: id_obj_map_def esp_request_def)

lemma esp_fine: "otherwise_fine (esp_request ''abc'') \<and> wrong_key (ch_data (esp_request ''abc''))"
  by code_simp

lemma wrong_key_granted_witness:
  "config_sad xfrm_recorder (esp_request ''abc'') [] = (Inr False, []) \<and>
    ipsec_trans_cb xfrm_recorder (esp_request ''abc'') [] = (Inr True, [])"
  by (rule wrong_key_granted) (simp_all add: xfrm_recorder_def permuting_rev esp_fine, simp add: esp_request_def)

end
