(* ===== verification/BrTool.thy ===== *)
theory BrTool
  imports Env PyRegex
begin

text \<open>
  \<^verbatim>\<open>scripts/lib/python/dn_base_br_tool.py\<close>: the wrappers of \<^verbatim>\<open>brctl\<close> and \<^verbatim>\<open>bridge\<close>. A name that
  the parser does not find is \<^verbatim>\<open>None\<close>, so a list of names is a list of optional strings.
\<close>

section \<open>Commands\<close>

definition BRCTL_CMD :: string where
  "BRCTL_CMD = ''/sbin/brctl''"

definition BRIDGE_CMD :: string where
  "BRIDGE_CMD = ''/sbin/bridge''"

text \<open>The copy of \<open>run_command\<close> in this module keeps every line.\<close>

definition br_command :: "'w ext \<Rightarrow> string list \<Rightarrow> 'w \<Rightarrow> (int \<times> string list) \<times> 'w" where
  "br_command E cmd w = (case popen E cmd w of ((rc, out), w') \<Rightarrow> ((rc, map rstrip out), w'))"

definition br_ok :: "'w ext \<Rightarrow> string list \<Rightarrow> 'w \<Rightarrow> bool \<times> 'w" where
  "br_ok E cmd w = (case br_command E cmd w of ((rc, res), w') \<Rightarrow> (rc = 0, w'))"

definition create_br :: "'w ext \<Rightarrow> string \<Rightarrow> 'w \<Rightarrow> bool \<times> 'w" where
  "create_br E bname w = br_ok E [BRCTL_CMD, ''addbr'', bname] w"

definition del_br :: "'w ext \<Rightarrow> string \<Rightarrow> 'w \<Rightarrow> bool \<times> 'w" where
  "del_br E bname w = br_ok E [BRCTL_CMD, ''delbr'', bname] w"

definition add_if :: "'w ext \<Rightarrow> string \<Rightarrow> string \<Rightarrow> 'w \<Rightarrow> bool \<times> 'w" where
  "add_if E bname iname w = br_ok E [BRCTL_CMD, ''addif'', bname, iname] w"

definition del_if :: "'w ext \<Rightarrow> string \<Rightarrow> string \<Rightarrow> 'w \<Rightarrow> bool \<times> 'w" where
  "del_if E bname iname w = br_ok E [BRCTL_CMD, ''delif'', bname, iname] w"

section \<open>Parsing the listing\<close>

definition br_field :: "re \<Rightarrow> string \<Rightarrow> string option" where
  "br_field r line = map_option (\<lambda>(_, gs). hd gs) (re_search r line)"

definition bname_re :: re where
  "bname_re = seqs [Grp (Plus NonSpace), Plus Space]"

definition first_iname_re :: re where
  "first_iname_re = seqs [Plus NonSpace, Plus Space, Plus NonSpace, Plus Space, Plus NonSpace, Plus Space,
     Grp (Plus NonSpace)]"

definition iname_re :: re where
  "iname_re = seqs [Plus Space, Grp (Plus NonSpace)]"

definition br_id_re :: re where
  "br_id_re = seqs [Plus NonSpace, Plus Space, Grp (Plus NonSpace), Plus Space]"

text \<open>The three readers skip the first line, the header. \<open>get_id\<close> raises when there is no other.\<close>

definition get_br_list :: "'w ext \<Rightarrow> 'w \<Rightarrow> string list option \<times> 'w" where
  "get_br_list E w =
     (case br_command E [BRCTL_CMD, ''show''] w of
        ((rc, res), w') \<Rightarrow> (if rc = 0 then Some (List.map_filter (br_field bname_re) (tl res)) else None, w'))"

definition get_if_list :: "'w ext \<Rightarrow> string \<Rightarrow> 'w \<Rightarrow> string option list option \<times> 'w" where
  "get_if_list E bname w =
     (case br_command E [BRCTL_CMD, ''show'', bname] w of
        ((rc, res), w') \<Rightarrow>
          (if rc = 0 then
             Some (case res of
                     _ # l # ls \<Rightarrow> br_field first_iname_re l # map (br_field iname_re) ls
                   | _ \<Rightarrow> [])
           else None, w'))"

definition get_id :: "'w ext \<Rightarrow> string \<Rightarrow> 'w \<Rightarrow> (string option, 'w) outcome" where
  "get_id E bname w =
     (case br_command E [BRCTL_CMD, ''show'', bname] w of
        ((rc, res), w') \<Rightarrow>
          (if rc = 0 then (case res of _ # l # _ \<Rightarrow> Inr (br_field br_id_re l) | _ \<Rightarrow> Inl IndexError)
           else Inr None, w'))"

section \<open>The forwarding database\<close>

text \<open>
  The optional arguments are appended to the command as they are; the start of a command with an
  element that is no string raises \<open>TypeError\<close>.
\<close>

datatype cmd_arg = ArgInt int | ArgStr string

definition opt_arg :: "string \<Rightarrow> cmd_arg option \<Rightarrow> cmd_arg list" where
  "opt_arg name x = (case x of None \<Rightarrow> [] | Some a \<Rightarrow> [ArgStr name, a])"

fun arg_words :: "cmd_arg list \<Rightarrow> exn + string list" where
  "arg_words [] = Inr []"
| "arg_words (ArgInt n # xs) = Inl TypeError"
| "arg_words (ArgStr s # xs) = try_bind (arg_words xs) (\<lambda>ws. Inr (s # ws))"

definition vtep_fdb ::
  "'w ext \<Rightarrow> string \<Rightarrow> string \<Rightarrow> string \<Rightarrow> string \<Rightarrow> cmd_arg option \<Rightarrow> cmd_arg option \<Rightarrow> cmd_arg option \<Rightarrow>
   'w \<Rightarrow> (bool, 'w) outcome" where
  "vtep_fdb E oper iname dst_ip learnt_mac vni port via w =
     (case arg_words (map ArgStr [BRIDGE_CMD, ''fdb'', oper, learnt_mac, ''dev'', iname, ''dst'', dst_ip] @
            opt_arg ''vni'' vni @ opt_arg ''port'' port @ opt_arg ''via'' via) of
        Inl e \<Rightarrow> (Inl e, w)
      | Inr cmd \<Rightarrow> (case br_ok E cmd w of (ok, w') \<Rightarrow> (Inr ok, w')))"

definition del_learnt_mac_from_vtep_fdb ::
  "'w ext \<Rightarrow> string \<Rightarrow> string \<Rightarrow> string \<Rightarrow> cmd_arg option \<Rightarrow> cmd_arg option \<Rightarrow> cmd_arg option \<Rightarrow> 'w \<Rightarrow> (bool, 'w) outcome" where
  "del_learnt_mac_from_vtep_fdb E iname dst_ip learnt_mac vni port via w =
     vtep_fdb E ''del'' iname dst_ip learnt_mac vni port via w"

definition add_learnt_mac_to_vtep_fdb ::
  "'w ext \<Rightarrow> string \<Rightarrow> string \<Rightarrow> string \<Rightarrow> cmd_arg option \<Rightarrow> cmd_arg option \<Rightarrow> cmd_arg option \<Rightarrow> 'w \<Rightarrow> (bool, 'w) outcome" where
  "add_learnt_mac_to_vtep_fdb E iname dst_ip learnt_mac vni port via w =
     vtep_fdb E ''append'' iname dst_ip learnt_mac vni port via w"

section \<open>What the listing says is read\<close>

text \<open>A bridge as \<^verbatim>\<open>brctl show\<close> prints it: its interfaces below each other in the last column.\<close>

record bridge =
  br_name :: string
  br_id :: string
  br_stp :: string
  br_ifs :: "string list"

definition tabs :: "nat \<Rightarrow> string" where
  "tabs n = replicate n (CHR 0x09)"

definition brctl_rows :: "bridge \<Rightarrow> string list" where
  "brctl_rows b =
     (let row = br_name b @ tabs 2 @ br_id b @ tabs 1 @ br_stp b
      in case br_ifs b of
           [] \<Rightarrow> [row @ tabs 2]
         | i # is \<Rightarrow> (row @ tabs 2 @ i) # map (\<lambda>j. tabs 7 @ j) is)"

definition is_word :: "string \<Rightarrow> bool" where
  "is_word s \<longleftrightarrow> s \<noteq> [] \<and> list_all (\<lambda>c. \<not> is_space c) s"

definition bridge_ok :: "bridge \<Rightarrow> bool" where
  "bridge_ok b \<longleftrightarrow> is_word (br_name b) \<and> is_word (br_id b) \<and> is_word (br_stp b) \<and> list_all is_word (br_ifs b)"

lemma tabs_space: "list_all is_space (tabs n)" "tabs (Suc n) \<noteq> []"
  by (simp_all add: tabs_def is_space_def list_all_iff)

lemma word_in_class: "is_word s \<Longrightarrow> list_all (in_class NonSpace) s"
  by (simp add: is_word_def list_all_iff)

lemma rstrip_word: "is_word t \<Longrightarrow> rstrip (s @ t) = s @ t"
proof -
  assume "is_word t"
  then have "t \<noteq> []" "\<not> is_space (last t)" by (auto simp: is_word_def list_all_iff)
  then show ?thesis by (cases t rule: rev_cases) (simp_all add: rstrip_def)
qed

lemma rstrip_tabs: "is_word t \<Longrightarrow> rstrip (s @ t @ tabs n) = s @ t"
proof -
  assume t: "is_word t"
  have "dropWhile is_space (tabs n @ xs) = dropWhile is_space xs" for xs
    by (induction n) (simp_all add: tabs_def is_space_def)
  then have "rstrip (s @ t @ tabs n) = rstrip (s @ t)" by (simp add: rstrip_def tabs_def)
  with rstrip_word [OF t] show ?thesis by simp
qed

lemma first_way_Plus:
  assumes "t \<noteq> []" "list_all (in_class c) t" "s = [] \<or> \<not> in_class c (hd s)"
  shows "first_way (Plus c) (t @ s) s []"
proof -
  have "takeWhile (in_class c) (t @ s) = t"
    using assms(2,3) by (cases s) (auto simp: list_all_iff takeWhile_append)
  moreover have "rev [1..<Suc (length t)] = length t # rev [1..<length t]" using assms(1) by (cases t) auto
  ultimately show ?thesis by (simp add: first_way_def)
qed

lemma Plus_ways: "(r, gs) \<in> set (re_ways (Plus c) s) \<Longrightarrow> \<exists>t. s = t @ r \<and> t \<noteq> [] \<and> list_all (in_class c) t"
proof -
  assume "(r, gs) \<in> set (re_ways (Plus c) s)"
  then obtain n where n: "r = drop n s" "1 \<le> n" "n \<le> length (takeWhile (in_class c) s)" by auto
  have "s = take n s @ r" using n(1) by simp
  moreover have "take n s = take n (takeWhile (in_class c) s)"
    using n(3) by (metis takeWhile_eq_take take_take min.absorb1)
  moreover have "list_all (in_class c) (take n (takeWhile (in_class c) s))"
    by (auto simp: list_all_iff dest!: in_set_takeD set_takeWhileD)
  moreover have "take n s \<noteq> []" using n(2,3) by (cases s) auto
  ultimately show ?thesis by metis
qed

text \<open>The places of a text where white space is followed by something else.\<close>

fun rises :: "string \<Rightarrow> nat" where
  "rises (x # y # zs) = (if is_space x \<and> \<not> is_space y then 1 else 0) + rises (y # zs)"
| "rises _ = 0"

lemma rises_append:
  "rises (xs @ ys) = rises xs + rises ys +
     (if xs \<noteq> [] \<and> ys \<noteq> [] \<and> is_space (last xs) \<and> \<not> is_space (hd ys) then 1 else 0)"
proof (induction xs)
  case (Cons x xs)
  then show ?case by (cases xs; cases ys) auto
qed simp

lemma rises_word: "list_all (\<lambda>c. \<not> is_space c) s \<Longrightarrow> rises s = 0"
  by (induction s rule: rises.induct) auto

lemma rises_space: "list_all is_space s \<Longrightarrow> rises s = 0"
  by (induction s rule: rises.induct) auto

lemma re_search_way: "re_search p s = Some m \<Longrightarrow> \<exists>t u r gs. s = t @ u \<and> (r, gs) \<in> set (re_ways p u)"
proof (induction s)
  case Nil
  then show ?case by (force simp: re_match_def split: list.splits)
next
  case (Cons x xs)
  show ?case
  proof (cases "re_match p (x # xs)")
    case None
    with Cons obtain t u r gs where "xs = t @ u" "(r, gs) \<in> set (re_ways p u)" by auto
    then have "x # xs = (x # t) @ u" by simp
    with \<open>(r, gs) \<in> set (re_ways p u)\<close> show ?thesis by blast
  next
    case (Some m')
    then have "\<exists>r gs. (r, gs) \<in> set (re_ways p (x # xs))"
      by (force simp: re_match_def split: list.splits)
    then show ?thesis by (metis append_Nil)
  qed
qed

lemma Seq_ways:
  assumes "(r, gs) \<in> set (re_ways (Seq a b) s)"
  obtains r' g g' where "(r', g) \<in> set (re_ways a s)" "(r, g') \<in> set (re_ways b r')"
  using assms by auto

lemma Grp_ways:
  assumes "(r, gs) \<in> set (re_ways (Grp a) s)"
  obtains g where "(r, g) \<in> set (re_ways a s)"
  using assms by auto

lemma rises_first_iname:
  assumes "(r, gs) \<in> set (re_ways first_iname_re u)"
  shows "3 \<le> rises u"
proof -
  have step: "rises (a @ b @ v) \<ge> Suc (rises v)"
    if "b \<noteq> []" "list_all (in_class Space) b" "v \<noteq> [] \<and> \<not> is_space (hd v)" for a b v
  proof -
    have "is_space (last b)" using that(1,2) by (simp add: list_all_iff)
    then show ?thesis using that by (simp add: rises_append)
  qed
  have word: "v \<noteq> [] \<and> \<not> is_space (hd v)" if "v = a @ v'" "a \<noteq> []" "list_all (in_class NonSpace) a" for a v v' :: string
    using that by (cases a) auto
  from assms obtain u1 u2 u3 u4 u5 u6 g1 g2 g3 g4 g5 g6 g7 where w:
    "(u1, g1) \<in> set (re_ways (Plus NonSpace) u)" "(u2, g2) \<in> set (re_ways (Plus Space) u1)"
    "(u3, g3) \<in> set (re_ways (Plus NonSpace) u2)" "(u4, g4) \<in> set (re_ways (Plus Space) u3)"
    "(u5, g5) \<in> set (re_ways (Plus NonSpace) u4)" "(u6, g6) \<in> set (re_ways (Plus Space) u5)"
    "(r, g7) \<in> set (re_ways (Plus NonSpace) u6)"
    unfolding first_iname_re_def seqs.simps by (elim Seq_ways Grp_ways) simp
  note ways = w [THEN Plus_ways]
  obtain a where u: "u = a @ u1" using ways(1) by blast
  obtain b where b: "u1 = b @ u2" "b \<noteq> []" "list_all (in_class Space) b" using ways(2) by blast
  obtain c where c: "u2 = c @ u3" "c \<noteq> []" "list_all (in_class NonSpace) c" using ways(3) by blast
  obtain d where d: "u3 = d @ u4" "d \<noteq> []" "list_all (in_class Space) d" using ways(4) by blast
  obtain e where e: "u4 = e @ u5" "e \<noteq> []" "list_all (in_class NonSpace) e" using ways(5) by blast
  obtain f where f: "u5 = f @ u6" "f \<noteq> []" "list_all (in_class Space) f" using ways(6) by blast
  obtain h where h: "u6 = h @ r" "h \<noteq> []" "list_all (in_class NonSpace) h" using ways(7) by blast
  have "rises u4 \<ge> Suc (rises u6)" using step [OF f(2,3) word [OF h], of e] e f by simp
  moreover have "rises u2 \<ge> Suc (rises u4)" using step [OF d(2,3) word [OF e], of c] c d by simp
  moreover have "rises u \<ge> Suc (rises u2)" using step [OF b(2,3) word [OF c], of a] u b by simp
  ultimately show ?thesis by linarith
qed

lemma tabs_class: "list_all (in_class Space) (tabs n)"
  by (induction n) (simp_all add: tabs_def is_space_def)

lemma word_hd: "is_word s \<Longrightarrow> s \<noteq> [] \<and> \<not> is_space (hd s)"
  by (cases s) (simp_all add: is_word_def)

lemma word_last: "is_word s \<Longrightarrow> s \<noteq> [] \<and> \<not> is_space (last s)"
  by (auto simp: is_word_def list_all_iff)

lemma tabs_hd: "is_space (hd (tabs (Suc n) @ s))" "tabs (Suc n) \<noteq> []"
  by (simp_all add: tabs_def is_space_def)

text \<open>The name of the bridge at the start of its row, and none in the rows below.\<close>

lemma bname_row:
  assumes "is_word n" "is_word t"
  shows "br_field bname_re (n @ tabs (Suc k) @ t @ s) = Some n"
proof -
  have "first_way (Grp (Plus NonSpace)) (n @ tabs (Suc k) @ t @ s) (tabs (Suc k) @ t @ s) [n]"
    using word_hd [OF assms(1)] word_in_class [OF assms(1)] by (intro first_way_word) (auto simp: tabs_def is_space_def)
  moreover have "first_way (Plus Space) (tabs (Suc k) @ t @ s) (t @ s) []"
    using word_hd [OF assms(2)] tabs_class tabs_hd(2) by (intro first_way_Plus) auto
  ultimately have "first_way bname_re (n @ tabs (Suc k) @ t @ s) (t @ s) ([n] @ [] @ [])"
    unfolding bname_re_def seqs.simps by (intro first_way_Seq) (simp_all, rule first_way_Eps)
  from first_way_search [OF this] show ?thesis by (simp add: br_field_def)
qed

lemma bname_below:
  assumes "is_word i"
  shows "br_field bname_re (tabs n @ i) = None"
proof (rule ccontr)
  assume "br_field bname_re (tabs n @ i) \<noteq> None"
  then obtain m where "re_search bname_re (tabs n @ i) = Some m" by (auto simp: br_field_def)
  then obtain t u r gs where s: "tabs n @ i = t @ u" "(r, gs) \<in> set (re_ways bname_re u)"
    using re_search_way by blast
  from s(2) obtain v g1 g2 g3 w where
    "(v, g1) \<in> set (re_ways (Plus NonSpace) u)" "(w, g2) \<in> set (re_ways (Plus Space) v)"
    unfolding bname_re_def seqs.simps by (elim Seq_ways Grp_ways)
  then obtain a b where ab: "u = a @ b @ w" "a \<noteq> []" "list_all (in_class NonSpace) a" "b \<noteq> []" "list_all (in_class Space) b"
    using Plus_ways by metis
  have "\<not> is_space (hd a)" "is_space (hd b)" using ab by (auto simp: list_all_iff)
  have eq: "tabs n @ i = (t @ a) @ b @ w" using s(1) ab(1) by simp
  have "is_space (hd (b @ w))" "b @ w \<noteq> []" using ab(4) \<open>is_space (hd b)\<close> by auto
  have "length (tabs n) < length (t @ a)"
  proof (rule ccontr)
    assume "\<not> ?thesis"
    then have "t @ a = take (length (t @ a)) (tabs n)" using eq by (metis append_eq_conv_conj linorder_not_less take_append
          diff_is_0_eq append_Nil2 take0)
    then have "set a \<subseteq> set (tabs n)" by (metis set_append set_take_subset Un_subset_iff)
    then have "hd a \<in> set (tabs n)" using ab(2) by auto
    with \<open>\<not> is_space (hd a)\<close> show False by (auto simp: tabs_def is_space_def)
  qed
  then have "b @ w = drop (length (t @ a) - length (tabs n)) i" using eq by (metis append_eq_conv_conj drop_append drop_all order.strict_implies_order append_Nil)
  then have "set (b @ w) \<subseteq> set i" by (metis set_drop_subset)
  then have "hd b \<in> set i" using ab(4) by auto
  with \<open>is_space (hd b)\<close> assms show False by (auto simp: is_word_def list_all_iff)
qed

lemma iname_below:
  assumes "is_word i"
  shows "br_field iname_re (tabs (Suc n) @ i) = Some i"
proof -
  have "first_way (Plus Space) (tabs (Suc n) @ i) i []"
    using word_hd [OF assms] tabs_class tabs_hd(2) by (intro first_way_Plus) auto
  moreover have "first_way (Grp (Plus NonSpace)) (i @ []) [] [i]"
    using word_hd [OF assms] word_in_class [OF assms] by (intro first_way_word) auto
  ultimately have "first_way iname_re (tabs (Suc n) @ i) [] ([] @ [i] @ [])"
    unfolding iname_re_def seqs.simps by (intro first_way_Seq) (simp_all, rule first_way_Eps)
  from first_way_search [OF this] show ?thesis by (simp add: br_field_def)
qed

text \<open>A row with an interface has four words, a row without one only three.\<close>

lemma first_iname_row:
  assumes "is_word n" "is_word d" "is_word t" "is_word i"
  shows "br_field first_iname_re (n @ tabs (Suc k) @ d @ tabs (Suc l) @ t @ tabs (Suc m) @ i) = Some i"
proof -
  have word: "first_way (Plus NonSpace) (x @ tabs (Suc j) @ s) (tabs (Suc j) @ s) []" if "is_word x" for x j s
    using word_hd [OF that] word_in_class [OF that] by (intro first_way_Plus) (auto simp: tabs_def is_space_def)
  have gap: "first_way (Plus Space) (tabs (Suc j) @ x @ s) (x @ s) []" if "is_word x" for x j s
    using word_hd [OF that] tabs_class tabs_hd(2) by (intro first_way_Plus) auto
  have "first_way (Grp (Plus NonSpace)) (i @ []) [] [i]"
    using word_hd [OF assms(4)] word_in_class [OF assms(4)] by (intro first_way_word) auto
  then have "first_way first_iname_re (n @ tabs (Suc k) @ d @ tabs (Suc l) @ t @ tabs (Suc m) @ i) []
      ([] @ [] @ [] @ [] @ [] @ [] @ [i] @ [])"
    unfolding first_iname_re_def seqs.simps
    using gap [OF assms(4), of m "[]"]
    by (intro first_way_Seq [OF word] first_way_Seq [OF gap] first_way_Seq assms) (simp_all, rule first_way_Eps)
  from first_way_search [OF this] show ?thesis by (simp add: br_field_def)
qed

lemma first_iname_empty:
  assumes "is_word n" "is_word d" "is_word t"
  shows "br_field first_iname_re (n @ tabs k @ d @ tabs l @ t) = None"
proof (rule ccontr)
  assume "br_field first_iname_re (n @ tabs k @ d @ tabs l @ t) \<noteq> None"
  then obtain m where "re_search first_iname_re (n @ tabs k @ d @ tabs l @ t) = Some m" by (auto simp: br_field_def)
  then obtain p u r gs where "n @ tabs k @ d @ tabs l @ t = p @ u" "(r, gs) \<in> set (re_ways first_iname_re u)"
    using re_search_way by blast
  then have "3 \<le> rises (n @ tabs k @ d @ tabs l @ t)" using rises_first_iname [of r gs u] by (simp add: rises_append)
  moreover have "rises (tabs j) = 0" for j using tabs_class by (intro rises_space) (simp add: list_all_iff)
  moreover have "rises n = 0" "rises d = 0" "rises t = 0" using assms by (auto simp: is_word_def intro: rises_word)
  moreover have "\<not> is_space (last n)" "\<not> is_space (last d)" using assms word_last by auto
  ultimately show False by (simp add: rises_append split: if_splits)
qed

lemma map_filter_concat: "List.map_filter f (concat xss) = concat (map (List.map_filter f) xss)"
  by (induction xss) (auto simp: List.map_filter_def)

lemma read_names:
  assumes "bridge_ok b"
  shows "List.map_filter (br_field bname_re) (map rstrip (brctl_rows b)) = [br_name b]"
proof -
  from assms have w: "is_word (br_name b)" "is_word (br_id b)" "is_word (br_stp b)" "\<forall>i\<in>set (br_ifs b). is_word i"
    by (simp_all add: bridge_ok_def list_all_iff)
  have row: "br_field bname_re (br_name b @ tabs 2 @ br_id b @ s) = Some (br_name b)" for s
    using bname_row [OF w(1,2), of 1 s] by (simp add: numeral_2_eq_2)
  have below: "br_field bname_re (rstrip (tabs 7 @ i)) = None" if "is_word i" for i
    using that by (simp add: rstrip_word bname_below)
  show ?thesis
  proof (cases "br_ifs b")
    case Nil
    have "rstrip (br_name b @ tabs 2 @ br_id b @ tabs 1 @ br_stp b @ tabs 2) = br_name b @ tabs 2 @ br_id b @ tabs 1 @ br_stp b"
      using rstrip_tabs [OF w(3), of "br_name b @ tabs 2 @ br_id b @ tabs 1" 2] by simp
    with Nil row show ?thesis by (simp add: brctl_rows_def Let_def List.map_filter_def)
  next
    case (Cons i js)
    have "rstrip (br_name b @ tabs 2 @ br_id b @ tabs 1 @ br_stp b @ tabs 2 @ i) =
        br_name b @ tabs 2 @ br_id b @ tabs 1 @ br_stp b @ tabs 2 @ i"
      using rstrip_word [of i "br_name b @ tabs 2 @ br_id b @ tabs 1 @ br_stp b @ tabs 2"] w(4) Cons by simp
    moreover have "List.map_filter (br_field bname_re) (map rstrip (map (\<lambda>j. tabs 7 @ j) js)) = []"
      using below w(4) Cons by (auto simp: List.map_filter_def filter_empty_conv)
    ultimately show ?thesis using Cons row by (simp add: brctl_rows_def Let_def List.map_filter_simps)
  qed
qed

section \<open>Properties\<close>

text \<open>
  From a listing of bridges as \<^verbatim>\<open>brctl show\<close> prints it, with their interfaces in further
  rows, exactly the names of the bridges are read, in their order.
\<close>
theorem bridge_names_read:
  assumes "popen E [BRCTL_CMD, ''show''] w = ((0, header # concat (map brctl_rows bs)), w')"
    and "list_all bridge_ok bs"
  shows "get_br_list E w = (Some (map br_name bs), w')"
proof -
  have "concat (map (List.map_filter (br_field bname_re)) (map (map rstrip \<circ> brctl_rows) bs)) = map br_name bs"
    using assms(2) by (induction bs) (simp_all add: read_names)
  then have "List.map_filter (br_field bname_re) (map rstrip (concat (map brctl_rows bs))) = map br_name bs"
    by (simp add: map_concat map_filter_concat comp_assoc)
  with assms(1) show ?thesis by (simp add: get_br_list_def br_command_def)
qed

text \<open>
  C40: From the listing of one bridge exactly its interfaces are read, in their order; but a bridge
  without interfaces gives the list that has \<open>None\<close> as its only member, not the empty list.
\<close>
theorem bridge_interfaces_read:
  assumes "popen E [BRCTL_CMD, ''show'', br_name b] w = ((0, header # brctl_rows b), w')"
    and "bridge_ok b"
  shows "get_if_list E (br_name b) w = (Some (if br_ifs b = [] then [None] else map Some (br_ifs b)), w')"
proof -
  from assms(2) have w: "is_word (br_name b)" "is_word (br_id b)" "is_word (br_stp b)" "\<forall>i\<in>set (br_ifs b). is_word i"
    by (simp_all add: bridge_ok_def list_all_iff)
  show ?thesis
  proof (cases "br_ifs b")
    case Nil
    have "rstrip (br_name b @ tabs 2 @ br_id b @ tabs 1 @ br_stp b @ tabs 2) = br_name b @ tabs 2 @ br_id b @ tabs 1 @ br_stp b"
      using rstrip_tabs [OF w(3), of "br_name b @ tabs 2 @ br_id b @ tabs 1" 2] by simp
    with Nil assms(1) first_iname_empty [OF w(1-3), of 2 1] show ?thesis
      by (simp add: get_if_list_def br_command_def brctl_rows_def Let_def)
  next
    case (Cons i js)
    have first: "br_field first_iname_re (rstrip (br_name b @ tabs 2 @ br_id b @ tabs 1 @ br_stp b @ tabs 2 @ i)) = Some i"
      using rstrip_word [of i "br_name b @ tabs 2 @ br_id b @ tabs 1 @ br_stp b @ tabs 2"] w(4) Cons
        first_iname_row [OF w(1-3), of i 1 0 1] by (simp add: numeral_2_eq_2)
    have "map (br_field iname_re) (map rstrip (map (\<lambda>j. tabs 7 @ j) js)) = map Some js"
      using w(4) Cons iname_below [of _ 6] by (auto simp: rstrip_word)
    with first Cons assms(1) show ?thesis
      by (simp add: get_if_list_def br_command_def brctl_rows_def Let_def)
  qed
qed

section \<open>Examples\<close>

definition two_bridges :: "bridge list" where
  "two_bridges =
     [\<lparr>br_name = ''br10'', br_id = ''8000.90b11cf4a801'', br_stp = ''no'', br_ifs = [''e101-001-0.10'', ''bond3.10'']\<rparr>,
      \<lparr>br_name = ''br20'', br_id = ''8000.000000000000'', br_stp = ''no'', br_ifs = []\<rparr>]"

definition listing :: "string list \<Rightarrow> unit ext" where
  "listing out = \<lparr>popen = (\<lambda>_ w. ((0, out), w)), read_file = (\<lambda>_ _. None),
     os_unlink = (\<lambda>_ w. (True, w)), os_symlink = (\<lambda>_ _ w. (True, w)),
     os_makedirs = (\<lambda>_ w. (True, w)), rmtree = (\<lambda>_ w. (True, w)),
     cidr_packed = (\<lambda>_. Inl AddrFormatError), broadcast = (\<lambda>_. Inr None),
     getservbyname = (\<lambda>_. None), mgmt_mac = (\<lambda>_. ''''), virtual_network_mac = (\<lambda>_. ''''), vrf_mac = (\<lambda>_. '''')\<rparr>"

lemma two_bridges_ok: "list_all bridge_ok two_bridges"
  by code_simp

lemma bridge_names_read_witness:
  "get_br_list (listing (''bridge name'' # concat (map brctl_rows two_bridges))) () = (Some (map br_name two_bridges), ())"
  by (rule bridge_names_read) (rule two_bridges_ok | simp add: listing_def)+

lemma bridge_interfaces_read_witness:
  "get_if_list (listing (''bridge name'' # brctl_rows (two_bridges ! 1))) (br_name (two_bridges ! 1)) () =
     (Some (if br_ifs (two_bridges ! 1) = [] then [None] else map Some (br_ifs (two_bridges ! 1))), ())"
proof (rule bridge_interfaces_read)
  show "bridge_ok (two_bridges ! 1)" using two_bridges_ok by (simp add: two_bridges_def)
qed (simp add: listing_def)

end
